(* ===== verification/Prelude.thy ===== *)
theory Prelude
  imports Main "HOL-Library.Word" "HOL-Library.Monad_Syntax"
begin

text \<open>
  Shared vocabulary of the development: the machine integer types of the kernel's C code,
  the bit-field accessors that model its bit-field structs and unions, the byte-addressed
  store with its 64-bit accesses, and the generic lemmas on words and lists that the
  component theories use. The collections \<open>bit_field_simps\<close> and \<open>store_simps\<close> carry the
  automation.
\<close>

unbundle bit_operations_syntax

named_theorems bit_field_simps \<open>reading a bit field after writing one\<close>
named_theorems store_simps \<open>reading the byte store after writing it\<close>

type_synonym u8 = "8 word"
type_synonym u16 = "16 word"
type_synonym u32 = "32 word"
type_synonym u64 = "64 word"

section \<open>Word arithmetic through \<open>unat\<close>\<close>

lemma unat_u64_bound: "unat (x :: u64) < 18446744073709551616"
  using unsigned_less [of x, where ?'a = nat] by simp

lemma unat_u32_bound: "unat (x :: u32) < 4294967296"
  using unsigned_less [of x, where ?'a = nat] by simp

lemma unat_u8_bound: "unat (x :: u8) < 256"
  using unsigned_less [of x, where ?'a = nat] by simp

lemma unat_add_u64: "unat ((x :: u64) + y) = (unat x + unat y) mod 18446744073709551616"
  by (simp add: unat_word_ariths)

lemma unat_add_no_wrap:
  "unat (x :: u64) + unat y < 18446744073709551616 \<Longrightarrow> unat (x + y) = unat x + unat y"
  by (simp add: unat_add_u64)

lemma unat_diff_u64:
  "unat ((x :: u64) - y) = (if unat y \<le> unat x then unat x - unat y
                            else unat x + 18446744073709551616 - unat y)"
  by (simp add: unat_sub_if')

lemma unat_of_nat_u64: "n < 18446744073709551616 \<Longrightarrow> unat (of_nat n :: u64) = n"
  by (simp add: unsigned_of_nat take_bit_eq_mod)

lemma unat_of_nat_u32: "n < 4294967296 \<Longrightarrow> unat (of_nat n :: u32) = n"
  by (simp add: unsigned_of_nat take_bit_eq_mod)

lemma unat_ucast_u32_u64 [simp]: "unat (ucast (x :: u32) :: u64) = unat x"
  by (simp add: unsigned_ucast_eq take_bit_eq_mod) (use unat_u32_bound [of x] in simp)

lemma unat_ucast_u64_u32: "unat (ucast (x :: u64) :: u32) = unat x mod 4294967296"
  by (simp add: unsigned_ucast_eq take_bit_eq_mod)

section \<open>Bit fields\<close>

text \<open>
  A C bit-field member of width \<open>w\<close> at bit offset \<open>off\<close> of its storage unit (GCC on
  x86-64 allocates fields from the least significant bit upwards).
\<close>

definition field_get :: "nat \<Rightarrow> nat \<Rightarrow> 'a::len word \<Rightarrow> 'a word" where
  "field_get off w x = take_bit w (drop_bit off x)"

definition field_set :: "nat \<Rightarrow> nat \<Rightarrow> 'a::len word \<Rightarrow> 'a word \<Rightarrow> 'a word" where
  "field_set off w v x = (x AND NOT (push_bit off (mask w))) OR push_bit off (take_bit w v)"

lemma bit_field_get:
  "bit (field_get off w (x :: 'a::len word)) n \<longleftrightarrow> n < w \<and> bit x (off + n)"
  by (auto simp: field_get_def bit_simps dest: bit_imp_le_length)

lemma bit_field_set:
  "bit (field_set off w v (x :: 'a::len word)) n \<longleftrightarrow>
     (if off \<le> n \<and> n < off + w then n < LENGTH('a) \<and> bit v (n - off) else bit x n)"
  by (auto simp: field_set_def bit_simps dest: bit_imp_le_length)

lemma field_get_set_same [bit_field_simps]:
  "off + w \<le> LENGTH('a) \<Longrightarrow> field_get off w (field_set off w v (x :: 'a::len word)) = take_bit w v"
  by (rule bit_word_eqI) (auto simp: bit_field_get bit_field_set bit_simps)

lemma field_get_set_other [bit_field_simps]:
  "off + w \<le> off' \<or> off' + w' \<le> off \<Longrightarrow>
     field_get off w (field_set off' w' v (x :: 'a::len word)) = field_get off w x"
  by (rule bit_word_eqI) (auto simp: bit_field_get bit_field_set)

lemma field_set_set_same [bit_field_simps]:
  "field_set off w v (field_set off w u (x :: 'a::len word)) = field_set off w v x"
  by (rule bit_word_eqI) (auto simp: bit_field_set)

lemma field_set_get_id [bit_field_simps]:
  "field_set off w (field_get off w x) (x :: 'a::len word) = x"
  by (rule bit_word_eqI) (auto simp: bit_field_get bit_field_set dest: bit_imp_le_length)

lemma field_get_bound: "w < LENGTH('a) \<Longrightarrow> unat (field_get off w (x :: 'a::len word)) < 2 ^ w"
  by (simp add: field_get_def unsigned_take_bit_eq)

lemma field_get_one_bit: "field_get off 1 (x :: 'a::len word) = of_bool (bit x off)"
  by (rule bit_word_eqI) (auto simp: bit_field_get bit_simps)

definition bool_field :: "bool \<Rightarrow> 'a::len word" where
  "bool_field b = (if b then 1 else 0)"

section \<open>Pages of 4096 bytes\<close>

text \<open>The macro \<open>ALIGN\<close>: \<open>~0xFFF\<close> is an \<open>int\<close>, so it is sign-extended to 64 bits.\<close>

definition ALIGN :: "u64 \<Rightarrow> u64" where
  "ALIGN addr = addr AND NOT 0xFFF"

definition page_aligned :: "u64 \<Rightarrow> bool" where
  "page_aligned a \<longleftrightarrow> ALIGN a = a"

lemma mask12: "(0xFFF :: u64) = mask 12"
  by (simp add: mask_eq_exp_minus_1)

lemma bit_ALIGN: "bit (ALIGN x) n \<longleftrightarrow> 12 \<le> n \<and> bit x n"
  by (auto simp: ALIGN_def mask12 bit_simps dest: bit_imp_le_length)

lemma ALIGN_drop_bit: "ALIGN x = push_bit 12 (drop_bit 12 x)"
  by (rule bit_word_eqI) (auto simp: bit_ALIGN bit_simps)

lemma unat_ALIGN: "unat (ALIGN x) = unat x - unat x mod 4096"
proof -
  have "ALIGN x = (x div 4096) * 4096"
    by (simp add: ALIGN_drop_bit push_bit_eq_mult drop_bit_eq_div)
  moreover have "unat x div 4096 * 4096 < 18446744073709551616"
    using unat_u64_bound [of x] by linarith
  ultimately show ?thesis
    by (simp add: unat_word_ariths(2) unat_div_distrib minus_mod_eq_div_mult)
qed

lemma ALIGN_idem [simp]: "ALIGN (ALIGN x) = ALIGN x"
  by (rule bit_word_eqI) (auto simp: bit_ALIGN)

lemma page_aligned_ALIGN [simp, intro]: "page_aligned (ALIGN x)"
  by (simp add: page_aligned_def)

lemma page_aligned_dvd: "page_aligned a \<longleftrightarrow> 4096 dvd unat a"
proof -
  have "page_aligned a \<longleftrightarrow> unat (ALIGN a) = unat a"
    by (simp add: page_aligned_def word_unat_eq_iff)
  also have "\<dots> \<longleftrightarrow> unat a mod 4096 = 0"
    using mod_less_eq_dividend [of "unat a" 4096] by (auto simp: unat_ALIGN)
  finally show ?thesis
    by (simp add: dvd_eq_mod_eq_0)
qed

lemma page_aligned_zero [simp]: "page_aligned 0"
  by (simp add: page_aligned_def ALIGN_def)

lemma page_aligned_room: "page_aligned a \<Longrightarrow> unat a + 4096 \<le> 18446744073709551616"
  using unat_u64_bound [of a] by (auto simp: page_aligned_dvd dvd_def)

lemma unat_page_offset:
  assumes "page_aligned a" and "unat k < 4096"
  shows "unat (a + k) = unat a + unat k"
  using assms page_aligned_room [of a] by (intro unat_add_no_wrap) simp

lemma ALIGN_page_offset:
  assumes "page_aligned a" and "unat k < 4096"
  shows "ALIGN (a + k) = a"
proof -
  have "unat (ALIGN (a + k)) = unat a + unat k - (unat a + unat k) mod 4096"
    by (simp add: unat_ALIGN unat_page_offset [OF assms])
  also have "(unat a + unat k) mod 4096 = unat k"
    using assms by (auto simp: page_aligned_dvd dvd_def)
  finally show ?thesis
    by (simp add: word_unat_eq_iff)
qed

lemma in_page_iff:
  assumes "page_aligned a"
  shows "unat (x - a) < 4096 \<longleftrightarrow> ALIGN x = a"
proof
  assume "unat (x - a) < 4096"
  then have "ALIGN (a + (x - a)) = a"
    by (rule ALIGN_page_offset [OF assms])
  then show "ALIGN x = a" by simp
next
  assume "ALIGN x = a"
  then have "unat a = unat x - unat x mod 4096"
    using unat_ALIGN by metis
  then show "unat (x - a) < 4096"
    using mod_less_eq_dividend [of "unat x" 4096] by (simp add: unat_diff_u64)
qed

section \<open>Loops over the pages of a range\<close>

text \<open>
  The loop \<open>for (addr = from; addr < to; addr += 0x1000)\<close> of the memory code. The body
  returns \<open>Inl\<close> to leave the function early and \<open>Inr\<close> to go on; \<open>None\<close> is not returning,
  which is also the value of the loop when \<open>addr\<close> wraps around below \<open>to\<close> for ever.
\<close>

partial_function (option) for_pages ::
    "(u64 \<Rightarrow> 's \<Rightarrow> ('r + 's) option) \<Rightarrow> u64 \<Rightarrow> u64 \<Rightarrow> 's \<Rightarrow> ('r + 's) option" where
  "for_pages body addr to s =
     (if addr < to then
        (case body addr s of
           None \<Rightarrow> None
         | Some (Inl r) \<Rightarrow> Some (Inl r)
         | Some (Inr s') \<Rightarrow> for_pages body (addr + 0x1000) to s')
      else Some (Inr s))"

declare for_pages.simps [code]

text \<open>
  Total correctness: away from the top page of the address space the loop ends, and an
  invariant indexed by the loop variable holds at its end.
\<close>

lemma for_pages_rule:
  assumes "unat to + 4096 \<le> 18446744073709551616" and "P addr s"
    and step: "\<And>a s. a < to \<Longrightarrow> P a s \<Longrightarrow>
      (\<exists>r. body a s = Some (Inl r) \<and> Q r) \<or> (\<exists>s'. body a s = Some (Inr s') \<and> P (a + 0x1000) s')"
  shows "(\<exists>r. for_pages body addr to s = Some (Inl r) \<and> Q r) \<or>
         (\<exists>a s'. for_pages body addr to s = Some (Inr s') \<and> \<not> a < to \<and> P a s')"
  using assms(2)
proof (induction "unat to - unat addr" arbitrary: addr s rule: less_induct)
  case less
  show ?case
  proof (cases "addr < to")
    case False
    with less.prems show ?thesis by (subst (1 2) for_pages.simps) auto
  next
    case True
    then have lt: "unat addr < unat to" by (simp add: word_less_nat_alt)
    then have "unat (addr + 0x1000) = unat addr + 4096"
      using assms(1) by (subst unat_add_no_wrap) simp_all
    with lt have dec: "unat to - unat (addr + 0x1000) < unat to - unat addr" by simp
    from step [OF True less.prems] show ?thesis
    proof (elim disjE exE conjE)
      fix r assume "body addr s = Some (Inl r)" "Q r"
      then show ?thesis using True by (subst for_pages.simps) simp
    next
      fix s' assume b: "body addr s = Some (Inr s')" and P: "P (addr + 0x1000) s'"
      have "for_pages body addr to s = for_pages body (addr + 0x1000) to s'"
        using True b by (subst for_pages.simps) simp
      with less.hyps [OF dec P] show ?thesis by simp
    qed
  qed
qed

lemma for_pages_count:
  assumes room: "unat to + 4096 \<le> 18446744073709551616" and init: "P 0 s"
    and step: "\<And>n s. unat from + n * 4096 < unat to \<Longrightarrow> P n s \<Longrightarrow>
      (\<exists>r. body (from + of_nat n * 0x1000) s = Some (Inl r) \<and> Q r) \<or>
      (\<exists>s'. body (from + of_nat n * 0x1000) s = Some (Inr s') \<and> P (Suc n) s')"
  shows "(\<exists>r. for_pages body from to s = Some (Inl r) \<and> Q r) \<or>
    (\<exists>n s'. for_pages body from to s = Some (Inr s') \<and> unat to \<le> unat from + n * 4096 \<and>
       (\<forall>k < n. unat from + k * 4096 < unat to) \<and> P n s')"
proof -
  let ?I = "\<lambda>a s'. \<exists>n. a = from + of_nat n * 0x1000 \<and> unat a = unat from + n * 4096 \<and>
    (\<forall>k < n. unat from + k * 4096 < unat to) \<and> P n s'"
  have i0: "?I from s" using init by (intro exI [of _ 0]) simp
  have "(\<exists>r. body a s = Some (Inl r) \<and> Q r) \<or> (\<exists>s'. body a s = Some (Inr s') \<and> ?I (a + 0x1000) s')"
    if lt: "a < to" and I: "?I a s" for a s
  proof -
    obtain n where n: "a = from + of_nat n * 0x1000" "unat a = unat from + n * 4096"
      "\<forall>k < n. unat from + k * 4096 < unat to" "P n s" using I by blast
    have lt': "unat from + n * 4096 < unat to" using lt n(2) by (simp add: word_less_nat_alt)
    have "unat (a + 0x1000) = unat a + 4096"
      using lt' n(2) room by (subst unat_add_no_wrap) simp_all
    then have u: "unat (a + 0x1000) = unat from + Suc n * 4096" using n(2) by simp
    have e: "a + 0x1000 = from + of_nat (Suc n) * 0x1000" unfolding n(1) by (simp add: algebra_simps)
    have k: "\<forall>k < Suc n. unat from + k * 4096 < unat to" using n(3) lt' by (simp add: less_Suc_eq)
    from step [OF lt' n(4)] show ?thesis unfolding n(1) [symmetric] using u e k by metis
  qed
  then have "(\<exists>r. for_pages body from to s = Some (Inl r) \<and> Q r) \<or>
      (\<exists>a s'. for_pages body from to s = Some (Inr s') \<and> \<not> a < to \<and> ?I a s')"
    by (rule for_pages_rule [OF room, where P = ?I and Q = Q, OF i0])
  then show ?thesis
  proof (elim disjE exE conjE)
    fix a s' n
    assume "for_pages body from to s = Some (Inr s')" "\<not> a < to" "unat a = unat from + n * 4096"
      "\<forall>k < n. unat from + k * 4096 < unat to" "P n s'"
    then show ?thesis
      by (intro disjI2 exI [of _ n] exI [of _ s']) (simp add: word_less_nat_alt)
  qed blast
qed

lemma for_pages_skip: "\<not> addr < to \<Longrightarrow> for_pages body addr to s = Some (Inr s)"
  by (subst for_pages.simps) simp

lemma for_pages_partial:
  assumes ret: "for_pages body addr to s = Some r" and init: "I s"
    and step: "\<And>a s x. I s \<Longrightarrow> a < to \<Longrightarrow> body a s = Some x \<Longrightarrow>
      (case x of Inl q \<Rightarrow> Q q | Inr s' \<Rightarrow> I s')"
  shows "case r of Inl q \<Rightarrow> Q q | Inr s' \<Rightarrow> I s'"
proof -
  define ok where "ok b e \<longleftrightarrow> (\<forall>a s x. I s \<longrightarrow> a < e \<longrightarrow> b a s = Some x \<longrightarrow>
      (case x of Inl q \<Rightarrow> Q q | Inr s' \<Rightarrow> I s'))" for b and e :: u64
  have "I s \<longrightarrow> ok body to \<longrightarrow> (case r of Inl q \<Rightarrow> Q q | Inr s' \<Rightarrow> I s')"
  proof (rule for_pages.raw_induct [where P = "\<lambda>b a e s r. I s \<longrightarrow> ok b e \<longrightarrow>
          (case r of Inl q \<Rightarrow> Q q | Inr s' \<Rightarrow> I s')", OF _ ret], intro impI)
    fix f b a e s y
    assume IH: "\<And>b a e s y. f b a e s = Some y \<Longrightarrow>
        I s \<longrightarrow> ok b e \<longrightarrow> (case y of Inl q \<Rightarrow> Q q | Inr s' \<Rightarrow> I s')"
      and run: "(if a < e then case b a s of None \<Rightarrow> None | Some (Inl r) \<Rightarrow> Some (Inl r)
             | Some (Inr s') \<Rightarrow> f b (a + 4096) e s' else Some (Inr s)) = Some y"
      and I: "I s" and ok: "ok b e"
    show "case y of Inl q \<Rightarrow> Q q | Inr s' \<Rightarrow> I s'"
    proof (cases "a < e")
      case False
      with run I show ?thesis by auto
    next
      case True
      then obtain x where x: "b a s = Some x" using run by (cases "b a s") auto
      with ok I True have post: "case x of Inl q \<Rightarrow> Q q | Inr s' \<Rightarrow> I s'" by (simp add: ok_def)
      show ?thesis
      proof (cases x)
        case (Inl q)
        with True run x post show ?thesis by auto
      next
        case (Inr s')
        with True run x have "f b (a + 4096) e s' = Some y" by simp
        from IH [OF this] Inr post ok show ?thesis by simp
      qed
    qed
  qed
  then show ?thesis using init step unfolding ok_def by blast
qed

section \<open>Interfaces\<close>

text \<open>
  A spin lock: \<open>acquire\<close> does not return while the lock is held, \<open>release\<close> frees it and undoes an
  acquisition. The clients are the deadlock and lock-leak properties of the kernel.
\<close>

locale spin_lock =
  fixes held :: "'s \<Rightarrow> bool" and acquire :: "'s \<Rightarrow> 's option" and release :: "'s \<Rightarrow> 's"
  assumes acquire_held: "held s \<Longrightarrow> acquire s = None"
    and acquire_free: "\<not> held s \<Longrightarrow> \<exists>s'. acquire s = Some s' \<and> held s'"
    and release_free: "\<not> held (release s)"
    and release_acquire: "acquire s = Some s' \<Longrightarrow> release s' = s"
begin

lemma acquire_Some_iff: "(\<exists>s'. acquire s = Some s') \<longleftrightarrow> \<not> held s"
  using acquire_held acquire_free by fastforce

lemma acquired_held: "acquire s = Some s' \<Longrightarrow> held s'"
  by (metis acquire_held acquire_free option.distinct(1) option.inject)

lemma reacquire_blocks: "acquire s = Some s' \<Longrightarrow> acquire s' = None"
  by (rule acquire_held) (rule acquired_held)

lemma acquire_after_release: "\<exists>s'. acquire (release s) = Some s'"
  using acquire_Some_iff release_free by blast

end

text \<open>
  A store that maps keys to values, with keys that may disturb each other unless they are
  independent, and obstacles that make an insertion fail. Independent keys can be inserted one after the other
  and are all found afterwards.
\<close>

primrec put_all :: "('k \<Rightarrow> 'v \<Rightarrow> 's \<Rightarrow> 's option) \<Rightarrow> ('k \<times> 'v) list \<Rightarrow> 's \<Rightarrow> 's option" where
  "put_all put [] s = Some s"
| "put_all put (kv # kvs) s = do { s' \<leftarrow> put (fst kv) (snd kv) s; put_all put kvs s' }"

locale keyed_store =
  fixes valid :: "'k \<Rightarrow> bool" and indep :: "'k \<Rightarrow> 'k \<Rightarrow> bool" and obstacle :: "'k \<Rightarrow> 's \<Rightarrow> bool"
    and put :: "'k \<Rightarrow> 'v \<Rightarrow> 's \<Rightarrow> 's option" and get :: "'k \<Rightarrow> 's \<Rightarrow> 'r" and result :: "'k \<Rightarrow> 'v \<Rightarrow> 'r"
  assumes put_succeeds: "valid k \<Longrightarrow> (\<And>q. obstacle q s \<Longrightarrow> indep q k) \<Longrightarrow> \<exists>s'. put k v s = Some s'"
    and get_put: "valid k \<Longrightarrow> put k v s = Some s' \<Longrightarrow> get k s' = result k v"
    and get_put_other: "put k v s = Some s' \<Longrightarrow> indep q k \<Longrightarrow> get q s' = get q s"
    and obstacle_put: "put k v s = Some s' \<Longrightarrow> obstacle q s' \<Longrightarrow> q = k \<or> obstacle q s"
begin

lemma put_all_found:
  assumes "sorted_wrt (\<lambda>a b. indep (fst a) (fst b)) kvs" "\<forall>kv \<in> set kvs. valid (fst kv)"
    and "\<And>q kv. obstacle q s \<or> q \<in> Q \<Longrightarrow> kv \<in> set kvs \<Longrightarrow> indep q (fst kv)"
  shows "\<exists>s'. put_all put kvs s = Some s' \<and> (\<forall>kv \<in> set kvs. get (fst kv) s' = result (fst kv) (snd kv)) \<and>
    (\<forall>q \<in> Q. get q s' = get q s)"
  using assms
proof (induction kvs arbitrary: s Q)
  case (Cons kv kvs)
  obtain s1 where s1: "put (fst kv) (snd kv) s = Some s1"
    using put_succeeds [of "fst kv" s "snd kv"] Cons.prems(2,3) by auto
  have "indep q (fst x)" if q: "obstacle q s1 \<or> q \<in> insert (fst kv) Q" and x: "x \<in> set kvs" for q x
  proof -
    consider "q = fst kv" | "obstacle q s \<or> q \<in> Q" using q obstacle_put [OF s1] by blast
    then show ?thesis using Cons.prems(1) Cons.prems(3) [of q x] x by cases simp_all
  qed
  then obtain s' where s': "put_all put kvs s1 = Some s'"
    "\<forall>x \<in> set kvs. get (fst x) s' = result (fst x) (snd x)" "\<forall>q \<in> insert (fst kv) Q. get q s' = get q s1"
    using Cons.IH [of s1 "insert (fst kv) Q"] Cons.prems(1,2) by auto
  have "get q s' = get q s" if "q \<in> Q" for q
    using s'(3) get_put_other [OF s1] Cons.prems(3) that by simp
  then show ?case using s' get_put [OF _ s1] Cons.prems(2) s1 by simp
qed simp

end

end
