(* ===== verification/Store.thy ===== *)
theory Store
  imports Prelude
begin

text \<open>
  The kernel's store: bytes addressed by 64-bit kernel virtual addresses, as the C code sees
  them through its pointers. An \<open>uint64_t\<close> access is eight little-endian bytes; \<open>memset\<close>
  and \<open>memcpy\<close> of the C library act on address ranges (which wrap modulo \<open>2 ^ 64\<close>). The
  lemmas say what a read returns after each kind of write; page-table code only ever reads
  and writes 8-byte aligned words, so they are stated for those.
\<close>

type_synonym store = "u64 \<Rightarrow> u8"

primrec read_bytes :: "nat \<Rightarrow> store \<Rightarrow> u64 \<Rightarrow> u64" where
  "read_bytes 0 m a = 0"
| "read_bytes (Suc k) m a = ucast (m a) OR push_bit 8 (read_bytes k m (a + 1))"

definition read64 :: "store \<Rightarrow> u64 \<Rightarrow> u64" where
  "read64 m a = read_bytes 8 m a"

definition write64 :: "u64 \<Rightarrow> u64 \<Rightarrow> store \<Rightarrow> store" where
  "write64 a v m = (\<lambda>x. if x - a < 8 then ucast (drop_bit (8 * unat (x - a)) v) else m x)"

definition memset :: "u64 \<Rightarrow> u8 \<Rightarrow> u64 \<Rightarrow> store \<Rightarrow> store" where
  "memset p c n m = (\<lambda>x. if x - p < n then c else m x)"

definition memcpy :: "u64 \<Rightarrow> u64 \<Rightarrow> u64 \<Rightarrow> store \<Rightarrow> store" where
  "memcpy dst src n m = (\<lambda>x. if x - dst < n then m (src + (x - dst)) else m x)"

definition dword_aligned :: "u64 \<Rightarrow> bool" where
  "dword_aligned a \<longleftrightarrow> 8 dvd unat a"

section \<open>Eight bytes as one word\<close>

lemma bit_read_bytes:
  "bit (read_bytes k m a) n \<longleftrightarrow>
     n < 64 \<and> n < 8 * k \<and> bit (m (a + of_nat (n div 8))) (n mod 8)"
proof (induction k arbitrary: a n)
  case 0
  show ?case by simp
next
  case (Suc k)
  show ?case
  proof (cases "n < 8")
    case True
    then show ?thesis by (simp add: bit_simps)
  next
    case False
    then have "n div 8 = Suc ((n - 8) div 8)" and "n mod 8 = (n - 8) mod 8"
      by (simp_all add: le_div_geq le_mod_geq)
    moreover have "bit (m a) n \<Longrightarrow> n < 8"
      by (auto dest: bit_imp_le_length)
    ultimately show ?thesis
      using False by (auto simp: bit_simps Suc.IH add.assoc)
  qed
qed

lemma bit_read64:
  "bit (read64 m a) n \<longleftrightarrow> n < 64 \<and> bit (m (a + of_nat (n div 8))) (n mod 8)"
  by (auto simp: read64_def bit_read_bytes)

lemma read64_cong:
  "(\<And>k. k < 8 \<Longrightarrow> m (a + of_nat k) = m' (b + of_nat k)) \<Longrightarrow> read64 m a = read64 m' b"
  by (rule bit_word_eqI) (simp add: bit_read64)

lemma read64_write64_same [simp, store_simps]: "read64 (write64 a v m) a = v"
proof (rule bit_word_eqI)
  fix n :: nat
  assume "n < LENGTH(64)"
  then have n: "n < 64" by simp
  then have d: "n div 8 < 8" by simp
  then have u: "unat (of_nat (n div 8) :: u64) = n div 8"
    by (simp add: unat_of_nat_u64)
  have "(of_nat (n div 8) :: u64) < 8"
    using d by (simp add: word_less_nat_alt u)
  then have "write64 a v m (a + of_nat (n div 8)) = ucast (drop_bit (8 * (n div 8)) v)"
    by (simp add: write64_def u)
  then show "bit (read64 (write64 a v m) a) n \<longleftrightarrow> bit v n"
    using n by (simp add: bit_read64 bit_simps)
qed

lemma dword_aligned_apart:
  assumes "dword_aligned a" and "dword_aligned b" and "a \<noteq> b" and "k < 8"
  shows "\<not> b + of_nat k - a < 8"
proof -
  let ?M = "18446744073709551616 :: nat"
  have d8: "8 dvd unat (b - a)"
    using assms(1,2) unat_u64_bound [of b]
    by (auto simp: dword_aligned_def unat_diff_u64 intro!: dvd_diff_nat dvd_add)
  have nz: "unat (b - a) \<noteq> 0"
    using assms(3) by (simp add: unat_eq_0)
  with d8 have lo: "8 \<le> unat (b - a)"
    by (meson dvd_imp_le gr0I)
  from d8 unat_u64_bound [of "b - a"] have hi: "unat (b - a) + 8 \<le> ?M"
    by (auto simp: dvd_def)
  have k: "unat (of_nat k :: u64) = k"
    using assms(4) by (simp add: unat_of_nat_u64)
  have "unat ((b - a) + of_nat k) = unat (b - a) + k"
    using hi assms(4) by (subst unat_add_no_wrap) (simp_all add: k)
  then have "unat (b + of_nat k - a) = unat (b - a) + k"
    by (simp only: diff_add_eq)
  then show ?thesis
    using lo by (simp add: word_less_nat_alt)
qed

lemma read64_write64_other [store_simps]:
  assumes "dword_aligned a" and "dword_aligned b" and "a \<noteq> b"
  shows "read64 (write64 a v m) b = read64 m b"
  using dword_aligned_apart [OF assms]
  by (intro read64_cong) (simp add: write64_def)

section \<open>Whole pages\<close>

text \<open>An aligned word of a page lies in the page with all its eight bytes.\<close>

lemma ALIGN_dword_byte:
  assumes "dword_aligned a" and "k < 8"
  shows "ALIGN (a + of_nat k) = ALIGN a"
proof -
  have k: "unat (of_nat k :: u64) = k"
    using assms(2) by (simp add: unat_of_nat_u64)
  have "8 dvd unat a mod 4096"
    using assms(1) by (simp add: dword_aligned_def dvd_mod)
  then obtain t where t: "unat a mod 4096 = 8 * t" by (auto simp: dvd_def)
  have "8 * t < 4096"
    using t [symmetric] by simp
  then have "t < 512" by simp
  then have off: "unat a mod 4096 + k < 4096"
    using assms(2) t by linarith
  have le: "ALIGN a \<le> a"
    by (simp add: word_le_nat_alt unat_ALIGN)
  then have "unat (a - ALIGN a) = unat a mod 4096"
    using mod_less_eq_dividend [of "unat a" 4096] by (simp add: unat_sub unat_ALIGN)
  with off have "unat ((a - ALIGN a) + of_nat k) < 4096"
    by (subst unat_add_no_wrap) (simp_all add: k)
  then have "ALIGN (ALIGN a + ((a - ALIGN a) + of_nat k)) = ALIGN a"
    by (intro ALIGN_page_offset) simp
  then show ?thesis by simp
qed

definition byte8 :: "u8 \<Rightarrow> u64" where
  "byte8 c = read64 (\<lambda>_. c) 0"

lemma byte8_zero [simp]: "byte8 0 = 0"
  by (rule bit_word_eqI) (simp add: byte8_def bit_read64)

lemma memset_page:
  "page_aligned p \<Longrightarrow> memset p c 0x1000 m x = (if ALIGN x = p then c else m x)"
  by (simp add: memset_def word_less_nat_alt in_page_iff)

lemma read64_memset_in [store_simps]:
  assumes "page_aligned p" and "dword_aligned a" and "ALIGN a = p"
  shows "read64 (memset p c 0x1000 m) a = byte8 c"
  unfolding byte8_def
  using assms by (intro read64_cong) (simp add: memset_page ALIGN_dword_byte)

lemma read64_memset_out [store_simps]:
  assumes "page_aligned p" and "dword_aligned a" and "ALIGN a \<noteq> p"
  shows "read64 (memset p c 0x1000 m) a = read64 m a"
  using assms by (intro read64_cong) (simp add: memset_page ALIGN_dword_byte)

section \<open>The words of a page\<close>

text \<open>Entry \<open>i\<close> of the table of 512 words at a page-aligned address.\<close>

definition entry_addr :: "u64 \<Rightarrow> u64 \<Rightarrow> u64" where
  "entry_addr base i = base + 8 * i"

lemma unat_eight_times: "unat i < 512 \<Longrightarrow> unat (8 * i :: u64) = 8 * unat i"
  by (simp add: unat_word_ariths)

lemma entry_offset: "unat i < 512 \<Longrightarrow> unat (8 * i :: u64) < 4096"
  by (simp add: unat_eight_times)

lemma unat_entry_addr:
  "page_aligned b \<Longrightarrow> unat i < 512 \<Longrightarrow> unat (entry_addr b i) = unat b + 8 * unat i"
  by (simp add: entry_addr_def unat_page_offset entry_offset unat_eight_times)

lemma ALIGN_entry_addr [simp]:
  "page_aligned b \<Longrightarrow> unat i < 512 \<Longrightarrow> ALIGN (entry_addr b i) = b"
  by (simp add: entry_addr_def ALIGN_page_offset entry_offset)

lemma dword_aligned_entry_addr [simp]:
  assumes "page_aligned b" and "unat i < 512"
  shows "dword_aligned (entry_addr b i)"
proof -
  have "8 dvd unat b"
    using assms(1) by (auto simp: page_aligned_dvd intro: dvd_trans [of 8 4096])
  then show ?thesis
    using assms by (simp add: dword_aligned_def unat_entry_addr)
qed

lemma entry_addr_inject:
  assumes "page_aligned b" "page_aligned b'" "unat i < 512" "unat j < 512"
  shows "entry_addr b i = entry_addr b' j \<longleftrightarrow> b = b' \<and> i = j"
proof
  assume e: "entry_addr b i = entry_addr b' j"
  then have "b = b'"
    using ALIGN_entry_addr assms by metis
  moreover have "unat i = unat j"
    using e \<open>b = b'\<close> assms unat_entry_addr [of b i] unat_entry_addr [of b' j] by simp
  ultimately show "b = b' \<and> i = j"
    by (simp add: word_unat_eq_iff)
qed simp

lemma read64_write64_entry [store_simps]:
  assumes "page_aligned b" "page_aligned b'" "unat i < 512" "unat j < 512"
  shows "read64 (write64 (entry_addr b i) v m) (entry_addr b' j) =
    (if b = b' \<and> i = j then v else read64 m (entry_addr b' j))"
  using assms by (auto simp: entry_addr_inject read64_write64_other)

lemma read64_memset_entry [store_simps]:
  assumes "page_aligned p" "page_aligned b" "unat i < 512"
  shows "read64 (memset p c 0x1000 m) (entry_addr b i) =
    (if b = p then byte8 c else read64 m (entry_addr b i))"
  using assms by (auto simp: read64_memset_in read64_memset_out)

end
