(* ===== verification/Commons.thy ===== *)
theory Commons
  imports Store
begin

text \<open>
  The address macros of \<open>kernel/commons.h\<close> and \<open>kernel/memory/paging.c\<close>, and the kernel's
  early heap (\<open>kernel/memory/heap.c\<close>): while \<open>tmp_heap\<close> is non-zero, \<open>malign\<close> bumps it;
  afterwards it over-allocates with the C library's \<open>malloc\<close> and hides the original pointer
  in front of the aligned block. What \<open>malloc\<close> returns is the field \<open>malloc_ret\<close>, chosen by
  the environment.
\<close>

section \<open>Address macros\<close>

definition RESERVED_KBLOCK_RAM_MAPPINGS :: u64 where
  "RESERVED_KBLOCK_RAM_MAPPINGS = 510"

definition RESERVED_KBLOCK_KHEAP_MAPPINGS :: u64 where
  "RESERVED_KBLOCK_KHEAP_MAPPINGS = 509"

definition ADDRESS_OFFSET :: "u64 \<Rightarrow> u64" where
  "ADDRESS_OFFSET off = 0xFFFF000000000000 + push_bit 39 off"

definition ALIGN_DOWN :: "u64 \<Rightarrow> u64 \<Rightarrow> u64" where
  "ALIGN_DOWN a b = a - a mod b"

definition ALIGN_UP :: "u64 \<Rightarrow> u64 \<Rightarrow> u64" where
  "ALIGN_UP a b = (if a mod b = 0 then a else ALIGN_DOWN a b + b)"

definition page_align_up :: "u64 \<Rightarrow> u64" where
  "page_align_up v = (if v mod 0x1000 = 0 then v else ALIGN (v + 0x1000))"

lemma unat_ALIGN_DOWN: "unat (ALIGN_DOWN a b) = unat a - unat a mod unat b"
proof -
  have "a mod b \<le> a"
    by (simp add: word_le_nat_alt unat_mod_distrib)
  then show ?thesis
    by (simp add: ALIGN_DOWN_def unat_sub unat_mod_distrib)
qed

lemma ALIGN_DOWN_dvd: "unat b dvd unat (ALIGN_DOWN a b)"
  by (simp add: unat_ALIGN_DOWN dvd_minus_mod)

lemma ALIGN_DOWN_le: "unat (ALIGN_DOWN a b) \<le> unat a"
  by (simp add: unat_ALIGN_DOWN)

lemma unat_ALIGN_UP:
  assumes "b \<noteq> 0" and "unat a + unat b \<le> 18446744073709551616"
  shows "unat (ALIGN_UP a b) =
    (if unat a mod unat b = 0 then unat a else unat a - unat a mod unat b + unat b)"
proof (cases "unat a mod unat b = 0")
  case True
  then have "a mod b = 0"
    by (metis unat_mod_distrib unat_eq_0)
  with True show ?thesis by (simp add: ALIGN_UP_def)
next
  case False
  then have ne: "a mod b \<noteq> 0"
    by (metis unat_mod_distrib unat_0)
  have "0 < unat a mod unat b"
    using False by simp
  then have "unat (ALIGN_DOWN a b) + unat b < 18446744073709551616"
    using assms(2) mod_less_eq_dividend [of "unat a" "unat b"]
    unfolding unat_ALIGN_DOWN by linarith
  with ne False show ?thesis
    by (simp add: ALIGN_UP_def unat_add_no_wrap unat_ALIGN_DOWN)
qed

lemma ALIGN_UP_bounds:
  assumes "b \<noteq> 0" and "unat a + unat b \<le> 18446744073709551616"
  shows "unat a \<le> unat (ALIGN_UP a b)" and "unat (ALIGN_UP a b) < unat a + unat b"
    and "unat b dvd unat (ALIGN_UP a b)"
proof -
  have b: "0 < unat b"
    using assms(1) by (simp add: unat_gt_0)
  then have m: "unat a mod unat b < unat b" by simp
  then have "unat a mod unat b \<le> unat b" by simp
  then show "unat a \<le> unat (ALIGN_UP a b)"
    using mod_less_eq_dividend [of "unat a" "unat b"]
    unfolding unat_ALIGN_UP [OF assms] by (simp split: if_split) linarith
  show "unat (ALIGN_UP a b) < unat a + unat b"
    using b mod_less_eq_dividend [of "unat a" "unat b"]
    unfolding unat_ALIGN_UP [OF assms] by (simp split: if_split)
  show "unat b dvd unat (ALIGN_UP a b)"
    unfolding unat_ALIGN_UP [OF assms]
    by (cases "unat a mod unat b = 0") (auto intro!: dvd_add dvd_minus_mod simp del: add_diff_assoc2)
qed

lemma ALIGN_UP_dvd_id: "unat b dvd unat a \<Longrightarrow> ALIGN_UP a b = a"
proof -
  assume "unat b dvd unat a"
  then have "a mod b = 0"
    by (metis dvd_eq_mod_eq_0 unat_mod_distrib unat_eq_0)
  then show ?thesis by (simp add: ALIGN_UP_def)
qed

lemma mod_page_zero_iff: "v mod 0x1000 = 0 \<longleftrightarrow> page_aligned v"
proof -
  have "v mod 0x1000 = 0 \<longleftrightarrow> unat (v mod 0x1000) = 0"
    by (simp add: unat_eq_0)
  then show ?thesis
    by (simp add: unat_mod_distrib page_aligned_dvd dvd_eq_mod_eq_0)
qed

lemma page_aligned_page_align_up [simp]: "page_aligned (page_align_up v)"
  by (simp add: page_align_up_def mod_page_zero_iff)

lemma unat_page_align_up:
  assumes "unat v + 4096 \<le> 18446744073709551616"
  shows "unat v \<le> unat (page_align_up v)" and "unat (page_align_up v) < unat v + 4096"
proof -
  have w: "\<not> page_aligned v \<Longrightarrow> unat (v + 0x1000) = unat v + 4096"
  proof -
    assume "\<not> page_aligned v"
    then have "unat v + 4096 \<noteq> 18446744073709551616"
      by (auto simp: page_aligned_dvd)
    with assms show ?thesis by (subst unat_add_no_wrap) simp_all
  qed
  have m: "\<not> page_aligned v \<Longrightarrow> 0 < unat v mod 4096"
    by (auto simp: page_aligned_dvd dvd_eq_mod_eq_0)
  show "unat v \<le> unat (page_align_up v)"
    by (auto simp: page_align_up_def mod_page_zero_iff unat_ALIGN w)
  show "unat (page_align_up v) < unat v + 4096"
    using m by (auto simp: page_align_up_def mod_page_zero_iff unat_ALIGN w)
qed

section \<open>The early heap\<close>

record heap_state =
  kmem :: store
  tmp_heap :: u64
  heap_start_address :: u64
  heap_end_address :: u64
  malloc_ret :: u64

definition malign :: "u64 \<Rightarrow> u16 \<Rightarrow> 'a heap_state_scheme \<Rightarrow> u64 \<times> 'a heap_state_scheme" where
  "malign amount align s =
     (if tmp_heap s \<noteq> 0 then
        let t = (if tmp_heap s mod ucast align \<noteq> 0
                 then tmp_heap s + (ucast align - tmp_heap s mod ucast align) else tmp_heap s)
        in (t, s\<lparr>tmp_heap := t + amount\<rparr>)
      else
        let unaligned = malloc_ret s;
            aligned0 = unaligned + 8;
            aligned = (if \<not> aligned0 mod ucast align = 0
                       then aligned0 + (ucast align - aligned0 mod ucast align) else aligned0)
        in (aligned, s\<lparr>kmem := write64 (aligned - 8) unaligned (kmem s)\<rparr>))"

definition initialize_temporary_heap :: "u64 \<Rightarrow> 'a heap_state_scheme \<Rightarrow> 'a heap_state_scheme" where
  "initialize_temporary_heap temp_heap_start s = s\<lparr>tmp_heap := temp_heap_start\<rparr>"

definition initialize_standard_heap :: "'a heap_state_scheme \<Rightarrow> 'a heap_state_scheme" where
  "initialize_standard_heap s =
     s\<lparr>heap_end_address := ADDRESS_OFFSET RESERVED_KBLOCK_KHEAP_MAPPINGS,
       heap_start_address := ADDRESS_OFFSET RESERVED_KBLOCK_KHEAP_MAPPINGS, tmp_heap := 0\<rparr>"

text \<open>Rounding up by adding the missing part of \<open>align\<close> is \<open>ALIGN_UP\<close>.\<close>

lemma round_up_eq:
  "(if a mod b \<noteq> 0 then a + (b - a mod b) else a) = ALIGN_UP a b"
  by (simp add: ALIGN_UP_def ALIGN_DOWN_def)

lemma malign_tmp:
  "tmp_heap s \<noteq> 0 \<Longrightarrow>
     malign amount align s = (ALIGN_UP (tmp_heap s) (ucast align),
       s\<lparr>tmp_heap := ALIGN_UP (tmp_heap s) (ucast align) + amount\<rparr>)"
  by (simp add: malign_def Let_def round_up_eq)

lemma malign_malloc:
  "tmp_heap s = 0 \<Longrightarrow>
     malign amount align s = (ALIGN_UP (malloc_ret s + 8) (ucast align),
       s\<lparr>kmem := write64 (ALIGN_UP (malloc_ret s + 8) (ucast align) - 8) (malloc_ret s) (kmem s)\<rparr>)"
  by (simp add: malign_def Let_def round_up_eq)

lemma unat_ucast_align: "unat (ucast (a :: u16) :: u64) = unat a"
  by (simp add: unsigned_ucast_eq take_bit_eq_mod)
    (use unsigned_less [of a, where ?'a = nat] in simp)

lemma malign_bump_spec:
  assumes "tmp_heap s \<noteq> 0" and "align \<noteq> 0"
    and "unat (tmp_heap s) + unat align + unat amount \<le> 18446744073709551615"
    and "malign amount align s = (p, s')"
  shows "unat align dvd unat p" and "unat (tmp_heap s) \<le> unat p"
    and "unat (tmp_heap s') = unat p + unat amount"
proof -
  have b0: "ucast align \<noteq> (0 :: u64)"
    using assms(2) unat_ucast_align [of align] by (metis unat_0 unat_eq_0)
  have room: "unat (tmp_heap s) + unat (ucast align :: u64) \<le> 18446744073709551616"
    using assms(3) by (simp add: unat_ucast_align)
  have p: "p = ALIGN_UP (tmp_heap s) (ucast align)" and s': "s' = s\<lparr>tmp_heap := p + amount\<rparr>"
    using assms(1,4) by (auto simp: malign_tmp)
  note b = ALIGN_UP_bounds [OF b0 room, folded p, unfolded unat_ucast_align]
  show "unat align dvd unat p" and "unat (tmp_heap s) \<le> unat p"
    by (rule b)+
  show "unat (tmp_heap s') = unat p + unat amount"
    using b(2) assms(3) by (simp add: s' unat_add_no_wrap)
qed

text \<open>
  While the early heap is in use, two consecutive \<open>malign\<close> calls return blocks that are
  aligned as asked and do not overlap, as long as the bump pointer does not wrap.
\<close>

theorem malign_blocks_disjoint:
  assumes "tmp_heap s \<noteq> 0" and "align \<noteq> 0" and "align' \<noteq> 0"
    and "malign amount align s = (p, s')" and "malign amount' align' s' = (q, s'')"
    and "unat (tmp_heap s) + unat align + unat amount + unat align' + unat amount'
           \<le> 18446744073709551615"
  shows "unat align dvd unat p \<and> unat align' dvd unat q \<and> unat p + unat amount \<le> unat q
    \<and> unat (tmp_heap s'') = unat q + unat amount'"
proof -
  have one: "unat align dvd unat p" "unat (tmp_heap s) \<le> unat p"
    "unat (tmp_heap s') = unat p + unat amount"
    using malign_bump_spec [OF assms(1,2) _ assms(4)] assms(6) by simp_all
  have b0: "ucast align \<noteq> (0 :: u64)"
    using assms(2) unat_ucast_align [of align] by (metis unat_0 unat_eq_0)
  have "unat p < unat (tmp_heap s) + unat align"
    using ALIGN_UP_bounds(2) [OF b0, of "tmp_heap s"] assms(1,4,6)
    by (simp add: malign_tmp unat_ucast_align)
  then have room: "unat (tmp_heap s') + unat align' + unat amount' \<le> 18446744073709551615"
    using one(3) assms(6) by simp
  have "tmp_heap s' \<noteq> 0"
    using one assms(1) by (auto simp: unat_eq_0 [symmetric] simp del: unat_eq_0)
  from malign_bump_spec [OF this assms(3) room assms(5)] one show ?thesis by simp
qed

text \<open>A concrete boot heap: two page-aligned page allocations.\<close>

theorem malign_blocks_disjoint_witness:
  "let s = \<lparr>kmem = \<lambda>_. 0, tmp_heap = 0x123456, heap_start_address = 0, heap_end_address = 0,
            malloc_ret = 0\<rparr>;
       (p, s') = malign 0x1000 0x1000 s; (q, s'') = malign 0x1000 0x1000 s'
   in 0x1000 dvd unat p \<and> 0x1000 dvd unat q \<and> unat p + 0x1000 \<le> unat q
      \<and> unat (tmp_heap s'') = unat q + 0x1000"
proof -
  let ?s = "\<lparr>kmem = \<lambda>_. 0, tmp_heap = 0x123456, heap_start_address = 0, heap_end_address = 0,
            malloc_ret = 0\<rparr>"
  obtain p s' where p: "malign 0x1000 0x1000 ?s = (p, s')" by fastforce
  obtain q s'' where q: "malign 0x1000 0x1000 s' = (q, s'')" by fastforce
  show ?thesis
    using malign_blocks_disjoint [OF _ _ _ p q] by (simp add: p q)
qed

end
