(* ===== verification/Frame_Pool.thy ===== *)
theory Frame_Pool
  imports Commons
begin

text \<open>
  The physical frame allocator of \<open>kernel/memory/paging.c\<close>: a list of sections, each with an
  array of frame counters and a free list threaded through its stack elements. A pointer to a
  stack element or a frame counter is its index in the section's arrays; an index beyond an
  array is undefined behaviour of the C code and is left unspecified (\<open>xs ! i\<close>), the
  invariant \<open>pool_wf\<close> rules it out. The sections are refined to a map from frame addresses to
  reference counts, the abstract allocator.
\<close>

section \<open>Data and state\<close>

record stack_element =
  frame_address :: u64
  array_ord :: u64
  next_element :: "nat option"

record frame_info =
  usage_count :: u32
  cow_count :: u32
  bound_stack_element :: nat

record section_info =
  head :: "nat option"
  frame_array :: "frame_info list"
  stack_elements :: "stack_element list"
  start_word :: u64
  end_word :: u64
  total_frames :: u64

text \<open>
  The globals of \<open>paging.c\<close>: \<open>frame_pool\<close> is the list that \<open>next_section\<close> links, the empty
  list is the NULL pool; \<open>active_page\<close> is the control register cr3.
\<close>

record mm_state = heap_state +
  frame_pool :: "section_info list"
  mem_mirror_present :: bool
  frame_lock :: u64
  active_page :: u64

section \<open>Operations\<close>

definition physical_to_virtual :: "'a mm_state_scheme \<Rightarrow> u64 \<Rightarrow> u64" where
  "physical_to_virtual s paddress =
     (if \<not> mem_mirror_present s then paddress
      else if paddress = 0 then 0
      else paddress + ADDRESS_OFFSET RESERVED_KBLOCK_RAM_MAPPINGS)"

text \<open>The spinlock of \<open>cpu_mgmt.s\<close>: taking a held lock spins for ever (\<open>None\<close>).\<close>

definition lock_frames :: "'a mm_state_scheme \<Rightarrow> 'a mm_state_scheme option" where
  "lock_frames s = (if frame_lock s = 0 then Some (s\<lparr>frame_lock := 1\<rparr>) else None)"

definition unlock_frames :: "'a mm_state_scheme \<Rightarrow> 'a mm_state_scheme" where
  "unlock_frames s = s\<lparr>frame_lock := 0\<rparr>"

definition take_head :: "section_info \<Rightarrow> nat \<Rightarrow> u64 \<times> section_info" where
  "take_head sec i =
     (let se = stack_elements sec ! i; o' = unat (array_ord se)
      in (frame_address se,
          sec\<lparr>head := next_element se,
              frame_array := (frame_array sec)
                [o' := (frame_array sec ! o')\<lparr>usage_count := 1\<rparr>]\<rparr>))"

fun get_from_sections :: "section_info list \<Rightarrow> (u64 \<times> section_info list) option" where
  "get_from_sections [] = None"
| "get_from_sections (sec # rest) =
     (case head sec of
        Some i \<Rightarrow> (let (a, sec') = take_head sec i in Some (a, sec' # rest))
      | None \<Rightarrow> map_option (\<lambda>(a, rest'). (a, sec # rest')) (get_from_sections rest))"

definition get_free_frame :: "'a mm_state_scheme \<Rightarrow> u64 \<times> 'a mm_state_scheme" where
  "get_free_frame s =
     (if frame_pool s = [] then
        let (p, s') = malign 0x1000 0x1000 s in (p - 0xFFFFFFFF80000000, s')
      else case get_from_sections (frame_pool s) of
        Some (a, pool) \<Rightarrow> (a, s\<lparr>frame_pool := pool\<rparr>)
      | None \<Rightarrow> (0, unlock_frames s))"

definition frame_index :: "section_info \<Rightarrow> u64 \<Rightarrow> nat" where
  "frame_index sec fa = unat (ucast ((fa - start_word sec) div 0x1000) :: u32)"

definition in_section :: "section_info \<Rightarrow> u64 \<Rightarrow> bool" where
  "in_section sec fa \<longleftrightarrow> start_word sec \<le> fa \<and> fa < end_word sec"

text \<open>Dropping one reference; the second component is the frame that became free, if any.\<close>

definition release_frame :: "section_info \<Rightarrow> nat \<Rightarrow> section_info \<times> u64 option" where
  "release_frame sec idx =
     (let fi = frame_array sec ! idx;
          fi1 = fi\<lparr>usage_count := usage_count fi - 1\<rparr>;
          fi2 = (if 0 < cow_count fi1 then fi1\<lparr>cow_count := cow_count fi1 - 1\<rparr> else fi1);
          sec1 = sec\<lparr>frame_array := (frame_array sec)[idx := fi2]\<rparr>
      in if usage_count fi2 = 0 then
           let b = bound_stack_element fi2
           in (sec1\<lparr>stack_elements := (stack_elements sec)
                      [b := (stack_elements sec ! b)\<lparr>next_element := head sec\<rparr>],
                    head := Some b\<rparr>,
               Some (frame_address (stack_elements sec ! b)))
         else (sec1, None))"

fun free_in_sections :: "u64 \<Rightarrow> section_info list \<Rightarrow> section_info list \<times> u64 option" where
  "free_in_sections fa [] = ([], None)"
| "free_in_sections fa (sec # rest) =
     (if in_section sec fa then
        let (sec', z) = release_frame sec (frame_index sec fa) in (sec' # rest, z)
      else let (rest', z) = free_in_sections fa rest in (sec # rest', z))"

definition free_frame :: "u64 \<Rightarrow> 'a mm_state_scheme \<Rightarrow> 'a mm_state_scheme" where
  "free_frame fa s =
     (let (pool, z) = free_in_sections (ALIGN fa) (frame_pool s);
          s1 = s\<lparr>frame_pool := pool\<rparr>
      in case z of
           None \<Rightarrow> s1
         | Some a \<Rightarrow> s1\<lparr>kmem := memset (physical_to_virtual s a) 0 0x1000 (kmem s)\<rparr>)"

text \<open>A \<open>frame_info_t*\<close> is the position of the section and the index of the counter in it.\<close>

fun find_frame_info :: "u64 \<Rightarrow> section_info list \<Rightarrow> (nat \<times> nat) option" where
  "find_frame_info fa [] = None"
| "find_frame_info fa (sec # rest) =
     (if in_section sec fa then Some (0, frame_index sec fa)
      else map_option (\<lambda>(k, i). (Suc k, i)) (find_frame_info fa rest))"

definition get_frame_info :: "u64 \<Rightarrow> 'a mm_state_scheme \<Rightarrow> (nat \<times> nat) option" where
  "get_frame_info fa s = find_frame_info fa (frame_pool s)"

definition read_frame_info :: "nat \<times> nat \<Rightarrow> 'a mm_state_scheme \<Rightarrow> frame_info" where
  "read_frame_info p s = frame_array (frame_pool s ! fst p) ! snd p"

definition write_frame_info :: "nat \<times> nat \<Rightarrow> frame_info \<Rightarrow> 'a mm_state_scheme \<Rightarrow> 'a mm_state_scheme" where
  "write_frame_info p fi s =
     s\<lparr>frame_pool := (frame_pool s)[fst p := (frame_pool s ! fst p)
         \<lparr>frame_array := (frame_array (frame_pool s ! fst p))[snd p := fi]\<rparr>]\<rparr>"

section \<open>The section invariant\<close>

primrec chain :: "stack_element list \<Rightarrow> nat option \<Rightarrow> nat list \<Rightarrow> bool" where
  "chain els h [] \<longleftrightarrow> h = None"
| "chain els h (i # c) \<longleftrightarrow> h = Some i \<and> i < length els \<and> chain els (next_element (els ! i)) c"

definition frame_at :: "section_info \<Rightarrow> nat \<Rightarrow> u64" where
  "frame_at sec i = start_word sec + of_nat i * 0x1000"

definition n_frames :: "section_info \<Rightarrow> nat" where
  "n_frames sec = length (frame_array sec)"

definition section_shape :: "section_info \<Rightarrow> bool" where
  "section_shape sec \<longleftrightarrow> length (stack_elements sec) = n_frames sec \<and> n_frames sec < 2 ^ 32 \<and>
     page_aligned (start_word sec) \<and>
     unat (start_word sec) + n_frames sec * 4096 \<le> unat (end_word sec)"

definition elements_wf :: "section_info \<Rightarrow> bool" where
  "elements_wf sec \<longleftrightarrow> (\<forall>i < n_frames sec.
     frame_address (stack_elements sec ! i) = frame_at sec i \<and>
     bound_stack_element (frame_array sec ! i) = i \<and>
     (0x200000 \<le> frame_at sec i \<longrightarrow> array_ord (stack_elements sec ! i) = of_nat i))"

definition free_list :: "section_info \<Rightarrow> nat list \<Rightarrow> bool" where
  "free_list sec c \<longleftrightarrow> distinct c \<and> chain (stack_elements sec) (head sec) c \<and>
     (\<forall>i. i \<in> set c \<longleftrightarrow> i < n_frames sec \<and> usage_count (frame_array sec ! i) = 0) \<and>
     (\<forall>i \<in> set c. 0x200000 \<le> frame_at sec i)"

definition section_wf :: "section_info \<Rightarrow> bool" where
  "section_wf sec \<longleftrightarrow> section_shape sec \<and> elements_wf sec \<and> (\<exists>c. free_list sec c)"

definition section_refs :: "section_info \<Rightarrow> u64 \<Rightarrow> nat option" where
  "section_refs sec a =
     (if page_aligned a \<and> start_word sec \<le> a \<and>
         unat a < unat (start_word sec) + n_frames sec * 4096
      then Some (unat (usage_count (frame_array sec ! ((unat a - unat (start_word sec)) div 4096))))
      else None)"

lemma chain_update_other:
  "b \<notin> set c \<Longrightarrow> chain (els[b := x]) h c = chain els h c"
  by (induction c arbitrary: h) auto

lemma unat_frame_at:
  assumes "section_shape sec" and "i \<le> n_frames sec"
  shows "unat (frame_at sec i) = unat (start_word sec) + i * 4096"
proof -
  have b: "unat (start_word sec) + i * 4096 < 18446744073709551616"
    using assms unat_u64_bound [of "end_word sec"] by (simp add: section_shape_def)
  then have "unat (of_nat (i * 4096) :: u64) = i * 4096"
    by (intro unat_of_nat_u64) simp
  then have "unat (of_nat i * (0x1000 :: u64)) = i * 4096" by simp
  with b show ?thesis by (simp add: frame_at_def unat_add_no_wrap)
qed

lemma frame_at_inj:
  assumes "section_shape sec" and "i \<le> n_frames sec" and "j \<le> n_frames sec"
  shows "frame_at sec i = frame_at sec j \<longleftrightarrow> i = j"
proof
  assume "frame_at sec i = frame_at sec j"
  then have "i * 4096 = j * 4096"
    using unat_frame_at [OF assms(1,2)] unat_frame_at [OF assms(1,3)] by (metis add_left_cancel)
  then show "i = j" by simp
qed simp

lemma page_aligned_frame_at [simp]:
  assumes "section_shape sec" and "i \<le> n_frames sec"
  shows "page_aligned (frame_at sec i)"
  using assms unat_frame_at [OF assms] by (simp add: page_aligned_dvd section_shape_def)

lemma section_refs_frame_at:
  assumes "section_shape sec" and "i < n_frames sec"
  shows "section_refs sec (frame_at sec i) = Some (unat (usage_count (frame_array sec ! i)))"
proof -
  note u = unat_frame_at [OF assms(1), of i]
  have "start_word sec \<le> frame_at sec i"
    using u assms by (simp add: word_le_nat_alt)
  with u assms show ?thesis
    by (simp add: section_refs_def)
qed

lemma section_refs_SomeE:
  assumes "section_shape sec" and "section_refs sec a = Some c"
  obtains i where "i < n_frames sec" "a = frame_at sec i"
    "c = unat (usage_count (frame_array sec ! i))"
proof -
  let ?i = "(unat a - unat (start_word sec)) div 4096"
  have a: "page_aligned a" "unat (start_word sec) \<le> unat a"
    "unat a < unat (start_word sec) + n_frames sec * 4096"
    "c = unat (usage_count (frame_array sec ! ?i))"
    using assms(2) by (auto simp: section_refs_def word_le_nat_alt split: if_splits)
  have "4096 dvd unat a - unat (start_word sec)"
    using a(1) assms(1) by (auto simp: section_shape_def page_aligned_dvd intro: dvd_diff_nat)
  then have e: "unat a = unat (start_word sec) + ?i * 4096"
    using a(2) by simp
  then have lt: "?i < n_frames sec"
    using a(3) by simp
  have "a = frame_at sec ?i"
    using unat_frame_at [OF assms(1), of ?i] lt e by (simp add: word_unat_eq_iff)
  with that lt a(4) show thesis by blast
qed

lemma in_section_frame_at:
  assumes "section_shape sec" and "i < n_frames sec"
  shows "in_section sec (frame_at sec i)" and "frame_index sec (frame_at sec i) = i"
proof -
  note u = unat_frame_at [OF assms(1), of i]
  show "in_section sec (frame_at sec i)"
    using u assms by (simp add: in_section_def word_le_nat_alt word_less_nat_alt section_shape_def)
  have "unat (frame_at sec i - start_word sec) = i * 4096"
    using u assms by (simp add: unat_diff_u64)
  then have "unat ((frame_at sec i - start_word sec) div 0x1000) = i"
    by (simp add: unat_div_distrib)
  then show "frame_index sec (frame_at sec i) = i"
    using assms by (simp add: frame_index_def unat_ucast_u64_u32 section_shape_def)
qed

text \<open>Writing one frame counter changes the abstract count of that frame only.\<close>

lemma section_refs_update:
  assumes "section_shape sec" and "i < n_frames sec"
    and "start_word sec' = start_word sec" and "frame_array sec' = (frame_array sec)[i := fi]"
  shows "section_refs sec' = (section_refs sec)(frame_at sec i \<mapsto> unat (usage_count fi))"
proof
  fix a
  have sh: "frame_at sec' j = frame_at sec j" "n_frames sec' = n_frames sec" for j
    using assms(3,4) by (simp_all add: frame_at_def n_frames_def)
  show "section_refs sec' a = ((section_refs sec)(frame_at sec i \<mapsto> unat (usage_count fi))) a"
  proof (cases "section_refs sec a")
    case None
    with section_refs_frame_at [OF assms(1,2)] show ?thesis
      by (auto simp: section_refs_def assms(3) sh split: if_splits)
  next
    case (Some c)
    then obtain j where j: "j < n_frames sec" "a = frame_at sec j"
      "c = unat (usage_count (frame_array sec ! j))"
      by (rule section_refs_SomeE [OF assms(1)])
    have g: "page_aligned a" "start_word sec \<le> a" "unat a < unat (start_word sec) + n_frames sec * 4096"
      using Some by (auto simp: section_refs_def split: if_splits)
    have "(unat a - unat (start_word sec)) div 4096 = j"
      using unat_frame_at [OF assms(1), of j] j by simp
    then have "section_refs sec' a = Some (unat (usage_count (frame_array sec' ! j)))"
      using g by (simp add: section_refs_def assms(3) sh)
    with Some j assms show ?thesis
      by (auto simp: n_frames_def frame_at_inj nth_list_update)
  qed
qed

section \<open>One section\<close>

lemma section_wf_cong_shape:
  assumes "start_word sec' = start_word sec" "end_word sec' = end_word sec"
    "length (frame_array sec') = length (frame_array sec)"
    "length (stack_elements sec') = length (stack_elements sec)"
  shows "section_shape sec' = section_shape sec" and "frame_at sec' = frame_at sec"
    and "n_frames sec' = n_frames sec" and "in_section sec' = in_section sec"
  using assms by (auto simp: section_shape_def frame_at_def n_frames_def in_section_def fun_eq_iff)

lemma take_head_spec:
  assumes wf: "section_wf sec" and h: "head sec = Some i" and t: "take_head sec i = (a, sec')"
  shows "i < n_frames sec" and "a = frame_at sec i" and "0x200000 \<le> a"
    and "section_refs sec a = Some 0" and "section_wf sec'"
    and "section_refs sec' = (section_refs sec)(a \<mapsto> 1)"
    and "start_word sec' = start_word sec" and "end_word sec' = end_word sec"
proof -
  from wf obtain c where shape: "section_shape sec" and el: "elements_wf sec"
    and fl: "free_list sec c"
    by (auto simp: section_wf_def)
  from fl h obtain c' where c: "c = i # c'"
    by (cases c) (auto simp: free_list_def)
  show i: "i < n_frames sec" using fl c by (auto simp: free_list_def)
  have low: "0x200000 \<le> frame_at sec i" using fl c by (simp add: free_list_def)
  have "n_frames sec < 18446744073709551616"
    using shape by (simp add: section_shape_def)
  then have ord: "unat (array_ord (stack_elements sec ! i)) = i"
    using el i low by (simp add: elements_wf_def unat_of_nat_u64)
  define fi where "fi = (frame_array sec ! i)\<lparr>usage_count := 1\<rparr>"
  show a: "a = frame_at sec i" using t el i by (simp add: take_head_def Let_def elements_wf_def)
  then show "0x200000 \<le> a" using low by simp
  have s': "sec' = sec\<lparr>head := next_element (stack_elements sec ! i),
      frame_array := (frame_array sec)[i := fi]\<rparr>"
    using t ord by (auto simp: take_head_def Let_def fi_def)
  show "section_refs sec a = Some 0"
    using fl c a section_refs_frame_at [OF shape i] by (auto simp: free_list_def unat_eq_zero)
  show "section_refs sec' = (section_refs sec)(a \<mapsto> 1)"
    using section_refs_update [OF shape i, of sec' fi] a by (simp add: s' fi_def)
  show "start_word sec' = start_word sec" "end_word sec' = end_word sec" by (simp_all add: s')
  note cong = section_wf_cong_shape [of sec' sec]
  have "section_shape sec'" using shape cong(1) by (simp add: s')
  moreover have "elements_wf sec'"
    using el i cong(2) by (auto simp: elements_wf_def s' fi_def n_frames_def nth_list_update)
  moreover have "free_list sec' c'"
    using fl i cong(2) c
    by (auto simp: free_list_def s' fi_def n_frames_def nth_list_update)
  ultimately show "section_wf sec'" by (auto simp: section_wf_def)
qed

lemma release_frame_spec:
  assumes wf: "section_wf sec" and i: "i < n_frames sec" and low: "0x200000 \<le> frame_at sec i"
    and used: "usage_count (frame_array sec ! i) \<noteq> 0" and r: "release_frame sec i = (sec', z)"
  shows "section_wf sec'"
    and "section_refs sec' = (section_refs sec)
           (frame_at sec i \<mapsto> unat (usage_count (frame_array sec ! i)) - 1)"
    and "z = (if usage_count (frame_array sec ! i) = 1 then Some (frame_at sec i) else None)"
    and "start_word sec' = start_word sec" and "end_word sec' = end_word sec"
proof -
  from wf obtain c where shape: "section_shape sec" and el: "elements_wf sec"
    and fl: "free_list sec c"
    by (auto simp: section_wf_def)
  let ?u = "usage_count (frame_array sec ! i)"
  define fi where "fi = (frame_array sec ! i)\<lparr>usage_count := ?u - 1,
     cow_count := (if 0 < cow_count (frame_array sec ! i) then cow_count (frame_array sec ! i) - 1
                   else cow_count (frame_array sec ! i))\<rparr>"
  have fi: "usage_count fi = ?u - 1" "bound_stack_element fi = i"
    "frame_array sec' = (frame_array sec)[i := fi]"
    and st: "start_word sec' = start_word sec" "end_word sec' = end_word sec"
    and hd: "head sec' = (if ?u = 1 then Some i else head sec)"
    and se: "stack_elements sec' = (if ?u = 1 then (stack_elements sec)
         [i := (stack_elements sec ! i)\<lparr>next_element := head sec\<rparr>] else stack_elements sec)"
    and z: "z = (if ?u = 1 then Some (frame_at sec i) else None)"
    using r el i by (auto simp: release_frame_def Let_def elements_wf_def fi_def split: if_splits)
  show "z = (if ?u = 1 then Some (frame_at sec i) else None)" by (rule z)
  show "start_word sec' = start_word sec" "end_word sec' = end_word sec" by (rule st)+
  have "unat (?u - 1) = unat ?u - 1"
    using used by (simp add: unat_minus_one)
  then show "section_refs sec' = (section_refs sec)(frame_at sec i \<mapsto> unat ?u - 1)"
    using section_refs_update [OF shape i st(1) fi(3)] fi(1) by simp
  have len: "length (frame_array sec') = length (frame_array sec)"
    "length (stack_elements sec') = length (stack_elements sec)"
    by (simp_all add: fi se)
  note cong = section_wf_cong_shape [OF st len]
  have "section_shape sec'" using shape cong(1) by simp
  moreover have "elements_wf sec'"
    using el i shape cong(2,3)
    by (auto simp: elements_wf_def section_shape_def se fi nth_list_update n_frames_def)
  moreover have "\<exists>c'. free_list sec' c'"
  proof (cases "?u = 1")
    case True
    have "i \<notin> set c" using fl used by (simp add: free_list_def)
    moreover have "i < length (stack_elements sec)"
      using shape i by (simp add: section_shape_def)
    ultimately have "free_list sec' (i # c)"
      using fl i low True fi cong(2,3)
      by (auto simp: free_list_def hd se chain_update_other nth_list_update n_frames_def)
    then show ?thesis ..
  next
    case False
    have "?u - 1 \<noteq> 0" using False by simp
    then have "free_list sec' c"
      using fl i False fi cong(2,3) used
      by (auto simp: free_list_def hd se nth_list_update n_frames_def)
    then show ?thesis ..
  qed
  ultimately show "section_wf sec'" by (auto simp: section_wf_def)
qed

section \<open>The pool and its reference counts\<close>

primrec pool_refs :: "section_info list \<Rightarrow> u64 \<Rightarrow> nat option" where
  "pool_refs [] = Map.empty"
| "pool_refs (sec # rest) = pool_refs rest ++ section_refs sec"

definition apart :: "section_info \<Rightarrow> section_info \<Rightarrow> bool" where
  "apart s t \<longleftrightarrow> end_word s \<le> start_word t \<or> end_word t \<le> start_word s"

definition pool_wf :: "section_info list \<Rightarrow> bool" where
  "pool_wf pool \<longleftrightarrow> (\<forall>sec \<in> set pool. section_wf sec) \<and> sorted_wrt apart pool"

lemma pool_wf_Cons:
  "pool_wf (sec # rest) \<longleftrightarrow>
     section_wf sec \<and> pool_wf rest \<and> (\<forall>t \<in> set rest. apart sec t)"
  by (auto simp: pool_wf_def)

lemma section_refs_in_section:
  assumes "section_wf sec" and "section_refs sec a = Some c"
  shows "in_section sec a" and "page_aligned a"
proof -
  have sh: "section_shape sec" using assms(1) by (simp add: section_wf_def)
  obtain i where "i < n_frames sec" "a = frame_at sec i"
    using section_refs_SomeE [OF sh assms(2)] by metis
  with sh show "in_section sec a" "page_aligned a"
    by (simp_all add: in_section_frame_at)
qed

lemma pool_refs_in_section:
  "pool_wf pool \<Longrightarrow> pool_refs pool a = Some c \<Longrightarrow>
     page_aligned a \<and> (\<exists>sec \<in> set pool. in_section sec a)"
  by (induction pool)
    (auto simp: pool_wf_Cons map_add_Some_iff dest: section_refs_in_section)

lemma in_section_apart: "apart s t \<Longrightarrow> in_section s a \<Longrightarrow> \<not> in_section t a"
  by (auto simp: apart_def in_section_def)

lemma pool_refs_tail_None:
  assumes "pool_wf (sec # rest)" and "in_section sec a"
  shows "pool_refs rest a = None"
proof (rule ccontr)
  assume "pool_refs rest a \<noteq> None"
  then obtain c where "pool_refs rest a = Some c" by blast
  then obtain t where "t \<in> set rest" "in_section t a"
    using pool_refs_in_section assms(1) by (metis pool_wf_Cons)
  with assms show False
    by (auto simp: pool_wf_Cons dest: in_section_apart)
qed

lemma apart_cong:
  "start_word s' = start_word s \<Longrightarrow> end_word s' = end_word s \<Longrightarrow>
     apart s' t = apart s t \<and> apart t s' = apart t s"
  by (simp add: apart_def)

lemma apart_all_cong:
  assumes "map start_word r' = map start_word r" and "map end_word r' = map end_word r"
  shows "(\<forall>t \<in> set r'. apart sec t) \<longleftrightarrow> (\<forall>t \<in> set r. apart sec t)"
proof -
  have len: "length r' = length r" using assms(1) by (metis length_map)
  have "start_word (r' ! k) = start_word (r ! k)" "end_word (r' ! k) = end_word (r ! k)"
    if "k < length r" for k
    using assms that len by (metis nth_map)+
  then show ?thesis
    by (simp add: all_set_conv_all_nth len apart_def)
qed

lemma section_shape_wf [dest]: "section_wf sec \<Longrightarrow> section_shape sec"
  by (simp add: section_wf_def)

lemma get_from_sections_spec:
  assumes "pool_wf pool" and "get_from_sections pool = Some (a, pool')"
  shows "pool_wf pool' \<and> pool_refs pool a = Some 0 \<and> pool_refs pool' = (pool_refs pool)(a \<mapsto> 1)
    \<and> 0x200000 \<le> a \<and> page_aligned a
    \<and> map start_word pool' = map start_word pool \<and> map end_word pool' = map end_word pool"
  using assms
proof (induction pool arbitrary: pool')
  case (Cons sec rest)
  show ?case
  proof (cases "head sec")
    case None
    with Cons.prems obtain rest' where r: "get_from_sections rest = Some (a, rest')"
      "pool' = sec # rest'"
      by (auto split: prod.splits)
    with Cons have IH: "pool_wf rest'" "pool_refs rest a = Some 0" "0x200000 \<le> a"
      "pool_refs rest' = (pool_refs rest)(a \<mapsto> 1)" "page_aligned a"
      "map start_word rest' = map start_word rest" "map end_word rest' = map end_word rest"
      by (auto simp: pool_wf_Cons)
    have "section_refs sec a = None"
    proof (rule ccontr)
      assume "section_refs sec a \<noteq> None"
      then have "in_section sec a"
        using section_refs_in_section(1) Cons.prems(1) by (auto simp: pool_wf_Cons)
      then show False
        using pool_refs_tail_None [OF Cons.prems(1)] IH(2) by simp
    qed
    moreover have "\<forall>t \<in> set rest'. apart sec t"
      using apart_all_cong [OF IH(6,7)] Cons.prems(1) by (simp add: pool_wf_Cons)
    ultimately show ?thesis
      using r IH Cons.prems(1)
      by (auto simp: pool_wf_Cons map_add_def fun_eq_iff split: option.splits)
  next
    case (Some i)
    obtain sec' where t: "take_head sec i = (a, sec')" "pool' = sec' # rest"
      using Cons.prems(2) Some by (auto split: prod.splits)
    have wf: "section_wf sec" using Cons.prems(1) by (simp add: pool_wf_Cons)
    note sp = take_head_spec [OF wf Some t(1)]
    show ?thesis
      using sp t(2) Cons.prems(1) section_refs_in_section(2) [OF wf sp(4)]
      by (auto simp: pool_wf_Cons map_add_def fun_eq_iff apart_cong [OF sp(7,8)] split: option.splits)
  qed
qed simp

lemma head_None_no_free:
  assumes "section_wf sec" and "head sec = None"
  shows "section_refs sec a \<noteq> Some 0"
proof
  assume z: "section_refs sec a = Some 0"
  obtain i where i: "i < n_frames sec" "unat (usage_count (frame_array sec ! i)) = 0"
    using section_refs_SomeE [OF _ z] assms(1) by (metis section_shape_wf)
  obtain c where c: "free_list sec c" using assms(1) by (auto simp: section_wf_def)
  with assms(2) have "c = []" by (cases c) (auto simp: free_list_def)
  with c i show False by (simp add: free_list_def unat_eq_zero)
qed

lemma get_from_sections_None:
  "pool_wf pool \<Longrightarrow> get_from_sections pool = None \<longleftrightarrow> (\<forall>a. pool_refs pool a \<noteq> Some 0)"
proof (induction pool)
  case (Cons sec rest)
  show ?case
  proof (cases "head sec")
    case None
    have hn: "section_refs sec a \<noteq> Some 0" for a
      using head_None_no_free [OF _ None] Cons.prems by (simp add: pool_wf_Cons)
    have "(\<forall>a. pool_refs (sec # rest) a \<noteq> Some 0) \<longleftrightarrow> (\<forall>a. pool_refs rest a \<noteq> Some 0)"
    proof (intro iffI allI notI)
      fix a assume n: "\<forall>a. pool_refs (sec # rest) a \<noteq> Some 0" and z: "pool_refs rest a = Some 0"
      have "section_refs sec a = None"
      proof (rule ccontr)
        assume "section_refs sec a \<noteq> None"
        then have "in_section sec a"
          using section_refs_in_section(1) Cons.prems by (auto simp: pool_wf_Cons)
        with z show False using pool_refs_tail_None [OF Cons.prems] by simp
      qed
      with n z show False by (metis map_add_Some_iff pool_refs.simps(2))
    qed (use hn in \<open>auto simp: map_add_Some_iff\<close>)
    with None Cons show ?thesis by (simp add: pool_wf_Cons)
  next
    case (Some i)
    obtain a sec' where t: "take_head sec i = (a, sec')" by fastforce
    have "section_refs sec a = Some 0"
      using take_head_spec(4) [OF _ Some t] Cons.prems by (simp add: pool_wf_Cons)
    then have "pool_refs (sec # rest) a = Some 0" by (simp add: map_add_Some_iff)
    moreover have "get_from_sections (sec # rest) \<noteq> None" using Some t by simp
    ultimately show ?thesis by blast
  qed
qed simp

lemma free_in_sections_spec:
  assumes "pool_wf pool" and "pool_refs pool a = Some (Suc c)" and "0x200000 \<le> a"
    and "free_in_sections a pool = (pool', z)"
  shows "pool_wf pool' \<and> pool_refs pool' = (pool_refs pool)(a \<mapsto> c)
    \<and> z = (if c = 0 then Some a else None)
    \<and> map start_word pool' = map start_word pool \<and> map end_word pool' = map end_word pool"
  using assms
proof (induction pool arbitrary: pool')
  case (Cons sec rest)
  have wf: "section_wf sec" "pool_wf rest" and ap: "\<forall>t \<in> set rest. apart sec t"
    using Cons.prems(1) by (auto simp: pool_wf_Cons)
  show ?case
  proof (cases "in_section sec a")
    case True
    then have tl: "pool_refs rest a = None" by (rule pool_refs_tail_None [OF Cons.prems(1)])
    with Cons.prems(2) have "section_refs sec a = Some (Suc c)" by (auto simp: map_add_Some_iff)
    then obtain i where i: "i < n_frames sec" "a = frame_at sec i"
      "Suc c = unat (usage_count (frame_array sec ! i))"
      using section_refs_SomeE wf(1) by (metis section_shape_wf)
    have idx: "frame_index sec a = i"
      using in_section_frame_at(2) [OF _ i(1)] i(2) wf(1) by auto
    obtain sec' where r: "release_frame sec i = (sec', z)" "pool' = sec' # rest"
      using Cons.prems(4) True idx by (auto split: prod.splits)
    have used: "usage_count (frame_array sec ! i) \<noteq> 0"
      using i(3) by (metis Suc_neq_Zero unat_0)
    have one: "usage_count (frame_array sec ! i) = 1 \<longleftrightarrow> c = 0"
      using i(3) by (metis One_nat_def Suc_inject unat_1 word_unat_eq_iff)
    note sp = release_frame_spec [OF wf(1) i(1) _ used r(1), folded i(2)]
    show ?thesis
      using sp Cons.prems(3) r(2) one ap wf(2) i(3) [symmetric]
      by (auto simp: pool_wf_Cons map_add_def fun_eq_iff apart_cong [OF sp(4,5)] split: option.splits)
  next
    case False
    have none: "section_refs sec a = None"
      using False section_refs_in_section(1) [OF wf(1)] by (metis not_None_eq)
    then have ra: "pool_refs rest a = Some (Suc c)"
      using Cons.prems(2) by (auto simp: map_add_Some_iff)
    obtain rest' where r: "free_in_sections a rest = (rest', z)" "pool' = sec # rest'"
      using Cons.prems(4) False by (auto split: prod.splits)
    note IH = Cons.IH [OF wf(2) ra Cons.prems(3) r(1)]
    have "\<forall>t \<in> set rest'. apart sec t"
      using apart_all_cong [of rest' rest sec] IH ap by simp
    with IH none r(2) wf(1) show ?thesis
      by (auto simp: pool_wf_Cons map_add_def fun_eq_iff split: option.splits)
  qed
qed simp

lemma free_in_sections_outside:
  "(\<forall>sec \<in> set pool. \<not> in_section sec a) \<Longrightarrow> free_in_sections a pool = (pool, None)"
  by (induction pool) auto

section \<open>The allocator as an abstract reference counter\<close>

primrec take_frames :: "('s \<Rightarrow> u64 \<times> 's) \<Rightarrow> nat \<Rightarrow> 's \<Rightarrow> u64 list \<times> 's" where
  "take_frames get 0 s = ([], s)"
| "take_frames get (Suc n) s =
     (let (a, s1) = get s; (as, s2) = take_frames get n s1 in (a # as, s2))"

text \<open>
  What the page-table code relies on: a partial map from frames to counts, \<open>get\<close> moves a frame
  from count 0 to 1 or reports 0 when there is none, \<open>free\<close> drops one reference.
\<close>

locale refcount_allocator =
  fixes inv :: "'s \<Rightarrow> bool" and refs :: "'s \<Rightarrow> u64 \<Rightarrow> nat option"
    and get :: "'s \<Rightarrow> u64 \<times> 's" and free :: "u64 \<Rightarrow> 's \<Rightarrow> 's"
  assumes get_ok: "inv s \<Longrightarrow> get s = (a, s') \<Longrightarrow> a \<noteq> 0 \<Longrightarrow>
      inv s' \<and> refs s a = Some 0 \<and> refs s' = (refs s)(a \<mapsto> 1) \<and> 0x200000 \<le> a \<and> page_aligned a"
    and get_none: "inv s \<Longrightarrow> get s = (0, s') \<Longrightarrow>
      inv s' \<and> refs s' = refs s \<and> (\<forall>a. refs s a \<noteq> Some 0)"
    and free_ok: "inv s \<Longrightarrow> refs s a = Some (Suc c) \<Longrightarrow> 0x200000 \<le> a \<Longrightarrow>
      inv (free a s) \<and> refs (free a s) = (refs s)(a \<mapsto> c)"
begin

lemma get_free_roundtrip:
  assumes "inv s" "get s = (a, s')" "a \<noteq> 0"
  shows "inv (free a s')" and "refs (free a s') = refs s"
proof -
  have s': "inv s'" "refs s a = Some 0" "refs s' = (refs s)(a \<mapsto> 1)" "0x200000 \<le> a"
    using get_ok [OF assms] by simp_all
  have "inv (free a s') \<and> refs (free a s') = (refs s')(a \<mapsto> 0)"
    using s' by (intro free_ok) simp_all
  then show "inv (free a s')" and "refs (free a s') = refs s"
    using s' by (auto simp: fun_eq_iff)
qed

lemma take_frames_distinct:
  assumes "inv s" and "n \<le> card {a. refs s a = Some 0}" and "take_frames get n s = (as, s')"
  shows "inv s' \<and> length as = n \<and> distinct as \<and> set as \<subseteq> {a. refs s a = Some 0} \<and> 0 \<notin> set as
    \<and> refs s' = (\<lambda>a. if a \<in> set as then Some 1 else refs s a)"
  using assms
proof (induction n arbitrary: s as s')
  case (Suc n)
  obtain a s1 where g: "get s = (a, s1)" by fastforce
  obtain bs s2 where t: "take_frames get n s1 = (bs, s2)" by fastforce
  have eq: "as = a # bs" "s' = s2" using Suc.prems(3) g t by auto
  have "{a. refs s a = Some 0} \<noteq> {}" using Suc.prems(2) by force
  then have "a \<noteq> 0" using get_none [OF Suc.prems(1)] g by blast
  note ok = get_ok [OF Suc.prems(1) g this]
  have "{x. refs s1 x = Some 0} = {x. refs s x = Some 0} - {a}" using ok by auto
  then have "n \<le> card {x. refs s1 x = Some 0}" using Suc.prems(2) ok by simp
  from Suc.IH [OF _ this t] ok \<open>a \<noteq> 0\<close> show ?case
    by (auto simp: eq fun_eq_iff split: if_splits)
qed simp

end

definition mm_wf :: "'a mm_state_scheme \<Rightarrow> bool" where
  "mm_wf s \<longleftrightarrow> frame_pool s \<noteq> [] \<and> pool_wf (frame_pool s)"

definition frame_refs :: "'a mm_state_scheme \<Rightarrow> u64 \<Rightarrow> nat option" where
  "frame_refs s = pool_refs (frame_pool s)"

lemma get_free_frame_ok:
  assumes "mm_wf s" and "get_free_frame s = (a, s')" and "a \<noteq> 0"
  shows "mm_wf s' \<and> frame_refs s a = Some 0 \<and> frame_refs s' = (frame_refs s)(a \<mapsto> 1)
    \<and> 0x200000 \<le> a \<and> page_aligned a" and "\<exists>pool. s' = s\<lparr>frame_pool := pool\<rparr>"
proof -
  obtain pool where p: "get_from_sections (frame_pool s) = Some (a, pool)"
    "s' = s\<lparr>frame_pool := pool\<rparr>"
    using assms by (auto simp: get_free_frame_def mm_wf_def split: option.splits)
  then have "pool \<noteq> []"
    using get_from_sections_spec [of "frame_pool s" a pool] assms(1)
    by (auto simp: mm_wf_def)
  then show "mm_wf s' \<and> frame_refs s a = Some 0 \<and> frame_refs s' = (frame_refs s)(a \<mapsto> 1)
      \<and> 0x200000 \<le> a \<and> page_aligned a"
    using get_from_sections_spec [OF _ p(1)] assms(1) p(2) by (simp add: mm_wf_def frame_refs_def)
  show "\<exists>pool. s' = s\<lparr>frame_pool := pool\<rparr>" using p(2) by blast
qed

lemma get_free_frame_none:
  assumes "mm_wf s" and "get_free_frame s = (0, s')"
  shows "s' = unlock_frames s" and "\<forall>a. frame_refs s a \<noteq> Some 0"
proof -
  have "get_from_sections (frame_pool s) = None"
  proof (rule ccontr)
    assume "get_from_sections (frame_pool s) \<noteq> None"
    then obtain pool where "get_from_sections (frame_pool s) = Some (0, pool)"
      using assms by (auto simp: get_free_frame_def mm_wf_def)
    from get_from_sections_spec [OF _ this] assms(1) show False
      by (auto simp: mm_wf_def)
  qed
  then show "s' = unlock_frames s" and "\<forall>a. frame_refs s a \<noteq> Some 0"
    using assms get_from_sections_None [of "frame_pool s"]
    by (auto simp: get_free_frame_def mm_wf_def frame_refs_def)
qed

lemma free_frame_ok:
  assumes "mm_wf s" and "frame_refs s a = Some (Suc c)" and "0x200000 \<le> a"
  shows "mm_wf (free_frame a s)" and "frame_refs (free_frame a s) = (frame_refs s)(a \<mapsto> c)"
    and "kmem (free_frame a s) =
      (if c = 0 then memset (physical_to_virtual s a) 0 0x1000 (kmem s) else kmem s)"
    and "\<exists>pool m. free_frame a s = s\<lparr>frame_pool := pool, kmem := m\<rparr>"
proof -
  have pa: "ALIGN a = a"
    using pool_refs_in_section [of "frame_pool s" a] assms(1,2)
    by (auto simp: mm_wf_def frame_refs_def page_aligned_def)
  obtain pool z where f: "free_in_sections a (frame_pool s) = (pool, z)" by fastforce
  have sp: "pool_wf pool" "pool_refs pool = (pool_refs (frame_pool s))(a \<mapsto> c)"
    "z = (if c = 0 then Some a else None)" "map start_word pool = map start_word (frame_pool s)"
    using free_in_sections_spec [OF _ _ assms(3) f, of c] assms(1,2)
    by (simp_all add: mm_wf_def frame_refs_def)
  have ne: "pool \<noteq> []" using sp(4) assms(1) by (auto simp: mm_wf_def)
  have e: "free_frame a s = s\<lparr>frame_pool := pool,
      kmem := (if c = 0 then memset (physical_to_virtual s a) 0 0x1000 (kmem s) else kmem s)\<rparr>"
    by (simp add: free_frame_def pa f sp(3))
  show "mm_wf (free_frame a s)" "frame_refs (free_frame a s) = (frame_refs s)(a \<mapsto> c)"
    using sp ne by (simp_all add: e mm_wf_def frame_refs_def)
  show "kmem (free_frame a s) =
      (if c = 0 then memset (physical_to_virtual s a) 0 0x1000 (kmem s) else kmem s)"
    by (simp add: e)
  show "\<exists>pool m. free_frame a s = s\<lparr>frame_pool := pool, kmem := m\<rparr>" using e by blast
qed

lemma section_free_high:
  assumes "section_wf sec" and "section_refs sec a = Some 0"
  shows "0x200000 \<le> a"
proof -
  obtain i where i: "i < n_frames sec" "a = frame_at sec i"
    "0 = unat (usage_count (frame_array sec ! i))"
    using section_refs_SomeE [OF section_shape_wf [OF assms(1)] assms(2)] by metis
  then have "usage_count (frame_array sec ! i) = 0" by (metis unat_eq_zero)
  with i assms(1) show ?thesis by (auto simp: section_wf_def free_list_def)
qed

lemma frame_refs_nonzero:
  assumes "mm_wf s" and "frame_refs s a = Some 0"
  shows "0x200000 \<le> a" and "a \<noteq> 0" and "page_aligned a"
proof -
  have "pool_wf pool \<Longrightarrow> pool_refs pool a = Some 0 \<Longrightarrow> 0x200000 \<le> a" for pool
    by (induction pool) (auto simp: pool_wf_Cons map_add_Some_iff dest: section_free_high)
  with assms show "0x200000 \<le> a" unfolding mm_wf_def frame_refs_def by blast
  then show "a \<noteq> 0" by auto
  show "page_aligned a"
    using pool_refs_in_section assms by (metis mm_wf_def frame_refs_def)
qed

lemma free_frame_outside:
  "(\<forall>sec \<in> set (frame_pool s). \<not> in_section sec (ALIGN a)) \<Longrightarrow> free_frame a s = s"
  by (simp add: free_frame_def free_in_sections_outside)

interpretation frames: refcount_allocator mm_wf frame_refs get_free_frame free_frame
proof unfold_locales
  fix s :: "'a mm_state_scheme" and a s'
  assume "mm_wf s" "get_free_frame s = (a, s')" "a \<noteq> 0"
  then show "mm_wf s' \<and> frame_refs s a = Some 0 \<and> frame_refs s' = (frame_refs s)(a \<mapsto> 1)
      \<and> 0x200000 \<le> a \<and> page_aligned a"
    by (rule get_free_frame_ok)
next
  fix s s' :: "'a mm_state_scheme"
  assume "mm_wf s" "get_free_frame s = (0, s')"
  from get_free_frame_none [OF this] \<open>mm_wf s\<close>
  show "mm_wf s' \<and> frame_refs s' = frame_refs s \<and> (\<forall>a. frame_refs s a \<noteq> Some 0)"
    by (simp add: unlock_frames_def mm_wf_def frame_refs_def)
next
  fix s :: "'a mm_state_scheme" and a c
  assume "mm_wf s" "frame_refs s a = Some (Suc c)" "0x200000 \<le> a"
  then show "mm_wf (free_frame a s) \<and> frame_refs (free_frame a s) = (frame_refs s)(a \<mapsto> c)"
    by (simp add: free_frame_ok)
qed

section \<open>A concrete pool\<close>

text \<open>Two frames at 2 MB, the first one free, used by the witnesses.\<close>

definition demo_section :: section_info where
  "demo_section = \<lparr>head = Some 0,
     frame_array = [\<lparr>usage_count = 0, cow_count = 0, bound_stack_element = 0\<rparr>,
                    \<lparr>usage_count = 2, cow_count = 2, bound_stack_element = 1\<rparr>],
     stack_elements = [\<lparr>frame_address = 0x200000, array_ord = 0, next_element = None\<rparr>,
                       \<lparr>frame_address = 0x201000, array_ord = 1, next_element = None\<rparr>],
     start_word = 0x200000, end_word = 0x202800, total_frames = 2\<rparr>"

definition demo_state :: mm_state where
  "demo_state = \<lparr>kmem = \<lambda>_. 0, tmp_heap = 0, heap_start_address = 0, heap_end_address = 0,
     malloc_ret = 0, frame_pool = [demo_section], mem_mirror_present = True, frame_lock = 0,
     active_page = 0x100000\<rparr>"

lemma less_two_cases: "i < (2 :: nat) \<longleftrightarrow> i = 0 \<or> i = 1"
  by auto

lemma demo_section_wf: "section_wf demo_section"
proof -
  have "section_shape demo_section"
    by (simp add: section_shape_def demo_section_def n_frames_def page_aligned_dvd)
  moreover have "elements_wf demo_section"
    by (simp add: elements_wf_def demo_section_def n_frames_def frame_at_def less_two_cases
        numeral_2_eq_2 [symmetric])
  moreover have "free_list demo_section [0]"
    by (auto simp: free_list_def demo_section_def n_frames_def frame_at_def less_two_cases
        numeral_2_eq_2 [symmetric])
  ultimately show ?thesis by (auto simp: section_wf_def)
qed

lemma demo_state_wf: "mm_wf demo_state"
  by (simp add: mm_wf_def demo_state_def pool_wf_def demo_section_wf)

lemma demo_refs:
  "frame_refs demo_state 0x200000 = Some 0" "frame_refs demo_state 0x201000 = Some 2"
  by (simp_all add: frame_refs_def demo_state_def map_add_Some_iff section_refs_def
      demo_section_def n_frames_def page_aligned_dvd)

section \<open>Properties\<close>

text \<open>
  C7. The pool refines the abstract reference counter: if some frame has count 0,
  \<open>get_free_frame\<close> returns such a frame (page-aligned, at or above 2 MB), its count becomes 1
  and every other count is kept; if there is none it returns 0, changes nothing but the frame
  lock, which it releases. The pool invariant is preserved in both cases.
\<close>

theorem get_free_frame_refines:
  assumes "mm_wf s" and "get_free_frame s = (a, s')"
  shows "mm_wf s' \<and>
    (if \<exists>f. frame_refs s f = Some 0
     then a \<noteq> 0 \<and> 0x200000 \<le> a \<and> page_aligned a \<and> frame_refs s a = Some 0 \<and>
          frame_refs s' = (frame_refs s)(a \<mapsto> 1) \<and> kmem s' = kmem s \<and> frame_lock s' = frame_lock s
     else a = 0 \<and> s' = s\<lparr>frame_lock := 0\<rparr>)"
proof (cases "a = 0")
  case True
  then have "s' = s\<lparr>frame_lock := 0\<rparr>" "\<forall>f. frame_refs s f \<noteq> Some 0"
    using get_free_frame_none [OF assms(1)] assms(2) by (auto simp: unlock_frames_def)
  with True assms(1) show ?thesis by (auto simp: mm_wf_def)
next
  case False
  from get_free_frame_ok [OF assms False] False show ?thesis by auto
qed

theorem get_free_frame_refines_witness:
  "frame_refs demo_state 0x200000 = Some 0 \<and> fst (get_free_frame demo_state) \<noteq> 0 \<and>
   mm_wf (snd (get_free_frame demo_state))"
  using get_free_frame_refines [OF demo_state_wf prod.collapse [symmetric]] demo_refs(1) by metis

text \<open>
  C8. \<open>free_frame\<close> on a frame with count \<open>c + 1\<close> leaves count \<open>c\<close> and every other count as it
  was, keeps the pool invariant, and wipes the frame through the mirror exactly when this was
  the last reference.
\<close>

theorem free_frame_refines:
  assumes "mm_wf s" and "frame_refs s a = Some (Suc c)" and "0x200000 \<le> a"
  shows "mm_wf (free_frame a s) \<and> frame_refs (free_frame a s) = (frame_refs s)(a \<mapsto> c) \<and>
    kmem (free_frame a s) =
      (if c = 0 then memset (physical_to_virtual s a) 0 0x1000 (kmem s) else kmem s)"
  using free_frame_ok [OF assms] by simp

theorem free_frame_refines_witness:
  "frame_refs (free_frame 0x201000 demo_state) 0x201000 = Some 1 \<and>
   kmem (free_frame 0x201000 demo_state) = kmem demo_state"
  using free_frame_refines [OF demo_state_wf, of "0x201000" 1] demo_refs(2) by simp

text \<open>
  C9. No frame is handed out twice and none is lost: as long as at least \<open>n\<close> frames have
  count 0, \<open>n\<close> calls of \<open>get_free_frame\<close> succeed, return \<open>n\<close> different frames that were all
  free before, and exactly those have count 1 afterwards.
\<close>

theorem take_frames_all_distinct:
  assumes "mm_wf s" and "n \<le> card {a. frame_refs s a = Some 0}"
    and "take_frames get_free_frame n s = (as, s')"
  shows "mm_wf s' \<and> length as = n \<and> distinct as \<and> set as \<subseteq> {a. frame_refs s a = Some 0} \<and>
    0 \<notin> set as \<and> frame_refs s' = (\<lambda>a. if a \<in> set as then Some 1 else frame_refs s a)"
  using assms by (rule frames.take_frames_distinct)

theorem take_frames_all_distinct_witness:
  "let (as, s') = take_frames get_free_frame 1 demo_state
   in length as = 1 \<and> set as \<subseteq> {a. frame_refs demo_state a = Some 0}"
proof -
  obtain as s' where t: "take_frames get_free_frame 1 demo_state = (as, s')" by fastforce
  have "{a. frame_refs demo_state a = Some 0} \<noteq> {}" using demo_refs(1) by blast
  then have "1 \<le> card {a. frame_refs demo_state a = Some 0}"
    by (metis One_nat_def Suc_leI card_gt_0_iff finite)
  from take_frames_all_distinct [OF demo_state_wf this t] show ?thesis
    unfolding t Let_def prod.case by blast
qed

text \<open>
  Taking a frame and freeing it at once restores every reference count.
\<close>

theorem get_then_free_restores:
  assumes "mm_wf s" and "get_free_frame s = (a, s')" and "a \<noteq> 0"
  shows "mm_wf (free_frame a s') \<and> frame_refs (free_frame a s') = frame_refs s"
  using frames.get_free_roundtrip [OF assms] by simp

theorem get_then_free_restores_witness:
  "let (a, s') = get_free_frame demo_state
   in a = 0x200000 \<and> frame_refs (free_frame a s') = frame_refs demo_state"
proof -
  obtain s' where g: "get_free_frame demo_state = (0x200000, s')"
    by (simp add: get_free_frame_def demo_state_def demo_section_def take_head_def)
  show ?thesis using get_then_free_restores [OF demo_state_wf g] by (simp add: g)
qed

end
