(* ===== verification/Cpu.thy ===== *)
theory Cpu
  imports Frame_Pool
begin

text \<open>
  Processors, inter-processor interrupts and the TLB shootdown: \<open>kernel/cpus/cpu_mgmt.c\<close> and
  \<open>kernel/cpus/ipi.c\<close>. The \<open>cpus\<close> array is a KCLib container, so it has an abstract type
  and its operations are fields of the environment record; so are the reaction of a remote
  processor to an IPI and the scheduler that \<open>IPI_RUN_SCHEDULER\<close> enters. Locks are words:
  taking a held lock never returns (\<open>None\<close>).
\<close>

section \<open>Data\<close>

record registers =
  r15 :: u64  r14 :: u64  r13 :: u64  r12 :: u64  r11 :: u64  r10 :: u64  r9 :: u64
  r8 :: u64  rbp :: u64  rcx :: u64  rbx :: u64  rdx :: u64  rsi :: u64  rdi :: u64
  r_es :: u64  r_ds :: u64  r_fs :: u64  rax :: u64  r_type :: u64  r_ecode :: u64
  rip :: u64  r_cs :: u64  rflags :: u64  uesp :: u64  r_ss :: u64

record 'q cpu =
  syscall_stack :: u64
  cpu_stack :: u64
  handler_stack :: u64
  pf_stack :: u64
  df_stack :: u64
  ipi_stack :: u64
  insert_id :: u64
  processor_id :: u64
  apic_id :: u8
  current_address_space :: u64
  cpu_lock :: u64
  ipi_lock :: u64
  message_clear_lock :: u64
  apic_message :: u64
  apic_message2 :: u64
  apic_message3 :: u64
  apic_message_handled :: bool
  apic_message_type :: u8
  apic_message_cpu :: "nat option"
  cpu_sched_lock :: u64
  ct :: "nat option"
  priority_0 :: 'q
  priority_1 :: 'q
  priority_2 :: 'q
  priority_3 :: 'q
  priority_4 :: 'q
  started :: bool

text \<open>
  \<open>cpu_at\<close> is the store of the \<open>cpu_t\<close> objects, \<open>current_cpu\<close> the one gs points to;
  \<open>lapic_id_reg\<close> and \<open>icr_log\<close> are the local APIC's id register and the (address, payload)
  pairs written to its command register; \<open>invlpg_log\<close> lists the invalidated addresses.
\<close>

record ('arr, 'q) smp_state = mm_state +
  cpus :: 'arr
  cpu_at :: "nat \<Rightarrow> 'q cpu"
  current_cpu :: nat
  apicaddr :: u32
  lapic_id_reg :: u32
  icr_log :: "(u32 \<times> u32) list"
  tlb_lock :: u64
  tlb_shootdown_processor :: u64
  tlb_shootdown_counter :: u64
  invlpg_log :: "u64 list"

record ('arr, 's) smp_env =
  array_get_size :: "'arr \<Rightarrow> nat"
  array_get_at :: "'arr \<Rightarrow> nat \<Rightarrow> nat"
  array_find_by_pred :: "'arr \<Rightarrow> (nat \<Rightarrow> bool) \<Rightarrow> nat option"
  array_push_data :: "'arr \<Rightarrow> nat \<Rightarrow> 'arr"
  remote_ipi :: "nat \<Rightarrow> 's \<Rightarrow> 's option"
  ipi_schedule :: "registers option \<Rightarrow> 's \<Rightarrow> (registers option \<times> 's) option"

definition IPI_HALT_IMMEDIATELLY :: u8 where "IPI_HALT_IMMEDIATELLY = 0"
definition IPI_WAKE_UP_FROM_WUA :: u8 where "IPI_WAKE_UP_FROM_WUA = 1"
definition IPI_INVALIDATE_PAGE :: u8 where "IPI_INVALIDATE_PAGE = 2"
definition IPI_INVLD_PML :: u8 where "IPI_INVLD_PML = 3"
definition IPI_RUN_SCHEDULER :: u8 where "IPI_RUN_SCHEDULER = 4"

lemmas ipi_type_defs = IPI_HALT_IMMEDIATELLY_def IPI_WAKE_UP_FROM_WUA_def IPI_INVALIDATE_PAGE_def
  IPI_INVLD_PML_def IPI_RUN_SCHEDULER_def

section \<open>Operations\<close>

definition upd_cpu :: "nat \<Rightarrow> ('q cpu \<Rightarrow> 'q cpu) \<Rightarrow> ('arr, 'q, 'z) smp_state_scheme
    \<Rightarrow> ('arr, 'q, 'z) smp_state_scheme" where
  "upd_cpu c f s = s\<lparr>cpu_at := (cpu_at s)(c := f (cpu_at s c))\<rparr>"

definition search_for_cpu_by_apic :: "('arr, 'q, 'z) smp_state_scheme \<Rightarrow> u8 \<Rightarrow> nat \<Rightarrow> bool" where
  "search_for_cpu_by_apic s d c \<longleftrightarrow> apic_id (cpu_at s c) = d"

definition get_local_processor_id :: "('arr, 'q, 'z) smp_state_scheme \<Rightarrow> u8" where
  "get_local_processor_id s = ucast (processor_id (cpu_at s (current_cpu s)))"

definition get_local_apic_id :: "('arr, 'q, 'z) smp_state_scheme \<Rightarrow> u8" where
  "get_local_apic_id s =
     (if apicaddr s = 0 then 0 else ucast (drop_bit 24 (lapic_id_reg s)))"

definition send_ipi_to :: "u8 \<Rightarrow> u8 \<Rightarrow> u32 \<Rightarrow> bool \<Rightarrow> ('arr, 'q, 'z) smp_state_scheme
    \<Rightarrow> ('arr, 'q, 'z) smp_state_scheme" where
  "send_ipi_to apic vector control_flags init_ipi s =
     (let payload0 = (ucast vector :: u32);
          payload1 = (if \<not> init_ipi then payload0 OR push_bit 14 1 else payload0);
          payload = payload1 OR control_flags
      in s\<lparr>icr_log := icr_log s @ [(push_bit 24 (ucast apic), payload)]\<rparr>)"

definition invalidate_pages :: "u64 \<Rightarrow> u64 \<Rightarrow> ('arr, 'q, 'z) smp_state_scheme
    \<Rightarrow> ('arr, 'q, 'z) smp_state_scheme option" where
  "invalidate_pages from to s =
     map_option (\<lambda>r. case r of Inl x \<Rightarrow> x | Inr x \<Rightarrow> x)
       (for_pages (\<lambda>i s. Some (Inr (s\<lparr>invlpg_log := invlpg_log s @ [i]\<rparr>))) from to s)"

text \<open>
  The \<open>IPI_INVALIDATE_PAGE\<close> case: a processor that did not start the shootdown waits, with the
  page table active, until the counter is reset; seen from this processor alone that wait ends
  only if the counter is already 0, otherwise it is \<open>None\<close>.
\<close>

definition ipi_invalidate :: "('arr, 'q, 'z) smp_state_scheme \<Rightarrow> ('arr, 'q, 'z) smp_state_scheme option" where
  "ipi_invalidate s =
     (let c = cpu_at s (current_cpu s)
      in if active_page s = apic_message3 c then
           do { s1 \<leftarrow> invalidate_pages (apic_message c) (apic_message c + apic_message2 c) s;
                let s2 = s1\<lparr>tlb_shootdown_counter := tlb_shootdown_counter s1 + 1\<rparr>;
                (if tlb_shootdown_processor s2 \<noteq> ucast (get_local_apic_id s2)
                    \<and> tlb_shootdown_counter s2 \<noteq> 0 then None else Some s2) }
         else Some (s\<lparr>tlb_shootdown_counter := tlb_shootdown_counter s + 1\<rparr>))"

definition ipi_received :: "('arr, ('arr, 'q, 'z) smp_state_scheme) smp_env \<Rightarrow> registers option
    \<Rightarrow> ('arr, 'q, 'z) smp_state_scheme \<Rightarrow> (registers option \<times> ('arr, 'q, 'z) smp_state_scheme) option" where
  "ipi_received E r s =
     do { let me = current_cpu s;
          let c = cpu_at s me;
          let t = apic_message_type c;
          (r', s1) \<leftarrow>
            (if t = IPI_HALT_IMMEDIATELLY then None
             else if t = IPI_WAKE_UP_FROM_WUA then
               (case r of None \<Rightarrow> None | Some x \<Rightarrow> Some (Some (x\<lparr>rax := apic_message c\<rparr>), s))
             else if t = IPI_INVALIDATE_PAGE then map_option (Pair r) (ipi_invalidate s)
             else if t = IPI_INVLD_PML then
               Some (r, if active_page s = apic_message c then s\<lparr>active_page := active_page s\<rparr> else s)
             else if t = IPI_RUN_SCHEDULER then ipi_schedule E r s
             else Some (r, s));
          if message_clear_lock (cpu_at s1 me) \<noteq> 0 then None
          else Some (r', upd_cpu me (\<lambda>c. c\<lparr>apic_message_handled := False, message_clear_lock := 0\<rparr>) s1) }"

definition set_message :: "u8 \<Rightarrow> u64 \<Rightarrow> u64 \<Rightarrow> u64 \<Rightarrow> 'q cpu \<Rightarrow> 'q cpu" where
  "set_message t m m2 m3 c = c\<lparr>apic_message_type := t, apic_message := m, apic_message2 := m2,
     apic_message3 := m3\<rparr>"

definition send_ipi_self :: "('arr, ('arr, 'q, 'z) smp_state_scheme) smp_env \<Rightarrow> nat \<Rightarrow> nat \<Rightarrow> u8
    \<Rightarrow> u64 \<Rightarrow> u64 \<Rightarrow> u64 \<Rightarrow> registers option \<Rightarrow> ('arr, 'q, 'z) smp_state_scheme
    \<Rightarrow> (registers option \<times> ('arr, 'q, 'z) smp_state_scheme) option" where
  "send_ipi_self E c sender t m m2 m3 r s =
     (if ipi_lock (cpu_at s c) \<noteq> 0 then None
      else do { let s1 = upd_cpu c (\<lambda>k. (set_message t m m2 m3 k)\<lparr>ipi_lock := 1,
                          apic_message_handled := True, apic_message_cpu := Some sender\<rparr>) s;
                (r', s2) \<leftarrow> ipi_received E r s1;
                Some (r', upd_cpu c (\<lambda>k. k\<lparr>ipi_lock := 0\<rparr>) s2) })"

definition send_ipi_message :: "('arr, ('arr, 'q, 'z) smp_state_scheme) smp_env \<Rightarrow> u8 \<Rightarrow> u8
    \<Rightarrow> u64 \<Rightarrow> u64 \<Rightarrow> u64 \<Rightarrow> registers option \<Rightarrow> ('arr, 'q, 'z) smp_state_scheme
    \<Rightarrow> (registers option \<times> ('arr, 'q, 'z) smp_state_scheme) option" where
  "send_ipi_message E apic t m m2 m3 r s =
     (case array_find_by_pred E (cpus s) (search_for_cpu_by_apic s apic) of
        None \<Rightarrow> Some (r, s)
      | Some c \<Rightarrow>
          if apic = get_local_apic_id s then send_ipi_self E c c t m m2 m3 r s
          else if \<not> started (cpu_at s c) then Some (r, s)
          else if ipi_lock (cpu_at s c) \<noteq> 0 \<or> message_clear_lock (cpu_at s c) \<noteq> 0 then None
          else do { let s1 = upd_cpu c (\<lambda>k. (set_message t m m2 m3 k)\<lparr>ipi_lock := 1,
                         apic_message_handled := True, apic_message_cpu := Some (current_cpu s)\<rparr>) s;
                    let s2 = send_ipi_to (apic_id (cpu_at s1 c)) 0xFF 0 False s1;
                    s3 \<leftarrow> remote_ipi E c s2;
                    (if apic_message_handled (cpu_at s3 c) then None
                     else Some (r, upd_cpu c (\<lambda>k. k\<lparr>ipi_lock := 0\<rparr>) s3)) })"

definition send_ipi_nowait :: "('arr, ('arr, 'q, 'z) smp_state_scheme) smp_env \<Rightarrow> u8 \<Rightarrow> u8
    \<Rightarrow> u64 \<Rightarrow> u64 \<Rightarrow> u64 \<Rightarrow> registers option \<Rightarrow> ('arr, 'q, 'z) smp_state_scheme
    \<Rightarrow> (registers option \<times> ('arr, 'q, 'z) smp_state_scheme) option" where
  "send_ipi_nowait E apic t m m2 m3 r s =
     (case array_find_by_pred E (cpus s) (search_for_cpu_by_apic s apic) of
        None \<Rightarrow> Some (r, s)
      | Some c \<Rightarrow>
          if apic = get_local_apic_id s then send_ipi_self E c (current_cpu s) t m m2 m3 r s
          else if \<not> started (cpu_at s c) then Some (r, s)
          else if ipi_lock (cpu_at s c) \<noteq> 0 then None
          else let s1 = upd_cpu c (set_message t m m2 m3) s;
                   s2 = send_ipi_to (apic_id (cpu_at s1 c)) 0xFF 0 False s1
               in Some (r, upd_cpu c (\<lambda>k. k\<lparr>ipi_lock := 0\<rparr>) s2))"

primrec broadcast_loop :: "('arr, ('arr, 'q, 'z) smp_state_scheme) smp_env \<Rightarrow> u8 \<Rightarrow> u8
    \<Rightarrow> u64 \<Rightarrow> u64 \<Rightarrow> u64 \<Rightarrow> nat list \<Rightarrow> ('arr, 'q, 'z) smp_state_scheme
    \<Rightarrow> ('arr, 'q, 'z) smp_state_scheme option" where
  "broadcast_loop E self_apic t m m2 m3 [] s = Some s"
| "broadcast_loop E self_apic t m m2 m3 (i # is) s =
     (let c = cpu_at s (array_get_at E (cpus s) i)
      in if apic_id c \<noteq> self_apic then
           do { (_, s') \<leftarrow> send_ipi_message E (apic_id c) t m m2 m3 None s;
                broadcast_loop E self_apic t m m2 m3 is s' }
         else broadcast_loop E self_apic t m m2 m3 is s)"

definition broadcast_ipi_message :: "('arr, ('arr, 'q, 'z) smp_state_scheme) smp_env \<Rightarrow> bool \<Rightarrow> u8
    \<Rightarrow> u64 \<Rightarrow> u64 \<Rightarrow> u64 \<Rightarrow> registers option \<Rightarrow> ('arr, 'q, 'z) smp_state_scheme
    \<Rightarrow> (registers option \<times> ('arr, 'q, 'z) smp_state_scheme) option" where
  "broadcast_ipi_message E self t m m2 m3 r s =
     do { s1 \<leftarrow> broadcast_loop E (get_local_apic_id s) t m m2 m3 [0..<array_get_size E (cpus s)] s;
          if self then send_ipi_message E (get_local_apic_id s) t m m2 m3 r s1 else Some (r, s1) }"

definition initialize_ipi_subsystem :: "('arr, 'q, 'z) smp_state_scheme \<Rightarrow> ('arr, 'q, 'z) smp_state_scheme" where
  "initialize_ipi_subsystem s = s\<lparr>tlb_shootdown_processor := 0, tlb_shootdown_counter := 0\<rparr>"

text \<open>
  The wait at the end of \<open>tlb_shootdown\<close> compares the counter with the number of processors;
  only a processor that received the message increments it.
\<close>

definition tlb_shootdown :: "('arr, ('arr, 'q, 'z) smp_state_scheme) smp_env \<Rightarrow> u64 \<Rightarrow> u64 \<Rightarrow> u64
    \<Rightarrow> ('arr, 'q, 'z) smp_state_scheme \<Rightarrow> ('arr, 'q, 'z) smp_state_scheme option" where
  "tlb_shootdown E cr3 from amount s =
     (if tlb_lock s \<noteq> 0 then None
      else do { let s1 = s\<lparr>tlb_lock := 1, tlb_shootdown_processor := ucast (get_local_apic_id s)\<rparr>;
                (_, s2) \<leftarrow> send_ipi_message E (get_local_apic_id s1) IPI_INVALIDATE_PAGE from amount cr3 None s1;
                (if tlb_shootdown_counter s2 \<noteq> of_nat (array_get_size E (cpus s2)) then None
                 else Some s2) })"

definition tlb_shootdown_end :: "('arr, 'q, 'z) smp_state_scheme \<Rightarrow> ('arr, 'q, 'z) smp_state_scheme" where
  "tlb_shootdown_end s = s\<lparr>tlb_shootdown_counter := 0, tlb_lock := 0\<rparr>"

section \<open>What a shootdown does\<close>

lemma invalidate_pages_spec:
  assumes "unat to + 4096 \<le> 18446744073709551616"
  shows "\<exists>n. invalidate_pages from to s =
      Some (s\<lparr>invlpg_log := invlpg_log s @ map (\<lambda>k. from + of_nat k * 0x1000) [0..<n]\<rparr>)
    \<and> (\<forall>k. unat from + k * 4096 < unat to \<longrightarrow> k < n)"
proof -
  let ?body = "\<lambda>i s. Some (Inr (s\<lparr>invlpg_log := invlpg_log s @ [i]\<rparr>)) ::
    (('a, 'b, 'c) smp_state_scheme + ('a, 'b, 'c) smp_state_scheme) option"
  let ?P = "\<lambda>a s'. \<exists>n. a = from + of_nat n * 0x1000 \<and> unat a = unat from + n * 4096 \<and>
    s' = s\<lparr>invlpg_log := invlpg_log s @ map (\<lambda>k. from + of_nat k * 0x1000) [0..<n]\<rparr>"
  have init: "?P from s" by (intro exI [of _ 0]) simp
  have step: "\<exists>s''. ?body a s' = Some (Inr s'') \<and> ?P (a + 0x1000) s''"
    if "a < to" "?P a s'" for a s'
  proof -
    from that(2) obtain n where n: "a = from + of_nat n * 0x1000" "unat a = unat from + n * 4096"
      "s' = s\<lparr>invlpg_log := invlpg_log s @ map (\<lambda>k. from + of_nat k * 0x1000) [0..<n]\<rparr>" by blast
    have "unat (a + 0x1000) = unat a + 4096"
      using that(1) assms by (subst unat_add_no_wrap) (simp_all add: word_less_nat_alt)
    then have "unat (a + 0x1000) = unat from + Suc n * 4096" using n(2) by simp
    moreover have "a + 0x1000 = from + of_nat (Suc n) * 0x1000"
      unfolding n(1) by (simp add: algebra_simps)
    moreover have "?body a s' = Some (Inr (s\<lparr>invlpg_log := invlpg_log s @
        map (\<lambda>k. from + of_nat k * 0x1000) [0..<Suc n]\<rparr>))"
      unfolding n(3) by (simp add: n(1))
    ultimately show ?thesis by blast
  qed
  have "(\<exists>r. for_pages ?body from to s = Some (Inl r) \<and> False) \<or>
      (\<exists>a s'. for_pages ?body from to s = Some (Inr s') \<and> \<not> a < to \<and> ?P a s')"
    by (rule for_pages_rule [OF assms, where P = ?P and Q = "\<lambda>_. False", OF init])
      (rule disjI2, rule step)
  then obtain a s' where "for_pages ?body from to s = Some (Inr s')" "\<not> a < to" "?P a s'"
    by (elim disjE exE conjE) simp_all
  then show ?thesis
    by (auto simp: invalidate_pages_def word_less_nat_alt)
qed

text \<open>The machine the code works on: one processor, no lock held, no shootdown under way.\<close>

definition one_cpu :: "('arr, ('arr, 'q, 'z) smp_state_scheme) smp_env
    \<Rightarrow> ('arr, 'q, 'z) smp_state_scheme \<Rightarrow> bool" where
  "one_cpu E s \<longleftrightarrow> array_get_size E (cpus s) = 1 \<and> tlb_lock s = 0 \<and> tlb_shootdown_counter s = 0 \<and>
     apic_id (cpu_at s (current_cpu s)) = get_local_apic_id s \<and>
     (\<forall>P. P (current_cpu s) \<longrightarrow> array_find_by_pred E (cpus s) P = Some (current_cpu s)) \<and>
     ipi_lock (cpu_at s (current_cpu s)) = 0 \<and> message_clear_lock (cpu_at s (current_cpu s)) = 0"

definition same_memory :: "('arr, 'q, 'z) smp_state_scheme \<Rightarrow> ('arr, 'q, 'z) smp_state_scheme \<Rightarrow> bool" where
  "same_memory s s' \<longleftrightarrow> mm_state.truncate s = mm_state.truncate s'"

lemma get_local_apic_id_update [simp]:
  "get_local_apic_id (s\<lparr>tlb_lock := x\<rparr>) = get_local_apic_id s"
  "get_local_apic_id (s\<lparr>tlb_shootdown_processor := x\<rparr>) = get_local_apic_id s"
  "get_local_apic_id (s\<lparr>tlb_shootdown_counter := x\<rparr>) = get_local_apic_id s"
  "get_local_apic_id (s\<lparr>invlpg_log := l\<rparr>) = get_local_apic_id s"
  "get_local_apic_id (s\<lparr>cpu_at := cs\<rparr>) = get_local_apic_id s"
  by (simp_all add: get_local_apic_id_def)

lemma tlb_shootdown_one_cpu:
  assumes "one_cpu E s" and "unat from + unat amount + 4096 \<le> 18446744073709551616"
  obtains s' where "tlb_shootdown E cr3 from amount s = Some s'" "same_memory s' s"
    "one_cpu E (tlb_shootdown_end s')" "tlb_lock s' = 1"
    "active_page s = cr3 \<Longrightarrow> \<forall>k. k * 4096 < unat amount \<longrightarrow> from + of_nat k * 0x1000 \<in> set (invlpg_log s')"
proof -
  have to: "unat (from + amount) = unat from + unat amount"
    using assms(2) by (subst unat_add_no_wrap) simp_all
  then have room: "unat (from + amount) + 4096 \<le> 18446744073709551616" using assms(2) by simp
  let ?me = "current_cpu s"
  define s1 where "s1 = upd_cpu ?me (\<lambda>k. (set_message IPI_INVALIDATE_PAGE from amount cr3 k)
      \<lparr>ipi_lock := 1, apic_message_handled := True, apic_message_cpu := Some ?me\<rparr>)
      (s\<lparr>tlb_lock := 1, tlb_shootdown_processor := ucast (get_local_apic_id s)\<rparr>)"
  obtain n where n: "invalidate_pages from (from + amount) s1 =
      Some (s1\<lparr>invlpg_log := invlpg_log s1 @ map (\<lambda>k. from + of_nat k * 0x1000) [0..<n]\<rparr>)"
    "\<forall>k. unat from + k * 4096 < unat (from + amount) \<longrightarrow> k < n"
    using invalidate_pages_spec [OF room] by blast
  define l where "l = (if active_page s = cr3 then map (\<lambda>k. from + of_nat k * 0x1000) [0..<n] else [])"
  define s2 where "s2 = s1\<lparr>invlpg_log := invlpg_log s1 @ l, tlb_shootdown_counter := 1\<rparr>"
  have c1: "cpu_at s1 ?me = (set_message IPI_INVALIDATE_PAGE from amount cr3 (cpu_at s ?me))
      \<lparr>ipi_lock := 1, apic_message_handled := True, apic_message_cpu := Some ?me\<rparr>"
    by (simp add: s1_def upd_cpu_def)
  have fields1: "current_cpu s1 = ?me" "active_page s1 = active_page s" "apicaddr s1 = apicaddr s"
    "lapic_id_reg s1 = lapic_id_reg s" "tlb_shootdown_counter s1 = tlb_shootdown_counter s"
    "tlb_shootdown_processor s1 = ucast (get_local_apic_id s)" "cpus s1 = cpus s"
    by (simp_all add: s1_def upd_cpu_def)
  have inv: "ipi_invalidate s1 = Some s2"
    using assms(1) n(1)
    by (simp add: ipi_invalidate_def Let_def c1 fields1 set_message_def s2_def l_def one_cpu_def
        s1_def upd_cpu_def)
  define s3 where "s3 = upd_cpu ?me (\<lambda>c. c\<lparr>apic_message_handled := False, message_clear_lock := 0,
      ipi_lock := 0\<rparr>) s2"
  have rec: "ipi_received E None s1 =
      Some (None, upd_cpu ?me (\<lambda>c. c\<lparr>apic_message_handled := False, message_clear_lock := 0\<rparr>) s2)"
    using assms(1) inv
    by (simp add: ipi_received_def Let_def fields1 c1 set_message_def ipi_type_defs one_cpu_def
        s2_def)
  have "send_ipi_message E (get_local_apic_id s) IPI_INVALIDATE_PAGE from amount cr3 None
      (s\<lparr>tlb_lock := 1, tlb_shootdown_processor := ucast (get_local_apic_id s)\<rparr>) = Some (None, s3)"
    using assms(1) rec
    by (simp add: send_ipi_message_def send_ipi_self_def one_cpu_def search_for_cpu_by_apic_def
        s1_def s3_def upd_cpu_def)
  then have run: "tlb_shootdown E cr3 from amount s = Some s3"
    using assms(1)
    by (simp add: tlb_shootdown_def one_cpu_def Let_def
        s3_def s2_def upd_cpu_def fields1)
  have s3: "s3 = s\<lparr>tlb_lock := 1, tlb_shootdown_processor := ucast (get_local_apic_id s),
      invlpg_log := invlpg_log s @ l, tlb_shootdown_counter := 1,
      cpu_at := (cpu_at s)(?me := (set_message IPI_INVALIDATE_PAGE from amount cr3 (cpu_at s ?me))
        \<lparr>apic_message_cpu := Some ?me, apic_message_handled := False, message_clear_lock := 0,
         ipi_lock := 0\<rparr>)\<rparr>"
    by (simp add: s3_def s2_def s1_def upd_cpu_def)
  show thesis
  proof (rule that [OF run])
    show "same_memory s3 s" by (simp add: same_memory_def s3 mm_state.defs)
    show "one_cpu E (tlb_shootdown_end s3)"
      using assms(1)
      by (simp add: one_cpu_def tlb_shootdown_end_def s3 set_message_def)
    show "tlb_lock s3 = 1" by (simp add: s3)
    show "\<forall>k. k * 4096 < unat amount \<longrightarrow> from + of_nat k * 0x1000 \<in> set (invlpg_log s3)"
      if "active_page s = cr3"
      using n(2) that by (auto simp: s3 l_def to)
  qed
qed

lemma invalidate_pages_frame:
  assumes "invalidate_pages from to s = Some s'"
  shows "\<exists>l. s' = s\<lparr>invlpg_log := l\<rparr>"
proof -
  let ?body = "\<lambda>i s. Some (Inr (s\<lparr>invlpg_log := invlpg_log s @ [i]\<rparr>)) ::
    (('a, 'b, 'c) smp_state_scheme + ('a, 'b, 'c) smp_state_scheme) option"
  obtain r where r: "for_pages ?body from to s = Some r" "s' = (case r of Inl x \<Rightarrow> x | Inr x \<Rightarrow> x)"
    using assms by (auto simp: invalidate_pages_def)
  have "\<exists>l. s = s\<lparr>invlpg_log := l\<rparr>" by (intro exI [of _ "invlpg_log s"]) simp
  then have "case r of Inl x \<Rightarrow> False | Inr s' \<Rightarrow> \<exists>l. s' = s\<lparr>invlpg_log := l\<rparr>"
    by (rule for_pages_partial [OF r(1)]) auto
  then show ?thesis using r(2) by (auto split: sum.splits)
qed

lemma ipi_invalidate_counter:
  assumes "ipi_invalidate s = Some s'"
  shows "tlb_shootdown_counter s' = tlb_shootdown_counter s + 1 \<and> cpus s' = cpus s"
  using assms
  by (auto simp: ipi_invalidate_def Let_def bind_eq_Some_conv dest!: invalidate_pages_frame split: if_splits)

lemma ipi_received_counter:
  assumes "ipi_received E r s = Some (r', s')"
    and "apic_message_type (cpu_at s (current_cpu s)) = IPI_INVALIDATE_PAGE"
  shows "tlb_shootdown_counter s' = tlb_shootdown_counter s + 1 \<and> cpus s' = cpus s"
  using assms
  by (auto simp: ipi_received_def Let_def ipi_type_defs bind_eq_Some_conv upd_cpu_def
      dest!: ipi_invalidate_counter split: if_splits)

lemma send_ipi_self_counter:
  assumes "send_ipi_message E (get_local_apic_id s) IPI_INVALIDATE_PAGE m m2 m3 r s = Some (r', s')"
    and "\<And>c. array_find_by_pred E (cpus s) (search_for_cpu_by_apic s (get_local_apic_id s)) = Some c
           \<Longrightarrow> c = current_cpu s"
  shows "cpus s' = cpus s \<and> (tlb_shootdown_counter s' = tlb_shootdown_counter s \<or>
    tlb_shootdown_counter s' = tlb_shootdown_counter s + 1)"
proof (cases "array_find_by_pred E (cpus s) (search_for_cpu_by_apic s (get_local_apic_id s))")
  case None
  with assms(1) show ?thesis by (simp add: send_ipi_message_def)
next
  case (Some c)
  then have c: "c = current_cpu s" by (rule assms(2))
  define s1 where "s1 = upd_cpu c (\<lambda>k. (set_message IPI_INVALIDATE_PAGE m m2 m3 k)
      \<lparr>ipi_lock := 1, apic_message_handled := True, apic_message_cpu := Some c\<rparr>) s"
  have "send_ipi_self E c c IPI_INVALIDATE_PAGE m m2 m3 r s = Some (r', s')"
    using assms(1) Some by (simp add: send_ipi_message_def)
  then obtain s2 where s2: "ipi_received E r s1 = Some (r', s2)"
      "s' = upd_cpu c (\<lambda>k. k\<lparr>ipi_lock := 0\<rparr>) s2"
    by (auto simp: send_ipi_self_def Let_def bind_eq_Some_conv s1_def split: if_splits)
  have "apic_message_type (cpu_at s1 (current_cpu s1)) = IPI_INVALIDATE_PAGE"
    by (simp add: s1_def upd_cpu_def set_message_def c)
  from ipi_received_counter [OF s2(1) this] show ?thesis
    by (simp add: s2(2) s1_def upd_cpu_def)
qed

text \<open>
  C10. On a machine with one processor, no lock held and no shootdown under way,
  \<open>tlb_shootdown\<close> returns with the shootdown lock taken, has invalidated every page of the
  range when the page table is the active one, leaves all memory management state alone, and
  \<open>tlb_shootdown_end\<close> brings the processor back to the state in which the next one can start.
\<close>

theorem tlb_shootdown_single_cpu:
  assumes "one_cpu E s" and "unat from + unat amount + 4096 \<le> 18446744073709551616"
  shows "\<exists>s'. tlb_shootdown E cr3 from amount s = Some s' \<and> tlb_lock s' = 1 \<and> same_memory s' s \<and>
    one_cpu E (tlb_shootdown_end s') \<and>
    (active_page s = cr3 \<longrightarrow>
      (\<forall>k. k * 4096 < unat amount \<longrightarrow> from + of_nat k * 0x1000 \<in> set (invlpg_log s')))"
  using tlb_shootdown_one_cpu [OF assms] by metis

text \<open>A list-backed processor array, a silent remote processor and a scheduler that returns.\<close>

definition demo_env :: "(nat list, (nat list, nat list) smp_state) smp_env" where
  "demo_env = \<lparr>array_get_size = length, array_get_at = (!), array_find_by_pred = (\<lambda>a P. find P a),
     array_push_data = (\<lambda>a x. a @ [x]), remote_ipi = (\<lambda>_. Some), ipi_schedule = (\<lambda>r s. Some (r, s))\<rparr>"

definition demo_cpu :: "nat list cpu" where
  "demo_cpu = \<lparr>syscall_stack = 0, cpu_stack = 0, handler_stack = 0, pf_stack = 0, df_stack = 0,
     ipi_stack = 0, insert_id = 0, processor_id = 0, apic_id = 0, current_address_space = 0,
     cpu_lock = 0, ipi_lock = 0, message_clear_lock = 0, apic_message = 0, apic_message2 = 0,
     apic_message3 = 0, apic_message_handled = False, apic_message_type = 0, apic_message_cpu = None,
     cpu_sched_lock = 0, ct = None, priority_0 = [], priority_1 = [], priority_2 = [],
     priority_3 = [], priority_4 = [], started = True\<rparr>"

definition demo_smp :: "nat list \<Rightarrow> (nat list, nat list) smp_state" where
  "demo_smp cs = mm_state.extend demo_state
     \<lparr>cpus = cs, cpu_at = (\<lambda>c. demo_cpu\<lparr>apic_id := of_nat c\<rparr>), current_cpu = 0, apicaddr = 0xFEE00000,
      lapic_id_reg = 0, icr_log = [], tlb_lock = 0, tlb_shootdown_processor = 0,
      tlb_shootdown_counter = 0, invlpg_log = []\<rparr>"

lemma demo_one_cpu: "one_cpu demo_env (demo_smp [0])"
  by (simp add: one_cpu_def demo_env_def demo_smp_def demo_state_def mm_state.defs
      get_local_apic_id_def demo_cpu_def)

theorem tlb_shootdown_single_cpu_witness:
  "\<exists>s'. tlb_shootdown demo_env 0x100000 0x400000 0x2000 (demo_smp [0]) = Some s' \<and> tlb_lock s' = 1"
  using tlb_shootdown_single_cpu [OF demo_one_cpu, of "0x400000" "0x2000" "0x100000"] by auto

text \<open>
  C11. With two or more processors \<open>tlb_shootdown\<close> never returns: the message goes to the
  calling processor only, so the counter reaches at most 1 while the wait is for the number
  of processors.
\<close>

theorem tlb_shootdown_smp_never_returns:
  assumes "tlb_shootdown_counter s = 0"
    and "\<And>c. array_find_by_pred E (cpus s) (search_for_cpu_by_apic s (get_local_apic_id s)) = Some c
           \<Longrightarrow> c = current_cpu s"
    and "2 \<le> array_get_size E (cpus s)" and "array_get_size E (cpus s) < 18446744073709551616"
  shows "tlb_shootdown E cr3 from amount s = None"
proof (rule ccontr)
  let ?s1 = "s\<lparr>tlb_lock := 1, tlb_shootdown_processor := ucast (get_local_apic_id s)\<rparr>"
  assume "tlb_shootdown E cr3 from amount s \<noteq> None"
  then obtain r s2 where s2: "tlb_shootdown_counter s2 = of_nat (array_get_size E (cpus s2))"
    and send: "send_ipi_message E (get_local_apic_id ?s1) IPI_INVALIDATE_PAGE from amount cr3 None ?s1
      = Some (r, s2)"
    by (auto simp: tlb_shootdown_def Let_def bind_eq_Some_conv split: if_splits)
  have "search_for_cpu_by_apic ?s1 = search_for_cpu_by_apic s"
    by (simp add: search_for_cpu_by_apic_def fun_eq_iff)
  then have "cpus s2 = cpus ?s1 \<and> (tlb_shootdown_counter s2 = tlb_shootdown_counter ?s1 \<or>
      tlb_shootdown_counter s2 = tlb_shootdown_counter ?s1 + 1)"
    using send_ipi_self_counter [OF send] assms(2) by simp
  with assms(1)
  have "cpus s2 = cpus s" "tlb_shootdown_counter s2 = 0 \<or> tlb_shootdown_counter s2 = 1"
    by simp_all
  then have "array_get_size E (cpus s) \<le> 1"
    using unat_of_nat_u64 [OF assms(4)] s2 by auto
  with assms(3) show False by simp
qed

theorem tlb_shootdown_smp_never_returns_witness:
  "tlb_shootdown demo_env 0x100000 0x400000 0x1000 (demo_smp [0, 1]) = None"
  by (rule tlb_shootdown_smp_never_returns)
    (auto simp: demo_env_def demo_smp_def demo_state_def demo_cpu_def mm_state.defs
      search_for_cpu_by_apic_def get_local_apic_id_def)

end
