(* ===== verification/Paging.thy ===== *)
theory Paging
  imports Cpu "HOL-Library.Sublist"
begin

text \<open>
  Four-level x86-64 page tables, as \<open>kernel/memory/paging.c\<close> walks and builds them in the
  byte store through the memory mirror. A table is the page at the kernel address of its
  frame; an entry pointer (\<open>puint_t*\<close>) is the address of the entry, NULL is \<open>None\<close>.
  Functions that take the frame lock or start a TLB shootdown may fail to return and are
  partial (\<open>None\<close>).
\<close>

section \<open>Addresses and entries\<close>

definition va_offset :: "u64 \<Rightarrow> u64" where "va_offset va = field_get 0 12 va"
definition va_table :: "u64 \<Rightarrow> u64" where "va_table va = field_get 12 9 va"
definition va_directory :: "u64 \<Rightarrow> u64" where "va_directory va = field_get 21 9 va"
definition va_directory_ptr :: "u64 \<Rightarrow> u64" where "va_directory_ptr va = field_get 30 9 va"
definition va_pml :: "u64 \<Rightarrow> u64" where "va_pml va = field_get 39 9 va"

definition PRESENT :: "u64 \<Rightarrow> bool" where
  "PRESENT x \<longleftrightarrow> x AND 1 \<noteq> 0"

text \<open>
  Bit fields of the unions \<open>page_t\<close>, \<open>page_table_t\<close>, \<open>page_directory_t\<close> and \<open>pdpt_t\<close>: the
  three low flags have the same offset in all of them.
\<close>

definition set_present :: "bool \<Rightarrow> u64 \<Rightarrow> u64" where
  "set_present b = field_set 0 1 (bool_field b)"
definition set_rw :: "bool \<Rightarrow> u64 \<Rightarrow> u64" where
  "set_rw b = field_set 1 1 (bool_field b)"
definition set_us :: "bool \<Rightarrow> u64 \<Rightarrow> u64" where
  "set_us b = field_set 2 1 (bool_field b)"
definition set_xd :: "bool \<Rightarrow> u64 \<Rightarrow> u64" where
  "set_xd b = field_set 63 1 (bool_field b)"

text \<open>The view \<open>internal\<close> of a \<open>page_t\<close> that is not present.\<close>

definition internal_valid :: "u64 \<Rightarrow> bool" where "internal_valid p \<longleftrightarrow> field_get 1 1 p = 1"
definition internal_swapped :: "u64 \<Rightarrow> bool" where "internal_swapped p \<longleftrightarrow> field_get 2 1 p = 1"
definition internal_allocondem :: "u64 \<Rightarrow> bool" where "internal_allocondem p \<longleftrightarrow> field_get 3 1 p = 1"
definition internal_exec :: "u64 \<Rightarrow> bool" where "internal_exec p \<longleftrightarrow> field_get 4 1 p = 1"
definition internal_gps_id :: "u64 \<Rightarrow> u64" where "internal_gps_id p = field_get 16 48 p"

definition set_internal :: "nat \<Rightarrow> bool \<Rightarrow> u64 \<Rightarrow> u64" where
  "set_internal off b = field_set off 1 (bool_field b)"

section \<open>Walking and building the tables\<close>

definition table_of :: "'a mm_state_scheme \<Rightarrow> u64 \<Rightarrow> u64" where
  "table_of s entry = ALIGN (physical_to_virtual s entry)"

definition deref :: "'a mm_state_scheme \<Rightarrow> u64 \<Rightarrow> u64" where
  "deref s p = read64 (kmem s) p"

definition assign :: "u64 \<Rightarrow> u64 \<Rightarrow> 'a mm_state_scheme \<Rightarrow> 'a mm_state_scheme" where
  "assign p v s = s\<lparr>kmem := write64 p v (kmem s)\<rparr>"

definition memset_state :: "u64 \<Rightarrow> u8 \<Rightarrow> u64 \<Rightarrow> 'a mm_state_scheme \<Rightarrow> 'a mm_state_scheme" where
  "memset_state p c n s = s\<lparr>kmem := memset p c n (kmem s)\<rparr>"

text \<open>
  The block that the three levels of \<open>__get_page\<close> repeat: take a frame for the missing table,
  store its entry in the slot with present, user and write set, clear the table.
\<close>

definition table_entry :: "bool \<Rightarrow> u64 \<Rightarrow> u64" where
  "table_entry user f = set_rw True (set_us user (set_present True f))"

definition enter_table :: "u64 \<Rightarrow> bool \<Rightarrow> bool \<Rightarrow> 'a mm_state_scheme
    \<Rightarrow> u64 option \<times> 'a mm_state_scheme" where
  "enter_table slot allocate_new user s =
     (if PRESENT (deref s slot) then (Some (table_of s (deref s slot)), s)
      else if \<not> allocate_new then (None, s)
      else let (f, s1) = get_free_frame s
           in if f = 0 then (None, s1)
              else let e = table_entry user f;
                       s2 = assign slot e s1;
                       s3 = memset_state (physical_to_virtual s2 (ALIGN e)) 0 0x1000 s2
                   in (Some (table_of s3 (deref s3 slot)), s3))"

definition get_page_gen :: "u64 \<Rightarrow> u64 \<Rightarrow> bool \<Rightarrow> bool \<Rightarrow> 'a mm_state_scheme
    \<Rightarrow> u64 option \<times> 'a mm_state_scheme" where
  "get_page_gen vaddress cr3 allocate_new user s =
     (case enter_table (entry_addr (table_of s cr3) (va_pml vaddress)) allocate_new user s of
        (None, s1) \<Rightarrow> (None, s1)
      | (Some pdpt, s1) \<Rightarrow>
     (case enter_table (entry_addr pdpt (va_directory_ptr vaddress)) allocate_new user s1 of
        (None, s2) \<Rightarrow> (None, s2)
      | (Some pdir, s2) \<Rightarrow>
     (case enter_table (entry_addr pdir (va_directory vaddress)) allocate_new user s2 of
        (None, s3) \<Rightarrow> (None, s3)
      | (Some pt, s3) \<Rightarrow> (Some (entry_addr pt (va_table vaddress)), s3))))"

definition get_page :: "u64 \<Rightarrow> u64 \<Rightarrow> bool \<Rightarrow> 'a mm_state_scheme \<Rightarrow> u64 option \<times> 'a mm_state_scheme" where
  "get_page vaddress cr3 allocate_new = get_page_gen vaddress cr3 allocate_new False"

definition get_page_user :: "u64 \<Rightarrow> u64 \<Rightarrow> bool \<Rightarrow> 'a mm_state_scheme \<Rightarrow> u64 option \<times> 'a mm_state_scheme" where
  "get_page_user vaddress cr3 allocate_new = get_page_gen vaddress cr3 allocate_new True"

definition table_is_empty :: "'a mm_state_scheme \<Rightarrow> u64 \<Rightarrow> bool" where
  "table_is_empty s t \<longleftrightarrow> (\<forall>i \<in> set [0..<512]. deref s (entry_addr t (of_nat i)) = 0)"

definition free_page_structure :: "u64 \<Rightarrow> u64 \<Rightarrow> 'a mm_state_scheme \<Rightarrow> 'a mm_state_scheme" where
  "free_page_structure vaddress cr3 s =
     (let slot1 = entry_addr (table_of s cr3) (va_pml vaddress)
      in if \<not> PRESENT (deref s slot1) then s
      else let pdpt = table_of s (deref s slot1);
               slot2 = entry_addr pdpt (va_directory_ptr vaddress)
      in if \<not> PRESENT (deref s slot2) then s
      else let pdir = table_of s (deref s slot2);
               slot3 = entry_addr pdir (va_directory vaddress)
      in if \<not> PRESENT (deref s slot3) then s
      else let pt = table_of s (deref s slot3);
               s1 = assign (entry_addr pt (va_table vaddress)) 0 s
      in if \<not> table_is_empty s1 pt then s1
      else let s2 = assign slot3 0 (free_frame (ALIGN (deref s1 slot3)) s1)
      in if \<not> table_is_empty s2 pdir then s2
      else let s3 = assign slot2 0 (free_frame (ALIGN (deref s2 slot2)) s2)
      in if \<not> table_is_empty s3 pdpt then s3
      else assign slot1 0 (free_frame (ALIGN (deref s3 slot1)) s3))"

text \<open>\<open>gb_pages\<close> is the processor's answer to \<open>is_1GB_paging_supported\<close>.\<close>

definition virtual_to_physical :: "bool \<Rightarrow> u64 \<Rightarrow> u64 \<Rightarrow> 'a mm_state_scheme \<Rightarrow> u64 \<times> bool" where
  "virtual_to_physical gb_pages vaddress cr3 s =
     (let a0 = table_of s cr3;
          a1 = table_of s (deref s (entry_addr a0 (va_pml vaddress)))
      in if \<not> PRESENT a1 then (0, False)
      else if ADDRESS_OFFSET RESERVED_KBLOCK_RAM_MAPPINGS < vaddress
           \<and> vaddress < ADDRESS_OFFSET (RESERVED_KBLOCK_RAM_MAPPINGS + 1) \<and> gb_pages
      then (field_get 30 24 a1 + field_get 0 30 vaddress, True)
      else let a2 = table_of s (deref s (entry_addr a1 (va_directory_ptr vaddress)))
      in if \<not> PRESENT a2 then (0, False)
      else let a3 = table_of s (deref s (entry_addr a2 (va_directory vaddress)))
      in if \<not> PRESENT a3 then (0, False)
      else if \<not> PRESENT (deref s a3) then (0, False)
      else (ALIGN (deref s a3) + va_offset vaddress, True))"

section \<open>Mapping frames\<close>

definition page_entry :: "u64 \<Rightarrow> bool \<Rightarrow> bool \<Rightarrow> bool \<Rightarrow> u64" where
  "page_entry frame kern readonly exec =
     set_xd exec (set_us (\<not> kern) (set_rw (\<not> readonly) (set_present True frame)))"

definition allocate_frame :: "u64 \<Rightarrow> bool \<Rightarrow> bool \<Rightarrow> bool \<Rightarrow> 'a mm_state_scheme
    \<Rightarrow> u64 \<times> 'a mm_state_scheme" where
  "allocate_frame paddress kern readonly exec s =
     (let old = deref s paddress
      in if \<not> PRESENT old then
           let exec' = (if internal_valid old \<and> internal_allocondem old then internal_exec old else exec);
               (f, s1) = get_free_frame s
           in if f = 0 then (0, s1)
              else let page = page_entry f kern readonly exec';
                       s2 = assign paddress page s1;
                       s3 = (if mem_mirror_present s2 then
                               if exec' then memset_state (physical_to_virtual s2
                                    (ALIGN page AND 0x7FFFFFFFFFFFFFFF)) 0xCC 0x1000 s2
                               else memset_state (physical_to_virtual s2 (ALIGN page)) 0xCC 0x1000 s2
                             else s2)
                   in (ALIGN (deref s3 paddress), s3)
         else let s1 = assign paddress (page_entry (ALIGN old) kern readonly exec) s
              in (ALIGN (deref s1 paddress), s1))"

definition deallocate_frame :: "u64 option \<Rightarrow> u64 \<Rightarrow> u64 \<Rightarrow> 'a mm_state_scheme \<Rightarrow> 'a mm_state_scheme" where
  "deallocate_frame paddress va cr3 s =
     (case paddress of
        None \<Rightarrow> s
      | Some p \<Rightarrow> if \<not> PRESENT (deref s p) then s
          else free_page_structure va cr3 (assign p 0 (free_frame (ALIGN (deref s p)) s)))"

definition deallocate_page :: "u64 \<Rightarrow> u64 \<Rightarrow> 'a mm_state_scheme \<Rightarrow> (unit + 'a mm_state_scheme) option" where
  "deallocate_page cr3 addr s =
     do { s1 \<leftarrow> lock_frames s;
          let (p, s2) = get_page addr cr3 False s1;
          Some (Inr (unlock_frames (deallocate_frame p addr cr3 s2))) }"

definition deallocate :: "('arr, ('arr, 'q, 'z) smp_state_scheme) smp_env \<Rightarrow> u64 \<Rightarrow> u64 \<Rightarrow> u64
    \<Rightarrow> ('arr, 'q, 'z) smp_state_scheme \<Rightarrow> ('arr, 'q, 'z) smp_state_scheme option" where
  "deallocate E from amount cr3 s =
     (let aligned = (if from mod 0x1000 \<noteq> 0 then ALIGN from else from);
          amount' = (if from mod 0x1000 \<noteq> 0 then amount + (from - ALIGN from) else amount);
          end0 = aligned + amount';
          end_addr = (if end0 mod 0x1000 \<noteq> 0 then ALIGN end0 + 0x1000 else end0)
      in if aligned < end_addr then
           do { s1 \<leftarrow> tlb_shootdown E cr3 aligned (end_addr - aligned) s;
                r \<leftarrow> for_pages (deallocate_page cr3) aligned end_addr s1;
                (case r of Inl _ \<Rightarrow> None | Inr s2 \<Rightarrow> Some (tlb_shootdown_end s2)) }
         else Some s)"

text \<open>One turn of the loop of \<open>allocate\<close>; \<open>Inl\<close> is the jump to \<open>dealloc\<close>, lock still held.\<close>

definition allocate_page :: "bool \<Rightarrow> bool \<Rightarrow> u64 \<Rightarrow> u64 \<Rightarrow> 'a mm_state_scheme
    \<Rightarrow> (u64 \<times> 'a mm_state_scheme + 'a mm_state_scheme) option" where
  "allocate_page kern readonly cr3 addr s =
     do { s1 \<leftarrow> lock_frames s;
          let (frame, s2) = (if kern then get_page addr cr3 True s1 else get_page_user addr cr3 True s1);
          (case frame of
             None \<Rightarrow> Some (Inl (addr, s2))
           | Some p \<Rightarrow>
               let (f, s3) = allocate_frame p kern readonly False s2
               in if f = 0 then Some (Inl (addr, s3)) else Some (Inr (unlock_frames s3))) }"

definition allocate :: "('arr, ('arr, 'q, 'z) smp_state_scheme) smp_env \<Rightarrow> u64 \<Rightarrow> u64 \<Rightarrow> bool \<Rightarrow> bool
    \<Rightarrow> u64 \<Rightarrow> ('arr, 'q, 'z) smp_state_scheme \<Rightarrow> (bool \<times> ('arr, 'q, 'z) smp_state_scheme) option" where
  "allocate E from amount kern readonly cr3 s =
     (let dif = from - ALIGN from;
          amount' = page_align_up (amount + dif);
          from' = ALIGN from
      in do { r \<leftarrow> for_pages (allocate_page kern readonly cr3) from' (from' + amount') s;
              (case r of
                 Inr s1 \<Rightarrow> Some (True, s1)
               | Inl (addr, s1) \<Rightarrow>
                   map_option (Pair False) (deallocate E from' (addr - from') cr3 (unlock_frames s1))) })"

definition allocated :: "u64 \<Rightarrow> u64 \<Rightarrow> 'a mm_state_scheme \<Rightarrow> (bool \<times> 'a mm_state_scheme) option" where
  "allocated addr cr3 s =
     do { s1 \<leftarrow> lock_frames s;
          let (page, s2) = get_page addr cr3 False s1;
          (case page of
             None \<Rightarrow> Some (False, unlock_frames s2)
           | Some p \<Rightarrow> if \<not> PRESENT (deref s2 p) then Some (False, unlock_frames s2)
                       else Some (True, unlock_frames s2)) }"

section \<open>Entries and kernel addresses\<close>

lemma PRESENT_bit: "PRESENT x \<longleftrightarrow> bit x 0"
  by (simp add: PRESENT_def and_one_eq bit_0 odd_iff_mod_2_eq_one)

lemma ALIGN_field_set [bit_field_simps]:
  "off + w \<le> 12 \<Longrightarrow> ALIGN (field_set off w v x) = ALIGN x"
  by (rule bit_word_eqI) (auto simp: bit_ALIGN bit_field_set)

lemma bit_flag [bit_field_simps]:
  "n < 64 \<Longrightarrow> bit (field_set off (Suc 0) (bool_field b) (x :: u64)) n \<longleftrightarrow> (if n = off then b else bit x n)"
  by (auto simp: bit_field_set bool_field_def bit_1_iff)

lemma page_aligned_bits: "page_aligned f \<Longrightarrow> bit f n \<Longrightarrow> 12 \<le> n"
  by (metis bit_ALIGN page_aligned_def)

lemmas flag_defs = set_present_def set_rw_def set_us_def set_xd_def

lemma table_entry_present [simp]: "PRESENT (table_entry user f)"
  by (simp add: PRESENT_bit table_entry_def flag_defs bit_field_simps)

lemma page_entry_present [simp]: "PRESENT (page_entry f kern readonly exec)"
  by (simp add: PRESENT_bit page_entry_def flag_defs bit_field_simps)

lemma ALIGN_table_entry [simp]: "page_aligned f \<Longrightarrow> ALIGN (table_entry user f) = f"
  by (simp add: table_entry_def flag_defs bit_field_simps page_aligned_def)

lemma ALIGN_page_entry: 
  "page_aligned f \<Longrightarrow> \<not> bit f 63 \<Longrightarrow>
     ALIGN (page_entry f kern readonly exec) = (if exec then set_bit 63 f else f)"
  by (rule bit_word_eqI)
    (auto simp: page_entry_def flag_defs bit_ALIGN bit_field_simps bit_simps dest: page_aligned_bits)

lemma not_PRESENT_0 [simp]: "\<not> PRESENT 0"
  by (simp add: PRESENT_def)

lemma mirror_offset_aligned: "page_aligned (ADDRESS_OFFSET RESERVED_KBLOCK_RAM_MAPPINGS)"
  by (simp add: page_aligned_dvd ADDRESS_OFFSET_def RESERVED_KBLOCK_RAM_MAPPINGS_def push_bit_eq_mult)

lemma page_aligned_add:
  assumes "page_aligned a" and "page_aligned b"
  shows "page_aligned (a + b)"
proof -
  have "4096 dvd (unat a + unat b) mod (4096 * 4503599627370496)"
    using assms by (simp add: page_aligned_dvd dvd_mod)
  then show ?thesis by (simp add: page_aligned_dvd unat_add_u64)
qed

lemma physical_to_virtual_aligned [simp]:
  "page_aligned p \<Longrightarrow> page_aligned (physical_to_virtual s p)"
  by (simp add: physical_to_virtual_def page_aligned_add mirror_offset_aligned)

lemma physical_to_virtual_inj:
  "p \<noteq> 0 \<Longrightarrow> q \<noteq> 0 \<Longrightarrow> physical_to_virtual s p = physical_to_virtual s q \<longleftrightarrow> p = q"
  by (simp add: physical_to_virtual_def)

lemma physical_to_virtual_cong:
  "mem_mirror_present s' = mem_mirror_present s \<Longrightarrow> physical_to_virtual s' = physical_to_virtual s"
  by (simp add: physical_to_virtual_def fun_eq_iff)

lemma table_of_aligned [simp]: "page_aligned (table_of s e)"
  by (simp add: table_of_def)

lemma table_of_cong:
  "mem_mirror_present s' = mem_mirror_present s \<Longrightarrow> table_of s' = table_of s"
  by (simp add: table_of_def physical_to_virtual_def fun_eq_iff)

lemma table_of_ALIGN:
  assumes "ALIGN e \<noteq> 0"
  shows "table_of s e = physical_to_virtual s (ALIGN e)"
proof -
  have k: "unat (e - ALIGN e) < 4096"
    by (subst in_page_iff) simp_all
  have "e \<noteq> 0" using assms by (auto simp: ALIGN_def)
  then have "physical_to_virtual s e = physical_to_virtual s (ALIGN e) + (e - ALIGN e)"
    using assms by (simp add: physical_to_virtual_def)
  then show ?thesis
    unfolding table_of_def using k by (simp add: ALIGN_page_offset)
qed

lemma va_index_bound [simp]:
  "unat (va_table va) < 512" "unat (va_directory va) < 512"
  "unat (va_directory_ptr va) < 512" "unat (va_pml va) < 512"
  using field_get_bound [where 'a = 64, of 9] 
  by (simp_all add: va_table_def va_directory_def va_directory_ptr_def va_pml_def)

end
