(* ===== verification/Page_Tree.thy ===== *)
theory Page_Tree
  imports Paging
begin

text \<open>
  The page tables as a tree: \<open>node\<close> follows a path of indices from a table, \<open>pte\<close> is the
  page entry of an address (0 when a table is missing). The invariant \<open>tree_ok\<close> says that
  the tables of different paths are different pages and that no table is a free frame; it is
  stated for the top-level slots of a set \<open>I\<close>, since the slot of the memory mirror may hold
  1 GB pages instead of tables. The lemmas say how the tree changes when a slot is written.
\<close>

section \<open>Paths, tables and entries\<close>

definition entry :: "'a mm_state_scheme \<Rightarrow> u64 \<Rightarrow> u64 \<Rightarrow> u64" where
  "entry s t i = deref s (entry_addr t i)"

primrec node :: "'a mm_state_scheme \<Rightarrow> u64 list \<Rightarrow> u64 \<Rightarrow> u64 option" where
  "node s [] t = Some t"
| "node s (i # is) t =
     (if PRESENT (entry s t i) then node s is (table_of s (entry s t i)) else None)"

definition path :: "u64 \<Rightarrow> u64 list" where
  "path va = [va_pml va, va_directory_ptr va, va_directory va]"

definition leaf :: "'a mm_state_scheme \<Rightarrow> u64 \<Rightarrow> u64 list \<Rightarrow> u64 \<Rightarrow> u64" where
  "leaf s cr3 p j = (case node s p (table_of s cr3) of None \<Rightarrow> 0 | Some t \<Rightarrow> entry s t j)"

definition pte :: "'a mm_state_scheme \<Rightarrow> u64 \<Rightarrow> u64 \<Rightarrow> u64" where
  "pte s cr3 va = leaf s cr3 (path va) (va_table va)"

definition ok_path :: "u64 set \<Rightarrow> u64 list \<Rightarrow> bool" where
  "ok_path I p \<longleftrightarrow> length p \<le> 3 \<and> (\<forall>i \<in> set p. unat i < 512) \<and> (p \<noteq> [] \<longrightarrow> hd p \<in> I)"

definition tree_inj :: "u64 set \<Rightarrow> 'a mm_state_scheme \<Rightarrow> u64 \<Rightarrow> bool" where
  "tree_inj I s cr3 \<longleftrightarrow> (\<forall>p q a. ok_path I p \<longrightarrow> ok_path I q \<longrightarrow>
     node s p (table_of s cr3) = Some a \<longrightarrow> node s q (table_of s cr3) = Some a \<longrightarrow> p = q)"

definition tables_used :: "u64 set \<Rightarrow> 'a mm_state_scheme \<Rightarrow> u64 \<Rightarrow> bool" where
  "tables_used I s cr3 \<longleftrightarrow> (\<forall>p a f. ok_path I p \<longrightarrow> node s p (table_of s cr3) = Some a \<longrightarrow>
     frame_refs s f = Some 0 \<longrightarrow> physical_to_virtual s f \<noteq> a)"

definition tree_ok :: "u64 set \<Rightarrow> 'a mm_state_scheme \<Rightarrow> u64 \<Rightarrow> bool" where
  "tree_ok I s cr3 \<longleftrightarrow> mm_wf s \<and> tree_inj I s cr3 \<and> tables_used I s cr3"

lemma node_append:
  "node s (p @ q) t = (case node s p t of None \<Rightarrow> None | Some t' \<Rightarrow> node s q t')"
  by (induction p arbitrary: t) auto

lemma node_snoc:
  "node s (p @ [i]) t = (case node s p t of None \<Rightarrow> None
     | Some t' \<Rightarrow> if PRESENT (entry s t' i) then Some (table_of s (entry s t' i)) else None)"
  by (auto simp: node_append split: option.splits)

lemma node_aligned: "node s p t = Some a \<Longrightarrow> page_aligned t \<Longrightarrow> page_aligned a"
  by (induction p arbitrary: t) (auto split: if_splits)

lemma ok_path_path: "va_pml va \<in> I \<Longrightarrow> ok_path I (path va)"
  by (simp add: ok_path_def path_def)

lemma ok_path_prefix: "ok_path I (p @ q) \<Longrightarrow> ok_path I p"
  by (auto simp: ok_path_def split: if_splits)

lemma ok_path_Nil [simp]: "ok_path I []"
  by (simp add: ok_path_def)

lemma find_page_pure: "get_page_gen va cr3 False user s =
    (map_option (\<lambda>pt. entry_addr pt (va_table va)) (node s (path va) (table_of s cr3)), s)"
  by (simp add: get_page_gen_def enter_table_def path_def entry_def)

text \<open>
  If two states agree on all entries of the tables reached in the first one, but for the slot
  \<open>i\<close> of the table at path \<open>p\<close>, every path that does not run through the slot leads to the
  same table in both.
\<close>

lemma node_agree:
  assumes mirror: "mem_mirror_present s' = mem_mirror_present s"
    and agree: "\<And>q t j. ok_path I q \<Longrightarrow> length q < 3 \<Longrightarrow> node s q (table_of s cr3) = Some t \<Longrightarrow>
       unat j < 512 \<Longrightarrow> (q, j) \<noteq> (p, i) \<Longrightarrow> entry s' t j = entry s t j"
    and "ok_path I q" and "\<not> prefix (p @ [i]) q"
  shows "node s' q (table_of s' cr3) = node s q (table_of s cr3)"
  using assms(3,4)
proof (induction q rule: rev_induct)
  case Nil
  show ?case by (simp add: table_of_cong [OF mirror])
next
  case (snoc j q)
  have ok: "ok_path I q" using snoc.prems(1) by (rule ok_path_prefix)
  have "\<not> prefix (p @ [i]) q" using snoc.prems(2) by (metis prefix_prefix)
  note IH = snoc.IH [OF ok this]
  show ?case
  proof (cases "node s q (table_of s cr3)")
    case None
    with IH show ?thesis by (simp add: node_snoc)
  next
    case (Some t)
    have "(q, j) \<noteq> (p, i)" using snoc.prems(2) by auto
    moreover have "unat j < 512" "length q < 3"
      using snoc.prems(1) by (simp_all add: ok_path_def)
    ultimately have "entry s' t j = entry s t j" using agree [OF ok _ Some] by blast
    with Some IH show ?thesis by (simp add: node_snoc table_of_cong [OF mirror])
  qed
qed

lemma state_field_simps [simp]:
  "mem_mirror_present (assign a v s) = mem_mirror_present s"
  "mem_mirror_present (memset_state a c n s) = mem_mirror_present s"
  "frame_pool (assign a v s) = frame_pool s" "frame_pool (memset_state a c n s) = frame_pool s"
  "frame_lock (assign a v s) = frame_lock s" "frame_lock (memset_state a c n s) = frame_lock s"
  "frame_refs (assign a v s) = frame_refs s" "frame_refs (memset_state a c n s) = frame_refs s"
  "mm_wf (assign a v s) = mm_wf s" "mm_wf (memset_state a c n s) = mm_wf s"
  by (simp_all add: assign_def memset_state_def frame_refs_def mm_wf_def)

lemma deref_assign_same [simp]: "deref (assign a v s) a = v"
  by (simp add: deref_def assign_def)

lemma entry_assign [store_simps]:
  assumes "page_aligned t" "page_aligned t'" "unat i < 512" "unat j < 512"
  shows "entry (assign (entry_addr t i) v s) t' j = (if t' = t \<and> j = i then v else entry s t' j)"
  using read64_write64_entry [OF assms] by (auto simp: entry_def deref_def assign_def)

lemma entry_memset [store_simps]:
  assumes "page_aligned p" "page_aligned t" "unat j < 512"
  shows "entry (memset_state p c 0x1000 s) t j = (if t = p then byte8 c else entry s t j)"
  using read64_memset_entry [OF assms] by (auto simp: entry_def deref_def memset_state_def)

lemma entry_frame_pool [simp]:
  "entry (s\<lparr>frame_pool := fp\<rparr>) = entry s" "entry (s\<lparr>frame_lock := l\<rparr>) = entry s"
  "entry (unlock_frames s) = entry s"
  by (simp_all add: entry_def deref_def unlock_frames_def fun_eq_iff)

lemma node_kmem_cong:
  assumes "kmem s' = kmem s" and "mem_mirror_present s' = mem_mirror_present s"
  shows "node s' p t = node s p t"
  by (induction p arbitrary: t)
    (simp_all add: entry_def deref_def assms table_of_cong [OF assms(2)])

lemma root_path_unique:
  assumes "tree_ok I s cr3" and "ok_path I p" and "ok_path I q"
    and "node s p (table_of s cr3) = Some a" and "node s q (table_of s cr3) = Some a"
  shows "p = q"
  using assms unfolding tree_ok_def tree_inj_def by blast

lemma node_below_absent:
  assumes "node s p t = Some t'" and "\<not> PRESENT (entry s t' i)" and "prefix (p @ [i]) q"
  shows "node s q t = None"
  using assms by (auto simp: prefix_def node_append)

section \<open>Adding a table\<close>

text \<open>
  \<open>new_table\<close>: slot \<open>i\<close> of the table \<open>t\<close> at path \<open>p\<close> is absent; a free frame \<open>f\<close> is taken,
  the slot is set to \<open>e\<close> and the new table is cleared.
\<close>

definition link_table :: "u64 \<Rightarrow> u64 \<Rightarrow> u64 \<Rightarrow> 'a mm_state_scheme \<Rightarrow> 'a mm_state_scheme" where
  "link_table t i e s =
     memset_state (physical_to_virtual s (ALIGN e)) 0 0x1000 (assign (entry_addr t i) e s)"

lemma link_table_nodes:
  assumes ok: "tree_ok I s cr3" and p: "ok_path I (p @ [i])" "node s p (table_of s cr3) = Some t"
    and absent: "\<not> PRESENT (entry s t i)" and free: "frame_refs s f = Some 0" "f \<noteq> 0"
    and e: "PRESENT e" "ALIGN e = f" and s1: "kmem s1 = kmem s" "mem_mirror_present s1 = mem_mirror_present s"
    and s': "s' = link_table t i e s1"
  shows "ok_path I q \<Longrightarrow> node s' q (table_of s' cr3) =
    (if q = p @ [i] then Some (physical_to_virtual s f) else node s q (table_of s cr3))"
    and "unat j < 512 \<Longrightarrow> entry s' (physical_to_virtual s f) j = 0"
    and "ok_path I q \<Longrightarrow> node s q (table_of s cr3) = Some a \<Longrightarrow> unat j < 512 \<Longrightarrow> (q, j) \<noteq> (p, i) \<Longrightarrow>
      entry s' a j = entry s a j"
proof -
  let ?new = "physical_to_virtual s f" and ?R = "table_of s cr3"
  have al: "page_aligned f" using e(2) page_aligned_ALIGN [of e] by simp
  have i: "unat i < 512" using p(1) by (simp add: ok_path_def)
  have opp: "ok_path I p" using p(1) by (rule ok_path_prefix)
  have pt: "page_aligned t" using node_aligned [OF p(2)] by simp
  have mirror: "mem_mirror_present s' = mem_mirror_present s" using s1 s' by (simp add: link_table_def)
  have es1: "entry s1 = entry s" by (simp add: entry_def deref_def s1 fun_eq_iff)
  have new_at: "physical_to_virtual s1 (ALIGN e) = ?new"
    by (simp add: e(2) physical_to_virtual_cong [OF s1(2)])
  have fresh: "node s q ?R = Some a \<Longrightarrow> ok_path I q \<Longrightarrow> a \<noteq> ?new" for q a
    using ok free unfolding tree_ok_def tables_used_def by metis
  have ent: "entry s' a j = (if a = ?new then 0 else if a = t \<and> j = i then e else entry s a j)"
    if "page_aligned a" "unat j < 512" for a j
    using that pt i al new_at by (simp add: s' link_table_def store_simps es1)
  show zero: "unat j < 512 \<Longrightarrow> entry s' ?new j = 0" for j
    using al by (simp add: ent)
  show agree: "entry s' a j = entry s a j"
    if "ok_path I q" "node s q ?R = Some a" "unat j < 512" "(q, j) \<noteq> (p, i)" for q a j
  proof -
    have "page_aligned a" using node_aligned [OF that(2)] by simp
    moreover have "a \<noteq> t \<or> j \<noteq> i"
      using root_path_unique [OF ok that(1) opp that(2)] p(2) that(4) by auto
    ultimately show ?thesis using fresh [OF that(2,1)] that(3) by (auto simp: ent)
  qed
  have off: "node s' q (table_of s' cr3) = node s q ?R" if "ok_path I q" "\<not> prefix (p @ [i]) q" for q
    by (rule node_agree [OF mirror _ that]) (use agree in blast)
  have "node s' p (table_of s' cr3) = Some t"
    using off [OF opp] p(2) by (auto dest: prefix_length_le)
  moreover have "t \<noteq> ?new" using fresh [OF p(2) opp] .
  moreover have "table_of s' e = ?new"
    using free(2) e(2) by (simp add: table_of_cong [OF mirror] table_of_ALIGN)
  ultimately have at: "node s' (p @ [i]) (table_of s' cr3) = Some ?new"
    using e(1) pt i by (simp add: node_snoc ent)
  have below: "node s' q (table_of s' cr3) = None" if q: "ok_path I q" "prefix (p @ [i]) q" "q \<noteq> p @ [i]" for q
  proof -
    obtain j r where r: "q = (p @ [i]) @ j # r" 
      using q(2,3) by (metis append_Nil2 list.exhaust prefixE)
    have "unat j < 512" using q(1) r by (simp add: ok_path_def)
    then show ?thesis
      unfolding r node_append [of s' "p @ [i]"] at by (simp add: zero)
  qed
  show "node s' q (table_of s' cr3) = (if q = p @ [i] then Some ?new else node s q ?R)" if "ok_path I q"
    using at off [OF that] below [OF that] node_below_absent [OF p(2) absent, of q]
    by (cases "prefix (p @ [i]) q") auto
qed

lemma tree_ok_unlock:
  "tree_ok I (unlock_frames s) cr3 = tree_ok I s cr3"
  "node (unlock_frames s) p t = node s p t" "table_of (unlock_frames s) = table_of s"
  "leaf (unlock_frames s) = leaf s"
proof -
  have t: "table_of (unlock_frames s) = table_of s" by (rule table_of_cong) (simp add: unlock_frames_def)
  have n: "node (unlock_frames s) p t = node s p t" for p t
    by (rule node_kmem_cong) (simp_all add: unlock_frames_def)
  show "node (unlock_frames s) p t = node s p t" "table_of (unlock_frames s) = table_of s" by fact+
  show "tree_ok I (unlock_frames s) cr3 = tree_ok I s cr3"
    unfolding tree_ok_def tree_inj_def tables_used_def n t
    by (simp add: mm_wf_def unlock_frames_def frame_refs_def physical_to_virtual_def)
  show "leaf (unlock_frames s) = leaf s" 
    by (simp add: leaf_def fun_eq_iff n t split: option.splits)
qed

end
