(* ===== verification/Vm_Invariant.thy ===== *)
theory Vm_Invariant
  imports Page_Tree
begin

text \<open>
  The invariant that ties the page tables of an address space to the frame pool: every present
  entry names a frame that is either not managed by the pool or counted at least once per
  entry that names it, the tables form a tree, and no mapped data frame is a table. The tree
  is determined by the entries (\<open>leaf\<close>), so every operation is a point update of them.
\<close>

definition slot_ok :: "u64 set \<Rightarrow> u64 list \<Rightarrow> u64 \<Rightarrow> bool" where
  "slot_ok I q j \<longleftrightarrow> ok_path I q \<and> unat j < 512 \<and> (q = [] \<longrightarrow> j \<in> I)"

lemma slot_ok_snoc: "slot_ok I q j \<and> length q < 3 \<longleftrightarrow> ok_path I (q @ [j])"
  by (cases q) (auto simp: slot_ok_def ok_path_def)

lemma node_leaf:
  "node s (q @ [j]) (table_of s cr3) =
     (if PRESENT (leaf s cr3 q j) then Some (table_of s (leaf s cr3 q j)) else None)"
  by (auto simp: node_snoc leaf_def split: option.splits)

lemma leaf_absent: "\<not> PRESENT (leaf s cr3 q j) \<Longrightarrow> leaf s cr3 (q @ [j]) k = 0"
  by (subst leaf_def) (simp add: node_leaf)

definition users :: "u64 set \<Rightarrow> 'a mm_state_scheme \<Rightarrow> u64 \<Rightarrow> u64 \<Rightarrow> (u64 list \<times> u64) set" where
  "users I s cr3 f = {(q, j). slot_ok I q j \<and> PRESENT (leaf s cr3 q j) \<and> ALIGN (leaf s cr3 q j) = f}"

definition covered :: "'a mm_state_scheme \<Rightarrow> u64 \<Rightarrow> bool" where
  "covered s f \<longleftrightarrow> (\<exists>sec \<in> set (frame_pool s). in_section sec f)"

definition frame_known :: "'a mm_state_scheme \<Rightarrow> u64 \<Rightarrow> bool" where
  "frame_known s f \<longleftrightarrow> f \<noteq> 0 \<and> (covered s f \<longrightarrow> frame_refs s f \<noteq> None \<and> 0x200000 \<le> f)"

definition data_apart :: "u64 set \<Rightarrow> 'a mm_state_scheme \<Rightarrow> u64 \<Rightarrow> bool" where
  "data_apart I s cr3 \<longleftrightarrow> (\<forall>q j p a. slot_ok I q j \<longrightarrow> length q = 3 \<longrightarrow> PRESENT (leaf s cr3 q j) \<longrightarrow>
     ok_path I p \<longrightarrow> node s p (table_of s cr3) = Some a \<longrightarrow>
     physical_to_virtual s (ALIGN (leaf s cr3 q j)) \<noteq> a)"

definition vm_ok :: "u64 set \<Rightarrow> 'a mm_state_scheme \<Rightarrow> u64 \<Rightarrow> bool" where
  "vm_ok I s cr3 \<longleftrightarrow> tree_ok I s cr3 \<and> data_apart I s cr3 \<and>
     (\<forall>q j. slot_ok I q j \<longrightarrow> PRESENT (leaf s cr3 q j) \<longrightarrow> frame_known s (ALIGN (leaf s cr3 q j))) \<and>
     (\<forall>f c. frame_refs s f = Some c \<longrightarrow> card (users I s cr3 f) \<le> c)"

lemma finite_slots: "finite {(q, j). slot_ok I q j}"
proof -
  have "finite {q :: u64 list. set q \<subseteq> UNIV \<and> length q \<le> 3}"
    by (rule finite_lists_length_le) simp
  then have "finite ({q :: u64 list. set q \<subseteq> UNIV \<and> length q \<le> 3} \<times> (UNIV :: u64 set))" by simp
  then show ?thesis by (rule rev_finite_subset) (auto simp: slot_ok_def ok_path_def)
qed

lemma finite_users [simp]: "finite (users I s cr3 f)"
  by (rule finite_subset [OF _ finite_slots [of I]]) (auto simp: users_def)

lemma users_card:
  "vm_ok I s cr3 \<Longrightarrow> frame_refs s f = Some c \<Longrightarrow> card (users I s cr3 f) \<le> c"
  by (simp add: vm_ok_def)

lemma unused_free:
  assumes "vm_ok I s cr3" and "frame_refs s f = Some 0"
  shows "users I s cr3 f = {}"
  using users_card [OF assms] by simp

lemma user_counted:
  assumes "vm_ok I s cr3" and "(q, j) \<in> users I s cr3 f" and "frame_refs s f = Some c"
  shows "0 < c"
  using users_card [OF assms(1,3)] assms(2) by (metis card_gt_0_iff empty_iff finite_users less_le_trans)

text \<open>The entries of two states differ in one slot.\<close>

definition leaf_update :: "u64 set \<Rightarrow> u64 \<Rightarrow> u64 list \<Rightarrow> u64 \<Rightarrow> u64 \<Rightarrow> 'a mm_state_scheme
    \<Rightarrow> 'a mm_state_scheme \<Rightarrow> bool" where
  "leaf_update I cr3 p i v s s' \<longleftrightarrow> mem_mirror_present s' = mem_mirror_present s \<and>
     (\<forall>q j. slot_ok I q j \<longrightarrow>
        leaf s' cr3 q j = (if (q, j) = (p, i) then v else leaf s cr3 q j))"

lemma node_leaf_update:
  assumes "leaf_update I cr3 p i v s s'" and "ok_path I q"
  shows "node s' q (table_of s' cr3) =
    (if q = p @ [i] then (if PRESENT v then Some (table_of s v) else None)
     else node s q (table_of s cr3))"
proof (cases q rule: rev_cases)
  case Nil
  have "mem_mirror_present s' = mem_mirror_present s" using assms(1) by (simp add: leaf_update_def)
  from table_of_cong [OF this] show ?thesis using Nil by simp
next
  case (snoc r j)
  have "slot_ok I r j" using assms(2) snoc slot_ok_snoc by blast
  moreover have "table_of s' = table_of s" using assms(1) by (intro table_of_cong) (simp add: leaf_update_def)
  ultimately show ?thesis
    using assms(1) unfolding snoc node_leaf leaf_update_def by auto
qed

lemma leaf_updated:
  "leaf_update I cr3 p i v s s' \<Longrightarrow> slot_ok I q j \<Longrightarrow>
     leaf s' cr3 q j = (if q = p \<and> j = i then v else leaf s cr3 q j)"
  by (simp add: leaf_update_def)

lemma users_leaf_update:
  assumes "leaf_update I cr3 p i v s s'" and "slot_ok I p i"
  shows "users I s' cr3 f =
    (if PRESENT v \<and> ALIGN v = f then insert (p, i) (users I s cr3 f) else users I s cr3 f - {(p, i)})"
proof (rule set_eqI)
  fix x :: "u64 list \<times> u64"
  obtain q j where x: "x = (q, j)" by fastforce
  show "x \<in> users I s' cr3 f \<longleftrightarrow> x \<in> (if PRESENT v \<and> ALIGN v = f
      then insert (p, i) (users I s cr3 f) else users I s cr3 f - {(p, i)})"
    using assms leaf_updated [OF assms(1), of q j]
    by (cases "slot_ok I q j"; cases "q = p \<and> j = i") (auto simp: x users_def)
qed

lemma vm_ok_tree [dest]: "vm_ok I s cr3 \<Longrightarrow> tree_ok I s cr3"
  by (simp add: vm_ok_def)

lemma tree_okD:
  assumes "tree_ok I s cr3"
  shows "mm_wf s" "tree_inj I s cr3" "tables_used I s cr3"
  using assms by (simp_all add: tree_ok_def)

lemma node_not_free:
  assumes "tree_ok I s cr3" "frame_refs s f = Some 0" "ok_path I q"
  shows "node s q (table_of s cr3) \<noteq> Some (physical_to_virtual s f)"
  using assms unfolding tree_ok_def tables_used_def by blast

lemma slot_known:
  "vm_ok I s cr3 \<Longrightarrow> slot_ok I q j \<Longrightarrow> PRESENT (leaf s cr3 q j) \<Longrightarrow> frame_known s (ALIGN (leaf s cr3 q j))"
  by (simp add: vm_ok_def)

text \<open>A fresh frame is put into an empty slot, as a table or as a page.\<close>

lemma vm_ok_add:
  assumes vm: "vm_ok I s cr3" and up: "leaf_update I cr3 p i v s s'" and slot: "slot_ok I p i"
    and absent: "\<not> PRESENT (leaf s cr3 p i)" and v: "PRESENT v" "ALIGN v = f"
    and refs: "frame_refs s f = Some 0" "frame_refs s' = (frame_refs s)(f \<mapsto> 1)"
    and wf': "mm_wf s'" and cov: "covered s' = covered s"
  shows "vm_ok I s' cr3"
proof -
  have tree: "tree_ok I s cr3" using vm by blast
  note hi = frame_refs_nonzero [OF tree_okD(1) [OF tree] refs(1)]
  have tv: "table_of s v = physical_to_virtual s f" using table_of_ALIGN v(2) hi(2) by metis
  have p2v: "physical_to_virtual s' = physical_to_virtual s"
    using up by (intro physical_to_virtual_cong) (simp add: leaf_update_def)
  note N = node_leaf_update [OF up] and L = leaf_updated [OF up] and nf = node_not_free [OF tree]
  have nz: "ALIGN (leaf s cr3 q j) \<noteq> 0" "ALIGN (leaf s cr3 q j) \<noteq> f"
    if "slot_ok I q j" "PRESENT (leaf s cr3 q j)" for q j
    using slot_known [OF vm that] unused_free [OF vm refs(1)] that
    by (auto simp: frame_known_def users_def)
  have "tree_inj I s' cr3"
    unfolding tree_inj_def
  proof (intro allI impI)
    fix q q' a assume a: "ok_path I q" "ok_path I q'" "node s' q (table_of s' cr3) = Some a"
      "node s' q' (table_of s' cr3) = Some a"
    then show "q = q'"
      using nf [OF refs(1)] root_path_unique [OF tree]
      by (auto simp: N v(1) tv split: if_splits)
  qed
  moreover have "tables_used I s' cr3"
    unfolding tables_used_def p2v
  proof (intro allI impI)
    fix q a f' assume a: "ok_path I q" "node s' q (table_of s' cr3) = Some a" "frame_refs s' f' = Some 0"
    have f': "f' \<noteq> f" "frame_refs s f' = Some 0" using a(3) refs(2) by (auto split: if_splits)
    from a(2) show "physical_to_virtual s f' \<noteq> a"
      using nf [OF f'(2) a(1)] f'(1) hi(2) frame_refs_nonzero(2) [OF tree_okD(1) [OF tree] f'(2)]
      by (auto simp: N [OF a(1)] v(1) tv physical_to_virtual_inj split: if_splits)
  qed
  moreover have "data_apart I s' cr3"
    unfolding data_apart_def p2v
  proof (intro allI impI)
    fix q j r a
    assume a: "slot_ok I q j" "length q = 3" "PRESENT (leaf s' cr3 q j)" "ok_path I r"
      "node s' r (table_of s' cr3) = Some a"
    show "physical_to_virtual s (ALIGN (leaf s' cr3 q j)) \<noteq> a"
    proof (cases "q = p \<and> j = i")
      case True
      then have "r \<noteq> p @ [i]" using a(2,4) by (auto simp: ok_path_def)
      then show ?thesis using a nf [OF refs(1) a(4)] True by (auto simp: N L v(2))
    next
      case False
      then have e: "leaf s' cr3 q j = leaf s cr3 q j" using L [OF a(1)] by auto
      have "physical_to_virtual s (ALIGN (leaf s cr3 q j)) \<noteq> a" if "node s r (table_of s cr3) = Some a"
        using vm a(1-4) that unfolding e vm_ok_def data_apart_def by blast
      then show ?thesis
        using a(3,5) nz [OF a(1)] hi(2)
        by (auto simp: e N [OF a(4)] v(1) tv physical_to_virtual_inj split: if_splits)
    qed
  qed
  moreover have "frame_known s' (ALIGN (leaf s' cr3 q j))" if "slot_ok I q j" "PRESENT (leaf s' cr3 q j)" for q j
    using slot_known [OF vm that(1)] that hi refs(2) v(2)
    by (cases "q = p \<and> j = i") (auto simp: L frame_known_def cov)
  moreover have "card (users I s' cr3 g) \<le> c" if "frame_refs s' g = Some c" for g c
  proof (cases "g = f")
    case True
    then show ?thesis
      using that refs(2) unused_free [OF vm refs(1)] by (simp add: users_leaf_update [OF up slot] v)
  next
    case False
    then have "card (users I s cr3 g) \<le> c" using that refs(2) users_card [OF vm] by simp
    moreover have "card (users I s cr3 g - {(p, i)}) \<le> card (users I s cr3 g)" by (rule card_Diff1_le)
    ultimately show ?thesis using False by (simp add: users_leaf_update [OF up slot] v)
  qed
  ultimately show ?thesis using wf' by (simp add: vm_ok_def tree_ok_def)
qed

text \<open>
  An entry is cleared and the frame it names loses one reference; the table below it, if any,
  is empty.
\<close>

definition drop_ref :: "u64 \<Rightarrow> 'a mm_state_scheme \<Rightarrow> 'a mm_state_scheme \<Rightarrow> bool" where
  "drop_ref f s s' \<longleftrightarrow> (if covered s f
     then (\<exists>c. frame_refs s f = Some (Suc c) \<and> frame_refs s' = (frame_refs s)(f \<mapsto> c))
     else frame_refs s' = frame_refs s)"

lemma refs_covered: "mm_wf s \<Longrightarrow> frame_refs s f = Some c \<Longrightarrow> covered s f"
  using pool_refs_in_section by (metis covered_def frame_refs_def mm_wf_def)

lemma present_not_root:
  assumes vm: "vm_ok I s cr3" and slot: "slot_ok I p i" and pres: "PRESENT (leaf s cr3 p i)"
  shows "physical_to_virtual s (ALIGN (leaf s cr3 p i)) \<noteq> table_of s cr3"
proof (cases "length p < 3")
  case True
  then have ok: "ok_path I (p @ [i])" using slot slot_ok_snoc by blast
  have "ALIGN (leaf s cr3 p i) \<noteq> 0" using slot_known [OF vm slot pres] by (simp add: frame_known_def)
  then have "node s (p @ [i]) (table_of s cr3) = Some (physical_to_virtual s (ALIGN (leaf s cr3 p i)))"
    using pres by (simp add: node_leaf table_of_ALIGN)
  then show ?thesis
    using root_path_unique [OF vm_ok_tree [OF vm] ok ok_path_Nil] by auto
next
  case False
  then have "length p = 3" using slot by (simp add: slot_ok_def ok_path_def)
  moreover have "node s [] (table_of s cr3) = Some (table_of s cr3)" by simp
  ultimately show ?thesis
    using vm slot pres ok_path_Nil [of I] unfolding vm_ok_def data_apart_def by blast
qed

lemma vm_ok_clear:
  assumes vm: "vm_ok I s cr3" and up: "leaf_update I cr3 p i 0 s s'" and slot: "slot_ok I p i"
    and pres: "PRESENT (leaf s cr3 p i)" and f: "ALIGN (leaf s cr3 p i) = f"
    and drop: "drop_ref f s s'" and wf': "mm_wf s'" and cov: "covered s' = covered s"
  shows "vm_ok I s' cr3"
proof -
  have tree: "tree_ok I s cr3" using vm by blast
  have root: "physical_to_virtual s f \<noteq> table_of s cr3" using present_not_root [OF vm slot pres] f by simp
  have p2v: "physical_to_virtual s' = physical_to_virtual s"
    using up by (intro physical_to_virtual_cong) (simp add: leaf_update_def)
  note N = node_leaf_update [OF up, simplified] and L = leaf_updated [OF up]
  have user: "(p, i) \<in> users I s cr3 f" using slot pres f by (simp add: users_def)
  have fnz: "f \<noteq> 0" using slot_known [OF vm slot pres] f by (simp add: frame_known_def)
  have count: "card (users I s' cr3 g) \<le> c" if r: "frame_refs s' g = Some c" for g c
  proof (cases "g = f \<and> covered s f")
    case True
    then have "\<exists>k. frame_refs s f = Some (Suc k) \<and> frame_refs s' = (frame_refs s)(f \<mapsto> k)"
      using drop by (simp add: drop_ref_def)
    then obtain k where k: "frame_refs s f = Some (Suc k)" "c = k" using r True by auto
    have "card (users I s cr3 f - {(p, i)}) = card (users I s cr3 f) - 1" using user by simp
    with users_card [OF vm k(1)] True k show ?thesis by (simp add: users_leaf_update [OF up slot])
  next
    case False
    then have "frame_refs s g = Some c"
      using r drop refs_covered [OF wf'] cov by (auto simp: drop_ref_def split: if_splits)
    moreover have "card (users I s cr3 g - {(p, i)}) \<le> card (users I s cr3 g)" by (rule card_Diff1_le)
    ultimately show ?thesis using users_card [OF vm, of g c] by (simp add: users_leaf_update [OF up slot])
  qed
  have free_old: "frame_refs s g = Some 0 \<or> g = f \<and> users I s' cr3 f = {}" if "frame_refs s' g = Some 0" for g
    using count [OF that] that drop by (auto simp: drop_ref_def split: if_splits)
  have "tree_inj I s' cr3"
    unfolding tree_inj_def
  proof (intro allI impI)
    fix q q' a assume "ok_path I q" "ok_path I q'" "node s' q (table_of s' cr3) = Some a"
      "node s' q' (table_of s' cr3) = Some a"
    then show "q = q'" using root_path_unique [OF tree] by (auto simp: N split: if_splits)
  qed
  moreover have "tables_used I s' cr3"
    unfolding tables_used_def p2v
  proof (intro allI impI)
    fix q a g assume a: "ok_path I q" "node s' q (table_of s' cr3) = Some a" "frame_refs s' g = Some 0"
    have q: "q \<noteq> p @ [i]" "node s q (table_of s cr3) = Some a" using a(2) by (auto simp: N [OF a(1)] split: if_splits)
    show "physical_to_virtual s g \<noteq> a"
    proof (cases "frame_refs s g = Some 0")
      case True
      then show ?thesis using node_not_free [OF tree True a(1)] q(2) by auto
    next
      case False
      then have g: "g = f" "users I s' cr3 f = {}" using free_old [OF a(3)] by auto
      show ?thesis
      proof (cases q rule: rev_cases)
        case Nil
        then show ?thesis using root q(2) g(1) by auto
      next
        case (snoc r j)
        have sl: "slot_ok I r j" using a(1) snoc slot_ok_snoc by blast
        have pr: "PRESENT (leaf s cr3 r j)" "a = table_of s (leaf s cr3 r j)"
          using q(2) by (auto simp: snoc node_leaf split: if_splits)
        have "leaf s' cr3 r j = leaf s cr3 r j" using L [OF sl] q(1) snoc by auto
        moreover have "(r, j) \<notin> users I s' cr3 f" using g(2) by simp
        ultimately have "ALIGN (leaf s cr3 r j) \<noteq> f" using sl pr(1) by (auto simp: users_def)
        moreover have "ALIGN (leaf s cr3 r j) \<noteq> 0"
          using slot_known [OF vm sl pr(1)] by (simp add: frame_known_def)
        ultimately show ?thesis using fnz g(1) by (simp add: pr(2) table_of_ALIGN physical_to_virtual_inj)
      qed
    qed
  qed
  moreover have "data_apart I s' cr3"
    unfolding data_apart_def p2v
  proof (intro allI impI)
    fix q j r a
    assume a: "slot_ok I q j" "length q = 3" "PRESENT (leaf s' cr3 q j)" "ok_path I r"
      "node s' r (table_of s' cr3) = Some a"
    have e: "leaf s' cr3 q j = leaf s cr3 q j" using L [OF a(1)] a(3) by (auto split: if_splits)
    have "node s r (table_of s cr3) = Some a" using a(5) by (auto simp: N [OF a(4)] split: if_splits)
    then show "physical_to_virtual s (ALIGN (leaf s' cr3 q j)) \<noteq> a"
      using vm a(1-4) unfolding e vm_ok_def data_apart_def by blast
  qed
  moreover have "frame_known s' (ALIGN (leaf s' cr3 q j))" if "slot_ok I q j" "PRESENT (leaf s' cr3 q j)" for q j
    using slot_known [OF vm that(1)] that L [OF that(1)] drop
    by (auto simp: frame_known_def cov drop_ref_def split: if_splits)
  ultimately show ?thesis using wf' count by (simp add: vm_ok_def tree_ok_def)
qed

section \<open>The code's writes as updates of the entries\<close>

lemma leaf_below:
  assumes "prefix (p @ [i]) q" and "\<And>j. unat j < 512 \<Longrightarrow> leaf s cr3 (p @ [i]) j = 0"
    and "slot_ok I q k"
  shows "leaf s cr3 q k = 0"
proof (cases "q = p @ [i]")
  case True
  then show ?thesis using assms(2,3) by (simp add: slot_ok_def)
next
  case False
  then obtain j r where r: "q = (p @ [i]) @ j # r"
    using assms(1) by (metis append_Nil2 list.exhaust prefixE)
  have j: "unat j < 512" using assms(3) by (simp add: r slot_ok_def ok_path_def)
  have "node s ((p @ [i]) @ [j]) (table_of s cr3) = None"
    unfolding node_leaf using assms(2) [OF j] by simp
  then have "node s q (table_of s cr3) = None"
    unfolding r using node_append [of s "(p @ [i]) @ [j]" r] by simp
  then show ?thesis by (simp add: leaf_def)
qed

lemma assign_leaf_update:
  assumes inj: "tree_inj I s cr3" and slot: "slot_ok I p i" and t: "node s p (table_of s cr3) = Some t"
    and empty: "length p < 3 \<Longrightarrow> \<not> PRESENT v" "\<And>j. length p < 3 \<Longrightarrow> unat j < 512 \<Longrightarrow> leaf s cr3 (p @ [i]) j = 0"
  shows "leaf_update I cr3 p i v s (assign (entry_addr t i) v s)"
  unfolding leaf_update_def
proof (intro conjI allI impI)
  let ?s' = "assign (entry_addr t i) v s"
  show mirror: "mem_mirror_present ?s' = mem_mirror_present s" by simp
  fix q j assume sl: "slot_ok I q j"
  have op: "ok_path I p" "unat i < 512" "ok_path I q" "unat j < 512" using slot sl by (simp_all add: slot_ok_def)
  have al: "page_aligned t" using node_aligned [OF t] by simp
  have ent: "entry ?s' a k = (if a = t \<and> k = i then v else entry s a k)"
    if "page_aligned a" "unat k < 512" for a k
    using al that op(2) by (simp add: store_simps)
  have uniq: "r = p" if "ok_path I r" "node s r (table_of s cr3) = Some t" for r
    using inj that t op(1) unfolding tree_inj_def by blast
  have agree: "entry ?s' a k = entry s a k"
    if "ok_path I r" "node s r (table_of s cr3) = Some a" "unat k < 512" "(r, k) \<noteq> (p, i)" for r a k
    using ent [OF node_aligned [OF that(2)] that(3)] uniq [of r] that by auto
  show "leaf ?s' cr3 q j = (if (q, j) = (p, i) then v else leaf s cr3 q j)"
  proof (cases "prefix (p @ [i]) q")
    case False
    have n: "node ?s' q (table_of ?s' cr3) = node s q (table_of s cr3)"
      by (rule node_agree [OF mirror _ op(3) False]) (use agree in blast)
    show ?thesis
    proof (cases "node s q (table_of s cr3)")
      case None
      with t n show ?thesis by (auto simp: leaf_def)
    next
      case (Some a)
      show ?thesis
        using n Some t agree [OF op(3) Some op(4)] ent [OF al op(2)] by (auto simp: leaf_def)
    qed
  next
    case True
    then have len: "length p < 3" using op(3) by (auto simp: ok_path_def prefix_def)
    have np: "\<not> prefix (p @ [i]) p" by (auto dest: prefix_length_le)
    have "node ?s' p (table_of ?s' cr3) = Some t"
      using node_agree [OF mirror _ op(1) np] agree t by metis
    then have "leaf ?s' cr3 p i = v" using ent [OF al op(2)] by (simp add: leaf_def)
    then have "leaf ?s' cr3 q j = 0"
      by (intro leaf_below [OF True _ sl] leaf_absent) (simp add: empty(1) [OF len])
    moreover have "leaf s cr3 q j = 0" by (rule leaf_below [OF True empty(2) [OF len] sl])
    moreover have "(q, j) \<noteq> (p, i)" using True by (auto dest: prefix_length_le)
    ultimately show ?thesis by auto
  qed
qed

text \<open>Filling a page that is no table, or wiping a table that is already empty, changes no entry.\<close>

lemma memset_leaf:
  assumes al: "page_aligned a"
    and same: "\<And>q j. slot_ok I q j \<Longrightarrow> node s q (table_of s cr3) = Some a \<Longrightarrow> leaf s cr3 q j = byte8 c"
    and slot: "slot_ok I q j"
  shows "leaf (memset_state a c 0x1000 s) cr3 q j = leaf s cr3 q j"
    and "node (memset_state a c 0x1000 s) q (table_of (memset_state a c 0x1000 s) cr3) = node s q (table_of s cr3)"
proof -
  let ?s' = "memset_state a c 0x1000 s"
  have mirror: "mem_mirror_present ?s' = mem_mirror_present s" by simp
  have agree: "entry ?s' b k = entry s b k"
    if "slot_ok I r k" "node s r (table_of s cr3) = Some b" for r b k
    using that same [OF that(1)] node_aligned [OF that(2)] al
    by (cases "b = a") (auto simp: store_simps slot_ok_def leaf_def)
  have "node ?s' q (table_of ?s' cr3) = node s q (table_of s cr3)" if "ok_path I q"
    using that
  proof (induction q rule: rev_induct)
    case (snoc k r)
    have sl: "slot_ok I r k" using snoc.prems slot_ok_snoc by blast
    have "ok_path I r" using snoc.prems by (rule ok_path_prefix)
    from snoc.IH [OF this] show ?case
      using agree [OF sl] by (auto simp: node_snoc table_of_cong [OF mirror] split: option.splits)
  qed (simp add: table_of_cong [OF mirror])
  then show n: "node ?s' q (table_of ?s' cr3) = node s q (table_of s cr3)"
    using slot by (simp add: slot_ok_def)
  show "leaf ?s' cr3 q j = leaf s cr3 q j"
    using agree [OF slot] n by (auto simp: leaf_def split: option.splits)
qed

section \<open>Taking and dropping frames\<close>

lemma covered_cong:
  assumes "map start_word (frame_pool s') = map start_word (frame_pool s)"
    and "map end_word (frame_pool s') = map end_word (frame_pool s)"
  shows "covered s' = covered s"
proof
  fix f
  have len: "length (frame_pool s') = length (frame_pool s)" using assms(1) by (metis length_map)
  have "in_section (frame_pool s' ! k) f = in_section (frame_pool s ! k) f" if "k < length (frame_pool s)" for k
    using assms that len by (metis in_section_def nth_map)
  then show "covered s' f = covered s f"
    by (auto simp: covered_def in_set_conv_nth len Bex_def)
qed

lemma get_free_frame_covered:
  assumes "mm_wf s" and "get_free_frame s = (f, s')"
  shows "covered s' = covered s"
proof (cases "get_from_sections (frame_pool s)")
  case None
  then show ?thesis
    using assms by (auto simp: get_free_frame_def mm_wf_def unlock_frames_def covered_def fun_eq_iff)
next
  case (Some x)
  then obtain a pool where x: "get_from_sections (frame_pool s) = Some (a, pool)" by (cases x) auto
  with get_from_sections_spec [OF _ x] assms show ?thesis
    by (intro covered_cong) (auto simp: get_free_frame_def mm_wf_def)
qed

lemma free_frame_effect:
  assumes wf: "mm_wf s" and known: "frame_known s f" and al: "page_aligned f"
    and pos: "frame_refs s f \<noteq> Some 0" and s': "s' = free_frame f s"
  shows "mm_wf s'" and "drop_ref f s s'" and "covered s' = covered s"
    and "mem_mirror_present s' = mem_mirror_present s" and "frame_lock s' = frame_lock s"
    and "kmem s' = kmem s \<or> kmem s' = memset (physical_to_virtual s f) 0 0x1000 (kmem s)"
    and "active_page s' = active_page s"
proof -
  have A: "ALIGN f = f" using al by (simp add: page_aligned_def)
  have "mm_wf s' \<and> drop_ref f s s' \<and> covered s' = covered s \<and> mem_mirror_present s' = mem_mirror_present s
      \<and> frame_lock s' = frame_lock s \<and> active_page s' = active_page s
      \<and> (kmem s' = kmem s \<or> kmem s' = memset (physical_to_virtual s f) 0 0x1000 (kmem s))"
  proof (cases "covered s f")
    case False
    then have "s' = s" unfolding s' by (intro free_frame_outside) (auto simp: covered_def A)
    with False wf show ?thesis by (simp add: drop_ref_def)
  next
    case True
    with known obtain k where k: "frame_refs s f = Some k" and hi: "0x200000 \<le> f"
      unfolding frame_known_def by blast
    with pos have "k \<noteq> 0" by auto
    then obtain c where "k = Suc c" using not0_implies_Suc by blast
    with k hi have c: "frame_refs s f = Some (Suc c)" "0x200000 \<le> f" by simp_all
    note F = free_frame_ok [OF wf c, folded s']
    obtain pool m where fm: "s' = s\<lparr>frame_pool := pool, kmem := m\<rparr>" using F(4) by blast
    obtain pool' z where fr: "free_in_sections f (frame_pool s) = (pool', z)" by fastforce
    have "frame_pool s' = pool'"
      unfolding s' by (simp add: free_frame_def A fr Let_def split: option.splits)
    then have "covered s' = covered s"
      using free_in_sections_spec [OF _ _ c(2) fr, of c] wf c(1)
      by (intro covered_cong) (auto simp: mm_wf_def frame_refs_def)
    with F c(1) True fm show ?thesis by (auto simp: drop_ref_def)
  qed
  then show "mm_wf s'" and "drop_ref f s s'" and "covered s' = covered s"
    and "mem_mirror_present s' = mem_mirror_present s" and "frame_lock s' = frame_lock s"
    and "kmem s' = kmem s \<or> kmem s' = memset (physical_to_virtual s f) 0 0x1000 (kmem s)"
    and "active_page s' = active_page s" by blast+
qed

lemma leaf_kmem_cong:
  assumes "kmem s' = kmem s" and "mem_mirror_present s' = mem_mirror_present s"
  shows "leaf s' cr3 q j = leaf s cr3 q j"
  by (auto simp: leaf_def node_kmem_cong [OF assms] table_of_cong [OF assms(2)] entry_def deref_def
      assms(1) split: option.splits)

text \<open>Dropping the reference of an entry whose table below is empty leaves all entries as they are.\<close>

lemma free_frame_leaf:
  assumes "page_aligned f" and kind: "kmem s' = kmem s \<or> kmem s' = memset (physical_to_virtual s f) 0 0x1000 (kmem s)"
    and mirror: "mem_mirror_present s' = mem_mirror_present s"
    and empty: "\<And>q j. slot_ok I q j \<Longrightarrow>
       node s q (table_of s cr3) = Some (physical_to_virtual s f) \<Longrightarrow> leaf s cr3 q j = 0"
    and slot: "slot_ok I q j"
  shows "leaf s' cr3 q j = leaf s cr3 q j" and "node s' q (table_of s' cr3) = node s q (table_of s cr3)"
proof -
  let ?m = "memset_state (physical_to_virtual s f) 0 0x1000 s"
  have "leaf s' cr3 q j = leaf s cr3 q j \<and> node s' q (table_of s' cr3) = node s q (table_of s cr3)"
    using kind
  proof
    assume k: "kmem s' = kmem s"
    show ?thesis
      by (simp add: leaf_kmem_cong [OF k mirror] node_kmem_cong [OF k mirror] table_of_cong [OF mirror])
  next
    assume "kmem s' = memset (physical_to_virtual s f) 0 0x1000 (kmem s)"
    then have k: "kmem s' = kmem ?m" "mem_mirror_present s' = mem_mirror_present ?m"
      using mirror by (simp_all add: memset_state_def)
    have "leaf ?m cr3 q j = leaf s cr3 q j" "node ?m q (table_of ?m cr3) = node s q (table_of s cr3)"
      using assms(1) empty by (auto intro!: memset_leaf [OF _ _ slot])
    then show ?thesis
      by (simp add: leaf_kmem_cong [OF k] node_kmem_cong [OF k] table_of_cong [OF k(2)])
  qed
  then show "leaf s' cr3 q j = leaf s cr3 q j" and "node s' q (table_of s' cr3) = node s q (table_of s cr3)"
    by blast+
qed

lemma leaf_at: "node s p (table_of s cr3) = Some t \<Longrightarrow> leaf s cr3 p i = deref s (entry_addr t i)"
  by (simp add: leaf_def entry_def)

text \<open>
  The two statements \<open>free_frame(ALIGN(slot)); slot = 0\<close> that unmap a page or unlink an empty
  table.
\<close>

definition clear_slot :: "u64 \<Rightarrow> 'a mm_state_scheme \<Rightarrow> 'a mm_state_scheme" where
  "clear_slot a s = assign a 0 (free_frame (ALIGN (deref s a)) s)"

lemma clear_slot_spec:
  assumes vm: "vm_ok I s cr3" and slot: "slot_ok I p i" and t: "node s p (table_of s cr3) = Some t"
    and pres: "PRESENT (leaf s cr3 p i)"
    and empty: "\<And>j. length p < 3 \<Longrightarrow> unat j < 512 \<Longrightarrow> leaf s cr3 (p @ [i]) j = 0"
    and s': "s' = clear_slot (entry_addr t i) s"
  shows "vm_ok I s' cr3" and "leaf_update I cr3 p i 0 s s'" and "frame_lock s' = frame_lock s"
    and "drop_ref (ALIGN (leaf s cr3 p i)) s s'" and "active_page s' = active_page s"
proof -
  let ?f = "ALIGN (leaf s cr3 p i)"
  define s1 where "s1 = free_frame ?f s"
  have tree: "tree_ok I s cr3" using vm by blast
  have known: "frame_known s ?f" using slot_known [OF vm slot pres] .
  have pos: "frame_refs s ?f \<noteq> Some 0"
    using user_counted [OF vm, of p i ?f 0] slot pres by (auto simp: users_def)
  note F = free_frame_effect [OF tree_okD(1) [OF tree] known page_aligned_ALIGN pos s1_def]
  have emp: "leaf s cr3 q j = 0"
    if q: "slot_ok I q j" "node s q (table_of s cr3) = Some (physical_to_virtual s ?f)" for q j
  proof (cases "length p < 3")
    case True
    have "?f \<noteq> 0" using known by (simp add: frame_known_def)
    then have "node s (p @ [i]) (table_of s cr3) = Some (physical_to_virtual s ?f)"
      using pres by (simp add: node_leaf table_of_ALIGN)
    moreover have "ok_path I (p @ [i])" using slot True slot_ok_snoc by blast
    moreover have "ok_path I q" using q(1) by (simp add: slot_ok_def)
    ultimately have "q = p @ [i]" using root_path_unique [OF tree] q(2) by blast
    then show ?thesis using empty True q(1) by (simp add: slot_ok_def)
  next
    case False
    then have "length p = 3" using slot by (simp add: slot_ok_def ok_path_def)
    moreover have "ok_path I q" using q(1) by (simp add: slot_ok_def)
    ultimately show ?thesis
      using vm slot pres q(2) unfolding vm_ok_def data_apart_def by blast
  qed
  note S = free_frame_leaf [OF page_aligned_ALIGN F(6) F(4) emp]
  have node1: "node s1 q (table_of s1 cr3) = node s q (table_of s cr3)" if "ok_path I q" for q
  proof (cases q rule: rev_cases)
    case Nil
    then show ?thesis by (simp add: table_of_cong [OF F(4)])
  next
    case (snoc r k)
    then have "slot_ok I r k" using that slot_ok_snoc by blast
    then show ?thesis unfolding snoc node_leaf by (simp add: S(1) table_of_cong [OF F(4)])
  qed
  have op: "ok_path I p" using slot by (simp add: slot_ok_def)
  have inj1: "tree_inj I s1 cr3"
    using tree_okD(2) [OF tree] unfolding tree_inj_def by (metis node1)
  have s'1: "s' = assign (entry_addr t i) 0 s1" by (simp add: s' clear_slot_def s1_def leaf_at [OF t])
  have t1: "node s1 p (table_of s1 cr3) = Some t" using node1 [OF op] t by simp
  have "leaf s1 cr3 (p @ [i]) j = 0" if "length p < 3" "unat j < 512" for j
  proof -
    have "ok_path I (p @ [i])" using slot that(1) slot_ok_snoc by blast
    then have "slot_ok I (p @ [i]) j" using that by (simp add: slot_ok_def)
    then show ?thesis using S(1) empty that by simp
  qed
  then have up1: "leaf_update I cr3 p i 0 s1 s'"
    unfolding s'1 by (intro assign_leaf_update [OF inj1 slot t1]) simp_all
  show up: "leaf_update I cr3 p i 0 s s'"
    using up1 F(4) S(1) by (simp add: leaf_update_def)
  have refs: "frame_refs s' = frame_refs s1" "mm_wf s' = mm_wf s1" "covered s' = covered s1"
    by (simp_all add: s'1 covered_def fun_eq_iff)
  show drop: "drop_ref ?f s s'" using F(2) refs(1) by (simp add: drop_ref_def)
  show "vm_ok I s' cr3"
    by (rule vm_ok_clear [OF vm up slot pres refl drop]) (use refs F in simp_all)
  show "frame_lock s' = frame_lock s" "active_page s' = active_page s"
    using F(5,7) by (simp_all add: s'1 assign_def)
qed

end
