(* ===== verification/Vm_Ops.thy ===== *)
theory Vm_Ops
  imports Vm_Invariant
begin

text \<open>
  The operations of \<open>paging.c\<close> on a well-formed address space: building tables changes no
  page entry, mapping and unmapping change exactly the entries of the range, and all of them
  keep \<open>vm_ok\<close> and release the frame lock.
\<close>

section \<open>Building tables\<close>

text \<open>
  What building tables may change: no present entry, no page entry, no count of a used frame.
\<close>

definition extends :: "u64 set \<Rightarrow> u64 \<Rightarrow> 'a mm_state_scheme \<Rightarrow> 'a mm_state_scheme \<Rightarrow> bool" where
  "extends I cr3 s s' \<longleftrightarrow> vm_ok I s' cr3 \<and> mem_mirror_present s' = mem_mirror_present s \<and>
     active_page s' = active_page s \<and> covered s' = covered s \<and>
     (\<forall>q j. slot_ok I q j \<longrightarrow> PRESENT (leaf s cr3 q j) \<or> length q = 3 \<longrightarrow> leaf s' cr3 q j = leaf s cr3 q j) \<and>
     (\<forall>f. frame_refs s' f = frame_refs s f \<or> frame_refs s f = Some 0 \<and> frame_refs s' f = Some 1)"

lemma extends_refl: "vm_ok I s cr3 \<Longrightarrow> extends I cr3 s s"
  by (simp add: extends_def)

lemma extends_trans:
  assumes "extends I cr3 s s'" and "extends I cr3 s' s''"
  shows "extends I cr3 s s''"
proof -
  have "frame_refs s'' f = frame_refs s f \<or> frame_refs s f = Some 0 \<and> frame_refs s'' f = Some 1" for f
    using assms unfolding extends_def by (metis option.inject zero_neq_one)
  moreover have "leaf s'' cr3 q j = leaf s cr3 q j"
    if "slot_ok I q j" "PRESENT (leaf s cr3 q j) \<or> length q = 3" for q j
    using assms that unfolding extends_def by metis
  ultimately show ?thesis using assms by (simp add: extends_def)
qed

lemma link_table_leaf:
  assumes ok: "tree_ok I s cr3" and p: "ok_path I (p @ [i])" "node s p (table_of s cr3) = Some t"
    and absent: "\<not> PRESENT (entry s t i)" and free: "frame_refs s f = Some 0" "f \<noteq> 0"
    and e: "PRESENT e" "ALIGN e = f" and s1: "kmem s1 = kmem s" "mem_mirror_present s1 = mem_mirror_present s"
    and s': "s' = link_table t i e s1"
  shows "leaf_update I cr3 p i e s s'"
  unfolding leaf_update_def
proof (intro conjI allI impI)
  note L = link_table_nodes [OF ok p absent free e s1 s']
  show "mem_mirror_present s' = mem_mirror_present s" using s1 s' by (simp add: link_table_def)
  fix q j assume sl: "slot_ok I q j"
  have op: "ok_path I q" "unat j < 512" using sl by (simp_all add: slot_ok_def)
  have opp: "ok_path I p" "unat i < 512" using p(1) slot_ok_snoc by (auto simp: slot_ok_def)
  show "leaf s' cr3 q j = (if (q, j) = (p, i) then e else leaf s cr3 q j)"
  proof (cases "(q, j) = (p, i)")
    case True
    have nt: "node s' p (table_of s' cr3) = Some t" using L(1) [OF opp(1)] p(2) by simp
    have "t \<noteq> physical_to_virtual s f" using node_not_free [OF ok free(1) opp(1)] p(2) by auto
    moreover have "page_aligned f" using e(2) page_aligned_ALIGN [of e] by simp
    ultimately have "entry s' t i = e"
      using node_aligned [OF p(2)] opp(2)
      by (simp add: s' link_table_def store_simps e(2) physical_to_virtual_cong [OF s1(2)])
    with True nt show ?thesis by (simp add: leaf_def)
  next
    case False
    have none: "node s (p @ [i]) (table_of s cr3) = None" using absent p(2) by (simp add: node_snoc)
    show ?thesis
      using L(1) [OF op(1)] L(2) [OF op(2)] L(3) [OF op(1) _ op(2) False] False none
      by (auto simp: leaf_def split: option.splits if_splits)
  qed
qed

lemma vm_ok_unlock: "vm_ok I (unlock_frames s) cr3 = vm_ok I s cr3"
  unfolding vm_ok_def data_apart_def users_def tree_ok_unlock
  by (simp add: frame_known_def unlock_frames_def frame_refs_def covered_def physical_to_virtual_def)

lemma extends_unlock: "vm_ok I s cr3 \<Longrightarrow> extends I cr3 s (unlock_frames s)"
  unfolding extends_def vm_ok_unlock tree_ok_unlock
  by (simp add: unlock_frames_def frame_refs_def covered_def fun_eq_iff)

definition out_of_frames :: "'a mm_state_scheme \<Rightarrow> bool" where
  "out_of_frames s \<longleftrightarrow> (\<forall>f. frame_refs s f \<noteq> Some 0)"

lemma enter_table_spec:
  assumes vm: "vm_ok I s cr3" and p: "ok_path I (p @ [i])" "node s p (table_of s cr3) = Some t"
    and run: "enter_table (entry_addr t i) True user s = (r, s')"
  shows "extends I cr3 s s'"
    and "r = Some a \<Longrightarrow> node s' (p @ [i]) (table_of s' cr3) = Some a \<and> frame_lock s' = frame_lock s"
    and "r = None \<Longrightarrow> out_of_frames s' \<and> frame_lock s' = 0"
proof -
  have ok: "tree_ok I s cr3" and wf: "mm_wf s" using vm by (auto dest: tree_okD)
  consider (present) "PRESENT (entry s t i)" | (none) s1 where "\<not> PRESENT (entry s t i)" "get_free_frame s = (0, s1)"
    | (new) f s1 where "\<not> PRESENT (entry s t i)" "get_free_frame s = (f, s1)" "f \<noteq> 0"
    by (metis surj_pair)
  then have "extends I cr3 s s' \<and>
     (\<forall>a. r = Some a \<longrightarrow> node s' (p @ [i]) (table_of s' cr3) = Some a \<and> frame_lock s' = frame_lock s) \<and>
     (r = None \<longrightarrow> out_of_frames s' \<and> frame_lock s' = 0)"
  proof cases
    case present
    then have "r = Some (table_of s (entry s t i))" "s' = s"
      using run by (auto simp: enter_table_def entry_def)
    with present p(2) vm show ?thesis by (simp add: node_snoc extends_refl)
  next
    case none
    then have "r = None" "s' = s1" using run by (auto simp: enter_table_def entry_def)
    with get_free_frame_none [OF wf none(2)] vm show ?thesis
      by (auto simp: extends_unlock out_of_frames_def) (auto simp: unlock_frames_def frame_refs_def)
  next
    case new
    let ?e = "table_entry user f"
    note g = get_free_frame_ok(1) [OF wf new(2,3)]
    have al: "page_aligned f" and free: "frame_refs s f = Some 0" using g by simp_all
    obtain pool where s1: "s1 = s\<lparr>frame_pool := pool\<rparr>" using get_free_frame_ok(2) [OF wf new(2,3)] by blast
    define s3 where "s3 = link_table t i ?e s1"
    have lt: "s3 = memset_state (physical_to_virtual (assign (entry_addr t i) ?e s1) (ALIGN ?e)) 0 0x1000
        (assign (entry_addr t i) ?e s1)"
      by (simp add: s3_def link_table_def assign_def physical_to_virtual_def)
    have up: "leaf_update I cr3 p i ?e s s3"
      by (rule link_table_leaf [OF ok p new(1) free new(3) table_entry_present ALIGN_table_entry [OF al] _ _ s3_def])
        (simp_all add: s1)
    have slot: "slot_ok I p i" using p(1) slot_ok_snoc by blast
    have absent: "\<not> PRESENT (leaf s cr3 p i)" using new(1) p(2) by (simp add: leaf_def)
    have eqs: "frame_refs s3 = frame_refs s1" "mm_wf s3 = mm_wf s1" "covered s3 = covered s1"
      "frame_lock s3 = frame_lock s" "active_page s3 = active_page s"
      by (simp_all add: s3_def link_table_def s1 covered_def fun_eq_iff)
        (simp_all add: assign_def memset_state_def)
    have vm3: "vm_ok I s3 cr3"
      by (rule vm_ok_add [OF vm up slot absent table_entry_present ALIGN_table_entry [OF al] free])
        (use g eqs get_free_frame_covered [OF wf new(2)] in simp_all)
    have "extends I cr3 s s3"
      using vm3 up eqs g free absent p(1) get_free_frame_covered [OF wf new(2)]
      by (auto simp: extends_def leaf_update_def ok_path_def)
    moreover have "node s3 (p @ [i]) (table_of s3 cr3) = Some (table_of s3 ?e)"
      using leaf_updated [OF up slot] by (simp add: node_leaf)
    moreover have "node s3 p (table_of s3 cr3) = Some t"
      using node_leaf_update [OF up ok_path_prefix [OF p(1)]] p(2) by simp
    then have "deref s3 (entry_addr t i) = ?e" using leaf_updated [OF up slot] leaf_at by force
    moreover have "r = Some (table_of s3 (deref s3 (entry_addr t i)))" "s' = s3"
      using run new unfolding lt by (auto simp: enter_table_def entry_def Let_def)
    ultimately show ?thesis using eqs(4) by simp
  qed
  then show "extends I cr3 s s'"
    and "r = Some a \<Longrightarrow> node s' (p @ [i]) (table_of s' cr3) = Some a \<and> frame_lock s' = frame_lock s"
    and "r = None \<Longrightarrow> out_of_frames s' \<and> frame_lock s' = 0" by blast+
qed

lemma extends_vm_ok: "extends I cr3 s s' \<Longrightarrow> vm_ok I s' cr3"
  by (simp add: extends_def)

lemma get_page_gen_spec:
  assumes ok: "vm_ok I s cr3" and I: "va_pml va \<in> I"
    and run: "get_page_gen va cr3 True user s = (r, s')"
  shows "extends I cr3 s s'"
    and "case r of
        Some a \<Rightarrow> frame_lock s' = frame_lock s \<and>
          (\<exists>pt. node s' (path va) (table_of s' cr3) = Some pt \<and> a = entry_addr pt (va_table va))
      | None \<Rightarrow> frame_lock s' = 0 \<and> out_of_frames s'"
proof -
  note T = enter_table_spec
  have op: "ok_path I (path va)" using I by (rule ok_path_path)
  have op1: "ok_path I ([] @ [va_pml va])" using I by (simp add: ok_path_def)
  have op2: "ok_path I ([va_pml va] @ [va_directory_ptr va])" using I by (simp add: ok_path_def)
  have op3: "ok_path I ([va_pml va, va_directory_ptr va] @ [va_directory va])"
    using op by (simp add: path_def)
  have "extends I cr3 s s' \<and> (case r of
        Some a \<Rightarrow> frame_lock s' = frame_lock s \<and>
          (\<exists>pt. node s' (path va) (table_of s' cr3) = Some pt \<and> a = entry_addr pt (va_table va))
      | None \<Rightarrow> frame_lock s' = 0 \<and> out_of_frames s')"
  proof -
    obtain r1 s1 where e1: "enter_table (entry_addr (table_of s cr3) (va_pml va)) True user s = (r1, s1)"
      by fastforce
    have n0: "node s [] (table_of s cr3) = Some (table_of s cr3)" by simp
    note E1 = T [OF ok op1 n0 e1]
    show ?thesis
    proof (cases r1)
      case None
      with run e1 E1(1) E1(3) show ?thesis by (auto simp: get_page_gen_def)
    next
      case (Some pdpt)
      have n1: "node s1 [va_pml va] (table_of s1 cr3) = Some pdpt" "frame_lock s1 = frame_lock s"
        using E1(2) [OF Some] by simp_all
      obtain r2 s2 where e2: "enter_table (entry_addr pdpt (va_directory_ptr va)) True user s1 = (r2, s2)"
        by fastforce
      note E2 = T [OF extends_vm_ok [OF E1(1)] op2 n1(1) e2]
      note x2 = extends_trans [OF E1(1) E2(1)]
      show ?thesis
      proof (cases r2)
        case None
        with run e1 e2 Some x2 E2(3) show ?thesis by (auto simp: get_page_gen_def)
      next
        case Some2: (Some pdir)
        have n2: "node s2 [va_pml va, va_directory_ptr va] (table_of s2 cr3) = Some pdir"
          "frame_lock s2 = frame_lock s"
          using E2(2) [OF Some2] n1(2) by simp_all
        obtain r3 s3 where e3: "enter_table (entry_addr pdir (va_directory va)) True user s2 = (r3, s3)"
          by fastforce
        note E3 = T [OF extends_vm_ok [OF E2(1)] op3 n2(1) e3]
        note x3 = extends_trans [OF x2 E3(1)]
        from run e1 e2 e3 Some Some2 x3 E3(2,3) n2(2) show ?thesis
          by (cases r3) (auto simp: get_page_gen_def path_def)
      qed
    qed
  qed
  then show "extends I cr3 s s'"
    and "case r of
        Some a \<Rightarrow> frame_lock s' = frame_lock s \<and>
          (\<exists>pt. node s' (path va) (table_of s' cr3) = Some pt \<and> a = entry_addr pt (va_table va))
      | None \<Rightarrow> frame_lock s' = 0 \<and> out_of_frames s'" by blast+
qed

section \<open>Page entries\<close>

definition same_page :: "u64 \<Rightarrow> u64 \<Rightarrow> bool" where
  "same_page va va' \<longleftrightarrow> path va = path va' \<and> va_table va = va_table va'"

lemma same_page_refl [simp]: "same_page va va"
  by (simp add: same_page_def)

lemma slot_ok_pte: "va_pml va \<in> I \<Longrightarrow> slot_ok I (path va) (va_table va)"
  by (simp add: slot_ok_def ok_path_path) (simp add: path_def)

lemma length_path [simp]: "length (path va) = 3"
  by (simp add: path_def)

lemma pte_extends: "extends I cr3 s s' \<Longrightarrow> va_pml va \<in> I \<Longrightarrow> pte s' cr3 va = pte s cr3 va"
  by (simp add: extends_def pte_def slot_ok_pte)

lemma pte_leaf_update:
  assumes "leaf_update I cr3 (path va) (va_table va) v s s'" and "va_pml va' \<in> I"
  shows "pte s' cr3 va' = (if same_page va va' then v else pte s cr3 va')"
  using leaf_updated [OF assms(1) slot_ok_pte [OF assms(2)]] by (auto simp: pte_def same_page_def)

lemma pte_table_update:
  assumes "leaf_update I cr3 p i v s s'" and "length p < 3" and "va_pml va \<in> I"
  shows "pte s' cr3 va = pte s cr3 va"
  using leaf_updated [OF assms(1) slot_ok_pte [OF assms(3)]] assms(2) by (auto simp: pte_def)

text \<open>The invariant depends on the entries through their present bit and frame only.\<close>

lemma vm_ok_cong:
  assumes vm: "vm_ok I s cr3" and mirror: "mem_mirror_present s' = mem_mirror_present s"
    and A: "\<And>q j. slot_ok I q j \<Longrightarrow> PRESENT (leaf s' cr3 q j) = PRESENT (leaf s cr3 q j)"
      "\<And>q j. slot_ok I q j \<Longrightarrow> PRESENT (leaf s cr3 q j) \<Longrightarrow> ALIGN (leaf s' cr3 q j) = ALIGN (leaf s cr3 q j)"
    and refs: "frame_refs s' = frame_refs s" "mm_wf s'" "covered s' = covered s"
  shows "vm_ok I s' cr3"
proof -
  have p2v: "physical_to_virtual s' = physical_to_virtual s" by (rule physical_to_virtual_cong [OF mirror])
  have N: "node s' q (table_of s' cr3) = node s q (table_of s cr3)" if "ok_path I q" for q
  proof (cases q rule: rev_cases)
    case Nil
    then show ?thesis by (simp add: table_of_cong [OF mirror])
  next
    case (snoc r k)
    then have sl: "slot_ok I r k" using that slot_ok_snoc by blast
    have "table_of s' (leaf s' cr3 r k) = table_of s (leaf s cr3 r k)" if pr: "PRESENT (leaf s cr3 r k)"
      using slot_known [OF vm sl pr] A(2) [OF sl pr] p2v by (simp add: frame_known_def table_of_ALIGN)
    then show ?thesis unfolding snoc node_leaf by (simp add: A(1) [OF sl])
  qed
  have tree: "tree_ok I s' cr3"
    using vm_ok_tree [OF vm] refs p2v unfolding tree_ok_def tree_inj_def tables_used_def by (metis N)
  have "(q, j) \<in> users I s' cr3 f \<longleftrightarrow> (q, j) \<in> users I s cr3 f" for q j f
    unfolding users_def using A by auto
  then have "users I s' cr3 f = users I s cr3 f" for f by auto
  moreover have "data_apart I s' cr3"
    using vm unfolding vm_ok_def data_apart_def p2v by (metis A N)
  moreover have "frame_known s' (ALIGN (leaf s' cr3 q j))" if "slot_ok I q j" "PRESENT (leaf s' cr3 q j)" for q j
    using slot_known [OF vm that(1)] that A refs by (simp add: frame_known_def)
  ultimately show ?thesis using vm tree refs by (simp add: vm_ok_def)
qed

lemma vm_ok_reflag:
  assumes vm: "vm_ok I s cr3" and up: "leaf_update I cr3 p i v s s'"
    and pres: "PRESENT (leaf s cr3 p i) = PRESENT v" "PRESENT v \<Longrightarrow> ALIGN v = ALIGN (leaf s cr3 p i)"
    and refs: "frame_refs s' = frame_refs s" "mm_wf s'" "covered s' = covered s"
  shows "vm_ok I s' cr3"
proof (rule vm_ok_cong [OF vm _ _ _ refs])
  show "mem_mirror_present s' = mem_mirror_present s" using up by (simp add: leaf_update_def)
qed (use leaf_updated [OF up] pres in auto)

definition low_frames :: "'a mm_state_scheme \<Rightarrow> bool" where
  "low_frames s \<longleftrightarrow> (\<forall>f. frame_refs s f \<noteq> None \<longrightarrow> \<not> bit f 63)"

definition plain_entry :: "u64 \<Rightarrow> bool" where
  "plain_entry e \<longleftrightarrow> \<not> bit e 63 \<and>
     (PRESENT e \<or> \<not> (internal_valid e \<and> internal_allocondem e \<and> internal_exec e))"

lemma low_frames_cong:
  "\<forall>f. frame_refs s' f = None \<longleftrightarrow> frame_refs s f = None \<Longrightarrow> low_frames s' = low_frames s"
  by (simp add: low_frames_def)

lemma low_frames_extends: "extends I cr3 s s' \<Longrightarrow> low_frames s' = low_frames s"
  by (rule low_frames_cong) (metis extends_def option.distinct(1))

lemma page_flags:
  "bit (page_entry f kern readonly exec) 1 \<longleftrightarrow> \<not> readonly"
  "bit (page_entry f kern readonly exec) 2 \<longleftrightarrow> \<not> kern"
  "bit (page_entry f kern readonly exec) 63 \<longleftrightarrow> exec"
  by (simp_all add: page_entry_def flag_defs bit_field_simps)

lemma unlock_frames_simps [simp]:
  "low_frames (unlock_frames s) = low_frames s" "active_page (unlock_frames s) = active_page s"
  "frame_refs (unlock_frames s) = frame_refs s" "frame_lock (unlock_frames s) = 0"
  "mem_mirror_present (unlock_frames s) = mem_mirror_present s" "pte (unlock_frames s) = pte s"
  by (simp_all add: low_frames_def pte_def tree_ok_unlock fun_eq_iff)
    (simp_all add: unlock_frames_def frame_refs_def)

section \<open>Mapping a frame\<close>

text \<open>
  Taking a frame for an empty page slot, writing the entry and filling the frame with a byte:
  the new-page branch of \<open>allocate_frame\<close>.
\<close>

lemma map_new_frame:
  assumes vm: "vm_ok I s cr3" and I: "va_pml va \<in> I"
    and t: "node s (path va) (table_of s cr3) = Some t" and absent: "\<not> PRESENT (pte s cr3 va)"
    and get: "get_free_frame s = (f, s1)" "f \<noteq> 0" and v: "PRESENT v" "ALIGN v = f"
    and s2: "s2 = assign (entry_addr t (va_table va)) v s1"
    and s3: "s3 = s2 \<or> s3 = memset_state (physical_to_virtual s2 f) c 0x1000 s2"
  shows "vm_ok I s3 cr3" and "leaf_update I cr3 (path va) (va_table va) v s s3"
    and "frame_refs s f = Some 0" and "frame_refs s3 = (frame_refs s)(f \<mapsto> 1)"
    and "frame_lock s3 = frame_lock s" and "deref s3 (entry_addr t (va_table va)) = v"
    and "active_page s3 = active_page s" and "covered s3 = covered s"
proof -
  let ?p = "path va" and ?i = "va_table va"
  have ok: "tree_ok I s cr3" and wf: "mm_wf s" using vm by (auto dest: tree_okD)
  note g = get_free_frame_ok(1) [OF wf get]
  obtain pool where s1: "s1 = s\<lparr>frame_pool := pool\<rparr>" using get_free_frame_ok(2) [OF wf get] by blast
  have k1: "kmem s1 = kmem s" "mem_mirror_present s1 = mem_mirror_present s" by (simp_all add: s1)
  have slot: "slot_ok I ?p ?i" using I by (rule slot_ok_pte)
  have op: "ok_path I ?p" using slot by (simp add: slot_ok_def)
  have nodes1: "node s1 q (table_of s1 cr3) = node s q (table_of s cr3)" for q
    by (simp add: node_kmem_cong [OF k1] table_of_cong [OF k1(2)])
  have inj1: "tree_inj I s1 cr3" using tree_okD(2) [OF ok] unfolding tree_inj_def nodes1 .
  have "leaf_update I cr3 ?p ?i v s1 s2"
    unfolding s2 by (rule assign_leaf_update [OF inj1 slot]) (simp_all add: nodes1 t)
  then have up2: "leaf_update I cr3 ?p ?i v s s2"
    by (simp add: leaf_update_def leaf_kmem_cong [OF k1] k1)
  have nodes2: "node s2 q (table_of s2 cr3) = node s q (table_of s cr3)" if "ok_path I q" for q
    using node_leaf_update [OF up2 that] that by (auto simp: ok_path_def)
  have p2v: "physical_to_virtual s2 = physical_to_virtual s"
    by (rule physical_to_virtual_cong) (simp add: s2 k1)
  have free: "frame_refs s f = Some 0" and al: "page_aligned f" using g by simp_all
  have fresh: "slot_ok I q j \<Longrightarrow> node s2 q (table_of s2 cr3) \<noteq> Some (physical_to_virtual s2 f)" for q j
    using node_not_free [OF ok free] by (simp add: slot_ok_def nodes2 p2v)
  have "leaf (memset_state (physical_to_virtual s2 f) c 0x1000 s2) cr3 q j = leaf s2 cr3 q j"
    if "slot_ok I q j" for q j
    by (rule memset_leaf(1) [OF _ _ that]) (use al fresh in auto)
  then show up: "leaf_update I cr3 ?p ?i v s s3"
    using s3 up2 by (auto simp: leaf_update_def)
  have eqs: "frame_refs s3 = frame_refs s1" "mm_wf s3 = mm_wf s1" "covered s3 = covered s1"
    "frame_lock s3 = frame_lock s" "active_page s3 = active_page s"
    using s3 by (auto simp: s2 s1 covered_def fun_eq_iff assign_def memset_state_def
        mm_wf_def frame_refs_def)
  show "frame_refs s f = Some 0" by (rule free)
  show "frame_refs s3 = (frame_refs s)(f \<mapsto> 1)" using g eqs by simp
  show "frame_lock s3 = frame_lock s" "active_page s3 = active_page s" by (rule eqs)+
  show "covered s3 = covered s" using eqs(3) get_free_frame_covered [OF wf get(1)] by simp
  show "vm_ok I s3 cr3"
    by (rule vm_ok_add [OF vm up slot _ v free])
      (use g eqs absent get_free_frame_covered [OF wf get(1)] in \<open>simp_all add: pte_def\<close>)
  have "node s3 ?p (table_of s3 cr3) = Some t" using node_leaf_update [OF up op] t by simp
  then show "deref s3 (entry_addr t ?i) = v"
    using leaf_updated [OF up slot] leaf_at by force
qed

lemma allocate_frame_spec:
  assumes vm: "vm_ok I s cr3" and I: "va_pml va \<in> I" and low: "low_frames s"
    and t: "node s (path va) (table_of s cr3) = Some t" and plain: "plain_entry (pte s cr3 va)"
    and run: "allocate_frame (entry_addr t (va_table va)) kern readonly False s = (r, s')"
  shows "vm_ok I s' cr3 \<and> low_frames s' \<and> active_page s' = active_page s \<and>
    (if r = 0 then s' = unlock_frames s \<and> out_of_frames s
     else frame_lock s' = frame_lock s \<and> page_aligned r \<and>
       leaf_update I cr3 (path va) (va_table va) (page_entry r kern readonly False) s s' \<and>
       (if PRESENT (pte s cr3 va) then r = ALIGN (pte s cr3 va) \<and> frame_refs s' = frame_refs s
        else frame_refs s r = Some 0 \<and> frame_refs s' = (frame_refs s)(r \<mapsto> 1)))"
proof -
  let ?a = "entry_addr t (va_table va)"
  have wf: "mm_wf s" and ok: "tree_ok I s cr3" using vm by (auto dest: tree_okD)
  have slot: "slot_ok I (path va) (va_table va)" using I by (rule slot_ok_pte)
  have old: "deref s ?a = pte s cr3 va" using leaf_at [OF t] by (simp add: pte_def)
  show ?thesis
  proof (cases "PRESENT (pte s cr3 va)")
    case True
    let ?f = "ALIGN (pte s cr3 va)"
    let ?v = "page_entry ?f kern readonly False"
    have s': "s' = assign ?a ?v s" using run True by (auto simp: allocate_frame_def old Let_def)
    have up: "leaf_update I cr3 (path va) (va_table va) ?v s s'"
      unfolding s' by (rule assign_leaf_update [OF tree_okD(2) [OF ok] slot t]) simp_all
    have "\<not> bit ?f 63" using plain True by (simp add: plain_entry_def bit_ALIGN)
    then have A: "ALIGN ?v = ?f" by (simp add: ALIGN_page_entry)
    have r: "r = ?f" using run True A by (auto simp: allocate_frame_def old Let_def)
    have "?f \<noteq> 0" using slot_known [OF vm slot] True by (simp add: pte_def frame_known_def)
    moreover have "vm_ok I s' cr3"
      by (rule vm_ok_reflag [OF vm up]) (use True A wf in \<open>simp_all add: pte_def s' covered_def fun_eq_iff\<close>)
    ultimately show ?thesis
      using True up r low by (simp add: s' low_frames_def assign_def frame_refs_def)
  next
    case False
    obtain f s1 where g: "get_free_frame s = (f, s1)" by fastforce
    have ex: "\<not> (internal_valid (pte s cr3 va) \<and> internal_allocondem (pte s cr3 va) \<and> internal_exec (pte s cr3 va))"
      using plain False by (simp add: plain_entry_def)
    show ?thesis
    proof (cases "f = 0")
      case True
      then have "r = 0" "s' = s1" using run False g by (auto simp: allocate_frame_def old Let_def split: if_splits)
      moreover have "s1 = unlock_frames s" "out_of_frames s"
        using get_free_frame_none [OF wf] g True by (auto simp: out_of_frames_def)
      ultimately show ?thesis
        using vm low by (simp add: vm_ok_unlock unlock_frames_simps)
    next
      case fn: False
      let ?v = "page_entry f kern readonly False"
      note G = get_free_frame_ok(1) [OF wf g fn]
      have A: "ALIGN ?v = f" using G low by (simp add: ALIGN_page_entry low_frames_def)
      define s2 where "s2 = assign ?a ?v s1"
      have st: "s' = s2 \<or> s' = memset_state (physical_to_virtual s2 f) 0xCC 0x1000 s2"
        and r: "r = ALIGN (deref s' ?a)"
        using run False g fn ex A by (auto simp: allocate_frame_def old Let_def s2_def split: if_splits)
      note M = map_new_frame [OF vm I t False g fn page_entry_present A s2_def st]
      have "low_frames s'" using low M(3,4) by (auto simp: low_frames_def)
      then show ?thesis using M A r fn False G by simp
    qed
  qed
qed

section \<open>Unmapping\<close>

lemma table_empty_leaf:
  assumes "table_is_empty s t" and "node s q (table_of s cr3) = Some t" and "unat j < 512"
  shows "leaf s cr3 q j = 0"
proof -
  have "deref s (entry_addr t (of_nat (unat j))) = 0"
    using assms(1,3) unfolding table_is_empty_def by (metis atLeastLessThan_iff le0 set_upt)
  then show ?thesis using leaf_at [OF assms(2)] by simp
qed

lemma low_frames_drop: "drop_ref f s s' \<Longrightarrow> low_frames s \<Longrightarrow> low_frames s'"
  by (auto simp: drop_ref_def low_frames_def split: if_splits)

lemma prune_level:
  assumes vm: "vm_ok I s cr3" and p: "ok_path I (p @ [i])" "node s p (table_of s cr3) = Some t"
    and child: "node s (p @ [i]) (table_of s cr3) = Some c" and empty: "table_is_empty s c"
    and s': "s' = clear_slot (entry_addr t i) s"
  shows "vm_ok I s' cr3" and "leaf_update I cr3 p i 0 s s'" and "frame_lock s' = frame_lock s"
    and "low_frames s \<Longrightarrow> low_frames s'"
proof -
  have slot: "slot_ok I p i" using p(1) slot_ok_snoc by blast
  have pres: "PRESENT (leaf s cr3 p i)" using child by (auto simp: node_leaf split: if_splits)
  note C = clear_slot_spec [OF vm slot p(2) pres table_empty_leaf [OF empty child] s']
  show "vm_ok I s' cr3" and "leaf_update I cr3 p i 0 s s'" and "frame_lock s' = frame_lock s"
    by (rule C; assumption)+
  show "low_frames s \<Longrightarrow> low_frames s'" by (rule low_frames_drop [OF C(4)])
qed

text \<open>Same page entries, invariant and lock.\<close>

definition quiet :: "u64 set \<Rightarrow> u64 \<Rightarrow> 'a mm_state_scheme \<Rightarrow> 'a mm_state_scheme \<Rightarrow> bool" where
  "quiet I cr3 s s' \<longleftrightarrow> vm_ok I s' cr3 \<and> frame_lock s' = frame_lock s \<and> (low_frames s \<longrightarrow> low_frames s') \<and>
     (\<forall>va. va_pml va \<in> I \<longrightarrow> pte s' cr3 va = pte s cr3 va)"

lemma quiet_refl: "vm_ok I s cr3 \<Longrightarrow> quiet I cr3 s s"
  by (simp add: quiet_def)

lemma quiet_trans: "quiet I cr3 s s' \<Longrightarrow> quiet I cr3 s' s'' \<Longrightarrow> quiet I cr3 s s''"
  by (simp add: quiet_def)

lemma quiet_prune:
  assumes "vm_ok I s cr3" and "ok_path I (p @ [i])" "node s p (table_of s cr3) = Some t"
    and "node s (p @ [i]) (table_of s cr3) = Some c" and "table_is_empty s c"
  shows "quiet I cr3 s (clear_slot (entry_addr t i) s)"
    and "\<And>q. ok_path I q \<Longrightarrow> q \<noteq> p @ [i] \<Longrightarrow>
      node (clear_slot (entry_addr t i) s) q (table_of (clear_slot (entry_addr t i) s) cr3)
        = node s q (table_of s cr3)"
proof -
  note P = prune_level [OF assms refl]
  have "length p < 3" using assms(2) by (simp add: ok_path_def)
  with P show "quiet I cr3 s (clear_slot (entry_addr t i) s)"
    by (simp add: quiet_def pte_table_update [OF P(2)])
  show "node (clear_slot (entry_addr t i) s) q (table_of (clear_slot (entry_addr t i) s) cr3)
        = node s q (table_of s cr3)" if "ok_path I q" "q \<noteq> p @ [i]" for q
    using node_leaf_update [OF P(2) that(1)] that(2) by simp
qed

lemma quiet_vm: "quiet I cr3 s s' \<Longrightarrow> vm_ok I s' cr3"
  by (simp add: quiet_def)

text \<open>The cascade at the end of \<open>free_page_structure\<close>, once the page entry is clear.\<close>

lemma prune_cascade:
  assumes vm: "vm_ok I s cr3" and I: "va_pml va \<in> I"
    and n1: "node s [va_pml va] (table_of s cr3) = Some pdpt"
    and n2: "node s [va_pml va, va_directory_ptr va] (table_of s cr3) = Some pdir"
    and n3: "node s (path va) (table_of s cr3) = Some pt"
    and slots: "slot1 = entry_addr (table_of s cr3) (va_pml va)"
      "slot2 = entry_addr pdpt (va_directory_ptr va)" "slot3 = entry_addr pdir (va_directory va)"
  shows "quiet I cr3 s
    (if \<not> table_is_empty s pt then s
     else let s2 = clear_slot slot3 s in if \<not> table_is_empty s2 pdir then s2
     else let s3 = clear_slot slot2 s2 in if \<not> table_is_empty s3 pdpt then s3
     else clear_slot slot1 s3)"
proof (cases "table_is_empty s pt")
  case False
  then show ?thesis using quiet_refl [OF vm] by simp
next
  case e1: True
  have op1: "ok_path I ([] @ [va_pml va])" "ok_path I [va_pml va]" using I by (simp_all add: ok_path_def)
  have op2: "ok_path I ([va_pml va] @ [va_directory_ptr va])" "ok_path I [va_pml va, va_directory_ptr va]"
    using I by (simp_all add: ok_path_def)
  have op3: "ok_path I ([va_pml va, va_directory_ptr va] @ [va_directory va])"
    using ok_path_path [OF I] by (simp add: path_def)
  let ?s2 = "clear_slot slot3 s"
  have n3': "node s ([va_pml va, va_directory_ptr va] @ [va_directory va]) (table_of s cr3) = Some pt"
    using n3 by (simp add: path_def)
  note Q2 = quiet_prune [OF vm op3 n2 n3' e1, folded slots]
  have m2: "node ?s2 [va_pml va, va_directory_ptr va] (table_of ?s2 cr3) = Some pdir"
    "node ?s2 [va_pml va] (table_of ?s2 cr3) = Some pdpt"
    using Q2(2) [OF op2(2)] Q2(2) [OF op1(2)] n1 n2 by simp_all
  show ?thesis
  proof (cases "table_is_empty ?s2 pdir")
    case False
    then show ?thesis using Q2(1) e1 by simp
  next
    case e2: True
    let ?s3 = "clear_slot slot2 ?s2"
    have m2': "node ?s2 ([va_pml va] @ [va_directory_ptr va]) (table_of ?s2 cr3) = Some pdir" using m2 by simp
    note Q3 = quiet_prune [OF quiet_vm [OF Q2(1)] op2(1) m2(2) m2' e2, folded slots]
    have m3: "node ?s3 [va_pml va] (table_of ?s3 cr3) = Some pdpt" using Q3(2) [OF op1(2)] m2 by simp
    note q3 = quiet_trans [OF Q2(1) Q3(1)]
    have t3: "table_of ?s3 cr3 = table_of s cr3"
      using Q3(2) [OF ok_path_Nil] Q2(2) [OF ok_path_Nil] by simp
    show ?thesis
    proof (cases "table_is_empty ?s3 pdpt")
      case False
      then show ?thesis using q3 e1 e2 by simp
    next
      case e3: True
      have m3': "node ?s3 ([] @ [va_pml va]) (table_of ?s3 cr3) = Some pdpt" using m3 by simp
      have m0: "node ?s3 [] (table_of ?s3 cr3) = Some (table_of s cr3)" using t3 by simp
      note Q4 = quiet_prune(1) [OF quiet_vm [OF Q3(1)] op1(1) m0 m3' e3, folded slots]
      show ?thesis using quiet_trans [OF q3 Q4] e1 e2 e3 by simp
    qed
  qed
qed

lemma free_page_structure_spec:
  assumes vm: "vm_ok I s cr3" and I: "va_pml va \<in> I" and z: "pte s cr3 va = 0"
  shows "quiet I cr3 s (free_page_structure va cr3 s)"
proof (cases "node s (path va) (table_of s cr3)")
  case None
  then have "free_page_structure va cr3 s = s"
    by (auto simp: free_page_structure_def path_def entry_def Let_def split: if_splits)
  then show ?thesis using quiet_refl [OF vm] by simp
next
  case (Some pt)
  have tree: "tree_ok I s cr3" using vm by blast
  obtain pdpt pdir where d:
    "PRESENT (deref s (entry_addr (table_of s cr3) (va_pml va)))"
    "table_of s (deref s (entry_addr (table_of s cr3) (va_pml va))) = pdpt"
    "PRESENT (deref s (entry_addr pdpt (va_directory_ptr va)))"
    "table_of s (deref s (entry_addr pdpt (va_directory_ptr va))) = pdir"
    "PRESENT (deref s (entry_addr pdir (va_directory va)))"
    "table_of s (deref s (entry_addr pdir (va_directory va))) = pt"
    using Some by (auto simp: path_def entry_def split: if_splits)
  define s1 where "s1 = assign (entry_addr pt (va_table va)) 0 s"
  have slot: "slot_ok I (path va) (va_table va)" using I by (rule slot_ok_pte)
  have up: "leaf_update I cr3 (path va) (va_table va) 0 s s1"
    unfolding s1_def by (rule assign_leaf_update [OF tree_okD(2) [OF tree] slot Some]) simp_all
  have z': "leaf s cr3 (path va) (va_table va) = 0" using z by (simp add: pte_def)
  have vm1: "vm_ok I s1 cr3"
    by (rule vm_ok_reflag [OF vm up])
      (use tree_okD(1) [OF tree] in \<open>simp_all add: z' s1_def covered_def fun_eq_iff\<close>)
  have N: "node s1 q (table_of s1 cr3) = node s q (table_of s cr3)" if "ok_path I q" for q
    using node_leaf_update [OF up that] that by (auto simp: ok_path_def)
  have q1: "quiet I cr3 s s1"
    using vm1 pte_leaf_update [OF up] z by (auto simp: quiet_def low_frames_def s1_def pte_def same_page_def)
  have t1: "table_of s1 = table_of s" by (rule table_of_cong) (simp add: s1_def)
  have ok: "ok_path I [va_pml va]" "ok_path I [va_pml va, va_directory_ptr va]" "ok_path I (path va)"
    using I ok_path_path [OF I] by (simp_all add: ok_path_def)
  have n: "node s1 [va_pml va] (table_of s1 cr3) = Some pdpt"
    "node s1 [va_pml va, va_directory_ptr va] (table_of s1 cr3) = Some pdir"
    "node s1 (path va) (table_of s1 cr3) = Some pt"
    using N [OF ok(1)] N [OF ok(2)] N [OF ok(3)] d Some by (simp_all add: entry_def)
  have "free_page_structure va cr3 s =
    (if \<not> table_is_empty s1 pt then s1
     else let s2 = clear_slot (entry_addr pdir (va_directory va)) s1 in if \<not> table_is_empty s2 pdir then s2
     else let s3 = clear_slot (entry_addr pdpt (va_directory_ptr va)) s2 in if \<not> table_is_empty s3 pdpt then s3
     else clear_slot (entry_addr (table_of s cr3) (va_pml va)) s3)"
    by (simp only: free_page_structure_def Let_def d s1_def [symmetric] clear_slot_def
        not_True_eq_False if_False)
  then have "quiet I cr3 s1 (free_page_structure va cr3 s)"
    using prune_cascade [OF vm1 I n refl refl refl] by (simp only: t1)
  with q1 show ?thesis by (rule quiet_trans)
qed

lemma deallocate_frame_spec:
  assumes vm: "vm_ok I s cr3" and I: "va_pml va \<in> I"
    and s': "s' = deallocate_frame (fst (get_page va cr3 False s)) va cr3 s"
  shows "vm_ok I s' cr3" and "frame_lock s' = frame_lock s" and "low_frames s \<Longrightarrow> low_frames s'"
    and "va_pml va' \<in> I \<Longrightarrow> pte s' cr3 va' =
      (if same_page va va' \<and> PRESENT (pte s cr3 va) then 0 else pte s cr3 va')"
proof -
  have slot: "slot_ok I (path va) (va_table va)" using I by (rule slot_ok_pte)
  have "vm_ok I s' cr3 \<and> frame_lock s' = frame_lock s \<and> (low_frames s \<longrightarrow> low_frames s') \<and>
    (\<forall>va'. va_pml va' \<in> I \<longrightarrow> pte s' cr3 va' =
      (if same_page va va' \<and> PRESENT (pte s cr3 va) then 0 else pte s cr3 va'))"
  proof (cases "PRESENT (pte s cr3 va)")
    case False
    then have "s' = s"
      unfolding s' get_page_def find_page_pure
      by (auto simp: deallocate_frame_def pte_def leaf_def entry_def split: option.splits)
    with vm False show ?thesis by simp
  next
    case True
    then obtain pt where pt: "node s (path va) (table_of s cr3) = Some pt"
      by (auto simp: pte_def leaf_def split: option.splits)
    let ?s1 = "clear_slot (entry_addr pt (va_table va)) s"
    have pres: "PRESENT (leaf s cr3 (path va) (va_table va))" using True by (simp add: pte_def)
    note C = clear_slot_spec [OF vm slot pt pres _ refl]
    have up: "leaf_update I cr3 (path va) (va_table va) 0 s ?s1" by (rule C(2)) simp
    have z: "pte ?s1 cr3 va = 0" using pte_leaf_update [OF up I] by simp
    have vm1: "vm_ok I ?s1 cr3" by (rule C(1)) simp
    have "s' = free_page_structure va cr3 ?s1"
      using pt True leaf_at [OF pt, of "va_table va"]
      unfolding s' get_page_def find_page_pure
      by (simp add: deallocate_frame_def pte_def clear_slot_def)
    then have "quiet I cr3 ?s1 s'" using free_page_structure_spec [OF vm1 I z] by simp
    moreover have "frame_lock ?s1 = frame_lock s" by (rule C(3)) simp
    moreover have "low_frames s \<Longrightarrow> low_frames ?s1" by (rule low_frames_drop [OF C(4)]) simp
    ultimately show ?thesis using True pte_leaf_update [OF up] by (auto simp: quiet_def)
  qed
  then show "vm_ok I s' cr3" and "frame_lock s' = frame_lock s" and "low_frames s \<Longrightarrow> low_frames s'"
    and "va_pml va' \<in> I \<Longrightarrow> pte s' cr3 va' =
      (if same_page va va' \<and> PRESENT (pte s cr3 va) then 0 else pte s cr3 va')" by blast+
qed

end
