(* ===== verification/Mm_Frame.thy ===== *)
theory Mm_Frame
  imports Paging
begin

text \<open>
  What the paging operations leave alone: they only write memory, the frame pool, the frame
  lock and the early heap pointer. Used to carry the state of the processors across them.
\<close>

definition mm_only :: "'a mm_state_scheme \<Rightarrow> 'a mm_state_scheme \<Rightarrow> bool" where
  "mm_only s s' \<longleftrightarrow>
     (\<exists>m h p l. s' = s\<lparr>kmem := m, tmp_heap := h, frame_pool := p, frame_lock := l\<rparr>)"

named_theorems mm_only_intros \<open>operations that change the memory state only\<close>

lemma mm_only_refl [mm_only_intros]: "mm_only s s"
  unfolding mm_only_def
  by (intro exI [of _ "kmem s"] exI [of _ "tmp_heap s"] exI [of _ "frame_pool s"] exI [of _ "frame_lock s"]) simp

lemma mm_only_trans: "mm_only s s' \<Longrightarrow> mm_only s' s'' \<Longrightarrow> mm_only s s''"
  unfolding mm_only_def by (elim exE) (simp, blast)

lemma mm_only_updates [mm_only_intros]:
  "mm_only s (s\<lparr>kmem := m\<rparr>)" "mm_only s (s\<lparr>tmp_heap := h\<rparr>)" "mm_only s (s\<lparr>frame_pool := p\<rparr>)"
  "mm_only s (s\<lparr>frame_lock := l\<rparr>)"
proof -
  show "mm_only s (s\<lparr>kmem := m\<rparr>)" unfolding mm_only_def
    by (intro exI [of _ m] exI [of _ "tmp_heap s"] exI [of _ "frame_pool s"] exI [of _ "frame_lock s"]) simp
  show "mm_only s (s\<lparr>tmp_heap := h\<rparr>)" unfolding mm_only_def
    by (intro exI [of _ "kmem s"] exI [of _ h] exI [of _ "frame_pool s"] exI [of _ "frame_lock s"]) simp
  show "mm_only s (s\<lparr>frame_pool := p\<rparr>)" unfolding mm_only_def
    by (intro exI [of _ "kmem s"] exI [of _ "tmp_heap s"] exI [of _ p] exI [of _ "frame_lock s"]) simp
  show "mm_only s (s\<lparr>frame_lock := l\<rparr>)" unfolding mm_only_def
    by (intro exI [of _ "kmem s"] exI [of _ "tmp_heap s"] exI [of _ "frame_pool s"] exI [of _ l]) simp
qed

lemma mm_only_mm_simple [mm_only_intros]:
  "mm_only s (assign a v s)" "mm_only s (memset_state a c n s)" "mm_only s (unlock_frames s)"
  by (simp_all add: assign_def memset_state_def unlock_frames_def mm_only_intros)

lemma mm_only_get_free_frame: "mm_only s (snd (get_free_frame s))"
  by (auto simp: get_free_frame_def malign_def Let_def mm_only_intros split: option.splits)

lemma mm_only_free_frame [mm_only_intros]: "mm_only s (free_frame f s)"
proof -
  have "mm_only (s\<lparr>frame_pool := p\<rparr>) (s\<lparr>frame_pool := p, kmem := m\<rparr>)" for p m
    using mm_only_updates(1) [of "s\<lparr>frame_pool := p\<rparr>" m] by simp
  then have "mm_only s (s\<lparr>frame_pool := p, kmem := m\<rparr>)" for p m
    using mm_only_trans mm_only_updates(3) by blast
  then show ?thesis
    by (auto simp: free_frame_def Let_def mm_only_intros split: prod.splits option.splits)
qed

lemma mm_only_enter_table: "mm_only s (snd (enter_table a alloc user s))"
proof -
  obtain f s1 where g: "get_free_frame s = (f, s1)" by fastforce
  then have 1: "mm_only s s1" using mm_only_get_free_frame [of s] by simp
  have "mm_only s1 (memset_state b c n (assign a v s1))" for b c n v
    by (rule mm_only_trans [OF mm_only_mm_simple(1) mm_only_mm_simple(2)])
  with 1 show ?thesis
    by (auto simp: enter_table_def Let_def g mm_only_intros intro: mm_only_trans)
qed

lemma mm_only_get_page_gen: "mm_only s (snd (get_page_gen va cr3 alloc user s))"
proof -
  have e: "enter_table a alloc user t = (r, t') \<Longrightarrow> mm_only t t'" for a r and t t' :: "'a mm_state_scheme"
    using mm_only_enter_table [of t a alloc user] by simp
  show ?thesis
    unfolding get_page_gen_def
    by (auto split: prod.splits option.splits dest!: e intro: mm_only_trans)
qed

lemma mm_only_allocate_frame: "mm_only s (snd (allocate_frame a kern readonly exec s))"
proof -
  obtain f s1 where g: "get_free_frame s = (f, s1)" by fastforce
  then have 1: "mm_only s s1" using mm_only_get_free_frame [of s] by simp
  have 2: "mm_only s (assign a v s1)" for v by (rule mm_only_trans [OF 1 mm_only_mm_simple(1)])
  have 3: "mm_only s (memset_state b c n (assign a v s1))" for b c n v
    by (rule mm_only_trans [OF 2 mm_only_mm_simple(2)])
  from 1 2 3 show ?thesis
    by (auto simp: allocate_frame_def Let_def g mm_only_intros)
qed

lemma mm_only_clear: "mm_only s t \<Longrightarrow> mm_only s (assign a 0 (free_frame f t))"
  by (rule mm_only_trans [OF mm_only_trans [OF _ mm_only_free_frame] mm_only_mm_simple(1)])

lemma mm_only_free_page_structure [mm_only_intros]: "mm_only s (free_page_structure va cr3 s)"
proof -
  have "mm_only s (assign a v s)" for a v by (rule mm_only_mm_simple)
  then show ?thesis
    unfolding free_page_structure_def Let_def
    by (auto intro!: mm_only_clear mm_only_refl)
qed

lemma mm_only_deallocate_frame [mm_only_intros]: "mm_only s (deallocate_frame p va cr3 s)"
proof -
  have "mm_only s (free_page_structure va cr3 (assign a 0 (free_frame f s)))" for a f
    by (rule mm_only_trans [OF mm_only_clear [OF mm_only_refl] mm_only_free_page_structure])
  then show ?thesis by (auto simp: deallocate_frame_def mm_only_intros split: option.splits)
qed

lemma mm_only_one_cpu: "mm_only s s' \<Longrightarrow> one_cpu E s' = one_cpu E s \<and> tlb_lock s' = tlb_lock s"
  unfolding mm_only_def by (elim exE) (simp add: one_cpu_def get_local_apic_id_def)

lemma mm_only_fields:
  "mm_only s s' \<Longrightarrow> active_page s' = active_page s \<and> mem_mirror_present s' = mem_mirror_present s"
  by (auto simp: mm_only_def)

lemma mm_only_shootdown_end:
  "mm_only s s' \<Longrightarrow> mm_only (tlb_shootdown_end s) (tlb_shootdown_end s')"
proof -
  assume "mm_only s s'"
  then obtain m h p l where s': "s' = s\<lparr>kmem := m, tmp_heap := h, frame_pool := p, frame_lock := l\<rparr>"
    unfolding mm_only_def by blast
  have "tlb_shootdown_end s' =
      (tlb_shootdown_end s)\<lparr>kmem := m, tmp_heap := h, frame_pool := p, frame_lock := l\<rparr>"
    by (rule smp_state.equality) (simp_all add: s' tlb_shootdown_end_def)
  then show ?thesis unfolding mm_only_def by blast
qed

end
