(* ===== verification/Vm_Range.thy ===== *)
theory Vm_Range
  imports Vm_Ops Mm_Frame
begin

text \<open>
  Allocating and releasing ranges of virtual memory (\<open>allocate\<close>, \<open>deallocate\<close>,
  \<open>allocated\<close>): the loops over the pages of a range, with the frame lock taken and released
  in every turn and the TLB shootdown around a release.
\<close>

section \<open>State outside the page tables\<close>

lemma vm_fields:
  assumes "kmem s' = kmem s" "mem_mirror_present s' = mem_mirror_present s" "frame_pool s' = frame_pool s"
  shows "vm_ok I s' cr3 = vm_ok I s cr3" and "pte s' = pte s" and "low_frames s' = low_frames s"
    and "out_of_frames s' = out_of_frames s"
proof -
  have refs: "frame_refs s' = frame_refs s" "mm_wf s' = mm_wf s" "covered s' = covered s"
    by (simp_all add: frame_refs_def mm_wf_def covered_def assms fun_eq_iff)
  have L: "leaf s' cr3 q j = leaf s cr3 q j" for cr3 q j by (rule leaf_kmem_cong [OF assms(1,2)])
  show "vm_ok I s' cr3 = vm_ok I s cr3"
  proof
    assume v: "vm_ok I s' cr3"
    then show "vm_ok I s cr3"
      by (rule vm_ok_cong) (use assms L refs tree_okD(1) [OF vm_ok_tree [OF v]] in simp_all)
  next
    assume v: "vm_ok I s cr3"
    then show "vm_ok I s' cr3"
      by (rule vm_ok_cong) (use assms L refs tree_okD(1) [OF vm_ok_tree [OF v]] in simp_all)
  qed
  show "pte s' = pte s" by (simp add: pte_def L fun_eq_iff)
  show "low_frames s' = low_frames s" "out_of_frames s' = out_of_frames s"
    by (simp_all add: low_frames_def out_of_frames_def refs)
qed

lemma vm_frame_lock [simp]:
  "vm_ok I (s\<lparr>frame_lock := x\<rparr>) cr3 = vm_ok I s cr3" "pte (s\<lparr>frame_lock := x\<rparr>) = pte s"
  "low_frames (s\<lparr>frame_lock := x\<rparr>) = low_frames s" "out_of_frames (s\<lparr>frame_lock := x\<rparr>) = out_of_frames s"
  by (rule vm_fields; simp)+

lemma vm_tlb_end [simp]:
  "vm_ok I (tlb_shootdown_end s) cr3 = vm_ok I s cr3" "pte (tlb_shootdown_end s) = pte s"
  "low_frames (tlb_shootdown_end s) = low_frames s" "frame_lock (tlb_shootdown_end s) = frame_lock s"
  by (rule vm_fields; simp add: tlb_shootdown_end_def)+ (simp add: tlb_shootdown_end_def)

lemma same_memory_fields:
  assumes "same_memory s' s"
  shows "kmem s' = kmem s" "mem_mirror_present s' = mem_mirror_present s" "frame_pool s' = frame_pool s"
    "frame_lock s' = frame_lock s" "active_page s' = active_page s"
  using assms by (simp_all add: same_memory_def mm_state.defs)

section \<open>One page\<close>

lemma deallocate_page_spec:
  assumes vm: "vm_ok I s cr3" and low: "low_frames s" and lock: "frame_lock s = 0" and I: "va_pml addr \<in> I"
  obtains s' where "deallocate_page cr3 addr s = Some (Inr s')" "vm_ok I s' cr3" "low_frames s'"
    "frame_lock s' = 0" "mm_only s s'"
    "\<And>va. va_pml va \<in> I \<Longrightarrow> pte s' cr3 va =
       (if same_page addr va \<and> PRESENT (pte s cr3 addr) then 0 else pte s cr3 va)"
proof -
  let ?s1 = "s\<lparr>frame_lock := 1\<rparr>"
  obtain p where g: "get_page addr cr3 False ?s1 = (p, ?s1)"
    by (simp add: get_page_def find_page_pure)
  let ?s2 = "deallocate_frame p addr cr3 ?s1"
  have vm1: "vm_ok I ?s1 cr3" "low_frames ?s1" using vm low by simp_all
  note D = deallocate_frame_spec [OF vm1(1) I refl, unfolded g fst_conv]
  have run: "deallocate_page cr3 addr s = Some (Inr (unlock_frames ?s2))"
    using lock g by (simp add: deallocate_page_def lock_frames_def)
  show thesis
  proof (rule that [OF run])
    show "vm_ok I (unlock_frames ?s2) cr3" using D(1) by (simp add: vm_ok_unlock)
    show "low_frames (unlock_frames ?s2)" using D(3) low by simp
    show "mm_only s (unlock_frames ?s2)"
      by (rule mm_only_trans [OF mm_only_trans [OF mm_only_updates(4) mm_only_deallocate_frame] mm_only_mm_simple(3)])
    show "pte (unlock_frames ?s2) cr3 va =
       (if same_page addr va \<and> PRESENT (pte s cr3 addr) then 0 else pte s cr3 va)"
      if "va_pml va \<in> I" for va
      using D(4) [OF that] by simp
  qed simp
qed

lemma allocate_page_spec:
  assumes vm: "vm_ok I s cr3" and low: "low_frames s" and lock: "frame_lock s = 0" and I: "va_pml addr \<in> I"
    and plain: "plain_entry (pte s cr3 addr)"
  obtains (mapped) s' f where "allocate_page kern readonly cr3 addr s = Some (Inr s')"
      "vm_ok I s' cr3" "low_frames s'" "frame_lock s' = 0" "mm_only s s'"
      "\<And>va. va_pml va \<in> I \<Longrightarrow> pte s' cr3 va =
         (if same_page addr va then page_entry f kern readonly False else pte s cr3 va)"
    | (fail) s' where "allocate_page kern readonly cr3 addr s = Some (Inl (addr, s'))"
      "vm_ok I s' cr3" "low_frames s'" "mm_only s s'" "out_of_frames s'"
      "\<And>va. va_pml va \<in> I \<Longrightarrow> pte s' cr3 va = pte s cr3 va"
proof -
  let ?s1 = "s\<lparr>frame_lock := 1\<rparr>"
  obtain fr s2 where g: "get_page_gen addr cr3 True (\<not> kern) ?s1 = (fr, s2)" by fastforce
  have vm1: "vm_ok I ?s1 cr3" using vm by simp
  note G = get_page_gen_spec [OF vm1 I g]
  have g': "(if kern then get_page addr cr3 True ?s1 else get_page_user addr cr3 True ?s1) = (fr, s2)"
    using g by (auto simp: get_page_def get_page_user_def)
  have m2: "mm_only s s2"
    using mm_only_trans [OF mm_only_updates(4) [of s 1] mm_only_get_page_gen] g by (metis snd_conv)
  have vm2: "vm_ok I s2 cr3" and low2: "low_frames s2"
    using extends_vm_ok [OF G(1)] low_frames_extends [OF G(1)] low by simp_all
  have pte2: "va_pml va \<in> I \<Longrightarrow> pte s2 cr3 va = pte s cr3 va" for va using pte_extends [OF G(1)] by simp
  show thesis
  proof (cases fr)
    case None
    show thesis
    proof (rule fail)
      show "allocate_page kern readonly cr3 addr s = Some (Inl (addr, s2))"
        using lock g' None by (simp add: allocate_page_def lock_frames_def)
    qed (use vm2 low2 m2 pte2 None G(2) in simp_all)
  next
    case (Some a)
    then obtain pt where pt: "node s2 (path addr) (table_of s2 cr3) = Some pt" "a = entry_addr pt (va_table addr)"
      using G(2) by auto
    obtain r s3 where r: "allocate_frame a kern readonly False s2 = (r, s3)" by fastforce
    have "plain_entry (pte s2 cr3 addr)" using plain pte2 [OF I] by simp
    note A = allocate_frame_spec [OF vm2 I low2 pt(1) this r [unfolded pt(2)]]
    have m3: "mm_only s s3" using mm_only_trans [OF m2 mm_only_allocate_frame] r by (metis snd_conv)
    show thesis
    proof (cases "r = 0")
      case True
      show thesis
      proof (rule fail)
        show "allocate_page kern readonly cr3 addr s = Some (Inl (addr, s3))"
          using lock g' Some r True by (simp add: allocate_page_def lock_frames_def)
        have "s3 = unlock_frames s2" "out_of_frames s2" using A True by simp_all
        then show "out_of_frames s3" "\<And>va. va_pml va \<in> I \<Longrightarrow> pte s3 cr3 va = pte s cr3 va"
          using pte2 by (simp_all add: out_of_frames_def)
      qed (use A m3 in simp_all)
    next
      case False
      have up: "leaf_update I cr3 (path addr) (va_table addr) (page_entry r kern readonly False) s2 s3"
        using A False by simp
      show thesis
      proof (rule mapped)
        show "allocate_page kern readonly cr3 addr s = Some (Inr (unlock_frames s3))"
          using lock g' Some r False by (simp add: allocate_page_def lock_frames_def)
        show "vm_ok I (unlock_frames s3) cr3" using A by (simp add: vm_ok_unlock)
        show "mm_only s (unlock_frames s3)" by (rule mm_only_trans [OF m3 mm_only_mm_simple(3)])
        show "pte (unlock_frames s3) cr3 va =
            (if same_page addr va then page_entry r kern readonly False else pte s cr3 va)"
          if "va_pml va \<in> I" for va
          using pte_leaf_update [OF up that] pte2 [OF that] by simp
      qed (use A in simp_all)
    qed
  qed
qed

section \<open>Ranges\<close>

definition page_k :: "u64 \<Rightarrow> nat \<Rightarrow> u64" where
  "page_k from k = from + of_nat k * 0x1000"

text \<open>The pages of the range that starts at \<open>from\<close> and ends before \<open>e\<close>.\<close>

definition in_range :: "u64 \<Rightarrow> nat \<Rightarrow> u64 \<Rightarrow> bool" where
  "in_range from e va \<longleftrightarrow> (\<exists>k. unat from + k * 4096 < e \<and> same_page (page_k from k) va)"

lemma page_count_iff:
  assumes "e \<le> a + n * 4096" and "\<forall>k < n. a + k * 4096 < e"
  shows "k < n \<longleftrightarrow> a + k * 4096 < (e :: nat)"
proof
  assume "a + k * 4096 < e"
  with assms(1) have "k * 4096 < n * 4096" by linarith
  then show "k < n" by simp
qed (use assms(2) in blast)

lemma deallocate_loop:
  assumes vm: "vm_ok I s cr3" and low: "low_frames s" and lock: "frame_lock s = 0"
    and room: "unat to + 4096 \<le> 18446744073709551616"
    and I: "\<And>k. unat from + k * 4096 < unat to \<Longrightarrow> va_pml (page_k from k) \<in> I"
  obtains s' where "for_pages (deallocate_page cr3) from to s = Some (Inr s')" "vm_ok I s' cr3"
    "low_frames s'" "frame_lock s' = 0" "mm_only s s'"
    "\<And>va. va_pml va \<in> I \<Longrightarrow> pte s' cr3 va =
       (if in_range from (unat to) va \<and> PRESENT (pte s cr3 va) then 0 else pte s cr3 va)"
proof -
  let ?P = "\<lambda>n s'. vm_ok I s' cr3 \<and> low_frames s' \<and> frame_lock s' = 0 \<and> mm_only s s' \<and>
    (\<forall>va. va_pml va \<in> I \<longrightarrow> pte s' cr3 va =
       (if (\<exists>k<n. same_page (page_k from k) va) \<and> PRESENT (pte s cr3 va) then 0 else pte s cr3 va))"
  have "(\<exists>r. for_pages (deallocate_page cr3) from to s = Some (Inl r) \<and> False) \<or>
    (\<exists>n s'. for_pages (deallocate_page cr3) from to s = Some (Inr s') \<and> unat to \<le> unat from + n * 4096 \<and>
       (\<forall>k < n. unat from + k * 4096 < unat to) \<and> ?P n s')"
  proof (rule for_pages_count [OF room, where P = ?P and Q = "\<lambda>_. False"])
    show "?P 0 s" using vm low lock by (simp add: mm_only_refl)
    fix n t
    assume lt: "unat from + n * 4096 < unat to" and P: "?P n t"
    let ?a = "page_k from n"
    obtain t' where t': "deallocate_page cr3 ?a t = Some (Inr t')" "vm_ok I t' cr3" "low_frames t'"
      "frame_lock t' = 0" "mm_only t t'"
      "\<And>va. va_pml va \<in> I \<Longrightarrow> pte t' cr3 va = (if same_page ?a va \<and> PRESENT (pte t cr3 ?a) then 0 else pte t cr3 va)"
      using deallocate_page_spec [of I t cr3 ?a] P I [OF lt] by metis
    have same: "same_page ?a va \<Longrightarrow> pte t cr3 ?a = pte t cr3 va" for va by (simp add: pte_def same_page_def)
    have "pte t' cr3 va =
       (if (\<exists>k<Suc n. same_page (page_k from k) va) \<and> PRESENT (pte s cr3 va) then 0 else pte s cr3 va)"
      if "va_pml va \<in> I" for va
      using t'(6) [OF that] same [of va] P that by (auto simp: less_Suc_eq split: if_splits)
    moreover have "mm_only s t'" using P t'(5) mm_only_trans by blast
    ultimately show "(\<exists>r. deallocate_page cr3 (from + of_nat n * 0x1000) t = Some (Inl r) \<and> False) \<or>
        (\<exists>s'. deallocate_page cr3 (from + of_nat n * 0x1000) t = Some (Inr s') \<and> ?P (Suc n) s')"
      using t' by (simp add: page_k_def)
  qed
  then obtain n s' where r: "for_pages (deallocate_page cr3) from to s = Some (Inr s')"
    "unat to \<le> unat from + n * 4096" "\<forall>k < n. unat from + k * 4096 < unat to" "?P n s'" by blast
  have "k < n \<longleftrightarrow> unat from + k * 4096 < unat to" for k
    using page_count_iff r(2,3) by blast
  then have "(\<exists>k<n. same_page (page_k from k) va) \<longleftrightarrow> in_range from (unat to) va" for va
    by (simp add: in_range_def)
  then show thesis using that [OF r(1)] r(4) by simp
qed

lemma ALIGN_down_id: "v mod 0x1000 = 0 \<Longrightarrow> ALIGN v = v"
  by (simp add: mod_page_zero_iff page_aligned_def)

lemma unat_mod_page: "v mod 0x1000 \<noteq> 0 \<longleftrightarrow> unat v mod 4096 \<noteq> 0" for v :: u64
  by (simp add: mod_page_zero_iff page_aligned_dvd dvd_eq_mod_eq_0)

text \<open>Rounding the end of a range up to a page does not change which pages start before it.\<close>

lemma round_end:
  assumes room: "unat v + 4096 \<le> 18446744073709551616"
    and e: "e = (if v mod 0x1000 \<noteq> 0 then ALIGN v + 0x1000 else v)"
    and a: "4096 dvd a"
  shows "unat e + 4096 \<le> 18446744073709551616 + 4096" and "a + k * 4096 < unat e \<longleftrightarrow> a + k * 4096 < unat v"
    and "unat e < unat v + 4096" and "unat v \<le> unat e"
proof -
  have ue: "unat e = (if unat v mod 4096 = 0 then unat v else unat v - unat v mod 4096 + 4096) \<and>
      unat v \<le> unat e \<and> unat e < unat v + 4096"
  proof (cases "unat v mod 4096 = 0")
    case True
    then show ?thesis using e unat_mod_page [of v] by auto
  next
    case False
    have "unat (ALIGN v) + unat (0x1000 :: u64) < 18446744073709551616"
      using room False mod_less_eq_dividend [of "unat v" 4096] by (simp add: unat_ALIGN)
    then have "unat (ALIGN v + 0x1000) = unat v - unat v mod 4096 + 4096"
      by (simp add: unat_add_no_wrap unat_ALIGN)
    moreover have "e = ALIGN v + 0x1000" using False e unat_mod_page [of v] by auto
    ultimately show ?thesis
      using False mod_less_divisor [of 4096 "unat v"] mod_less_eq_dividend [of "unat v" 4096] by simp
  qed
  show "unat e + 4096 \<le> 18446744073709551616 + 4096" using unat_u64_bound [of e] by simp
  show "unat e < unat v + 4096" "unat v \<le> unat e" using ue by simp_all
  obtain b where b: "a = 4096 * b" using a by (auto simp: dvd_def)
  show "a + k * 4096 < unat e \<longleftrightarrow> a + k * 4096 < unat v"
  proof (cases "unat v mod 4096 = 0")
    case True
    then show ?thesis using ue by simp
  next
    case False
    have "a + k * 4096 = 4096 * (b + k)" using b by simp
    moreover have "unat v - unat v mod 4096 = 4096 * (unat v div 4096)" by (simp add: minus_mod_eq_mult_div)
    ultimately have "a + k * 4096 < unat e \<longleftrightarrow> b + k \<le> unat v div 4096"
      using ue False by auto
    also have "\<dots> \<longleftrightarrow> 4096 * (b + k) < 4096 * (unat v div 4096) + unat v mod 4096"
    proof -
      have "x \<le> q \<longleftrightarrow> 4096 * x < 4096 * q + r" if "0 < r" "r < 4096" for x q r :: nat
      proof (cases "x \<le> q")
        case True
        then have "4096 * x \<le> 4096 * q" by simp
        with True that show ?thesis by simp
      next
        case False
        then have "4096 * Suc q \<le> 4096 * x" by (intro mult_le_mono2) simp
        with False that show ?thesis by simp
      qed
      then show ?thesis using False by simp
    qed
    also have "4096 * (unat v div 4096) + unat v mod 4096 = unat v" by simp
    finally show ?thesis using b by (simp add: mult.commute)
  qed
qed

section \<open>Whole ranges\<close>

lemma deallocate_spec:
  assumes vm: "vm_ok I s cr3" and low: "low_frames s" and lock: "frame_lock s = 0" and cpu: "one_cpu E s"
    and room: "unat from + unat amount + 8192 \<le> 18446744073709551616"
    and I: "\<And>k. unat (ALIGN from) + k * 4096 < unat from + unat amount \<Longrightarrow> va_pml (page_k (ALIGN from) k) \<in> I"
  obtains s' where "deallocate E from amount cr3 s = Some s'" "vm_ok I s' cr3" "low_frames s'"
    "frame_lock s' = 0" "one_cpu E s'"
    "\<And>va. va_pml va \<in> I \<Longrightarrow> pte s' cr3 va =
       (if in_range (ALIGN from) (unat from + unat amount) va \<and> PRESENT (pte s cr3 va) then 0 else pte s cr3 va)"
proof -
  let ?a = "ALIGN from" and ?v = "from + amount"
  define e where "e = (if ?v mod 0x1000 \<noteq> 0 then ALIGN ?v + 0x1000 else ?v)"
  have uv: "unat ?v = unat from + unat amount" using room by (intro unat_add_no_wrap) simp
  have roomv: "unat ?v + 4096 \<le> 18446744073709551616" using room uv by simp
  have da: "4096 dvd unat ?a" using page_aligned_ALIGN [of "from"] by (simp add: page_aligned_dvd)
  note R = round_end [OF roomv e_def da]
  have range: "in_range ?a (unat e) va = in_range ?a (unat from + unat amount) va" for va
    unfolding in_range_def using R(2) uv by simp
  have roome: "unat e + 4096 \<le> 18446744073709551616" using R(3) room uv by simp
  have start: "(if from mod 0x1000 \<noteq> 0 then ?a else from) = ?a" using ALIGN_down_id [of "from"] by auto
  have stop: "?a + (if from mod 0x1000 \<noteq> 0 then amount + (from - ?a) else amount) = ?v"
    using ALIGN_down_id [of "from"] by (auto simp: algebra_simps)
  have run: "deallocate E from amount cr3 s = (if ?a < e then
      do { s1 \<leftarrow> tlb_shootdown E cr3 ?a (e - ?a) s;
           r \<leftarrow> for_pages (deallocate_page cr3) ?a e s1;
           (case r of Inl _ \<Rightarrow> None | Inr s2 \<Rightarrow> Some (tlb_shootdown_end s2)) } else Some s)"
    unfolding deallocate_def Let_def start stop e_def ..
  show thesis
  proof (cases "?a < e")
    case False
    then have "\<not> in_range ?a (unat from + unat amount) va" for va
      unfolding range [symmetric] by (simp add: in_range_def word_less_nat_alt)
    with False show thesis using that [of s] run vm low lock cpu by simp
  next
    case True
    then have "unat (e - ?a) = unat e - unat ?a" by (simp add: unat_diff_u64 word_less_nat_alt)
    then have "unat ?a + unat (e - ?a) + 4096 \<le> 18446744073709551616"
      using roome True by (simp add: word_less_nat_alt)
    then obtain s1 where s1: "tlb_shootdown E cr3 ?a (e - ?a) s = Some s1" "same_memory s1 s"
      "one_cpu E (tlb_shootdown_end s1)"
      using tlb_shootdown_one_cpu [OF cpu] by metis
    note f = same_memory_fields [OF s1(2)]
    note v = vm_fields [OF f(1,2,3)]
    have I': "\<And>k. unat ?a + k * 4096 < unat e \<Longrightarrow> va_pml (page_k ?a k) \<in> I" using I R(2) uv by simp
    obtain s2 where s2: "for_pages (deallocate_page cr3) ?a e s1 = Some (Inr s2)" "vm_ok I s2 cr3"
      "low_frames s2" "frame_lock s2 = 0" "mm_only s1 s2"
      "\<And>va. va_pml va \<in> I \<Longrightarrow> pte s2 cr3 va =
         (if in_range ?a (unat e) va \<and> PRESENT (pte s1 cr3 va) then 0 else pte s1 cr3 va)"
      using deallocate_loop [of I s1 cr3 e ?a, OF _ _ _ roome I'] vm low lock v f by metis
    have "one_cpu E (tlb_shootdown_end s2)"
      using mm_only_one_cpu [OF mm_only_shootdown_end [OF s2(5)]] s1(3) by blast
    moreover have "deallocate E from amount cr3 s = Some (tlb_shootdown_end s2)"
      using run True s1(1) s2(1) by simp
    ultimately show thesis using that [of "tlb_shootdown_end s2"] s2 v range by simp
  qed
qed

lemma page_align_up_round:
  assumes "unat v + 4096 \<le> 18446744073709551616"
  shows "page_align_up v = (if v mod 0x1000 \<noteq> 0 then ALIGN v + 0x1000 else v)"
proof (cases "v mod 0x1000 = 0")
  case False
  have lt: "unat v + 4096 < 18446744073709551616"
  proof (rule ccontr)
    assume "\<not> ?thesis"
    with assms have "unat v = 18446744073709547520" by simp
    then show False using False unat_mod_page [of v] by simp
  qed
  have "unat (ALIGN (v + 0x1000)) = unat v + 4096 - unat v mod 4096"
    using lt by (simp add: unat_ALIGN unat_add_no_wrap)
  moreover have "unat (ALIGN v + 0x1000) = unat v - unat v mod 4096 + 4096"
    using lt by (subst unat_add_no_wrap) (simp_all add: unat_ALIGN)
  ultimately have "unat (ALIGN (v + 0x1000)) = unat (ALIGN v + 0x1000)"
    using mod_less_eq_dividend [of "unat v" 4096] by simp
  with False show ?thesis by (simp add: page_align_up_def word_unat_eq_iff)
qed (simp add: page_align_up_def)

lemma allocate_loop:
  assumes vm: "vm_ok I s cr3" and low: "low_frames s" and lock: "frame_lock s = 0"
    and room: "unat to + 4096 \<le> 18446744073709551616"
    and I: "\<And>k. unat from + k * 4096 < unat to \<Longrightarrow> va_pml (page_k from k) \<in> I"
    and plain: "\<And>k. unat from + k * 4096 < unat to \<Longrightarrow> plain_entry (pte s cr3 (page_k from k))"
  shows "\<exists>n t. vm_ok I t cr3 \<and> low_frames t \<and> mm_only s t \<and>
    (\<forall>k < n. unat from + k * 4096 < unat to) \<and>
    (\<forall>va. va_pml va \<in> I \<longrightarrow> (if \<exists>k<n. same_page (page_k from k) va
       then \<exists>f. pte t cr3 va = page_entry f kern readonly False else pte t cr3 va = pte s cr3 va)) \<and>
    (for_pages (allocate_page kern readonly cr3) from to s = Some (Inr t) \<and> frame_lock t = 0 \<and>
       unat to \<le> unat from + n * 4096 \<or>
     for_pages (allocate_page kern readonly cr3) from to s = Some (Inl (page_k from n, t)) \<and>
       unat from + n * 4096 < unat to \<and> out_of_frames t)"
proof -
  let ?body = "allocate_page kern readonly cr3"
  let ?C = "\<lambda>n t. vm_ok I t cr3 \<and> low_frames t \<and> mm_only s t \<and>
    (\<forall>va. va_pml va \<in> I \<longrightarrow> (if \<exists>k<n. same_page (page_k from k) va
       then \<exists>f. pte t cr3 va = page_entry f kern readonly False else pte t cr3 va = pte s cr3 va))"
  let ?P = "\<lambda>n t. ?C n t \<and> frame_lock t = 0"
  let ?Q = "\<lambda>(a, t). \<exists>n. a = page_k from n \<and> unat from + n * 4096 < unat to \<and> out_of_frames t \<and> ?C n t"
  have "(\<exists>r. for_pages ?body from to s = Some (Inl r) \<and> ?Q r) \<or>
    (\<exists>n t. for_pages ?body from to s = Some (Inr t) \<and> unat to \<le> unat from + n * 4096 \<and>
       (\<forall>k < n. unat from + k * 4096 < unat to) \<and> ?P n t)"
  proof (rule for_pages_count [OF room, where P = ?P and Q = ?Q])
    show "?P 0 s" using vm low lock by (simp add: mm_only_refl)
    fix n t
    assume lt: "unat from + n * 4096 < unat to" and P: "?P n t"
    let ?a = "page_k from n"
    have Ia: "va_pml ?a \<in> I" using I [OF lt] .
    have "if \<exists>k<n. same_page (page_k from k) ?a
       then \<exists>f. pte t cr3 ?a = page_entry f kern readonly False else pte t cr3 ?a = pte s cr3 ?a"
      using P Ia by blast
    then have "plain_entry (pte t cr3 ?a)"
      using plain [OF lt] by (auto simp: plain_entry_def page_flags split: if_splits)
    with P Ia have "(\<exists>t' f. ?body ?a t = Some (Inr t') \<and> vm_ok I t' cr3 \<and> low_frames t' \<and> frame_lock t' = 0 \<and>
        mm_only t t' \<and> (\<forall>va. va_pml va \<in> I \<longrightarrow> pte t' cr3 va =
          (if same_page ?a va then page_entry f kern readonly False else pte t cr3 va))) \<or>
      (\<exists>t'. ?body ?a t = Some (Inl (?a, t')) \<and> vm_ok I t' cr3 \<and> low_frames t' \<and> mm_only t t' \<and> out_of_frames t' \<and>
        (\<forall>va. va_pml va \<in> I \<longrightarrow> pte t' cr3 va = pte t cr3 va))"
      by (elim conjE) (rule allocate_page_spec [of I t cr3 ?a kern readonly]; blast)
    then show "(\<exists>r. ?body (from + of_nat n * 0x1000) t = Some (Inl r) \<and> ?Q r) \<or>
        (\<exists>s'. ?body (from + of_nat n * 0x1000) t = Some (Inr s') \<and> ?P (Suc n) s')"
    proof (elim disjE exE conjE)
      fix t' f
      assume t': "?body ?a t = Some (Inr t')" "vm_ok I t' cr3" "low_frames t'" "frame_lock t' = 0" "mm_only t t'"
        "\<forall>va. va_pml va \<in> I \<longrightarrow> pte t' cr3 va =
          (if same_page ?a va then page_entry f kern readonly False else pte t cr3 va)"
      have "if \<exists>k<Suc n. same_page (page_k from k) va then \<exists>f. pte t' cr3 va = page_entry f kern readonly False
          else pte t' cr3 va = pte s cr3 va" if "va_pml va \<in> I" for va
        using t'(6) P that by (auto simp: less_Suc_eq split: if_splits)
      moreover have "mm_only s t'" using P t'(5) mm_only_trans by blast
      ultimately show ?thesis unfolding page_k_def [symmetric] using t' by blast
    next
      fix t'
      assume t': "?body ?a t = Some (Inl (?a, t'))" "vm_ok I t' cr3" "low_frames t'" "mm_only t t'" "out_of_frames t'"
        "\<forall>va. va_pml va \<in> I \<longrightarrow> pte t' cr3 va = pte t cr3 va"
      have "mm_only s t'" using P t'(4) mm_only_trans by blast
      with t' P have "?C n t'" by simp
      with t'(5) lt have "?Q (?a, t')" unfolding prod.case by blast
      with t'(1) show ?thesis unfolding page_k_def [symmetric] by blast
    qed
  qed
  then show ?thesis
  proof (elim disjE exE conjE)
    fix r assume r: "for_pages ?body from to s = Some (Inl r)" "?Q r"
    then obtain n t where n: "r = (page_k from n, t)" "unat from + n * 4096 < unat to" "out_of_frames t" "?C n t"
      by (cases r) auto
    have "unat from + k * 4096 < unat to" if "k < n" for k
      using n(2) that by (meson add_left_mono le_less_trans less_imp_le_nat mult_le_mono1)
    with r n show ?thesis by blast
  next
    fix n t
    assume "for_pages ?body from to s = Some (Inr t)" "unat to \<le> unat from + n * 4096"
      "\<forall>k < n. unat from + k * 4096 < unat to" "vm_ok I t cr3" "low_frames t" "mm_only s t"
      "\<forall>va. va_pml va \<in> I \<longrightarrow> (if \<exists>k<n. same_page (page_k from k) va
       then \<exists>f. pte t cr3 va = page_entry f kern readonly False else pte t cr3 va = pte s cr3 va)"
      "frame_lock t = 0"
    then show ?thesis by blast
  qed
qed

lemma allocate_spec:
  assumes vm: "vm_ok I s cr3" and low: "low_frames s" and lock: "frame_lock s = 0" and cpu: "one_cpu E s"
    and room: "unat from + unat amount + 12288 \<le> 18446744073709551616"
    and I: "\<And>k. unat (ALIGN from) + k * 4096 < unat from + unat amount \<Longrightarrow> va_pml (page_k (ALIGN from) k) \<in> I"
    and plain: "\<And>k. unat (ALIGN from) + k * 4096 < unat from + unat amount \<Longrightarrow>
       plain_entry (pte s cr3 (page_k (ALIGN from) k))"
  shows "\<exists>ok s' n. allocate E from amount kern readonly cr3 s = Some (ok, s') \<and> vm_ok I s' cr3 \<and> low_frames s' \<and>
    frame_lock s' = 0 \<and> one_cpu E s' \<and>
    (\<forall>va. va_pml va \<in> I \<longrightarrow>
       (if ok then
          (if in_range (ALIGN from) (unat from + unat amount) va
           then \<exists>f. pte s' cr3 va = page_entry f kern readonly False else pte s' cr3 va = pte s cr3 va)
        else pte s' cr3 va = (if in_range (ALIGN from) (unat (ALIGN from) + n * 4096) va then 0 else pte s cr3 va))) \<and>
    (\<not> ok \<longrightarrow> unat (ALIGN from) + n * 4096 < unat from + unat amount)"
proof -
  let ?a = "ALIGN from"
  define v where "v = amount + (from - ?a)"
  define to where "to = ?a + page_align_up v"
  have ua: "unat ?a \<le> unat from" "unat from < unat ?a + 4096" "4096 dvd unat ?a"
    using mod_less_divisor [of 4096 "unat from"] page_aligned_ALIGN [of "from"]
    by (simp_all add: unat_ALIGN page_aligned_dvd)
  have uv: "unat v = unat amount + (unat from - unat ?a)"
    unfolding v_def using ua room by (subst unat_add_no_wrap) (simp_all add: unat_diff_u64)
  have rv: "unat v + 4096 \<le> 18446744073709551616" using uv ua room by simp
  note R = round_end [OF rv page_align_up_round [OF rv] dvd_0_right]
  have ut: "unat to = unat ?a + unat (page_align_up v)"
    unfolding to_def using R(3) uv ua room by (intro unat_add_no_wrap) simp
  have rt: "unat to + 4096 \<le> 18446744073709551616" using ut R(3) uv ua room by simp
  have lt: "unat ?a + k * 4096 < unat to \<longleftrightarrow> unat ?a + k * 4096 < unat from + unat amount" for k
    using R(2) [of k] ut uv ua(1) by auto
  have run: "allocate E from amount kern readonly cr3 s =
    do { r \<leftarrow> for_pages (allocate_page kern readonly cr3) ?a to s;
         (case r of Inr s1 \<Rightarrow> Some (True, s1)
          | Inl (addr, s1) \<Rightarrow> map_option (Pair False) (deallocate E ?a (addr - ?a) cr3 (unlock_frames s1))) }"
    by (simp add: allocate_def Let_def v_def to_def)
  obtain n t where t: "vm_ok I t cr3" "low_frames t" "mm_only s t" "\<forall>k < n. unat ?a + k * 4096 < unat to"
    "\<forall>va. va_pml va \<in> I \<longrightarrow> (if \<exists>k<n. same_page (page_k ?a k) va
       then \<exists>f. pte t cr3 va = page_entry f kern readonly False else pte t cr3 va = pte s cr3 va)"
    and alt: "for_pages (allocate_page kern readonly cr3) ?a to s = Some (Inr t) \<and> frame_lock t = 0 \<and>
       unat to \<le> unat ?a + n * 4096 \<or>
     for_pages (allocate_page kern readonly cr3) ?a to s = Some (Inl (page_k ?a n, t)) \<and>
       unat ?a + n * 4096 < unat to \<and> out_of_frames t"
    using allocate_loop [OF vm low lock rt, of ?a kern readonly] I plain lt by blast
  have range_n: "(\<exists>k<n. same_page (page_k ?a k) va) \<longleftrightarrow> in_range ?a (unat ?a + n * 4096) va" for va
    by (simp add: in_range_def)
  have cpu_t: "one_cpu E t" using mm_only_one_cpu [OF t(3)] cpu by blast
  from alt show ?thesis
  proof
    assume ok: "for_pages (allocate_page kern readonly cr3) ?a to s = Some (Inr t) \<and> frame_lock t = 0 \<and>
       unat to \<le> unat ?a + n * 4096"
    have "k < n \<longleftrightarrow> unat ?a + k * 4096 < unat from + unat amount" for k
      using page_count_iff [of "unat to" "unat ?a" n k] t(4) ok lt [of k] by blast
    then have "(\<exists>k<n. same_page (page_k ?a k) va) \<longleftrightarrow> in_range ?a (unat from + unat amount) va" for va
      by (simp add: in_range_def)
    with t ok cpu_t run show ?thesis
      by (intro exI [of _ True] exI [of _ t] exI [of _ 0]) simp
  next
    assume no: "for_pages (allocate_page kern readonly cr3) ?a to s = Some (Inl (page_k ?a n, t)) \<and>
       unat ?a + n * 4096 < unat to \<and> out_of_frames t"
    have un: "unat (page_k ?a n - ?a) = n * 4096"
      using no rt unat_of_nat_u64 [of "n * 4096"] by (simp add: page_k_def)
    have AA: "ALIGN ?a = ?a" by simp
    have cpu_u: "one_cpu E (unlock_frames t)" using mm_only_one_cpu [OF mm_only_mm_simple(3)] cpu_t by blast
    have vu: "vm_ok I (unlock_frames t) cr3" using t(1) by (simp add: vm_ok_unlock)
    have lu: "low_frames (unlock_frames t)" "frame_lock (unlock_frames t) = 0" using t(2) by simp_all
    have r2: "unat ?a + unat (page_k ?a n - ?a) + 8192 \<le> 18446744073709551616"
    proof -
      have "unat ?a + n * 4096 < unat to" using no by blast
      then show ?thesis unfolding un using R(3) ut uv ua(1) room by linarith
    qed
    have Ik: "va_pml (page_k (ALIGN ?a) k) \<in> I"
      if "unat (ALIGN ?a) + k * 4096 < unat ?a + unat (page_k ?a n - ?a)" for k
      using I [of k] lt [of k] that no unfolding un AA by simp
    show ?thesis
    proof (rule deallocate_spec [OF vu lu cpu_u r2 Ik])
      fix s'
      assume s': "deallocate E ?a (page_k ?a n - ?a) cr3 (unlock_frames t) = Some s'" "vm_ok I s' cr3"
        "low_frames s'" "frame_lock s' = 0" "one_cpu E s'"
        and p: "\<And>va. va_pml va \<in> I \<Longrightarrow> pte s' cr3 va =
         (if in_range (ALIGN ?a) (unat ?a + unat (page_k ?a n - ?a)) va \<and> PRESENT (pte (unlock_frames t) cr3 va)
          then 0 else pte (unlock_frames t) cr3 va)"
      have "pte s' cr3 va = (if in_range ?a (unat ?a + n * 4096) va then 0 else pte s cr3 va)"
        if "va_pml va \<in> I" for va
        using p [OF that] t(5) that range_n [of va] unfolding un AA by (auto split: if_splits)
      with s' no run lt show ?thesis
        by (intro exI [of _ False] exI [of _ s'] exI [of _ n]) simp
    qed
  qed
qed

lemma allocated_spec:
  assumes "frame_lock s = 0"
  shows "allocated addr cr3 s = Some (PRESENT (pte s cr3 addr), s)"
proof -
  have "s\<lparr>frame_lock := 0\<rparr> = s" using assms by simp
  moreover have "kmem (s\<lparr>frame_lock := 1\<rparr>) = kmem s" by simp
  ultimately show ?thesis
    using assms
    by (auto simp: allocated_def lock_frames_def get_page_def find_page_pure unlock_frames_def pte_def
        leaf_def entry_def deref_def table_of_cong [of "s\<lparr>frame_lock := 1\<rparr>" s]
        node_kmem_cong [of "s\<lparr>frame_lock := 1\<rparr>" s] split: option.splits)
qed

section \<open>An empty address space\<close>

lemma read64_zero: "(\<And>a. m a = 0) \<Longrightarrow> read64 m p = 0"
  by (rule bit_word_eqI) (simp add: bit_read64)

lemma vm_ok_empty:
  assumes wf: "mm_wf s" and z: "\<And>a. kmem s a = 0"
    and root: "\<And>f. frame_refs s f = Some 0 \<Longrightarrow> physical_to_virtual s f \<noteq> table_of s cr3"
  shows "vm_ok I s cr3" and "pte s cr3 va = 0"
proof -
  have e: "entry s t i = 0" for t i by (simp add: entry_def deref_def read64_zero [OF z])
  then have L: "leaf s cr3 q j = 0" for q j by (simp add: leaf_def split: option.splits)
  have N: "node s q t = (if q = [] then Some t else None)" for q t by (cases q) (simp_all add: e)
  have "tree_ok I s cr3"
    using wf root by (auto simp: tree_ok_def tree_inj_def tables_used_def N split: if_splits)
  then show "vm_ok I s cr3" by (simp add: vm_ok_def data_apart_def users_def L)
  show "pte s cr3 va = 0" by (simp add: pte_def L)
qed

lemma demo_smp_fields [simp]:
  "kmem (demo_smp cs) = (\<lambda>_. 0)" "frame_pool (demo_smp cs) = [demo_section]"
  "mem_mirror_present (demo_smp cs) = True" "frame_lock (demo_smp cs) = 0"
  by (simp_all add: demo_smp_def demo_state_def mm_state.defs)

lemma zero_memory_vm:
  assumes z: "kmem s = (\<lambda>_. 0)" and wf: "mm_wf s"
  shows "vm_ok I s 0x100000" "pte s 0x100000 va = 0"
proof -
  have root: "physical_to_virtual s f \<noteq> table_of s 0x100000" if "frame_refs s f = Some 0" for f
  proof -
    have f: "0x200000 \<le> f" "f \<noteq> 0" using frame_refs_nonzero [OF wf that] by simp_all
    have a: "ALIGN (0x100000 :: u64) = 0x100000" by (simp add: ALIGN_def)
    then have "table_of s 0x100000 = physical_to_virtual s 0x100000" by (simp add: table_of_ALIGN)
    then show ?thesis using f by (auto simp: physical_to_virtual_inj word_le_nat_alt)
  qed
  show "vm_ok I s 0x100000" "pte s 0x100000 va = 0"
    by (rule vm_ok_empty [OF wf _ root]; simp add: z)+
qed

lemma demo_pool_vm:
  assumes z: "kmem s = (\<lambda>_. 0)" and pool: "frame_pool s = [demo_section]" and mir: "mem_mirror_present s"
  shows "vm_ok I s 0x100000" "pte s 0x100000 va = 0" "low_frames s"
proof -
  have wf: "mm_wf s"
    using demo_state_wf by (simp add: mm_wf_def pool mir) (simp add: demo_state_def)
  show "vm_ok I s 0x100000" "pte s 0x100000 va = 0" by (rule zero_memory_vm [OF z wf])+
  show "low_frames s"
    unfolding low_frames_def
  proof (intro allI impI)
    fix f assume "frame_refs s f \<noteq> None"
    then have "unat f < 2105344"
      by (auto simp: frame_refs_def pool map_add_Some_iff section_refs_def demo_section_def n_frames_def split: if_splits)
    then have "\<not> bit (unat f) 63" by (simp add: bit_iff_odd)
    then show "\<not> bit f 63" by (simp add: bit_unsigned_iff)
  qed
qed

lemma demo_vm: "vm_ok I (demo_smp cs) 0x100000" "pte (demo_smp cs) 0x100000 va = 0" "low_frames (demo_smp cs)"
  by (rule demo_pool_vm; simp)+

section \<open>Properties\<close>

text \<open>
  C3. Building the tables for an address (\<open>__get_page\<close> with \<open>allocate_new\<close>) keeps the
  address space well-formed and changes the page entry of no address. When it returns an entry
  pointer, the plain lookup finds the same pointer afterwards; when it returns NULL, the frame
  pool is exhausted and the frame lock has been released on the way.
\<close>

theorem get_page_builds_tables:
  assumes "vm_ok I s cr3" and "va_pml va \<in> I" and "get_page_gen va cr3 True user s = (r, s')"
  shows "vm_ok I s' cr3 \<and> (\<forall>va'. va_pml va' \<in> I \<longrightarrow> pte s' cr3 va' = pte s cr3 va') \<and>
    (case r of Some p \<Rightarrow> get_page va cr3 False s' = (Some p, s') \<and> frame_lock s' = frame_lock s
     | None \<Rightarrow> out_of_frames s' \<and> frame_lock s' = 0)"
  using get_page_gen_spec [OF assms] pte_extends [of I cr3 s s'] extends_vm_ok [of I cr3 s s']
  by (auto simp: get_page_def find_page_pure split: option.splits)

theorem get_page_builds_tables_witness:
  "vm_ok UNIV (snd (get_page_gen 0x400000 0x100000 True True (demo_smp [0]))) 0x100000"
  using get_page_builds_tables [OF demo_vm(1) UNIV_I prod.collapse [symmetric]] by blast

text \<open>
  C1. On one processor \<open>allocate\<close> always returns, with the frame lock free and the address space well-formed,
  for a range inside the address space in which no page is marked executable on demand. On success every
  page of the range is present, with the user and write flags asked for, and no other page entry has
  changed; on failure the pages mapped so far have been unmapped again and no other page entry has
  changed. (With more processors the unmapping after a failure does not return: \<open>tlb_shootdown\<close>.)
\<close>

theorem allocate_maps_range:
  assumes "vm_ok I s cr3" and "low_frames s" and "frame_lock s = 0" and "one_cpu E s"
    and "unat from + unat amount + 12288 \<le> 18446744073709551616"
    and "\<And>k. unat (ALIGN from) + k * 4096 < unat from + unat amount \<Longrightarrow>
           va_pml (page_k (ALIGN from) k) \<in> I \<and> plain_entry (pte s cr3 (page_k (ALIGN from) k))"
  shows "\<exists>ok s' n. allocate E from amount kern readonly cr3 s = Some (ok, s') \<and> vm_ok I s' cr3 \<and>
    low_frames s' \<and> frame_lock s' = 0 \<and> one_cpu E s' \<and>
    (\<forall>va. va_pml va \<in> I \<longrightarrow>
       (if ok then
          (if in_range (ALIGN from) (unat from + unat amount) va
           then PRESENT (pte s' cr3 va) \<and> (bit (pte s' cr3 va) 1 \<longleftrightarrow> \<not> readonly) \<and>
                (bit (pte s' cr3 va) 2 \<longleftrightarrow> \<not> kern)
           else pte s' cr3 va = pte s cr3 va)
        else pte s' cr3 va =
          (if in_range (ALIGN from) (unat (ALIGN from) + n * 4096) va then 0 else pte s cr3 va))) \<and>
    (\<not> ok \<longrightarrow> unat (ALIGN from) + n * 4096 < unat from + unat amount)"
proof -
  obtain ok s' n where r: "allocate E from amount kern readonly cr3 s = Some (ok, s')" "vm_ok I s' cr3"
    "low_frames s'" "frame_lock s' = 0" "one_cpu E s'"
    "\<forall>va. va_pml va \<in> I \<longrightarrow>
       (if ok then
          (if in_range (ALIGN from) (unat from + unat amount) va
           then \<exists>f. pte s' cr3 va = page_entry f kern readonly False else pte s' cr3 va = pte s cr3 va)
        else pte s' cr3 va = (if in_range (ALIGN from) (unat (ALIGN from) + n * 4096) va then 0 else pte s cr3 va))"
    "\<not> ok \<longrightarrow> unat (ALIGN from) + n * 4096 < unat from + unat amount"
    using allocate_spec [OF assms(1-5), of kern readonly] assms(6) by blast
  have "\<forall>va. va_pml va \<in> I \<longrightarrow>
       (if ok then
          (if in_range (ALIGN from) (unat from + unat amount) va
           then PRESENT (pte s' cr3 va) \<and> (bit (pte s' cr3 va) 1 \<longleftrightarrow> \<not> readonly) \<and>
                (bit (pte s' cr3 va) 2 \<longleftrightarrow> \<not> kern)
           else pte s' cr3 va = pte s cr3 va)
        else pte s' cr3 va =
          (if in_range (ALIGN from) (unat (ALIGN from) + n * 4096) va then 0 else pte s cr3 va))"
  proof (intro allI impI)
    fix va assume "va_pml va \<in> I"
    note q = r(6) [THEN spec, THEN mp, OF this]
    show "if ok then
          (if in_range (ALIGN from) (unat from + unat amount) va
           then PRESENT (pte s' cr3 va) \<and> (bit (pte s' cr3 va) 1 \<longleftrightarrow> \<not> readonly) \<and>
                (bit (pte s' cr3 va) 2 \<longleftrightarrow> \<not> kern)
           else pte s' cr3 va = pte s cr3 va)
        else pte s' cr3 va =
          (if in_range (ALIGN from) (unat (ALIGN from) + n * 4096) va then 0 else pte s cr3 va)"
      using q by (auto simp: page_flags page_flags(1) [unfolded One_nat_def] split: if_splits)
  qed
  with r(1-5,7) show ?thesis by blast
qed

theorem allocate_maps_range_witness:
  "\<exists>ok s'. allocate demo_env 0x400000 0x2000 False False 0x100000 (demo_smp [0]) = Some (ok, s') \<and>
     vm_ok UNIV s' 0x100000 \<and> frame_lock s' = 0"
  using allocate_maps_range [of UNIV "demo_smp [0]" "0x100000" demo_env "0x400000" "0x2000" False False,
      OF demo_vm(1) demo_vm(3) demo_smp_fields(4) demo_one_cpu]
  by (auto simp: demo_vm(2) plain_entry_def internal_valid_def field_get_def)

text \<open>
  C2. \<open>deallocate\<close> on one processor always returns, with the frame lock and the shootdown lock
  free and the address space well-formed; afterwards no page of the range is present and every
  page entry outside the range is untouched.
\<close>

theorem deallocate_unmaps_range:
  assumes "vm_ok I s cr3" and "low_frames s" and "frame_lock s = 0" and "one_cpu E s"
    and "unat from + unat amount + 8192 \<le> 18446744073709551616"
    and "\<And>k. unat (ALIGN from) + k * 4096 < unat from + unat amount \<Longrightarrow> va_pml (page_k (ALIGN from) k) \<in> I"
  shows "\<exists>s'. deallocate E from amount cr3 s = Some s' \<and> vm_ok I s' cr3 \<and> low_frames s' \<and>
    frame_lock s' = 0 \<and> one_cpu E s' \<and>
    (\<forall>va. va_pml va \<in> I \<longrightarrow> pte s' cr3 va =
       (if in_range (ALIGN from) (unat from + unat amount) va \<and> PRESENT (pte s cr3 va) then 0
        else pte s cr3 va))"
  by (rule deallocate_spec [OF assms]) blast+

theorem deallocate_unmaps_range_witness:
  "\<exists>s'. deallocate demo_env 0x400123 0x2000 0x100000 (demo_smp [0]) = Some s' \<and> vm_ok UNIV s' 0x100000"
  using deallocate_unmaps_range [of UNIV "demo_smp [0]" "0x100000" demo_env "0x400123" "0x2000",
      OF demo_vm(1) demo_vm(3) demo_smp_fields(4) demo_one_cpu]
  by auto

text \<open>
  \<open>allocated\<close> answers whether the page entry of the address is present and changes nothing.
\<close>

theorem allocated_reads_pte:
  assumes "frame_lock s = 0"
  shows "allocated addr cr3 s = Some (PRESENT (pte s cr3 addr), s)"
  using assms by (rule allocated_spec)

theorem allocated_reads_pte_witness:
  "allocated 0x400000 0x100000 (demo_smp [0]) = Some (False, demo_smp [0])"
  using allocated_reads_pte [OF demo_smp_fields(4)] by (simp add: demo_vm(2))

end
