(* ===== verification/Boot_Memory.thy ===== *)
theory Boot_Memory
  imports Vm_Range
begin

text \<open>
  Start-up of the memory manager (\<open>paging.c\<close>): the memory map that the boot loader left, the
  sections of the frame pool built from it, and the memory mirror. The multiboot structure is
  a record; the memory map entries are read from memory as the packed \<open>mboot_mem_t\<close>. What the
  code reads through the two-page window of \<open>remap\<close> (the module list and the strings) is an
  argument, as that window aliases physical memory.
\<close>

section \<open>The boot loader's data\<close>

record multiboot_info =
  mb_flags :: u32
  mem_lower :: u32
  mem_upper :: u32
  mb_cmdline :: u32
  mods_count :: u32
  mods_addr :: u32
  mmap_length :: u32
  mmap_addr :: u32
  framebuffer_addr :: u64
  framebuffer_pitch :: u32
  framebuffer_width :: u32
  framebuffer_height :: u32
  framebuffer_bpp :: u8
  framebuffer_type :: u8
  framebuffer_palette_addr :: u32
  framebuffer_palette_num_colors :: u16

record mod_list =
  mod_start :: u32
  mod_end :: u32
  mod_cmdline :: u32

definition read32 :: "store \<Rightarrow> u64 \<Rightarrow> u32" where
  "read32 m a = ucast (read_bytes 4 m a)"

text \<open>The walk over the memory map; it does not end when an entry size makes \<open>mem\<close> stand still.\<close>

partial_function (option) mmap_walk :: "(u64 \<Rightarrow> u64 \<Rightarrow> u32 \<Rightarrow> 's \<Rightarrow> 's option) \<Rightarrow> store \<Rightarrow> u32 \<Rightarrow> u32 \<Rightarrow> 's \<Rightarrow> 's option" where
  "mmap_walk f m mem stop s =
     (if mem < stop then
        (case f (read64 m (ucast mem)) (read64 m (ucast mem + 8)) (read32 m (ucast mem + 16)) s of
           None \<Rightarrow> None
         | Some s' \<Rightarrow> mmap_walk f m (mem + read32 m (ucast (mem - 4)) + 4) stop s')
      else Some s)"

declare mmap_walk.simps [code]

definition detect_maxram :: "multiboot_info \<Rightarrow> store \<Rightarrow> u64 option" where
  "detect_maxram mb m =
     (let highest0 = (if mb_flags mb AND 1 = 1 then
                        let lo = (ucast (mem_lower mb * 1024) :: u64); up = ucast (mem_upper mb * 1024)
                        in if lo < up then up else lo
                      else 0)
      in do { highest \<leftarrow>
                (if mb_flags mb AND 0x20 = 0x20 then
                   mmap_walk (\<lambda>address sz _ h. Some (if h < address + sz then address + sz else h)) m
                     (mmap_addr mb + 4) (mmap_addr mb + mmap_length mb) highest0
                 else Some highest0);
              (if highest = 0 then None else Some highest) })"

definition check_used_range :: "u64 \<Rightarrow> u64 \<Rightarrow> u64 \<Rightarrow> bool" where
  "check_used_range test fa sa =
     (let from = ALIGN fa; sz = page_align_up (sa + (fa - from))
      in from \<le> test \<and> test < from + sz)"

definition check_if_used_string :: "(u64 \<Rightarrow> u64) \<Rightarrow> u64 \<Rightarrow> u64 \<Rightarrow> bool" where
  "check_if_used_string str_len test str = check_used_range test str (str_len str + 1)"

text \<open>
  \<open>mbh\<close> is the address of the structure, \<open>kernel_tmp_heap_start\<close> the linker symbol. The second
  flag test is \<open>flags & (1<12)\<close>, that is \<open>flags & 1\<close>.
\<close>

definition check_if_used :: "(u64 \<Rightarrow> u64) \<Rightarrow> mod_list list \<Rightarrow> u64 \<Rightarrow> u64 \<Rightarrow> multiboot_info \<Rightarrow> u64 \<Rightarrow> bool" where
  "check_if_used str_len modules kernel_tmp_heap_start mbh mb test \<longleftrightarrow>
     (let kend = kernel_tmp_heap_start - 0xFFFFFFFF80000000 + 0x40000
      in check_used_range test 0 kend \<or>
         check_used_range test mbh 120 \<or>
         check_if_used_string str_len test (ucast (mb_cmdline mb)) \<or>
         check_used_range test (ucast (mods_addr mb)) (ucast (mods_count mb) * 16) \<or>
         (\<exists>md \<in> set (take (unat (mods_count mb)) modules).
            check_used_range test (ucast (mod_start md)) (ucast (mod_end md - mod_start md)) \<or>
            check_if_used_string str_len test (ucast (mod_cmdline md))) \<or>
         (mb_flags mb AND push_bit 11 1 \<noteq> 0 \<and> mb_flags mb AND 1 \<noteq> 0 \<and>
           (check_used_range test (framebuffer_addr mb)
              (ucast (ucast (framebuffer_bpp mb) * framebuffer_width mb * framebuffer_height mb)) \<or>
            framebuffer_type mb = 0 \<and>
              check_used_range test (ucast (framebuffer_palette_addr mb))
                (ucast (framebuffer_palette_num_colors mb) * 3))) \<or>
         check_used_range test (ucast (mmap_addr mb)) (ucast (mmap_length mb)))"

section \<open>Building a section\<close>

text \<open>
  \<open>old_se\<close> and \<open>old_fi\<close> are what the metadata memory holds before: the code does not write
  every field of an element below 2 MB.
\<close>

definition pool_frames :: "u64 \<Rightarrow> u64" where
  "pool_frames len = (len - 48) div (0x1000 + (24 + 16)) - 1"

definition pool_start :: "u64 \<Rightarrow> u64 \<Rightarrow> u64" where
  "pool_start len base =
     (let uframes = pool_frames len; total_size = 48 + uframes * 24 + uframes * 16
      in (base + total_size + 0x1000) AND NOT 0xFFF)"

definition fill_step :: "u64 \<Rightarrow> (nat \<Rightarrow> stack_element) \<Rightarrow> (nat \<Rightarrow> frame_info) \<Rightarrow> nat
    \<Rightarrow> section_info \<times> nat option \<Rightarrow> section_info \<times> nat option" where
  "fill_step after_address old_se old_fi i st =
     (let (sec, prev_se) = st;
          se = (old_se i)\<lparr>frame_address := after_address + of_nat i * 0x1000\<rparr>
      in if frame_address se < 0x200000 then
           (sec\<lparr>frame_array := frame_array sec @ [(old_fi i)\<lparr>usage_count := 1, bound_stack_element := i\<rparr>],
                stack_elements := stack_elements sec @ [se]\<rparr>, prev_se)
         else
           let els = (case prev_se of
                        Some p \<Rightarrow> (stack_elements sec)[p := (stack_elements sec ! p)\<lparr>next_element := Some i\<rparr>]
                      | None \<Rightarrow> stack_elements sec);
               hd' = (case prev_se of Some p \<Rightarrow> head sec | None \<Rightarrow> Some i)
           in (sec\<lparr>head := hd',
                   frame_array := frame_array sec @
                     [(old_fi i)\<lparr>usage_count := 0, cow_count := 0, bound_stack_element := i\<rparr>],
                   stack_elements := els @ [se\<lparr>next_element := None, array_ord := of_nat i\<rparr>]\<rparr>, Some i))"

definition make_section :: "(nat \<Rightarrow> stack_element) \<Rightarrow> (nat \<Rightarrow> frame_info) \<Rightarrow> u64 \<Rightarrow> u64 \<Rightarrow> section_info" where
  "make_section old_se old_fi len base =
     fst (fold (fill_step (pool_start len base) old_se old_fi) [0..<unat (pool_frames len)]
       (\<lparr>head = None, frame_array = [], stack_elements = [], start_word = pool_start len base,
         end_word = base + len, total_frames = pool_frames len\<rparr>, None))"

definition map_metadata_page :: "u64 \<Rightarrow> 'a mm_state_scheme \<Rightarrow> (unit + 'a mm_state_scheme) option" where
  "map_metadata_page addr s =
     (case get_page addr (active_page s) True s of
        (None, _) \<Rightarrow> None
      | (Some p, s1) \<Rightarrow> Some (Inr (assign p (set_us True (set_rw True (set_present True addr))) s1)))"

text \<open>
  The new section is returned; the callers link it at the end of the chain from \<open>*firstfp\<close> to
  \<open>lastfp\<close>.
\<close>

definition make_pool :: "(nat \<Rightarrow> stack_element) \<Rightarrow> (nat \<Rightarrow> frame_info) \<Rightarrow> u64 \<Rightarrow> u64
    \<Rightarrow> 'a mm_state_scheme \<Rightarrow> (section_info \<times> 'a mm_state_scheme) option" where
  "make_pool old_se old_fi len base s =
     (let uframes = pool_frames len;
          total_size = 48 + uframes * 24 + uframes * 16
      in do { r \<leftarrow> for_pages map_metadata_page base (base + total_size) s;
              (case r of Inl _ \<Rightarrow> None | Inr s1 \<Rightarrow> Some (make_section old_se old_fi len base, s1)) })"

definition deallocate_starting_address :: "(nat \<Rightarrow> stack_element) \<Rightarrow> (nat \<Rightarrow> frame_info) \<Rightarrow> u64 \<Rightarrow> u64
    \<Rightarrow> 'a mm_state_scheme \<Rightarrow> 'a mm_state_scheme option" where
  "deallocate_starting_address old_se old_fi address sz s =
     (if sz < 0x10000 then Some s
      else if frame_pool s = [] then None
      else map_option (\<lambda>(sec, s1). s1\<lparr>frame_pool := frame_pool s1 @ [sec]\<rparr>)
             (make_pool old_se old_fi sz address s))"

section \<open>The frame pool from the memory map\<close>

text \<open>
  The search loop of \<open>create_frame_pool\<close> for one block of memory: \<open>used\<close> is
  \<open>check_if_used\<close>, \<open>ba\<close> and \<open>len\<close> the block, \<open>base\<close> the current \<open>base_addr\<close>; the pool
  built so far is the first component of the state.
\<close>

definition first_used :: "(u64 \<Rightarrow> bool) \<Rightarrow> u64 \<Rightarrow> u64 \<Rightarrow> u64 option option" where
  "first_used used base len =
     map_option (\<lambda>r. case r of Inl test \<Rightarrow> Some test | Inr _ \<Rightarrow> None)
       (for_pages (\<lambda>test (_ :: unit). if used test then Some (Inl test) else Some (Inr ())) base len ())"

partial_function (option) pool_block :: "(nat \<Rightarrow> stack_element) \<Rightarrow> (nat \<Rightarrow> frame_info) \<Rightarrow> (u64 \<Rightarrow> bool) \<Rightarrow> u64 \<Rightarrow> u64
    \<Rightarrow> u64 \<Rightarrow> section_info list \<Rightarrow> 'a mm_state_scheme \<Rightarrow> (section_info list \<times> 'a mm_state_scheme) option" where
  "pool_block old_se old_fi used ba len base pools s =
     (if len + ba \<le> base then Some (pools, s)
      else (case first_used used base len of
        None \<Rightarrow> None
      | Some (Some test) \<Rightarrow>
          if test - base = 0 then
            (if base + 0x1000 < ba + len then pool_block old_se old_fi used ba len (base + 0x1000) pools s
             else Some (pools, s))
          else if test - base < 0x10000 then
            (if base + (test - base) < ba + len
             then pool_block old_se old_fi used ba len (base + (test - base)) pools s
             else Some (pools, s))
          else (case make_pool old_se old_fi (test - base) base s of
             None \<Rightarrow> None
           | Some (sec, s1) \<Rightarrow> pool_block old_se old_fi used ba len (base + (test - base)) (pools @ [sec]) s1)
      | Some None \<Rightarrow>
          (case make_pool old_se old_fi len base s of
             None \<Rightarrow> None
           | Some (sec, s1) \<Rightarrow> pool_block old_se old_fi used ba len (base + len) (pools @ [sec]) s1)))"

declare pool_block.simps [code]

definition create_frame_pool :: "(nat \<Rightarrow> stack_element) \<Rightarrow> (nat \<Rightarrow> frame_info) \<Rightarrow> (u64 \<Rightarrow> bool) \<Rightarrow> multiboot_info
    \<Rightarrow> 'a mm_state_scheme \<Rightarrow> 'a mm_state_scheme option" where
  "create_frame_pool old_se old_fi used mb s =
     do { (pools, s1) \<leftarrow>
            (if mb_flags mb AND 0x20 = 0x20 then
               mmap_walk (\<lambda>ba len ty (pools, t).
                   if ty \<noteq> 1 then Some (pools, t)
                   else if len < 0x10000 then Some (pools, t)
                   else pool_block old_se old_fi used ba len ba pools t) (kmem s)
                 (mmap_addr mb + 4) (mmap_addr mb + mmap_length mb) ([], s)
             else Some ([], s));
          Some (s1\<lparr>frame_pool := pools\<rparr>) }"

section \<open>The memory mirror\<close>

definition mirror_gb_entry :: "u64 \<Rightarrow> u64" where
  "mirror_gb_entry start = set_rw True (field_set 7 1 1 (set_present True start))"

text \<open>One gigabyte page of the mirror; \<open>head\<close> is the pool that is switched on after the first.\<close>

definition mirror_gb_step :: "section_info list \<Rightarrow> u64 \<Rightarrow> bool \<times> 'a mm_state_scheme \<Rightarrow> bool \<times> 'a mm_state_scheme" where
  "mirror_gb_step pool start st =
     (let (first_set, s) = st;
          vaddress = start + ADDRESS_OFFSET RESERVED_KBLOCK_RAM_MAPPINGS;
          slot = entry_addr (table_of s (active_page s)) (va_pml vaddress);
          s1 = (if \<not> PRESENT (deref s slot) then
                  let (f, t) = get_free_frame s; e = table_entry False f; t1 = assign slot e t
                  in memset_state (physical_to_virtual t1 (ALIGN e)) 0 0x1000 t1
                else s);
          pdpt = table_of s1 (deref s1 slot);
          s2 = assign (entry_addr pdpt (va_directory_ptr vaddress)) (mirror_gb_entry start) s1
      in if \<not> first_set then (True, s2\<lparr>frame_pool := pool\<rparr>) else (True, s2))"

partial_function (option) mirror_gb :: "section_info list \<Rightarrow> u64 \<Rightarrow> u64 \<Rightarrow> bool \<times> 'a mm_state_scheme
    \<Rightarrow> (bool \<times> 'a mm_state_scheme) option" where
  "mirror_gb pool start maxram st =
     (if start < maxram then mirror_gb pool (start + 0x40000000) maxram (mirror_gb_step pool start st)
      else Some st)"

declare mirror_gb.simps [code]

definition mirror_page_step :: "section_info list \<Rightarrow> u64 \<Rightarrow> u64 \<Rightarrow> bool \<times> 'a mm_state_scheme
    \<Rightarrow> (unit + bool \<times> 'a mm_state_scheme) option" where
  "mirror_page_step pool kernel_tmp_heap_start start st =
     (let (first_set, s) = st;
          kend = kernel_tmp_heap_start - 0xFFFFFFFF80000000 + 0x40000;
          (first1, s1) = (if tmp_heap s \<le> kend + 0x4000 \<and> \<not> first_set
                          then (True, s\<lparr>frame_pool := pool\<rparr>) else (first_set, s));
          vaddress = start + ADDRESS_OFFSET RESERVED_KBLOCK_RAM_MAPPINGS
      in case get_page vaddress (active_page s1) True s1 of
           (None, _) \<Rightarrow> None
         | (Some p, s2) \<Rightarrow>
             Some (Inr (first1, assign p (set_us False (set_rw True (set_present True start))) s2)))"

definition initialize_memory_mirror :: "bool \<Rightarrow> u64 \<Rightarrow> u64 \<Rightarrow> 'a mm_state_scheme \<Rightarrow> 'a mm_state_scheme option" where
  "initialize_memory_mirror gb_pages kernel_tmp_heap_start maxram s =
     (let pool = frame_pool s; s1 = s\<lparr>frame_pool := []\<rparr>
      in if gb_pages then map_option snd (mirror_gb pool 0 maxram (False, s1))
         else do { r \<leftarrow> for_pages (mirror_page_step pool kernel_tmp_heap_start) 0 maxram (False, s1);
                   (case r of Inl _ \<Rightarrow> None | Inr st \<Rightarrow> Some (snd st)) })"

text \<open>\<open>mb\<close> is the copy of the boot structure that \<open>remap\<close> and \<open>memcpy\<close> make.\<close>

definition initialize_physical_memory_allocation :: "(nat \<Rightarrow> stack_element) \<Rightarrow> (nat \<Rightarrow> frame_info)
    \<Rightarrow> (u64 \<Rightarrow> u64) \<Rightarrow> mod_list list \<Rightarrow> u64 \<Rightarrow> u64 \<Rightarrow> bool \<Rightarrow> multiboot_info \<Rightarrow> 'a mm_state_scheme
    \<Rightarrow> (u64 \<times> 'a mm_state_scheme) option" where
  "initialize_physical_memory_allocation old_se old_fi str_len modules kernel_tmp_heap_start mbh gb_pages mb s =
     do { let s1 = s\<lparr>frame_lock := 0, mem_mirror_present := False, frame_pool := []\<rparr>;
          maxram \<leftarrow> detect_maxram mb (kmem s1);
          s2 \<leftarrow> create_frame_pool old_se old_fi
                 (check_if_used str_len modules kernel_tmp_heap_start mbh mb) mb s1;
          s3 \<leftarrow> initialize_memory_mirror gb_pages kernel_tmp_heap_start maxram s2;
          Some (maxram, s3\<lparr>mem_mirror_present := True\<rparr>) }"

section \<open>The sections built are well-formed\<close>

lemma chain_append: "chain els h c \<Longrightarrow> chain (els @ xs) h c"
  by (induction c arbitrary: h) (auto simp: nth_append)

lemma chain_snoc:
  assumes "chain els h c" "c \<noteq> []" "distinct c" "next_element se = None"
  shows "chain (els[last c := (els ! last c)\<lparr>next_element := Some (length els)\<rparr>] @ [se]) h (c @ [length els])"
  using assms
proof (induction c arbitrary: h)
  case (Cons x c)
  have x: "x < length els" "h = Some x" "chain els (next_element (els ! x)) c" using Cons.prems(1) by auto
  show ?case
  proof (cases "c = []")
    case True
    with x Cons.prems(4) show ?thesis by (simp add: nth_append)
  next
    case False
    then have "x \<noteq> last c" using Cons.prems(3) by auto
    with False x Cons.IH [OF x(3) False] Cons.prems(3,4) show ?thesis by (simp add: nth_append)
  qed
qed simp

definition usable :: "u64 \<Rightarrow> nat \<Rightarrow> nat list" where
  "usable a i = filter (\<lambda>j. \<not> a + of_nat j * 0x1000 < 0x200000) [0..<i]"

lemma usable_Suc:
  "usable a (Suc i) = (if a + of_nat i * 0x1000 < 0x200000 then usable a i else usable a i @ [i])"
  by (simp add: usable_def)

lemma set_usable: "j \<in> set (usable a i) \<longleftrightarrow> j < i \<and> \<not> a + of_nat j * 0x1000 < 0x200000"
  by (auto simp: usable_def)

lemma distinct_usable: "distinct (usable a i)"
  by (simp add: usable_def)

lemma fill_invariant:
  fixes a old_se old_fi sec0
  assumes "frame_array sec0 = []" "stack_elements sec0 = []" "head sec0 = None"
    and run: "fold (fill_step a old_se old_fi) [0..<i] (sec0, None) = (sec, prev)"
  shows "length (frame_array sec) = i \<and> length (stack_elements sec) = i \<and>
    start_word sec = start_word sec0 \<and> end_word sec = end_word sec0 \<and> total_frames sec = total_frames sec0 \<and>
    (\<forall>j < i. frame_address (stack_elements sec ! j) = a + of_nat j * 0x1000 \<and>
       bound_stack_element (frame_array sec ! j) = j \<and>
       usage_count (frame_array sec ! j) = (if j \<in> set (usable a i) then 0 else 1) \<and>
       (j \<in> set (usable a i) \<longrightarrow> array_ord (stack_elements sec ! j) = of_nat j)) \<and>
    chain (stack_elements sec) (head sec) (usable a i) \<and>
    prev = (if usable a i = [] then None else Some (last (usable a i)))"
  using run
proof (induction i arbitrary: sec prev)
  case 0
  then show ?case using assms(1-3) by (auto simp: usable_def)
next
  case (Suc i)
  obtain t q where t: "fold (fill_step a old_se old_fi) [0..<i] (sec0, None) = (t, q)" by fastforce
  note IH = Suc.IH [OF t]
  have step: "fill_step a old_se old_fi i (t, q) = (sec, prev)" using Suc.prems t by simp
  have lt: "last (usable a i) < i" if "usable a i \<noteq> []" using that last_in_set set_usable by blast
  show ?case
  proof (cases "a + of_nat i * 0x1000 < (0x200000 :: u64)")
    case True
    then show ?thesis
      using step IH by (auto simp: fill_step_def Let_def usable_Suc nth_append less_Suc_eq set_usable intro: chain_append)
  next
    case False
    show ?thesis
    proof (cases "usable a i = []")
      case True
      have u: "usable a (Suc i) = [i]" using False True by (simp add: usable_Suc)
      have q: "q = None" using IH True by simp
      have no: "j < i \<Longrightarrow> j \<notin> set (usable a i)" for j using True by simp
      show ?thesis
        using step IH False q no by (auto simp: fill_step_def Let_def u nth_append less_Suc_eq True)
    next
      case ne: False
      have u: "usable a (Suc i) = usable a i @ [i]" using False by (simp add: usable_Suc)
      have q: "q = Some (last (usable a i))" using IH ne by simp
      let ?els = "stack_elements t" and ?p = "last (usable a i)"
      have len: "length ?els = i" using IH by simp
      have ch: "chain (?els[?p := (?els ! ?p)\<lparr>next_element := Some i\<rparr>] @ [se]) (head t) (usable a i @ [i])"
        if "next_element se = None" for se
        using chain_snoc [of ?els "head t" "usable a i" se] IH ne distinct_usable that len by simp
      have "chain (stack_elements sec) (head sec) (usable a (Suc i))"
        using step False q ch by (auto simp: fill_step_def Let_def u)
      moreover have "frame_array sec = frame_array t @
          [(old_fi i)\<lparr>usage_count := 0, cow_count := 0, bound_stack_element := i\<rparr>]" "prev = Some i"
        "stack_elements sec = ?els[?p := (?els ! ?p)\<lparr>next_element := Some i\<rparr>] @
          [(old_se i)\<lparr>frame_address := a + of_nat i * 0x1000, next_element := None, array_ord := of_nat i\<rparr>]"
        "start_word sec = start_word t" "end_word sec = end_word t" "total_frames sec = total_frames t"
        using step False q by (auto simp: fill_step_def Let_def)
      ultimately show ?thesis
        using IH False lt [OF ne] by (simp add: u nth_append less_Suc_eq nth_list_update set_usable)
    qed
  qed
qed

lemma pool_frames_bound:
  assumes "65536 \<le> unat len"
  shows "unat (pool_frames len) = (unat len - 48) div 4136 - 1" and "0 < unat (pool_frames len)"
    and "48 + unat (pool_frames len) * 4136 + 4136 \<le> unat len"
proof -
  let ?q = "(unat len - 48) div 4136"
  have "unat (len - 48) = unat len - 48" using assms by (simp add: unat_diff_u64)
  then have d: "unat ((len - 48) div 4136) = ?q" by (simp add: unat_div_distrib)
  have q: "15 \<le> ?q" using div_le_mono [of 65488 "unat len - 48" 4136] assms by simp
  show u: "unat (pool_frames len) = ?q - 1"
    using d q by (simp add: pool_frames_def unat_diff_u64)
  then show "0 < unat (pool_frames len)" using q by simp
  have "?q * 4136 \<le> unat len - 48" by (rule div_times_less_eq_dividend)
  then show "48 + unat (pool_frames len) * 4136 + 4136 \<le> unat len" using u q assms by (simp add: algebra_simps)
qed

lemma pool_start_bound:
  assumes len: "65536 \<le> unat len" and room: "unat base + unat len < 18446744073709551616"
  shows "page_aligned (pool_start len base)"
    and "unat base + 48 + unat (pool_frames len) * 40 < unat (pool_start len base)"
    and "unat (pool_start len base) + unat (pool_frames len) * 4096 < unat base + unat len"
proof -
  let ?n = "pool_frames len"
  note B = pool_frames_bound [OF len]
  have nb: "unat ?n * 4136 < 18446744073709551616" using B(3) room by simp
  have m24: "unat (?n * 24) = unat ?n * 24" using nb by (simp add: unat_word_ariths)
  have m16: "unat (?n * 16) = unat ?n * 16" using nb by (simp add: unat_word_ariths)
  have a: "unat (48 + ?n * 24) = 48 + unat ?n * 24" using m24 nb by (subst unat_add_no_wrap) simp_all
  have t: "unat (48 + ?n * 24 + ?n * 16) = 48 + unat ?n * 40"
    using a m16 nb by (subst unat_add_no_wrap) simp_all
  have b: "unat (base + (48 + ?n * 24 + ?n * 16)) = unat base + (48 + unat ?n * 40)"
    using t B(3) room by (subst unat_add_no_wrap) simp_all
  have x: "unat (base + (48 + ?n * 24 + ?n * 16) + 0x1000) = unat base + 48 + unat ?n * 40 + 4096"
    using b B(3) room by (subst unat_add_no_wrap) simp_all
  have s: "pool_start len base = ALIGN (base + (48 + ?n * 24 + ?n * 16) + 0x1000)"
    by (simp add: pool_start_def Let_def ALIGN_def)
  show "page_aligned (pool_start len base)" by (simp add: s)
  have u: "unat (pool_start len base) = unat base + 48 + unat ?n * 40 + 4096 - (unat base + 48 + unat ?n * 40 + 4096) mod 4096"
    by (simp only: s unat_ALIGN x)
  show "unat base + 48 + unat ?n * 40 < unat (pool_start len base)"
    unfolding u using mod_less_divisor [of 4096 "unat base + 48 + unat ?n * 40 + 4096"] by linarith
  show "unat (pool_start len base) + unat ?n * 4096 < unat base + unat len"
    unfolding u using B(3) by linarith
qed

text \<open>
  C19. A block of at least 64 KB becomes a well-formed section of the frame pool: the free list
  is exactly the frames at or above 2 MB, with count 0, every frame lies inside the block and
  behind the section's own metadata.
\<close>

theorem make_section_well_formed:
  assumes "65536 \<le> unat len" and "unat base + unat len < 18446744073709551616" and "unat len < 17592186044416"
  shows "section_wf (make_section old_se old_fi len base) \<and>
    unat base + 48 + n_frames (make_section old_se old_fi len base) * (24 + 16)
      < unat (start_word (make_section old_se old_fi len base)) \<and>
    end_word (make_section old_se old_fi len base) = base + len \<and>
    (\<forall>i < n_frames (make_section old_se old_fi len base).
       section_refs (make_section old_se old_fi len base) (frame_at (make_section old_se old_fi len base) i) =
         (if 0x200000 \<le> frame_at (make_section old_se old_fi len base) i then Some 0 else Some 1))"
proof -
  let ?a = "pool_start len base" and ?n = "unat (pool_frames len)"
  let ?sec0 = "\<lparr>head = None, frame_array = [], stack_elements = [], start_word = ?a,
         end_word = base + len, total_frames = pool_frames len\<rparr>"
  define sec where "sec = make_section old_se old_fi len base"
  obtain prev where "fold (fill_step ?a old_se old_fi) [0..<?n] (?sec0, None) = (sec, prev)"
    by (metis make_section_def prod.collapse sec_def)
  note F = fill_invariant [OF _ _ _ this, simplified]
  note B = pool_frames_bound [OF assms(1)] and S = pool_start_bound [OF assms(1,2)]
  have n: "n_frames sec = ?n" using F by (simp add: n_frames_def)
  have fa: "frame_at sec i = ?a + of_nat i * 0x1000" for i using F by (simp add: frame_at_def)
  have "?n < 2 ^ 32" using B(3) assms(3) by simp
  moreover have e: "unat (base + len) = unat base + unat len" using assms(2) by (rule unat_add_no_wrap)
  ultimately have shape: "section_shape sec"
    using F S e n by (simp add: section_shape_def)
  have el: "elements_wf sec"
    using F n fa by (auto simp: elements_wf_def set_usable not_less)
  have fl: "free_list sec (usable ?a ?n)"
  proof -
    have "(usage_count (frame_array sec ! i) = 0) = (i \<in> set (usable ?a ?n))" if "i < ?n" for i
      using F that by simp
    then show ?thesis
      using F n fa distinct_usable unfolding free_list_def by (auto simp: set_usable not_less)
  qed
  have "section_refs sec (frame_at sec i) = (if 0x200000 \<le> frame_at sec i then Some 0 else Some 1)"
    if "i < n_frames sec" for i
    using section_refs_frame_at [OF shape that] F that n fa by (auto simp: set_usable not_less)
  moreover have "section_wf sec" using shape el fl by (auto simp: section_wf_def)
  ultimately show ?thesis using F S(2) n by (simp add: sec_def [symmetric])
qed

theorem make_section_well_formed_witness:
  "section_wf (make_section (\<lambda>_. \<lparr>frame_address = 7, array_ord = 7, next_element = Some 7\<rparr>)
     (\<lambda>_. \<lparr>usage_count = 7, cow_count = 7, bound_stack_element = 7\<rparr>) 0x100000 0x180000)"
  using make_section_well_formed [of "0x100000" "0x180000"] by simp

text \<open>
  \<open>check_used_range\<close> answers whether \<open>test\<close> lies in one of the pages that the byte range
  touches (for ranges that do not reach the top of the address space).
\<close>

theorem check_used_range_pages:
  assumes "0 < unat sa" and "unat fa + unat sa + 8192 \<le> 18446744073709551616"
  shows "check_used_range test fa sa \<longleftrightarrow>
    unat fa div 4096 \<le> unat test div 4096 \<and> unat test div 4096 \<le> (unat fa + unat sa - 1) div 4096"
proof -
  let ?a = "ALIGN fa" and ?v = "sa + (fa - ALIGN fa)"
  have ua: "unat ?a = unat fa div 4096 * 4096" by (simp add: unat_ALIGN minus_mod_eq_div_mult)
  have le: "unat ?a \<le> unat fa" "unat fa < unat ?a + 4096"
    using mod_less_divisor [of 4096 "unat fa"] by (simp_all add: unat_ALIGN)
  have uv: "unat ?v = unat sa + (unat fa - unat ?a)"
    using le assms by (subst unat_add_no_wrap) (simp_all add: unat_diff_u64)
  have rv: "unat ?v + 4096 \<le> 18446744073709551616" using uv le assms by simp
  note R = round_end [OF rv page_align_up_round [OF rv] dvd_0_right]
  have ue: "unat (?a + page_align_up ?v) = unat ?a + unat (page_align_up ?v)"
    using R(3) uv le assms by (intro unat_add_no_wrap) simp
  let ?e = "unat ?a + unat (page_align_up ?v)"
  have "4096 dvd ?e"
    using page_aligned_page_align_up [of ?v] page_aligned_ALIGN [of fa] by (simp add: page_aligned_dvd)
  then obtain k where k: "?e = 4096 * k" by (auto simp: dvd_def)
  have "unat fa + unat sa \<le> ?e" "?e < unat fa + unat sa + 4096" using R(3,4) uv le by simp_all
  then have d: "(unat fa + unat sa - 1) div 4096 = k - 1" and "0 < k"
    using k assms(1) by (auto intro!: div_nat_eqI)
  have up: "unat test < ?e \<longleftrightarrow> unat test div 4096 \<le> (unat fa + unat sa - 1) div 4096"
    unfolding d k using \<open>0 < k\<close> by (auto simp: div_less_iff_less_mult less_Suc_eq_le [symmetric] mult.commute)
  have lo: "unat ?a \<le> unat test \<longleftrightarrow> unat fa div 4096 \<le> unat test div 4096"
    unfolding ua by (simp add: less_eq_div_iff_mult_less_eq)
  show ?thesis
    unfolding check_used_range_def Let_def word_le_nat_alt word_less_nat_alt ue lo up ..
qed

theorem check_used_range_pages_witness:
  "check_used_range 0x5000 0x3800 0x1801 \<longleftrightarrow> (0x3800 :: nat) div 4096 \<le> 0x5000 div 4096 \<and>
     0x5000 div 4096 \<le> ((0x3800 :: nat) + 0x1801 - 1) div 4096"
  using check_used_range_pages [of "0x1801" "0x3800" "0x5000"] by simp

end
