(* ===== verification/Paging_Ops.thy ===== *)
theory Paging_Ops
  imports Vm_Range
begin

text \<open>
  The rest of the run-time interface of \<open>paging.c\<close>: allocation described by an
  \<open>alloc_info_t\<close> (including allocation on demand), new address spaces, the page fault handler
  with copy on write, mapping of existing memory, and copies between address spaces. The
  uninitialised bits of an on-demand entry are the argument \<open>junk\<close>. Following a NULL entry
  pointer is undefined in C and does not return here (\<open>None\<close>).
\<close>

section \<open>Allocation requests\<close>

record alloc_info =
  ai_from :: u64
  ai_amount :: u64
  ai_exec :: bool
  ai_finished :: bool
  ai_aod :: bool

definition on_demand_entry :: "u64 \<Rightarrow> bool \<Rightarrow> u64" where
  "on_demand_entry junk exec =
     set_internal 4 exec (set_internal 3 True (set_internal 1 True (set_internal 0 False junk)))"

text \<open>
  One turn of the loop; \<open>Inl\<close> leaves the function with \<open>finished\<close> cleared and the lock released.
  The loop bound \<open>from + amount\<close> is the same in every turn, since each turn moves one page
  from \<open>amount\<close> to \<open>from\<close>.
\<close>

definition allocate_mem_page :: "(u64 \<Rightarrow> u64) \<Rightarrow> bool \<Rightarrow> bool \<Rightarrow> u64 \<Rightarrow> u64
    \<Rightarrow> alloc_info \<times> 'a mm_state_scheme
    \<Rightarrow> (alloc_info \<times> 'a mm_state_scheme + alloc_info \<times> 'a mm_state_scheme) option" where
  "allocate_mem_page junk kern readonly cr3 addr st =
     (let (ai, s) = st in
      do { s1 \<leftarrow> lock_frames s;
           let (frame, s2) = (if kern then get_page addr cr3 True s1 else get_page_user addr cr3 True s1);
           (case frame of
              None \<Rightarrow> Some (Inl (ai\<lparr>ai_finished := False\<rparr>, unlock_frames s2))
            | Some p \<Rightarrow>
                let (ok, s3) = (if ai_aod ai then (True, assign p (on_demand_entry (junk addr) (ai_exec ai)) s2)
                                else let (f, t) = allocate_frame p kern readonly (ai_exec ai) s2 in (f \<noteq> 0, t))
                in if \<not> ok then Some (Inl (ai\<lparr>ai_finished := False\<rparr>, unlock_frames s3))
                   else Some (Inr (ai\<lparr>ai_from := ai_from ai + 0x1000, ai_amount := ai_amount ai - 0x1000\<rparr>,
                                   unlock_frames s3))) })"

definition allocate_mem :: "(u64 \<Rightarrow> u64) \<Rightarrow> alloc_info \<Rightarrow> bool \<Rightarrow> bool \<Rightarrow> u64 \<Rightarrow> 'a mm_state_scheme
    \<Rightarrow> (alloc_info \<times> 'a mm_state_scheme) option" where
  "allocate_mem junk ainfo kern readonly cr3 s =
     (let dif = ai_from ainfo - ALIGN (ai_from ainfo);
          ai = ainfo\<lparr>ai_amount := page_align_up (ai_amount ainfo + dif), ai_from := ALIGN (ai_from ainfo)\<rparr>
      in do { r \<leftarrow> for_pages (allocate_mem_page junk kern readonly cr3) (ai_from ai)
                     (ai_from ai + ai_amount ai) (ai, s);
              (case r of
                 Inl (ai', s') \<Rightarrow> Some (ai', s')
               | Inr (ai', s') \<Rightarrow> Some (ai'\<lparr>ai_finished := True\<rparr>, s')) })"

definition allocate_physret :: "u64 \<Rightarrow> bool \<Rightarrow> bool \<Rightarrow> bool \<Rightarrow> u64 \<Rightarrow> 'a mm_state_scheme
    \<Rightarrow> (u64 \<times> 'a mm_state_scheme) option" where
  "allocate_physret block_addr kern rw exec cr3 s =
     (case get_page block_addr cr3 True s of
        (None, _) \<Rightarrow> None
      | (Some p, s1) \<Rightarrow> Some (allocate_frame p kern rw exec s1))"

section \<open>New address spaces\<close>

definition copy_kernel_slots :: "u64 \<Rightarrow> u64 \<Rightarrow> 'a mm_state_scheme \<Rightarrow> 'a mm_state_scheme" where
  "copy_kernel_slots sent tent s =
     fold (\<lambda>i s. if 256 \<le> i then assign (entry_addr tent (of_nat i)) (deref s (entry_addr sent (of_nat i))) s else s)
       [0..<512] s"

definition create_pml4 :: "'a mm_state_scheme \<Rightarrow> (u64 \<times> 'a mm_state_scheme) option" where
  "create_pml4 s =
     do { s1 \<leftarrow> lock_frames s;
          let (target_page, s2) = get_free_frame s1;
          let s3 = unlock_frames s2;
          (if target_page = 0 then Some (0, s3)
           else let apentry = active_page s3;
                    tentry = field_set 0 4 (field_get 0 4 apentry) target_page;
                    sent = physical_to_virtual s3 (ALIGN (active_page s3));
                    tent = physical_to_virtual s3 target_page;
                    s4 = memset_state tent 0 0x1000 s3
                in Some (tentry, copy_kernel_slots sent tent s4)) }"

definition deallocate_start_memory :: "('arr, ('arr, 'q, 'z) smp_state_scheme) smp_env
    \<Rightarrow> ('arr, 'q, 'z) smp_state_scheme \<Rightarrow> ('arr, 'q, 'z) smp_state_scheme option" where
  "deallocate_start_memory E s =
     do { s1 \<leftarrow> tlb_shootdown E (active_page s) 0 0x200000 s;
          Some (tlb_shootdown_end
            (memset_state (physical_to_virtual s1 (active_page s1)) 0 (256 * 8) s1)) }"

section \<open>Page faults\<close>

definition demand_request :: "u64 \<Rightarrow> alloc_info" where
  "demand_request address =
     \<lparr>ai_from = ALIGN address, ai_amount = 0x1000, ai_exec = False, ai_finished = False, ai_aod = False\<rparr>"

text \<open>
  A write to a page whose frame is shared copy on write: the last owner gets the write flag
  back, any other gets a copy of the frame.
\<close>

definition cow_fault :: "u64 \<Rightarrow> nat \<times> nat \<Rightarrow> u64 \<Rightarrow> 'a mm_state_scheme \<Rightarrow> 'a mm_state_scheme" where
  "cow_fault page fip frame s =
     (let fi = read_frame_info fip s
      in if cow_count fi = 1 then
           let porig = set_rw True (deref s page);
               s1 = write_frame_info fip (fi\<lparr>cow_count := cow_count fi - 1\<rparr>) s
           in assign page porig s1
         else
           let (nframe, s1) = get_free_frame s;
               s2 = s1\<lparr>kmem := memcpy (physical_to_virtual s1 nframe) (physical_to_virtual s1 frame) 0x1000 (kmem s1)\<rparr>;
               porig = deref s2 page;
               pnew0 = field_set 63 1 (field_get 63 1 porig) (field_set 0 9 (field_get 0 9 porig) nframe);
               s3 = assign page (set_rw True pnew0) s2;
               fi1 = read_frame_info fip s3
           in write_frame_info fip (fi1\<lparr>cow_count := cow_count fi1 - 1, usage_count := usage_count fi1 - 1\<rparr>) s3)"

definition page_fault :: "('arr, ('arr, 'q, 'z) smp_state_scheme) smp_env \<Rightarrow> (u64 \<Rightarrow> u64) \<Rightarrow> u64 \<Rightarrow> u64
    \<Rightarrow> ('arr, 'q, 'z) smp_state_scheme \<Rightarrow> (bool \<times> ('arr, 'q, 'z) smp_state_scheme) option" where
  "page_fault E junk address errcode s =
     (let cr3 = active_page s
      in if errcode AND 1 = 0 then
           (case get_page address cr3 False s of
              (None, s1) \<Rightarrow> Some (False, s1)
            | (Some p, s1) \<Rightarrow>
                let page = deref s1 p
                in if internal_valid page \<and> internal_allocondem page then
                     map_option (\<lambda>(_, s2). (True, s2)) (allocate_mem junk (demand_request address) False False cr3 s1)
                   else Some (False, s1))
         else if errcode AND 2 \<noteq> 0 then
           (case get_page address cr3 False s of
              (None, s1) \<Rightarrow> Some (False, s1)
            | (Some p, s1) \<Rightarrow>
                do { s2 \<leftarrow> tlb_shootdown E cr3 (ALIGN address) 0x1000 s1;
                     let frame = ALIGN (deref s2 p);
                     s3 \<leftarrow> lock_frames s2;
                     (case get_frame_info frame s3 of
                        None \<Rightarrow> Some (False, s3)
                      | Some fip \<Rightarrow>
                          if cow_count (read_frame_info fip s3) = 0 then Some (False, unlock_frames s3)
                          else Some (True, tlb_shootdown_end (unlock_frames (cow_fault p fip frame s3)))) })
         else Some (False, s))"

section \<open>Changing and sharing mappings\<close>

definition CHNG_TYPE_RW :: nat where "CHNG_TYPE_RW = 0"
definition CHNG_TYPE_SU :: nat where "CHNG_TYPE_SU = 1"

definition change_page :: "nat \<Rightarrow> bool \<Rightarrow> u64 \<Rightarrow> u64 \<Rightarrow> 'a mm_state_scheme
    \<Rightarrow> (unit + 'a mm_state_scheme) option" where
  "change_page change_type new_value cr3 addr s =
     (case get_page addr cr3 True s of
        (None, _) \<Rightarrow> None
      | (Some p, s1) \<Rightarrow>
          if \<not> PRESENT (deref s1 p) then
            let page = deref s1 p;
                page1 = (if change_type = CHNG_TYPE_RW then set_rw new_value page else page);
                page2 = (if change_type = CHNG_TYPE_SU then set_us new_value page1 else page1)
            in Some (Inr (assign p page2 s1))
          else Some (Inr s1))"

definition mem_change_type :: "('arr, ('arr, 'q, 'z) smp_state_scheme) smp_env \<Rightarrow> u64 \<Rightarrow> u64 \<Rightarrow> nat \<Rightarrow> bool
    \<Rightarrow> u64 \<Rightarrow> ('arr, 'q, 'z) smp_state_scheme \<Rightarrow> ('arr, 'q, 'z) smp_state_scheme option" where
  "mem_change_type E from amount change_type new_value cr3 s =
     (let amount' = page_align_up amount
      in do { s1 \<leftarrow> tlb_shootdown E cr3 from amount' s;
              r \<leftarrow> for_pages (change_page change_type new_value cr3) from (from + amount') s1;
              (case r of Inl _ \<Rightarrow> None | Inr s2 \<Rightarrow> Some (tlb_shootdown_end s2)) })"

definition share_frame :: "u64 \<Rightarrow> 'a mm_state_scheme \<Rightarrow> 'a mm_state_scheme" where
  "share_frame frame s =
     (case get_frame_info frame s of
        None \<Rightarrow> s
      | Some p \<Rightarrow> let fi = read_frame_info p s
                  in write_frame_info p (fi\<lparr>usage_count := usage_count fi + 1\<rparr>) s)"

definition map_one :: "u64 \<Rightarrow> u64 \<Rightarrow> bool \<Rightarrow> bool \<Rightarrow> bool \<Rightarrow> u64 \<Rightarrow> u64 \<Rightarrow> 'a mm_state_scheme
    \<Rightarrow> (u64 \<times> 'a mm_state_scheme + 'a mm_state_scheme) option" where
  "map_one start tostart virtual_memory readonly kern cr3 offs s =
     (let smem = start + offs;
          tmem = tostart + offs;
          (tp, s1) = (if kern then get_page tmem cr3 True s else get_page_user tmem cr3 True s)
      in case tp of
           None \<Rightarrow> Some (Inl (offs, s1))
         | Some p \<Rightarrow>
             do { (frame, s2) \<leftarrow>
                    (if virtual_memory then
                       (case get_page smem cr3 True s1 of
                          (None, _) \<Rightarrow> None
                        | (Some q, t) \<Rightarrow> Some (ALIGN (deref t q), t))
                     else Some (smem, s1));
                  (if virtual_memory \<and> frame = 0 then Some (Inl (offs, s2))
                   else do { s3 \<leftarrow> (if virtual_memory then
                                     map_option (\<lambda>t. unlock_frames (share_frame frame t)) (lock_frames s2)
                                   else Some s2);
                             let page = set_us (\<not> kern) (set_rw (\<not> readonly) (set_present True (ALIGN frame)));
                             Some (Inr (assign p page s3)) }) })"

definition map_range :: "('arr, ('arr, 'q, 'z) smp_state_scheme) smp_env \<Rightarrow> u64 \<Rightarrow> u64 \<Rightarrow> u64 \<Rightarrow> bool \<Rightarrow> bool \<Rightarrow> bool
    \<Rightarrow> u64 \<Rightarrow> ('arr, 'q, 'z) smp_state_scheme \<Rightarrow> (bool \<times> u64 \<times> u64 \<times> ('arr, 'q, 'z) smp_state_scheme) option" where
  "map_range E start stop tostart virtual_memory readonly kern cr3 s =
     do { s1 \<leftarrow> tlb_shootdown E cr3 start (stop - start) s;
          r \<leftarrow> for_pages (map_one start tostart virtual_memory readonly kern cr3) 0 (stop - start) s1;
          (case r of
             Inl (offs, s2) \<Rightarrow> Some (False, start + offs, tostart + offs, tlb_shootdown_end s2)
           | Inr s2 \<Rightarrow> Some (True, start, tostart, tlb_shootdown_end s2)) }"

section \<open>State of a buffer\<close>

datatype memstate = ms_okay | ms_swapped | ms_allocondem | ms_cow | ms_notpresent | ms_einvalid

text \<open>
  The loop state is the running \<open>mstate\<close>, the caller's buffer \<open>storeptr\<close> (indexed without a
  bound, as the code does) and \<open>*usedentries\<close>.
\<close>

definition check_mem_page :: "u64 \<Rightarrow> 'a mm_state_scheme \<Rightarrow> u64 \<Rightarrow> memstate \<times> (u64 \<Rightarrow> u64) \<times> u64
    \<Rightarrow> (memstate \<times> (u64 \<Rightarrow> u64) \<times> u64 + memstate \<times> (u64 \<Rightarrow> u64) \<times> u64) option" where
  "check_mem_page maxc s addr st =
     (let (mstate, storeptr, used) = st
      in case fst (get_page addr (active_page s) False s) of
           None \<Rightarrow> Some (Inl (ms_notpresent, storeptr, used))
         | Some p \<Rightarrow>
             let page = deref s p
             in if PRESENT page then Some (Inr st)
                else if internal_valid page then
                  if internal_swapped page then
                    let m = (if mstate = ms_einvalid then ms_swapped else mstate)
                    in if m = ms_swapped \<or> maxc \<le> used
                       then Some (Inr (m, storeptr(used := internal_gps_id page), used + 1))
                       else Some (Inl (m, storeptr, used))
                  else if internal_allocondem page then
                    let m = (if mstate = ms_einvalid then ms_allocondem else mstate)
                    in if m = ms_allocondem \<or> maxc \<le> used
                       then Some (Inr (m, storeptr(used := addr), used + 1))
                       else Some (Inl (m, storeptr, used))
                  else Some (Inr st)
                else Some (Inl (ms_notpresent, storeptr, used)))"

definition check_mem_state :: "u64 \<Rightarrow> u64 \<Rightarrow> (u64 \<Rightarrow> u64) \<Rightarrow> u64 \<Rightarrow> u64 \<Rightarrow> 'a mm_state_scheme
    \<Rightarrow> (memstate \<times> (u64 \<Rightarrow> u64) \<times> u64) option" where
  "check_mem_state address sz storeptr maxc used s =
     do { r \<leftarrow> for_pages (check_mem_page maxc s) address (address + sz) (ms_einvalid, storeptr, used);
          (case r of
             Inl x \<Rightarrow> Some x
           | Inr (_, sp, u) \<Rightarrow> Some (ms_okay, sp, u)) }"

section \<open>Copies between address spaces\<close>

definition is_physical :: "u64 \<Rightarrow> bool" where
  "is_physical mem \<longleftrightarrow> 0xFFFF000000000000 \<le> mem"

lemma page_rest_pos: "(0x1000 :: u64) - (x - ALIGN x) \<noteq> 0" and page_offset_lt: "unat (x - ALIGN x) < 4096"
proof -
  show lt: "unat (x - ALIGN x) < 4096" by (subst in_page_iff) simp_all
  show "(0x1000 :: u64) - (x - ALIGN x) \<noteq> 0"
  proof
    assume "(0x1000 :: u64) - (x - ALIGN x) = 0"
    then have "x - ALIGN x = 0x1000" by simp
    then show False using lt by simp
  qed
qed

text \<open>The largest piece that crosses no page end on either side.\<close>

definition max_copy :: "u64 \<Rightarrow> u64 \<Rightarrow> u64" where
  "max_copy src dst =
     (let offs = src - ALIGN src; offs2 = dst - ALIGN dst
      in if offs < offs2 then 0x1000 - offs2 else 0x1000 - offs)"

lemma max_copy_pos: "max_copy src dst \<noteq> 0"
  using page_rest_pos [of src] page_rest_pos [of dst] by (simp add: max_copy_def Let_def)

lemma word_diff_decreases: "c \<noteq> 0 \<Longrightarrow> \<not> n \<le> c \<Longrightarrow> unat (n - c) < unat (n :: u64)"
  using unat_gt_0 [of c] by (auto simp: unat_diff_u64 word_le_nat_alt)

function memcpy_dpgs :: "u64 \<Rightarrow> u64 \<Rightarrow> u64 \<Rightarrow> u64 \<Rightarrow> u64 \<Rightarrow> 'a mm_state_scheme \<Rightarrow> 'a mm_state_scheme" where
  "memcpy_dpgs cr3a cr3b to src n s =
     (if n = 0 then s
      else if is_physical src \<and> is_physical to then s\<lparr>kmem := memcpy src to n (kmem s)\<rparr>
      else
        let phys = (if \<not> is_physical src then fst (get_page src cr3b False s) else None);
            phys2 = (if \<not> is_physical to then fst (get_page to cr3a False s) else None)
        in if phys \<noteq> None \<or> phys2 \<noteq> None then
             let pos1 = (case phys of Some p \<Rightarrow> physical_to_virtual s (ALIGN (deref s p)) + (src - ALIGN src)
                         | None \<Rightarrow> src);
                 pos2 = (case phys2 of Some p \<Rightarrow> physical_to_virtual s (ALIGN (deref s p)) + (to - ALIGN to)
                         | None \<Rightarrow> to);
                 maxcpy = max_copy src to;
                 s1 = s\<lparr>kmem := memcpy pos2 pos1 (if maxcpy < n then maxcpy else n) (kmem s)\<rparr>
             in if n \<le> maxcpy then s1
                else memcpy_dpgs cr3a cr3b (to + maxcpy) (src + maxcpy) (n - maxcpy) s1
           else s)"
  by pat_completeness auto
termination
  by (relation "measure (\<lambda>(_, _, _, _, n, _). unat n)") (auto intro!: word_diff_decreases simp: max_copy_pos)

function memset_dpgs :: "u64 \<Rightarrow> u64 \<Rightarrow> u8 \<Rightarrow> u64 \<Rightarrow> 'a mm_state_scheme \<Rightarrow> 'a mm_state_scheme" where
  "memset_dpgs cr3 src v n s =
     (if n = 0 then s
      else if is_physical src then s\<lparr>kmem := memset src v n (kmem s)\<rparr>
      else case fst (get_page src cr3 False s) of
        None \<Rightarrow> s
      | Some p \<Rightarrow>
          let pl = ALIGN (deref s p); offs = src - ALIGN src; rest = 0x1000 - offs;
              s1 = s\<lparr>kmem := memset (physical_to_virtual s pl + offs) v (if rest < n then rest else n) (kmem s)\<rparr>
          in if n \<le> rest then s1 else memset_dpgs cr3 (src + rest) v (n - rest) s1)"
  by pat_completeness auto
termination
  by (relation "measure (\<lambda>(_, _, _, n, _). unat n)") (auto intro!: word_diff_decreases simp: page_rest_pos simp del: right_minus_eq diff_eq_diff_eq)

definition different_page_mem :: "u64 \<Rightarrow> u64 \<Rightarrow> 'a mm_state_scheme \<Rightarrow> u64 option" where
  "different_page_mem cr3 addr s =
     (case fst (get_page addr cr3 False s) of
        None \<Rightarrow> None
      | Some p \<Rightarrow> Some (physical_to_virtual s (ALIGN (deref s p) + (addr - ALIGN addr))))"

declare memcpy_dpgs.simps [simp del] memset_dpgs.simps [simp del]

section \<open>Properties\<close>

lemma copy_slots_prefix:
  assumes al: "page_aligned sent" "page_aligned tent" "sent \<noteq> tent" and n: "n \<le> 512"
  shows "let s' = fold (\<lambda>i s. if 256 \<le> i then assign (entry_addr tent (of_nat i))
        (deref s (entry_addr sent (of_nat i))) s else s) [0..<n] s
    in (\<forall>j < 512. deref s' (entry_addr tent (of_nat j)) =
          (if 256 \<le> j \<and> j < n then deref s (entry_addr sent (of_nat j)) else deref s (entry_addr tent (of_nat j)))) \<and>
       (\<forall>j < 512. deref s' (entry_addr sent (of_nat j)) = deref s (entry_addr sent (of_nat j)))"
  using n
proof (induction n)
  case (Suc n)
  let ?f = "\<lambda>i s. if 256 \<le> i then assign (entry_addr tent (of_nat i)) (deref s (entry_addr sent (of_nat i))) s else s"
  let ?t = "fold ?f [0..<n] s"
  have u: "unat (of_nat j :: u64) = j" if "j < 512" for j using that by (simp add: unat_of_nat_u64)
  have rd: "deref (assign (entry_addr tent (of_nat n)) v ?t) (entry_addr b (of_nat j)) =
      (if b = tent \<and> j = n then v else deref ?t (entry_addr b (of_nat j)))"
    if "page_aligned b" "j < 512" for b j v
  proof -
    have "(of_nat j :: u64) = of_nat n \<longleftrightarrow> j = n"
      using u that(2) Suc.prems by (metis Suc_le_eq)
    then show ?thesis
      using entry_assign [OF al(2) that(1), of "of_nat n" "of_nat j" v ?t] that(2) u Suc.prems
      by (auto simp: entry_def)
  qed
  have IH: "\<forall>j < 512. deref ?t (entry_addr tent (of_nat j)) =
          (if 256 \<le> j \<and> j < n then deref s (entry_addr sent (of_nat j)) else deref s (entry_addr tent (of_nat j)))"
    "\<forall>j < 512. deref ?t (entry_addr sent (of_nat j)) = deref s (entry_addr sent (of_nat j))"
    using Suc by (simp_all add: Let_def)
  have step: "fold ?f [0..<Suc n] s = ?f n ?t" by simp
  show ?case
    unfolding step Let_def using IH rd al Suc.prems by auto
qed simp

lemma copy_kernel_slots_spec:
  assumes "page_aligned sent" "page_aligned tent" "sent \<noteq> tent" and "i < 512"
  shows "deref (copy_kernel_slots sent tent s) (entry_addr tent (of_nat i)) =
    (if 256 \<le> i then deref s (entry_addr sent (of_nat i)) else deref s (entry_addr tent (of_nat i)))"
  using copy_slots_prefix [OF assms(1-3), of 512 s] assms(4) by (simp add: copy_kernel_slots_def Let_def)

text \<open>
  C20. \<open>create_pml4\<close> takes a fresh frame for the new top-level table: its lower half (user space)
  is empty and its upper half is the kernel half of the active address space.
\<close>

theorem create_pml4_shares_kernel_half:
  assumes wf: "mm_wf s" and lock: "frame_lock s = 0" and run: "create_pml4 s = Some (cr3, s')" and nz: "cr3 \<noteq> 0"
    and act: "ALIGN (active_page s) \<noteq> 0" "frame_refs s (ALIGN (active_page s)) \<noteq> Some 0"
    and i: "i < 512"
  shows "frame_lock s' = 0 \<and> frame_refs s (ALIGN cr3) = Some 0 \<and>
    deref s' (entry_addr (physical_to_virtual s (ALIGN cr3)) (of_nat i)) =
      (if 256 \<le> i then deref s (entry_addr (physical_to_virtual s (ALIGN (active_page s))) (of_nat i)) else 0)"
proof -
  obtain f s2 where g: "get_free_frame (s\<lparr>frame_lock := 1\<rparr>) = (f, s2)" by fastforce
  have wf1: "mm_wf (s\<lparr>frame_lock := 1\<rparr>)" using wf by (simp add: mm_wf_def)
  have fnz: "f \<noteq> 0"
  proof
    assume "f = 0"
    then have "cr3 = 0" using run lock g by (simp add: create_pml4_def lock_frames_def)
    with nz show False by simp
  qed
  have free: "frame_refs s f = Some 0" and al: "page_aligned f"
    using get_free_frame_ok(1) [OF wf1 g fnz] by (simp_all add: frame_refs_def)
  obtain pool where s2: "s2 = s\<lparr>frame_lock := 1, frame_pool := pool\<rparr>"
    using get_free_frame_ok(2) [OF wf1 g fnz] by blast
  let ?s3 = "unlock_frames s2"
  let ?sent = "physical_to_virtual s (ALIGN (active_page s))" and ?tent = "physical_to_virtual s f"
  have p2v: "physical_to_virtual ?s3 = physical_to_virtual s"
    by (rule physical_to_virtual_cong) (simp add: s2)
  have act3: "active_page s2 = active_page s" by (simp add: s2)
  let ?s4 = "memset_state ?tent 0 0x1000 ?s3"
  have res: "cr3 = field_set 0 4 (field_get 0 4 (active_page s)) f" "s' = copy_kernel_slots ?sent ?tent ?s4"
    using run lock g fnz by (auto simp: create_pml4_def lock_frames_def Let_def p2v act3)
  have A: "ALIGN cr3 = f" using al by (simp add: res bit_field_simps page_aligned_def)
  have diff: "?sent \<noteq> ?tent" using act free fnz by (auto simp: physical_to_virtual_inj)
  have als: "page_aligned ?sent" "page_aligned ?tent" using al by simp_all
  have ui: "unat (of_nat i :: u64) < 512" using i by (simp add: unat_of_nat_u64)
  have d3: "deref s2 p = deref s p" for p by (simp add: deref_def s2)
  have d4: "deref ?s4 (entry_addr b (of_nat i)) = (if b = ?tent then 0 else deref s (entry_addr b (of_nat i)))"
    if "page_aligned b" for b
    using entry_memset [OF als(2) that ui, of 0 ?s3] d3 by (simp add: entry_def)
  have "frame_lock (copy_kernel_slots a b t) = frame_lock t" for a b and t :: "'a mm_state_scheme"
  proof -
    have "frame_lock (fold (\<lambda>i s. if 256 \<le> i then assign (entry_addr b (of_nat i)) (deref s (entry_addr a (of_nat i))) s else s) xs t)
        = frame_lock t" for xs and t :: "'a mm_state_scheme" by (induction xs arbitrary: t) simp_all
    then show ?thesis by (simp add: copy_kernel_slots_def)
  qed
  then have "frame_lock s' = 0" by (simp add: res)
  then show ?thesis
    using free copy_kernel_slots_spec [OF als diff i, of ?s4] d4 als diff by (simp add: A res(2))
qed

theorem create_pml4_shares_kernel_half_witness:
  "\<exists>cr3 s'. create_pml4 demo_state = Some (cr3, s') \<and>
     frame_refs demo_state (ALIGN cr3) = Some 0 \<and> frame_lock s' = 0"
proof -
  obtain s' where r: "create_pml4 demo_state = Some (0x200000, s')"
    by (simp add: create_pml4_def lock_frames_def get_free_frame_def demo_state_def demo_section_def
        take_head_def field_get_def field_set_def mask_eq_exp_minus_1 Let_def)
  have "section_refs demo_section 0x100000 = None"
    by (simp add: section_refs_def demo_section_def)
  then have "frame_refs demo_state 0x100000 = None" by (simp add: frame_refs_def demo_state_def)
  then have "frame_refs demo_state (ALIGN (active_page demo_state)) \<noteq> Some 0"
    by (simp add: demo_state_def ALIGN_def)
  moreover have "ALIGN (active_page demo_state) \<noteq> 0" "frame_lock demo_state = 0"
    by (simp_all add: demo_state_def ALIGN_def)
  ultimately show ?thesis
    using create_pml4_shares_kernel_half [OF demo_state_wf _ r, of 0] r by auto
qed

text \<open>
  \<open>virtual_to_physical\<close> never succeeds: it tests the present bit after clearing the low
  twelve bits, so every address, mapped or not, is reported invalid with physical address 0.
\<close>

theorem virtual_to_physical_never_valid:
  "virtual_to_physical gb_pages va cr3 s = (0, False)"
proof -
  have "\<not> PRESENT (table_of s e)" for e by (simp add: PRESENT_bit table_of_def bit_ALIGN)
  then show ?thesis by (simp add: virtual_to_physical_def Let_def)
qed

text \<open>
  A write fault on a page whose frame the pool does not manage is refused, but both locks
  stay taken: after it neither the frame lock nor the shootdown lock can be acquired again.
\<close>

theorem page_fault_keeps_locks:
  assumes "one_cpu E s" and "frame_lock s = 0" and "active_page s = cr3"
    and "errcode AND 1 \<noteq> 0" and "errcode AND 2 \<noteq> 0"
    and "get_page address cr3 False s = (Some p, s)" and "get_frame_info (ALIGN (deref s p)) s = None"
    and "unat (ALIGN address) + 8192 \<le> 18446744073709551616"
  shows "\<exists>s'. page_fault E junk address errcode s = Some (False, s') \<and>
    lock_frames s' = None \<and> tlb_shootdown E c f a s' = None"
proof -
  have "unat (ALIGN address) + unat (0x1000 :: u64) + 4096 \<le> 18446744073709551616" using assms(8) by simp
  then obtain s2 where s2: "tlb_shootdown E cr3 (ALIGN address) 0x1000 s = Some s2" "same_memory s2 s"
    "tlb_lock s2 = 1"
    using tlb_shootdown_one_cpu [OF assms(1)] by metis
  note f = same_memory_fields [OF s2(2)]
  have "deref s2 p = deref s p" by (simp add: deref_def f)
  moreover have "get_frame_info a (s2\<lparr>frame_lock := 1\<rparr>) = get_frame_info a s" for a
    by (simp add: get_frame_info_def f)
  ultimately have "page_fault E junk address errcode s = Some (False, s2\<lparr>frame_lock := 1\<rparr>)"
    using assms s2 f by (simp add: page_fault_def Let_def lock_frames_def)
  then show ?thesis
    using s2(3) by (simp add: lock_frames_def tlb_shootdown_def)
qed

text \<open>
  The fault of the witness: address 0 of an address space whose tables are all present
  (memory filled with 1) and point at frames outside the pool.
\<close>

definition fault_smp :: "(nat list, nat list) smp_state" where
  "fault_smp = (demo_smp [0])\<lparr>kmem := \<lambda>_. 1\<rparr>"

lemma fault_smp_walk:
  "\<exists>p. get_page 0 (active_page fault_smp) False fault_smp = (Some p, fault_smp) \<and>
     deref fault_smp p = 0x0101010101010101"
proof -
  have d: "deref fault_smp a = 0x0101010101010101" for a
  proof -
    have "read_bytes 8 (\<lambda>_. 1) a = 0x0101010101010101"
      by (simp add: numeral_eq_Suc push_bit_eq_mult)
    then show ?thesis by (simp add: deref_def fault_smp_def read64_def)
  qed
  have "PRESENT 0x0101010101010101" by (simp add: PRESENT_def)
  then show ?thesis by (simp add: get_page_def find_page_pure path_def entry_def d)
qed

theorem page_fault_keeps_locks_witness:
  "\<exists>s'. page_fault demo_env (\<lambda>_. 0) 0 3 fault_smp = Some (False, s') \<and> lock_frames s' = None"
proof -
  obtain p where p: "get_page 0 (active_page fault_smp) False fault_smp = (Some p, fault_smp)"
    "deref fault_smp p = 0x0101010101010101" using fault_smp_walk by blast
  have cpu: "one_cpu demo_env fault_smp"
    using mm_only_one_cpu [OF mm_only_updates(1) [of "demo_smp [0]" "\<lambda>_. 1"]] demo_one_cpu
    by (simp add: fault_smp_def)
  have "frame_pool fault_smp = [demo_section]" by (simp add: fault_smp_def)
  then have "get_frame_info (ALIGN (deref fault_smp p)) fault_smp = None"
    unfolding p(2) by (simp add: get_frame_info_def in_section_def demo_section_def ALIGN_def)
  then show ?thesis
    using page_fault_keeps_locks [OF cpu _ refl _ _ p(1), of 3 "\<lambda>_. 0"]
    by (fastforce simp: fault_smp_def ALIGN_def)
qed

end
