(* ===== verification/Va_Holes.thy ===== *)
theory Va_Holes
  imports Commons
begin

text \<open>
  The map of a process's virtual address space (\<open>processes/process.c\<close>): a linked list of
  areas in address order. A pointer into the chain (\<open>mmap_area_t**\<close>) is an index, NULL is
  \<open>None\<close>. The random offset of \<open>find_va_hole\<close> comes from KCLib's generator and is an argument:
  a function of the bound, documented to return less than a positive bound. \<open>malloc\<close> of the
  new node is taken to succeed.
\<close>

section \<open>Areas and operations\<close>

datatype ma_type = program_data | stack_data | heap_data | nondealloc_map | kernel_allocated_heap_data

record mmap_area =
  vastart :: u64
  vaend :: u64
  mtype :: ma_type
  ma_count :: u64

fun mmap_area_at :: "mmap_area list \<Rightarrow> u64 \<Rightarrow> nat option" where
  "mmap_area_at [] address = None"
| "mmap_area_at (m # ms) address =
     (if vaend m \<le> address then map_option Suc (mmap_area_at ms address)
      else if address \<le> vaend m \<and> vastart m \<le> address then Some 0
      else None)"

definition new_area :: "u64 \<Rightarrow> u64 \<Rightarrow> mmap_area" where
  "new_area st en = \<lparr>vastart = st, vaend = en, mtype = program_data, ma_count = 1\<rparr>"

fun request_insert :: "mmap_area list \<Rightarrow> u64 \<Rightarrow> u64 \<Rightarrow> (nat \<times> mmap_area list) option" where
  "request_insert [] start_address req_size =
     Some (0, [new_area start_address (start_address + req_size)])"
| "request_insert (m # ms) start_address req_size =
     (if vaend m \<le> start_address then
        map_option (\<lambda>(i, ms'). (Suc i, m # ms')) (request_insert ms start_address req_size)
      else if start_address \<le> vaend m \<and> vastart m \<le> start_address + req_size then None
      else Some (0, new_area start_address (start_address + req_size) # m # ms))"

text \<open>
  Both operations take a node for the new area from \<open>malloc\<close> and write to it without a test for NULL; they are modelled for a
  heap that has one.
\<close>

definition request_va_hole :: "mmap_area list \<Rightarrow> u64 \<Rightarrow> u64 \<Rightarrow> (nat \<times> mmap_area list) option" where
  "request_va_hole ms start_address req_size =
     (if start_address < 0x1000 then None else request_insert ms start_address req_size)"

text \<open>The search loop: position of the hole in the list, its start and its length.\<close>

fun find_hole :: "mmap_area list \<Rightarrow> u64 \<Rightarrow> u64 \<Rightarrow> u64 \<Rightarrow> nat \<times> u64 \<times> u64" where
  "find_hole [] start_address hole need = (0, start_address, hole)"
| "find_hole (m # ms) start_address _ need =
     (let hole = vastart m - start_address
      in if need \<le> hole then (0, start_address, hole)
         else let (i, st, h) = find_hole ms (vaend m) (0x800000000000 - vaend m) need in (Suc i, st, h))"

definition find_va_hole :: "(u64 \<Rightarrow> u64) \<Rightarrow> mmap_area list \<Rightarrow> u64 \<Rightarrow> u64 \<Rightarrow> nat \<times> mmap_area list" where
  "find_va_hole rg ms req_size align_amount =
     (let (i, st0, hole) = find_hole ms 0x1000 0x800000000000 (req_size + align_amount);
          st = ALIGN_UP st0 align_amount;
          diff_holes = hole - req_size;
          offset0 = (if diff_holes = 0 then 0 else rg diff_holes);
          offset = ALIGN_DOWN offset0 align_amount
      in (i, take i ms @ new_area (st + offset) (st + req_size + offset) # drop i ms))"

section \<open>The invariant\<close>

definition area_ok :: "mmap_area \<Rightarrow> bool" where
  "area_ok m \<longleftrightarrow> 0x1000 \<le> vastart m \<and> vastart m < vaend m"

definition maps_ok :: "mmap_area list \<Rightarrow> bool" where
  "maps_ok ms \<longleftrightarrow> (\<forall>m \<in> set ms. area_ok m) \<and> sorted_wrt (\<lambda>m n. vaend m \<le> vastart n) ms"

lemma maps_ok_Cons:
  "maps_ok (m # ms) \<longleftrightarrow> area_ok m \<and> (\<forall>n \<in> set ms. vaend m \<le> vastart n) \<and> maps_ok ms"
  by (auto simp: maps_ok_def)

definition in_area :: "u64 \<Rightarrow> mmap_area \<Rightarrow> bool" where
  "in_area a m \<longleftrightarrow> vastart m \<le> a \<and> a < vaend m"

lemma mmap_area_at_iff:
  "maps_ok ms \<Longrightarrow> mmap_area_at ms a = Some i \<longleftrightarrow> i < length ms \<and> in_area a (ms ! i)"
proof (induction ms arbitrary: i)
  case (Cons m ms)
  have ok: "area_ok m" "\<forall>n \<in> set ms. vaend m \<le> vastart n" "maps_ok ms"
    using Cons.prems by (simp_all add: maps_ok_Cons)
  have later: "\<not> in_area a n" if "n \<in> set ms" "a < vaend m" for n
    using ok(2) that by (auto simp: in_area_def)
  show ?case
  proof (cases "vaend m \<le> a")
    case True
    then have "\<not> in_area a m" by (auto simp: in_area_def)
    with True show ?thesis using Cons.IH [OF ok(3)] by (cases i) auto
  next
    case False
    with later show ?thesis by (cases i) (auto simp: in_area_def)
  qed
qed simp

text \<open>
  \<open>mmap_area\<close> finds the area that contains an address, and NULL exactly when no area of
  the process contains it.
\<close>

theorem mmap_area_finds_area:
  assumes "maps_ok ms"
  shows "(case mmap_area_at ms a of
      Some i \<Rightarrow> i < length ms \<and> in_area a (ms ! i)
    | None \<Rightarrow> \<forall>m \<in> set ms. \<not> in_area a m)"
proof (cases "mmap_area_at ms a")
  case None
  then show ?thesis using mmap_area_at_iff [OF assms, of a] by (auto simp: in_set_conv_nth)
next
  case (Some i)
  then show ?thesis using mmap_area_at_iff [OF assms, of a i] by simp
qed

definition demo_maps :: "mmap_area list" where
  "demo_maps = [new_area 0x1000 0x2000, new_area 0x5000 0x9000]"

lemma demo_maps_ok: "maps_ok demo_maps"
  by (simp add: demo_maps_def maps_ok_def area_ok_def new_area_def)

theorem mmap_area_finds_area_witness:
  "mmap_area_at demo_maps 0x5001 = Some 1 \<and> in_area 0x5001 (demo_maps ! 1)"
  using mmap_area_finds_area [OF demo_maps_ok, of "0x5001"] by (simp add: demo_maps_def new_area_def)

lemma request_insert_spec:
  assumes "maps_ok ms" and "0x1000 \<le> st" and "0 < unat sz" and "unat st + unat sz < 18446744073709551616"
  shows "(case request_insert ms st sz of
      Some (i, ms') \<Rightarrow> i \<le> length ms \<and> ms' = take i ms @ new_area st (st + sz) # drop i ms \<and> maps_ok ms' \<and>
        (\<forall>m \<in> set ms. vaend m \<le> st \<or> st + sz < vastart m)
    | None \<Rightarrow> \<exists>m \<in> set ms. st < vaend m \<and> vastart m \<le> st + sz)"
  using assms(1)
proof (induction ms)
  case Nil
  have "st < st + sz" using assms(3,4) by (simp add: word_less_nat_alt unat_add_no_wrap)
  then show ?case using assms(2) by (simp add: maps_ok_def area_ok_def new_area_def)
next
  case (Cons m ms)
  have ok: "area_ok m" "\<forall>n \<in> set ms. vaend m \<le> vastart n" "maps_ok ms"
    using Cons.prems by (simp_all add: maps_ok_Cons)
  have lt: "st < st + sz" using assms(3,4) by (simp add: word_less_nat_alt unat_add_no_wrap)
  show ?case
  proof (cases "vaend m \<le> st")
    case True
    show ?thesis
    proof (cases "request_insert ms st sz")
      case None
      then show ?thesis using Cons.IH [OF ok(3)] True by auto
    next
      case (Some r)
      obtain i ms' where r: "r = (i, ms')" by fastforce
      have IH: "i \<le> length ms" "ms' = take i ms @ new_area st (st + sz) # drop i ms" "maps_ok ms'"
        "\<forall>m \<in> set ms. vaend m \<le> st \<or> st + sz < vastart m"
        using Cons.IH [OF ok(3)] unfolding Some r option.case prod.case by blast+
      have "set ms' = insert (new_area st (st + sz)) (set ms)"
        unfolding IH(2) using append_take_drop_id [of i ms] by (metis Un_insert_right list.simps(15) set_append)
      then have "\<forall>n \<in> set ms'. vaend m \<le> vastart n" using ok(2) True by (auto simp: new_area_def)
      then have ok': "maps_ok (m # ms')" using ok(1) IH(3) by (simp add: maps_ok_Cons)
      have "m # ms' = take (Suc i) (m # ms) @ new_area st (st + sz) # drop (Suc i) (m # ms)"
        by (simp add: IH(2))
      moreover have "request_insert (m # ms) st sz = Some (Suc i, m # ms')" using True Some r by simp
      ultimately show ?thesis using ok' IH(1,4) True by auto
    qed
  next
    case False
    then have lv: "st < vaend m" by simp
    show ?thesis
    proof (cases "vastart m \<le> st + sz")
      case True
      then show ?thesis using lv by (auto simp: less_imp_le)
    next
      case no: False
      then have "st + sz < vastart m" by simp
      moreover have "vastart m < vaend m" using ok(1) by (simp add: area_ok_def)
      ultimately show ?thesis
        using False no lt ok Cons.prems assms(2)
        by (auto simp: maps_ok_Cons new_area_def area_ok_def)
    qed
  qed
qed

text \<open>
  C21. \<open>request_va_hole\<close> either inserts the requested area, keeping the map sorted and free of
  overlaps, or refuses because an existing area overlaps the request (or starts right at its
  end), or because the request starts in page 0.
\<close>

theorem request_va_hole_keeps_map:
  assumes "maps_ok ms" and "0 < unat sz" and "unat st + unat sz < 18446744073709551616"
  shows "(case request_va_hole ms st sz of
      Some (i, ms') \<Rightarrow> i \<le> length ms \<and> ms' = take i ms @ new_area st (st + sz) # drop i ms \<and> maps_ok ms'
    | None \<Rightarrow> st < 0x1000 \<or> (\<exists>m \<in> set ms. st < vaend m \<and> vastart m \<le> st + sz))"
proof (cases "st < 0x1000")
  case True
  then show ?thesis by (simp add: request_va_hole_def)
next
  case False
  then have "0x1000 \<le> st" by simp
  from request_insert_spec [OF assms(1) this assms(2,3)] False show ?thesis
    by (auto simp: request_va_hole_def split: option.splits)
qed

lemma four_k_pos: "0 < unat (0x1000 :: u64)" and four_k_fits: "unat (0x2000 :: u64) + unat (0x1000 :: u64) < 18446744073709551616"
  by simp_all

theorem request_va_hole_keeps_map_witness:
  "case request_va_hole demo_maps 0x2000 0x1000 of
     Some (i, ms') \<Rightarrow> i = 1 \<and> maps_ok ms' | None \<Rightarrow> False"
proof -
  have r: "request_va_hole demo_maps 0x2000 0x1000 =
      Some (1, [new_area 0x1000 0x2000, new_area 0x2000 0x3000, new_area 0x5000 0x9000])"
    by (simp add: request_va_hole_def demo_maps_def new_area_def)
  have "maps_ok [new_area 0x1000 0x2000, new_area 0x2000 0x3000, new_area 0x5000 0x9000]"
    using request_va_hole_keeps_map [OF demo_maps_ok four_k_pos four_k_fits] unfolding r option.case prod.case
    by blast
  then show ?thesis by (simp add: r)
qed


section \<open>Searching for a hole\<close>

lemma maps_ok_insert:
  assumes "maps_ok ms" and "area_ok n" and "\<forall>m \<in> set (take i ms). vaend m \<le> vastart n"
    and "\<forall>m \<in> set (drop i ms). vaend n \<le> vastart m"
  shows "maps_ok (take i ms @ n # drop i ms)"
proof -
  have ok: "\<forall>m \<in> set (take i ms @ drop i ms). area_ok m"
    "sorted_wrt (\<lambda>m n. vaend m \<le> vastart n) (take i ms @ drop i ms)"
    using assms(1) unfolding append_take_drop_id maps_ok_def by blast+
  show ?thesis
    using ok assms(2-4) unfolding maps_ok_def sorted_wrt_append
    by (auto dest: in_set_takeD in_set_dropD)
qed

definition hole_found :: "mmap_area list \<Rightarrow> u64 \<Rightarrow> u64 \<Rightarrow> nat \<times> u64 \<times> u64 \<Rightarrow> bool" where
  "hole_found ms st need r = (case r of (i, st', h) \<Rightarrow>
     i \<le> length ms \<and> need \<le> h \<and> st' \<in> insert st (vaend ` set ms) \<and> 0x1000 \<le> st' \<and>
     unat st' + unat h \<le> 0x800000001000 \<and> (\<forall>m \<in> set (take i ms). vaend m \<le> st') \<and>
     (\<forall>m \<in> set (drop i ms). unat st' + unat h \<le> unat (vastart m)))"

lemma find_hole_spec:
  assumes "maps_ok ms" and "\<forall>m \<in> set ms. st \<le> vastart m" and "0x1000 \<le> st"
    and "unat st + unat hole \<le> 0x800000001000" and "need \<le> hole"
    and "\<forall>m \<in> set ms. unat (vaend m) + unat need \<le> 0x800000000000"
  shows "hole_found ms st need (find_hole ms st hole need)"
  using assms
proof (induction ms arbitrary: st hole)
  case Nil
  then show ?case by (simp add: hole_found_def)
next
  case (Cons m ms)
  have ok: "area_ok m" "\<forall>n \<in> set ms. vaend m \<le> vastart n" "maps_ok ms"
    using Cons.prems(1) by (simp_all add: maps_ok_Cons)
  have st: "st \<le> vastart m" and ve: "vastart m < vaend m"
    using Cons.prems(2) ok(1) by (simp_all add: area_ok_def)
  have gap: "unat (vastart m - st) = unat (vastart m) - unat st"
    using st by (simp add: unat_sub)
  have fit: "unat (vaend m) + unat need \<le> 0x800000000000" using Cons.prems(6) by simp
  show ?case
  proof (cases "need \<le> vastart m - st")
    case True
    have eq: "unat st + unat (vastart m - st) = unat (vastart m)"
      using st unfolding gap word_le_nat_alt by simp
    moreover have "unat (vastart m) \<le> unat (vaend m)" using ve by (simp add: word_less_nat_alt)
    moreover have "\<forall>n \<in> set ms. unat (vastart m) \<le> unat (vastart n)"
      using ok(2) ve by (auto simp: word_le_nat_alt word_less_nat_alt dest!: bspec)
    ultimately show ?thesis
      using True fit Cons.prems(3) by (auto simp: hole_found_def Let_def)
  next
    case False
    have "unat (vaend m) \<le> 0x800000000000" using fit by simp
    then have rest: "unat (0x800000000000 - vaend m) = 0x800000000000 - unat (vaend m)"
      by (subst unat_sub) (simp_all add: word_le_nat_alt)
    have "hole_found ms (vaend m) need (find_hole ms (vaend m) (0x800000000000 - vaend m) need)"
    proof (rule Cons.IH)
      show "0x1000 \<le> vaend m" using ok(1) by (auto simp: area_ok_def)
      show "unat (vaend m) + unat (0x800000000000 - vaend m) \<le> 0x800000001000"
        using fit unfolding rest by linarith
      show "need \<le> 0x800000000000 - vaend m" using fit unfolding word_le_nat_alt rest by linarith
    qed (use ok Cons.prems(6) in simp_all)
    moreover obtain i st' h where r: "find_hole ms (vaend m) (0x800000000000 - vaend m) need = (i, st', h)"
      using prod_cases3 by blast
    moreover have "vaend m \<le> st'" if "st' \<in> insert (vaend m) (vaend ` set ms)"
      using that ok(2,3) by (fastforce simp: maps_ok_def area_ok_def)
    ultimately show ?thesis
      using False by (auto simp: hole_found_def Let_def)
  qed
qed

lemma find_va_hole_spec:
  assumes "maps_ok ms" and "0 < req" and "0 < al" and "unat al dvd 4096"
    and "\<forall>m \<in> set ms. unat al dvd unat (vaend m)"
    and "\<forall>m \<in> set ms. unat (vaend m) + (unat req + unat al) \<le> 0x800000000000"
    and "unat req + unat al \<le> 0x800000000000" and rg: "\<forall>d. 0 < d \<longrightarrow> rg d < d"
  shows "\<exists>i a. find_va_hole rg ms req al = (i, take i ms @ new_area a (a + req) # drop i ms) \<and>
    i \<le> length ms \<and> unat al dvd unat a \<and> unat (a + req) = unat a + unat req \<and>
    unat (a + req) < 0x800000001000 \<and> maps_ok (take i ms @ new_area a (a + req) # drop i ms)"
proof -
  have need: "unat (req + al) = unat req + unat al"
    using assms(7) by (intro unat_add_no_wrap) simp
  obtain i st0 h where f: "find_hole ms 0x1000 0x800000000000 (req + al) = (i, st0, h)"
    using prod_cases3 by blast
  have "hole_found ms 0x1000 (req + al) (i, st0, h)"
    unfolding f [symmetric]
    by (rule find_hole_spec)
      (use assms(1,6,7) in \<open>simp_all add: need maps_ok_def area_ok_def word_le_nat_alt\<close>)
  then have i: "i \<le> length ms" and nh: "unat req + unat al \<le> unat h" and st0: "0x1000 \<le> st0"
    and mem: "st0 \<in> insert 0x1000 (vaend ` set ms)" and lim: "unat st0 + unat h \<le> 0x800000001000"
    and before: "\<forall>m \<in> set (take i ms). vaend m \<le> st0"
    and after: "\<forall>m \<in> set (drop i ms). unat st0 + unat h \<le> unat (vastart m)"
    by (simp_all add: hole_found_def word_le_nat_alt need)
  have "unat al dvd unat st0" using mem assms(4,5) by auto
  then have up: "ALIGN_UP st0 al = st0" by (rule ALIGN_UP_dvd_id)
  define off where "off = ALIGN_DOWN (rg (h - req)) al"
  have d: "unat (h - req) = unat h - unat req"
    using nh by (intro unat_sub) (simp add: word_le_nat_alt)
  then have "0 < h - req" using nh assms(3) by (simp add: word_less_nat_alt)
  then have "unat (rg (h - req)) < unat h - unat req" using rg d by (metis word_less_nat_alt)
  then have off: "unat off + unat req < unat h"
    using ALIGN_DOWN_le [of "rg (h - req)" al] unfolding off_def by linarith
  have a: "unat (st0 + off) = unat st0 + unat off" and b: "unat (st0 + off + req) = unat st0 + unat off + unat req"
    using off lim by (auto simp: unat_add_no_wrap)
  have "find_va_hole rg ms req al =
      (i, take i ms @ new_area (st0 + off) (st0 + off + req) # drop i ms)"
  proof -
    have "h \<noteq> req" using \<open>0 < h - req\<close> by auto
    then show ?thesis by (simp add: find_va_hole_def f up off_def Let_def) (simp add: ac_simps)
  qed
  moreover have "unat al dvd unat (st0 + off)"
    using \<open>unat al dvd unat st0\<close> ALIGN_DOWN_dvd [of al "rg (h - req)"]
    unfolding a off_def [symmetric] by (rule dvd_add)
  moreover have "maps_ok (take i ms @ new_area (st0 + off) (st0 + off + req) # drop i ms)"
  proof (rule maps_ok_insert [OF assms(1)])
    show "area_ok (new_area (st0 + off) (st0 + off + req))"
      using st0 assms(2) unfolding area_ok_def new_area_def word_le_nat_alt word_less_nat_alt
      by (simp add: a b)
    show "\<forall>m \<in> set (take i ms). vaend m \<le> vastart (new_area (st0 + off) (st0 + off + req))"
      using before unfolding new_area_def word_le_nat_alt by (auto simp: a)
    show "\<forall>m \<in> set (drop i ms). vaend (new_area (st0 + off) (st0 + off + req)) \<le> vastart m"
      using after off unfolding new_area_def word_le_nat_alt by (fastforce simp: b)
  qed
  ultimately show ?thesis using i a b off lim by (intro exI [of _ i] exI [of _ "st0 + off"]) simp
qed

text \<open>
  When the ends of all areas are multiples of the alignment (which divides a page) and the
  request fits behind every area, \<open>find_va_hole\<close> returns an aligned area of the requested size
  that overlaps no other, and the map stays sorted, whatever the random generator returns below
  its bound.
\<close>

theorem find_va_hole_keeps_map:
  assumes "maps_ok ms" and "0 < req" and "0 < al" and "unat al dvd 4096"
    and "\<forall>m \<in> set ms. unat al dvd unat (vaend m)"
    and "\<forall>m \<in> set ms. unat (vaend m) + (unat req + unat al) \<le> 0x800000000000"
    and "unat req + unat al \<le> 0x800000000000" and rg: "\<forall>d. 0 < d \<longrightarrow> rg d < d"
  shows "\<exists>i a. find_va_hole rg ms req al = (i, take i ms @ new_area a (a + req) # drop i ms) \<and>
    i \<le> length ms \<and> unat al dvd unat a \<and> unat (a + req) = unat a + unat req \<and>
    maps_ok (take i ms @ new_area a (a + req) # drop i ms)"
  using find_va_hole_spec [OF assms(1-7) rg] by blast

theorem find_va_hole_keeps_map_witness:
  "\<exists>i a. find_va_hole (\<lambda>d. d - 1) demo_maps 0x3000 0x1000 =
      (i, take i demo_maps @ new_area a (a + 0x3000) # drop i demo_maps) \<and>
    maps_ok (take i demo_maps @ new_area a (a + 0x3000) # drop i demo_maps)"
proof -
  have rg: "\<forall>d::u64. 0 < d \<longrightarrow> d - 1 < d"
    by (metis less_eq_word_def measure_unat unat_eq_0 unsigned_0 word_less_nat_alt word_neq_0_conv)
  show ?thesis
    using find_va_hole_keeps_map [OF demo_maps_ok, of "0x3000" "0x1000" "\<lambda>d. d - 1"] rg
    by (auto simp: demo_maps_def new_area_def)
qed

definition unaligned_maps :: "mmap_area list" where
  "unaligned_maps = [new_area 0x1000 0x1800, new_area 0x4C00 0x5000]"

definition unlucky_rg :: "u64 \<Rightarrow> u64" where
  "unlucky_rg d = (if d = 0x1400 then 0x1000 else 0)"

text \<open>
  Without aligned area ends \<open>find_va_hole\<close> can hand out an area that overlaps the next
  one: the alignment added to the start is not subtracted from the room left for the offset.
\<close>

theorem find_va_hole_overlap:
  "maps_ok unaligned_maps \<and> (\<forall>d. d = 0 \<or> unlucky_rg d < d) \<and>
   \<not> maps_ok (snd (find_va_hole unlucky_rg unaligned_maps 0x2000 0x1000))"
proof -
  have "\<forall>d. d = 0 \<or> unlucky_rg d < d" by (auto simp: unlucky_rg_def word_gt_0)
  then show ?thesis
    by (simp add: unaligned_maps_def maps_ok_def area_ok_def new_area_def find_va_hole_def
      ALIGN_UP_def ALIGN_DOWN_def unlucky_rg_def)
qed

end
