(* ===== verification/Kernel_State.thy ===== *)
theory Kernel_State
  imports Paging_Ops Va_Holes
begin

text \<open>
  Threads, processes and the kernel state the scheduler, the process management and the system
  calls share (\<open>processes/process.h\<close>, \<open>syscalls/sys.h\<close>, \<open>processes/ipc.h\<close>). Objects the code
  reaches through pointers live in stores indexed by \<open>nat\<close>; a NULL pointer is \<open>None\<close>. Queues,
  lists and hash tables are KCLib containers: their types are the type variables \<open>'q\<close>, \<open>'l\<close>
  and \<open>'h\<close> and their operations are fields of \<open>ds_env\<close>.
\<close>

section \<open>Objects\<close>

datatype errno = EINVAL | EWOULDBLOCK | ENOMEM_INTERNAL | ENOENT | ETRYAGAIN

datatype sys_fn = allocate_memory_fn | allocate_memory_cont_fn | deallocate_memory_fn | get_pid_fn
  | sys_send_message_fn | sys_recv_message_fn | get_ct_priority_fn | futex_wait_fn | futex_wake_fn
  | get_empty_message_fn | dev_fb_get_height_fn | dev_fb_get_width_fn | get_initramfs_entry_fn
  | get_service_status_fn | register_service_fn | create_process_ivfs_fn | dev_dm_get_pcie_c_fn
  | dev_dm_get_pcie_info_fn | dev_selfmap_physical_fn

record syscall =
  sc_present :: bool
  uses_error :: bool
  unsafe :: bool
  args :: u8
  sc_fn :: "sys_fn option"

record continuation =
  cnt_syscall :: syscall
  cnt_0 :: u64
  cnt_1 :: u64
  cnt_2 :: u64
  cnt_3 :: u64
  cnt_4 :: u64
  cnt_present :: bool

record kmessage =
  msg_used :: bool
  msg_owner :: nat
  msg_message :: u64

record 'q proc =
  proc_id :: u64
  parent :: "nat option"
  pprocess :: bool
  pml4 :: u64
  proc_random :: u64
  environ :: u64
  argv :: u64
  argc :: u32
  threads :: "nat list"
  proc_priority :: u8
  mem_maps :: "mmap_area list"
  ob_lock :: u64
  output_buffer :: "kmessage list"
  input_buffer :: 'q
  pq_input_buffer :: 'q
  futexes :: nat
  blocked_wait_messages :: nat
  proc_temp_processes :: nat

record thread =
  tId :: u64
  parent_process :: nat
  priority :: u8
  blocked :: bool
  continuation :: continuation
  last_rip :: u64  last_rsp :: u64  last_rax :: u64  last_rdi :: u64  last_rsi :: u64
  last_rdx :: u64  last_rcx :: u64  last_r8 :: u64  last_r9 :: u64  last_r10 :: u64
  last_r11 :: u64  last_rbx :: u64  last_rbp :: u64  last_r12 :: u64  last_r13 :: u64
  last_r14 :: u64  last_r15 :: u64  last_rflags :: u64
  stack_top_address :: u64
  stack_bottom_address :: u64
  local_info :: u64
  futex_block :: nat

section \<open>The state\<close>

record ('arr, 'q, 'l, 'h) kernel_state = "('arr, 'q) smp_state" +
  thread_at :: "nat \<Rightarrow> thread"
  proc_at :: "nat \<Rightarrow> 'q proc"
  list_at :: "nat \<Rightarrow> 'l"
  table_at :: "nat \<Rightarrow> 'h"
  thread_modifier :: u64
  halted_modifier :: u64
  proclist_lock :: u64
  proclist_lock2 :: u64
  process_id_num :: u64
  thread_id_num :: u64
  processes :: nat
  temp_processes :: nat
  gs_base :: u64
  gs_swaps :: nat

text \<open>
  \<open>list_take_next\<close> stands for \<open>list_has_next\<close>, \<open>list_next\<close> and \<open>list_remove_it\<close> on an
  iterator at the front of a list; \<open>rg_next_uint_l\<close> returns the number and the next state of
  the generator.
\<close>

record ('q, 'l, 'h) ds_env =
  queue_size :: "'q \<Rightarrow> u64"
  queue_has_elements :: "'q \<Rightarrow> bool"
  queue_push :: "'q \<Rightarrow> nat \<Rightarrow> 'q"
  queue_pop :: "'q \<Rightarrow> nat option \<times> 'q"
  list_push_right :: "'l \<Rightarrow> nat \<Rightarrow> 'l"
  list_take_next :: "'l \<Rightarrow> (nat \<times> 'l) option"
  table_get :: "'h \<Rightarrow> u64 \<Rightarrow> nat option"
  table_set :: "'h \<Rightarrow> u64 \<Rightarrow> nat \<Rightarrow> bool \<times> 'h"
  rg_next_uint_l :: "u64 \<Rightarrow> u64 \<Rightarrow> u64 \<times> u64"

definition upd_thread :: "nat \<Rightarrow> (thread \<Rightarrow> thread) \<Rightarrow> ('arr, 'q, 'l, 'h, 'z) kernel_state_scheme
    \<Rightarrow> ('arr, 'q, 'l, 'h, 'z) kernel_state_scheme" where
  "upd_thread t f s = s\<lparr>thread_at := (thread_at s)(t := f (thread_at s t))\<rparr>"

definition upd_proc :: "nat \<Rightarrow> ('q proc \<Rightarrow> 'q proc) \<Rightarrow> ('arr, 'q, 'l, 'h, 'z) kernel_state_scheme
    \<Rightarrow> ('arr, 'q, 'l, 'h, 'z) kernel_state_scheme" where
  "upd_proc p f s = s\<lparr>proc_at := (proc_at s)(p := f (proc_at s p))\<rparr>"

section \<open>Locks\<close>

definition lock_cpu :: "nat \<Rightarrow> ('arr, 'q, 'z) smp_state_scheme \<Rightarrow> ('arr, 'q, 'z) smp_state_scheme option" where
  "lock_cpu c s = (if cpu_lock (cpu_at s c) \<noteq> 0 then None else Some (upd_cpu c (\<lambda>k. k\<lparr>cpu_lock := 1\<rparr>) s))"

definition unlock_cpu :: "nat \<Rightarrow> ('arr, 'q, 'z) smp_state_scheme \<Rightarrow> ('arr, 'q, 'z) smp_state_scheme" where
  "unlock_cpu c s = upd_cpu c (\<lambda>k. k\<lparr>cpu_lock := 0\<rparr>) s"

definition lock_sched :: "nat \<Rightarrow> ('arr, 'q, 'z) smp_state_scheme \<Rightarrow> ('arr, 'q, 'z) smp_state_scheme option" where
  "lock_sched c s = (if cpu_sched_lock (cpu_at s c) \<noteq> 0 then None
     else Some (upd_cpu c (\<lambda>k. k\<lparr>cpu_sched_lock := 1\<rparr>) s))"

definition unlock_sched :: "nat \<Rightarrow> ('arr, 'q, 'z) smp_state_scheme \<Rightarrow> ('arr, 'q, 'z) smp_state_scheme" where
  "unlock_sched c s = upd_cpu c (\<lambda>k. k\<lparr>cpu_sched_lock := 0\<rparr>) s"

definition lock_threads :: "('arr, 'q, 'l, 'h, 'z) kernel_state_scheme \<Rightarrow> ('arr, 'q, 'l, 'h, 'z) kernel_state_scheme option" where
  "lock_threads s = (if thread_modifier s \<noteq> 0 then None else Some (s\<lparr>thread_modifier := 1\<rparr>))"

definition unlock_threads :: "('arr, 'q, 'l, 'h, 'z) kernel_state_scheme \<Rightarrow> ('arr, 'q, 'l, 'h, 'z) kernel_state_scheme" where
  "unlock_threads s = s\<lparr>thread_modifier := 0\<rparr>"

text \<open>The three locks most operations take, and their release.\<close>

definition lock_three :: "nat \<Rightarrow> ('arr, 'q, 'l, 'h, 'z) kernel_state_scheme \<Rightarrow> ('arr, 'q, 'l, 'h, 'z) kernel_state_scheme option" where
  "lock_three c s = do { s1 \<leftarrow> lock_cpu c s; s2 \<leftarrow> lock_sched c s1; lock_threads s2 }"

definition unlock_three :: "nat \<Rightarrow> ('arr, 'q, 'l, 'h, 'z) kernel_state_scheme \<Rightarrow> ('arr, 'q, 'l, 'h, 'z) kernel_state_scheme" where
  "unlock_three c s = unlock_sched c (unlock_cpu c (unlock_threads s))"

definition cpu_free :: "nat \<Rightarrow> ('arr, 'q, 'z) smp_state_scheme \<Rightarrow> bool" where
  "cpu_free c s \<longleftrightarrow> cpu_lock (cpu_at s c) = 0 \<and> cpu_sched_lock (cpu_at s c) = 0"

lemma upd_cpu_same: "f (cpu_at s c) = cpu_at s c \<Longrightarrow> upd_cpu c f s = s"
  by (simp add: upd_cpu_def fun_upd_idem)

lemma upd_cpu_upd_cpu: "upd_cpu c f (upd_cpu c g s) = upd_cpu c (\<lambda>k. f (g k)) s"
  by (simp add: upd_cpu_def)

lemma cpu_at_upd_cpu: "cpu_at (upd_cpu c f s) d = (if d = c then f (cpu_at s c) else cpu_at s d)"
  by (simp add: upd_cpu_def)

interpretation cpu_spin: spin_lock "\<lambda>s. cpu_lock (cpu_at s c) \<noteq> 0" "lock_cpu c" "unlock_cpu c"
  by unfold_locales
    (auto simp: lock_cpu_def unlock_cpu_def upd_cpu_upd_cpu cpu_at_upd_cpu intro!: upd_cpu_same split: if_splits)

interpretation sched_spin: spin_lock "\<lambda>s. cpu_sched_lock (cpu_at s c) \<noteq> 0" "lock_sched c" "unlock_sched c"
  by unfold_locales
    (auto simp: lock_sched_def unlock_sched_def upd_cpu_upd_cpu cpu_at_upd_cpu intro!: upd_cpu_same split: if_splits)

interpretation thread_spin: spin_lock "\<lambda>s. thread_modifier s \<noteq> 0" lock_threads unlock_threads
  by unfold_locales (auto simp: lock_threads_def unlock_threads_def split: if_splits)

lemma lock_three_eq:
  "lock_three c s = (if cpu_free c s \<and> thread_modifier s = 0
     then Some ((upd_cpu c (\<lambda>k. k\<lparr>cpu_lock := 1, cpu_sched_lock := 1\<rparr>) s)\<lparr>thread_modifier := 1\<rparr>) else None)"
  by (auto simp: lock_three_def lock_cpu_def lock_sched_def lock_threads_def cpu_free_def upd_cpu_def)

end
