(* ===== verification/Vm_Frame.thy ===== *)
theory Vm_Frame
  imports Vm_Range
begin

text \<open>
  What allocating and releasing a range leaves alone: the state beyond the processors, which is the
  extension part of the record, the start of the kernel heap and the active page table.
\<close>

definition outer :: "('arr, 'q, 'z) smp_state_scheme \<Rightarrow> 'z \<times> u64 \<times> u64" where
  "outer s = (smp_state.more s, heap_start_address s, active_page s)"

lemma outer_updates [simp]:
  "outer (s\<lparr>cpu_at := a\<rparr>) = outer s" "outer (s\<lparr>tlb_lock := b\<rparr>) = outer s"
  "outer (s\<lparr>tlb_shootdown_counter := c\<rparr>) = outer s" "outer (s\<lparr>tlb_shootdown_processor := d\<rparr>) = outer s"
  "outer (s\<lparr>invlpg_log := e\<rparr>) = outer s" "outer (s\<lparr>icr_log := f\<rparr>) = outer s"
  by (simp_all add: outer_def)

lemma mm_only_outer: "mm_only s s' \<Longrightarrow> outer s' = outer s"
  by (auto simp: mm_only_def outer_def)

lemma invalidate_pages_outer:
  assumes "invalidate_pages a b t = Some t'"
  shows "outer t' = outer t"
proof -
  obtain r where r: "for_pages (\<lambda>i s. Some (Inr (s\<lparr>invlpg_log := invlpg_log s @ [i]\<rparr>))) a b t = Some r"
    "t' = (case r of Inl x \<Rightarrow> x | Inr x \<Rightarrow> x)" using assms by (auto simp: invalidate_pages_def)
  have "case r of Inl q \<Rightarrow> outer q = outer t | Inr q \<Rightarrow> outer q = outer t"
    by (rule for_pages_partial [OF r(1)]) auto
  then show ?thesis using r(2) by (cases r) simp_all
qed

lemma ipi_invalidate_outer: "ipi_invalidate s = Some s' \<Longrightarrow> outer s' = outer s"
  by (auto simp: ipi_invalidate_def Let_def bind_eq_Some_conv dest!: invalidate_pages_outer split: if_splits)

lemma outer_upd_cpu [simp]: "outer (upd_cpu c f s) = outer s"
  by (simp add: upd_cpu_def)

lemma ipi_received_outer:
  assumes "apic_message_type (cpu_at s (current_cpu s)) = IPI_INVALIDATE_PAGE"
    and "ipi_received E r s = Some (r', s')"
  shows "outer s' = outer s"
  using assms
  by (auto simp: ipi_received_def Let_def ipi_type_defs bind_eq_Some_conv dest: ipi_invalidate_outer split: if_splits)

lemma tlb_shootdown_outer:
  assumes "one_cpu E s" and run: "tlb_shootdown E cr3 from amount s = Some s'"
  shows "outer s' = outer s"
proof -
  let ?me = "current_cpu s" and ?a = "get_local_apic_id s"
  let ?s1 = "s\<lparr>tlb_lock := 1, tlb_shootdown_processor := ucast ?a\<rparr>"
  have find: "array_find_by_pred E (cpus ?s1) (search_for_cpu_by_apic ?s1 ?a) = Some ?me"
    using assms(1) by (simp add: one_cpu_def search_for_cpu_by_apic_def)
  obtain r where "send_ipi_message E ?a IPI_INVALIDATE_PAGE from amount cr3 None ?s1 = Some (r, s')"
    using run by (auto simp: tlb_shootdown_def bind_eq_Some_conv split: if_splits)
  then have "send_ipi_self E ?me ?me IPI_INVALIDATE_PAGE from amount cr3 None ?s1 = Some (r, s')"
    using find by (simp add: send_ipi_message_def)
  then obtain s2 r2 where "ipi_received E None (upd_cpu ?me (\<lambda>k. (set_message IPI_INVALIDATE_PAGE from amount cr3 k)
        \<lparr>ipi_lock := 1, apic_message_handled := True, apic_message_cpu := Some ?me\<rparr>) ?s1) = Some (r2, s2)"
    "s' = upd_cpu ?me (\<lambda>k. k\<lparr>ipi_lock := 0\<rparr>) s2"
    by (auto simp: send_ipi_self_def Let_def bind_eq_Some_conv split: if_splits)
  then show ?thesis
    using ipi_received_outer [rotated] by (fastforce simp: upd_cpu_def set_message_def)
qed

lemma deallocate_page_mm_only:
  assumes "deallocate_page cr3 a s = Some x"
  shows "\<exists>s'. x = Inr s' \<and> mm_only s s'"
proof -
  have lock: "frame_lock s = 0" using assms by (auto simp: deallocate_page_def lock_frames_def split: if_splits)
  let ?s1 = "s\<lparr>frame_lock := 1\<rparr>"
  obtain q where g: "get_page a cr3 False ?s1 = (q, ?s1)" by (simp add: get_page_def find_page_pure)
  have "x = Inr (unlock_frames (deallocate_frame q a cr3 ?s1))"
    using assms lock g by (simp add: deallocate_page_def lock_frames_def)
  moreover have "mm_only s (unlock_frames (deallocate_frame q a cr3 ?s1))"
    by (rule mm_only_trans [OF mm_only_trans [OF mm_only_updates(4) mm_only_deallocate_frame] mm_only_mm_simple(3)])
  ultimately show ?thesis by blast
qed

lemma deallocate_outer:
  assumes "one_cpu E s" and "deallocate E from amount cr3 s = Some s'"
  shows "outer s' = outer s"
proof -
  have loop: "outer t' = outer t"
    if "for_pages (deallocate_page cr3) a e t = Some (Inr t')" for a e and t t' :: "('a, 'b, 'c) smp_state_scheme"
  proof -
    have "case (Inr t' :: unit + _) of Inl q \<Rightarrow> True | Inr q \<Rightarrow> outer q = outer t"
      by (rule for_pages_partial [OF that, where I = "\<lambda>q. outer q = outer t" and Q = "\<lambda>_. True"])
        (auto dest!: deallocate_page_mm_only mm_only_outer split: sum.splits)
    then show ?thesis by simp
  qed
  from assms(2) show ?thesis
    by (auto simp: deallocate_def Let_def bind_eq_Some_conv tlb_shootdown_end_def
        dest!: loop tlb_shootdown_outer [OF assms(1)] split: if_splits sum.splits)
qed

lemma allocate_page_mm_only:
  assumes "allocate_page kern readonly cr3 a s = Some x"
  shows "case x of Inl q \<Rightarrow> mm_only s (snd q) | Inr s' \<Rightarrow> mm_only s s'"
proof -
  have lock: "frame_lock s = 0" using assms by (auto simp: allocate_page_def lock_frames_def split: if_splits)
  let ?s1 = "s\<lparr>frame_lock := 1\<rparr>"
  obtain q s2 where g: "(if kern then get_page a cr3 True ?s1 else get_page_user a cr3 True ?s1) = (q, s2)" by fastforce
  then have 2: "mm_only s s2"
  proof -
    have "s2 = snd (get_page_gen a cr3 True (\<not> kern) ?s1)"
      using g by (auto simp: get_page_def get_page_user_def split: if_splits)
    then show ?thesis using mm_only_trans [OF mm_only_updates(4) mm_only_get_page_gen] by simp
  qed
  show ?thesis
  proof (cases q)
    case None
    then show ?thesis using assms lock g 2 by (auto simp: allocate_page_def lock_frames_def)
  next
    case (Some r)
    obtain f s3 where f: "allocate_frame r kern readonly False s2 = (f, s3)" by fastforce
    then have "mm_only s s3" using mm_only_allocate_frame [of s2 r kern readonly False] mm_only_trans [OF 2] by simp
    then show ?thesis
      using assms lock g f Some mm_only_trans [OF _ mm_only_mm_simple(3)]
      by (auto simp: allocate_page_def lock_frames_def split: if_splits)
  qed
qed

lemma allocate_outer:
  assumes "one_cpu E s" and "allocate E from amount kern readonly cr3 s = Some (ok, s')"
  shows "outer s' = outer s"
proof -
  obtain r where r: "for_pages (allocate_page kern readonly cr3) (ALIGN from)
      (ALIGN from + page_align_up (amount + (from - ALIGN from))) s = Some r"
    using assms(2) by (auto simp: allocate_def Let_def bind_eq_Some_conv)
  have "case r of Inl q \<Rightarrow> mm_only s (snd q) | Inr q \<Rightarrow> mm_only s q"
    by (rule for_pages_partial [OF r, where I = "\<lambda>q. mm_only s q"])
      (auto simp: mm_only_refl dest!: allocate_page_mm_only dest: mm_only_trans split: sum.splits)
  then show ?thesis
  proof (cases r)
    case (Inr q)
    then show ?thesis
      using assms(2) r \<open>case r of Inl q \<Rightarrow> mm_only s (snd q) | Inr q \<Rightarrow> mm_only s q\<close>
      by (simp add: allocate_def Let_def mm_only_outer)
  next
    case (Inl q)
    then have q: "mm_only s (unlock_frames (snd q))"
      using \<open>case r of Inl q \<Rightarrow> mm_only s (snd q) | Inr q \<Rightarrow> mm_only s q\<close> mm_only_trans mm_only_mm_simple(3) by auto
    have "deallocate E (ALIGN from) (fst q - ALIGN from) cr3 (unlock_frames (snd q)) = Some s'"
      using assms(2) r Inl by (auto simp: allocate_def Let_def split: prod.splits)
    then show ?thesis
      using deallocate_outer mm_only_one_cpu [OF q, of E] mm_only_outer [OF q] assms(1) by metis
  qed
qed

lemma outer_parts:
  assumes "outer s' = outer s"
  shows "smp_state.more s' = smp_state.more s" "heap_start_address s' = heap_start_address s"
    "active_page s' = active_page s"
  using assms by (simp_all add: outer_def)

lemmas allocate_more = allocate_outer [THEN outer_parts(1)]
lemmas deallocate_more = deallocate_outer [THEN outer_parts(1)]

lemma ALIGN_dvd: "4096 dvd unat a \<Longrightarrow> ALIGN a = a"
  by (simp add: page_aligned_dvd [symmetric] page_aligned_def)

lemma page_entry_plain: "plain_entry (page_entry f kern readonly False)"
  by (simp add: plain_entry_def page_entry_def flag_defs bit_field_simps PRESENT_bit)

lemma plain_entry_zero: "plain_entry 0"
  by (simp add: plain_entry_def internal_valid_def field_get_def)

end
