(* ===== verification/Process_Memory.thy ===== *)
theory Process_Memory
  imports Kernel_State Vm_Frame
begin

text \<open>
  Memory of a process (\<open>processes/process.c\<close>): an operation on the address map followed by
  the paging operation that backs it. The address map decides where, \<open>allocate\<close>,
  \<open>deallocate\<close> and \<open>map_range\<close> change the page tables.
\<close>

section \<open>The current process\<close>

definition get_current_pid :: "('arr, 'q, 'l, 'h, 'z) kernel_state_scheme
    \<Rightarrow> (u64 \<times> ('arr, 'q, 'l, 'h, 'z) kernel_state_scheme) option" where
  "get_current_pid s =
     do { let c = current_cpu s;
          s1 \<leftarrow> lock_three c s;
          let pid = (case ct (cpu_at s1 c) of
                       None \<Rightarrow> - 1
                     | Some t \<Rightarrow> proc_id (proc_at s1 (parent_process (thread_at s1 t))));
          Some (pid, unlock_three c s1) }"

definition get_current_process :: "('arr, 'q, 'l, 'h, 'z) kernel_state_scheme
    \<Rightarrow> (nat \<times> ('arr, 'q, 'l, 'h, 'z) kernel_state_scheme) option" where
  "get_current_process s =
     do { let c = current_cpu s;
          s1 \<leftarrow> lock_three c s;
          t \<leftarrow> ct (cpu_at s1 c);
          Some (parent_process (thread_at s1 t), unlock_three c s1) }"

section \<open>Allocation\<close>

text \<open>\<open>find_va_hole\<close> on the map of a process, which also advances the process's generator.\<close>

definition take_va_hole :: "('q, 'l, 'h) ds_env \<Rightarrow> nat \<Rightarrow> u64 \<Rightarrow> u64 \<Rightarrow> ma_type
    \<Rightarrow> ('arr, 'q, 'l, 'h, 'z) kernel_state_scheme \<Rightarrow> nat \<times> ('arr, 'q, 'l, 'h, 'z) kernel_state_scheme" where
  "take_va_hole D p req_size align_amount t s =
     (let pr = proc_at s p;
          (i, ms) = find_va_hole (\<lambda>d. fst (rg_next_uint_l D (proc_random pr) d)) (mem_maps pr) req_size align_amount;
          (_, _, hole) = find_hole (mem_maps pr) 0x1000 0x800000000000 (req_size + align_amount);
          seed = (if hole - req_size = 0 then proc_random pr
                  else snd (rg_next_uint_l D (proc_random pr) (hole - req_size)))
      in (i, upd_proc p (\<lambda>q. q\<lparr>mem_maps := ms[i := (ms ! i)\<lparr>mtype := t\<rparr>], proc_random := seed\<rparr>) s))"

definition proc_alloc_direct :: "('arr, ('arr, 'q, 'l, 'h, 'z) kernel_state_scheme) smp_env \<Rightarrow> ('q, 'l, 'h) ds_env
    \<Rightarrow> nat \<Rightarrow> u64 \<Rightarrow> ('arr, 'q, 'l, 'h, 'z) kernel_state_scheme
    \<Rightarrow> (u64 \<times> ('arr, 'q, 'l, 'h, 'z) kernel_state_scheme) option" where
  "proc_alloc_direct E D p sz s =
     do { let (i, s1) = take_va_hole D p sz 0x1000 kernel_allocated_heap_data s;
          let hole = mem_maps (proc_at s1 p) ! i;
          (_, s2) \<leftarrow> allocate E (vastart hole) sz False False (pml4 (proc_at s1 p)) s1;
          Some (vastart hole, s2) }"

definition proc_alloc :: "('arr, ('arr, 'q, 'l, 'h, 'z) kernel_state_scheme) smp_env \<Rightarrow> ('q, 'l, 'h) ds_env
    \<Rightarrow> u64 \<Rightarrow> ('arr, 'q, 'l, 'h, 'z) kernel_state_scheme
    \<Rightarrow> (u64 \<times> ('arr, 'q, 'l, 'h, 'z) kernel_state_scheme) option" where
  "proc_alloc E D sz s =
     do { let c = current_cpu s;
          s1 \<leftarrow> lock_three c s;
          t \<leftarrow> ct (cpu_at s1 c);
          (addr, s2) \<leftarrow> proc_alloc_direct E D (parent_process (thread_at s1 t)) sz s1;
          Some (addr, unlock_three c s2) }"

section \<open>Release\<close>

text \<open>
  The removed node goes back to the heap when its use count drops to 0; either way it leaves
  the list, so the successor takes over its index.
\<close>

definition free_mmap_area :: "('arr, ('arr, 'q, 'l, 'h, 'z) kernel_state_scheme) smp_env \<Rightarrow> nat \<Rightarrow> nat
    \<Rightarrow> ('arr, 'q, 'l, 'h, 'z) kernel_state_scheme \<Rightarrow> ('arr, 'q, 'l, 'h, 'z) kernel_state_scheme option" where
  "free_mmap_area E p i s =
     do { let pr = proc_at s p;
          let mm = mem_maps pr ! i;
          s1 \<leftarrow> (case mtype mm of
                  nondealloc_map \<Rightarrow> Some s
                | _ \<Rightarrow> deallocate E (vastart mm) (vaend mm - vastart mm) (pml4 pr) s);
          Some (upd_proc p (\<lambda>q. q\<lparr>mem_maps := take i (mem_maps q) @ drop (Suc i) (mem_maps q)\<rparr>) s1) }"

text \<open>\<open>mmap_area\<close> returns NULL for an address in no area and the result is dereferenced at once.\<close>

definition proc_dealloc_direct :: "('arr, ('arr, 'q, 'l, 'h, 'z) kernel_state_scheme) smp_env \<Rightarrow> nat \<Rightarrow> u64
    \<Rightarrow> ('arr, 'q, 'l, 'h, 'z) kernel_state_scheme \<Rightarrow> ('arr, 'q, 'l, 'h, 'z) kernel_state_scheme option" where
  "proc_dealloc_direct E p mem s =
     (case mmap_area_at (mem_maps (proc_at s p)) mem of
        None \<Rightarrow> None
      | Some i \<Rightarrow> free_mmap_area E p i s)"

definition proc_dealloc :: "('arr, ('arr, 'q, 'l, 'h, 'z) kernel_state_scheme) smp_env \<Rightarrow> u64
    \<Rightarrow> ('arr, 'q, 'l, 'h, 'z) kernel_state_scheme \<Rightarrow> ('arr, 'q, 'l, 'h, 'z) kernel_state_scheme option" where
  "proc_dealloc E mem s =
     do { let c = current_cpu s;
          s1 \<leftarrow> lock_three c s;
          t \<leftarrow> ct (cpu_at s1 c);
          s2 \<leftarrow> proc_dealloc_direct E (parent_process (thread_at s1 t)) mem s1;
          Some (unlock_three c s2) }"

primrec free_areas :: "('arr, ('arr, 'q, 'l, 'h, 'z) kernel_state_scheme) smp_env \<Rightarrow> nat \<Rightarrow> mmap_area list
    \<Rightarrow> ('arr, 'q, 'l, 'h, 'z) kernel_state_scheme \<Rightarrow> ('arr, 'q, 'l, 'h, 'z) kernel_state_scheme option" where
  "free_areas E p [] s = Some s"
| "free_areas E p (m # ms) s = do { s1 \<leftarrow> free_mmap_area E p 0 s; free_areas E p ms s1 }"

definition free_proc_memory :: "('arr, ('arr, 'q, 'l, 'h, 'z) kernel_state_scheme) smp_env \<Rightarrow> nat
    \<Rightarrow> ('arr, 'q, 'l, 'h, 'z) kernel_state_scheme \<Rightarrow> ('arr, 'q, 'l, 'h, 'z) kernel_state_scheme option" where
  "free_proc_memory E p s = free_areas E p (mem_maps (proc_at s p)) s"

section \<open>Mapping existing memory\<close>

text \<open>
  The result is the address, the new value of \<open>*_vastart\<close> and the state. Only the hole is
  computed from the aligned range: \<open>map_range\<close> is given the caller's start.
\<close>

definition map_virtual_virtual :: "('arr, ('arr, 'q, 'l, 'h, 'z) kernel_state_scheme) smp_env \<Rightarrow> ('q, 'l, 'h) ds_env
    \<Rightarrow> u64 \<Rightarrow> u64 \<Rightarrow> bool \<Rightarrow> ('arr, 'q, 'l, 'h, 'z) kernel_state_scheme
    \<Rightarrow> (u64 \<times> u64 \<times> ('arr, 'q, 'l, 'h, 'z) kernel_state_scheme) option" where
  "map_virtual_virtual E D va0 ve0 readonly s =
     do { let vaoffset = va0 mod 0x1000;
          let va = ALIGN_DOWN va0 0x1000;
          let ve = ALIGN_UP ve0 0x1000;
          (p, s1) \<leftarrow> get_current_process s;
          let (i, s2) = take_va_hole D p (ve - va) 0x1000 kernel_allocated_heap_data s1;
          let hole = mem_maps (proc_at s2 p) ! i;
          (ok, va', _, s3) \<leftarrow> map_range E va0 ve (vastart hole) True readonly False (pml4 (proc_at s2 p)) s2;
          (if \<not> ok then map_option (\<lambda>s4. (0, va', s4)) (free_mmap_area E p i s3)
           else Some (vastart hole + vaoffset, va', s3)) }"

definition map_physical_virtual :: "('arr, ('arr, 'q, 'l, 'h, 'z) kernel_state_scheme) smp_env \<Rightarrow> ('q, 'l, 'h) ds_env
    \<Rightarrow> u64 \<Rightarrow> u64 \<Rightarrow> bool \<Rightarrow> ('arr, 'q, 'l, 'h, 'z) kernel_state_scheme
    \<Rightarrow> (u64 \<times> u64 \<times> ('arr, 'q, 'l, 'h, 'z) kernel_state_scheme) option" where
  "map_physical_virtual E D va0 ve0 readonly s =
     do { let vaoffset = va0 mod 0x1000;
          let va = ALIGN_DOWN va0 0x1000;
          let ve = ALIGN_UP ve0 0x1000;
          (p, s1) \<leftarrow> get_current_process s;
          let (i, s2) = take_va_hole D p (ve - va) 0x1000 kernel_allocated_heap_data s1;
          let hole = mem_maps (proc_at s2 p) ! i;
          (ok, va', _, s3) \<leftarrow> map_range E va0 ve (vastart hole) False readonly False (pml4 (proc_at s2 p)) s2;
          (if \<not> ok then map_option (\<lambda>s4. (0, va, s4)) (free_mmap_area E p i s3)
           else Some (vastart hole + vaoffset, va', s3)) }"

section \<open>Copying strings into a process\<close>

partial_function (option) c_strlen :: "store \<Rightarrow> u64 \<Rightarrow> u64 option" where
  "c_strlen m a = (if m a = 0 then Some 0 else do { n \<leftarrow> c_strlen m (a + 1); Some (n + 1) })"

declare c_strlen.simps [code]

primrec cpy_strings :: "('arr, ('arr, 'q, 'l, 'h, 'z) kernel_state_scheme) smp_env \<Rightarrow> ('q, 'l, 'h) ds_env
    \<Rightarrow> nat \<Rightarrow> u64 \<Rightarrow> nat \<Rightarrow> u64 list \<Rightarrow> ('arr, 'q, 'l, 'h, 'z) kernel_state_scheme
    \<Rightarrow> (errno option \<times> ('arr, 'q, 'l, 'h, 'z) kernel_state_scheme) option" where
  "cpy_strings E D p na i [] s = Some (None, s)"
| "cpy_strings E D p na i (str # strs) s =
     do { n \<leftarrow> c_strlen (kmem s) str;
          (cpy, s1) \<leftarrow> proc_alloc_direct E D p (n + 1) s;
          (if cpy = 0 then Some (Some ENOMEM_INTERNAL, s1)
           else let s2 = memcpy_dpgs (pml4 (proc_at s1 p)) (active_page s1) cpy str (n + 1) s1
                in cpy_strings E D p na (Suc i) strs (assign (na + of_nat i * 8) cpy s2)) }"

definition cpy_array_user :: "('arr, ('arr, 'q, 'l, 'h, 'z) kernel_state_scheme) smp_env \<Rightarrow> ('q, 'l, 'h) ds_env
    \<Rightarrow> nat \<Rightarrow> u64 list \<Rightarrow> ('arr, 'q, 'l, 'h, 'z) kernel_state_scheme
    \<Rightarrow> ((errno + u64) \<times> ('arr, 'q, 'l, 'h, 'z) kernel_state_scheme) option" where
  "cpy_array_user E D p strs s =
     do { (blk, s1) \<leftarrow> proc_alloc_direct E D p (8 * (of_nat (length strs) + 1)) s;
          (case different_page_mem (pml4 (proc_at s1 p)) blk s1 of
             None \<Rightarrow> Some (Inl ENOMEM_INTERNAL, s1)
           | Some na \<Rightarrow>
               do { (err, s2) \<leftarrow> cpy_strings E D p na 0 strs s1;
                    (case err of
                       Some e \<Rightarrow> Some (Inl e, s2)
                     | None \<Rightarrow> Some (Inr na, assign (na + of_nat (length strs) * 8) 0 s2)) }) }"


section \<open>The invariant of a process's memory\<close>

definition user_slots :: "u64 set" where
  "user_slots = {i. unat i < 256}"

definition proc_mem_ok :: "('arr, 'q, 'l, 'h, 'z) kernel_state_scheme \<Rightarrow> nat \<Rightarrow> bool" where
  "proc_mem_ok s p \<longleftrightarrow>
     (let pr = proc_at s p
      in maps_ok (mem_maps pr) \<and>
         (\<forall>m \<in> set (mem_maps pr). 4096 dvd unat (vastart m) \<and> 4096 dvd unat (vaend m) \<and>
            unat (vaend m) \<le> 0x800000000000) \<and>
         vm_ok user_slots s (pml4 pr) \<and> low_frames s \<and> frame_lock s = 0 \<and>
         (\<forall>va. va_pml va \<in> user_slots \<longrightarrow> plain_entry (pte s (pml4 pr) va)))"

lemma user_address:
  assumes "unat va < 0x800000000000"
  shows "va_pml va \<in> user_slots"
proof -
  have "unat (va_pml va) \<le> unat (drop_bit 39 va)"
    unfolding va_pml_def field_get_def unsigned_take_bit_eq by (rule take_bit_nat_less_eq_self)
  also have "\<dots> = unat va div 549755813888" by (simp add: drop_bit_eq_div unat_div_distrib)
  also have "\<dots> < 256" using assms by (simp add: less_mult_imp_div_less)
  finally show ?thesis by (simp add: user_slots_def)
qed

lemma user_page_k:
  assumes "unat a + k * 4096 < e" and "e \<le> 0x800000000000"
  shows "va_pml (page_k a k) \<in> user_slots"
proof (rule user_address)
  have "unat (page_k a k) = unat a + k * 4096"
  proof -
    have "page_k a k = a + of_nat (k * 4096)" by (simp add: page_k_def)
    moreover have "unat (of_nat (k * 4096) :: u64) = k * 4096" using assms by (intro unat_of_nat_u64) simp
    ultimately show ?thesis using assms by (simp add: unat_add_no_wrap)
  qed
  then show "unat (page_k a k) < 0x800000000000" using assms by simp
qed

lemma maps_ok_mtype: "maps_ok (ms @ m\<lparr>mtype := t\<rparr> # ns) = maps_ok (ms @ m # ns)"
  by (auto simp: maps_ok_def area_ok_def sorted_wrt_append)

lemma kernel_of_more:
  assumes "smp_state.more s' = smp_state.more s"
  shows "proc_at s' = proc_at s" "thread_at s' = thread_at s"
  using assms by (cases s; cases s'; simp)+

lemma proc_at_upd_proc: "proc_at (upd_proc p f s) p = f (proc_at s p)"
  by (simp add: upd_proc_def)

lemma upd_proc_mm:
  "vm_ok I (upd_proc p f s) cr3 = vm_ok I s cr3" "pte (upd_proc p f s) = pte s"
  "low_frames (upd_proc p f s) = low_frames s" "frame_lock (upd_proc p f s) = frame_lock s"
  by (rule vm_fields; simp add: upd_proc_def)+ (simp add: upd_proc_def)

lemma one_cpu_upd_proc:
  "one_cpu E (upd_proc p f s) = one_cpu E s"
  by (simp add: one_cpu_def upd_proc_def get_local_apic_id_def)

lemma upd_proc_eqI: "f (proc_at s p) = g (proc_at s p) \<Longrightarrow> upd_proc p f s = upd_proc p g s"
  by (simp add: upd_proc_def)

lemma take_va_hole_spec:
  assumes ok: "proc_mem_ok s p" and sz: "0 < sz" "4096 dvd unat sz"
    and room: "\<forall>m \<in> set (mem_maps (proc_at s p)). unat (vaend m) + (unat sz + 4096) \<le> 0x800000000000"
      "unat sz + 4096 \<le> 0x800000000000"
    and rg: "\<forall>seed d. 0 < d \<longrightarrow> fst (rg_next_uint_l D seed d) < d"
  obtains i a seed where "take_va_hole D p sz 0x1000 t s = (i, upd_proc p (\<lambda>q. q\<lparr>mem_maps :=
      take i (mem_maps q) @ (new_area a (a + sz))\<lparr>mtype := t\<rparr> # drop i (mem_maps q), proc_random := seed\<rparr>) s)"
    "i \<le> length (mem_maps (proc_at s p))" "4096 dvd unat a" "unat (a + sz) = unat a + unat sz"
    "unat (a + sz) \<le> 0x800000000000"
    "maps_ok (take i (mem_maps (proc_at s p)) @ (new_area a (a + sz))\<lparr>mtype := t\<rparr> # drop i (mem_maps (proc_at s p)))"
proof -
  let ?ms = "mem_maps (proc_at s p)" and ?rg = "\<lambda>d. fst (rg_next_uint_l D (proc_random (proc_at s p)) d)"
  have "\<exists>i a. find_va_hole ?rg ?ms sz 0x1000 = (i, take i ?ms @ new_area a (a + sz) # drop i ?ms) \<and>
    i \<le> length ?ms \<and> unat (0x1000 :: u64) dvd unat a \<and> unat (a + sz) = unat a + unat sz \<and>
    unat (a + sz) < 0x800000001000 \<and> maps_ok (take i ?ms @ new_area a (a + sz) # drop i ?ms)"
    by (rule find_va_hole_spec) (use ok sz room rg in \<open>simp_all add: proc_mem_ok_def Let_def\<close>)
  then obtain i a where f: "find_va_hole ?rg ?ms sz 0x1000 = (i, take i ?ms @ new_area a (a + sz) # drop i ?ms)"
    "i \<le> length ?ms" "4096 dvd unat a" "unat (a + sz) = unat a + unat sz"
    "unat (a + sz) < 0x800000001000" "maps_ok (take i ?ms @ new_area a (a + sz) # drop i ?ms)"
    by auto
  have "4096 dvd unat (a + sz)" unfolding f(4) using f(3) sz(2) by (rule dvd_add)
  then have bound: "unat (a + sz) \<le> 0x800000000000" using f(5) by (auto elim!: dvdE)
  have upd: "(take i ?ms @ new_area a (a + sz) # drop i ?ms)[i :=
      ((take i ?ms @ new_area a (a + sz) # drop i ?ms) ! i)\<lparr>mtype := t\<rparr>] =
      take i ?ms @ (new_area a (a + sz))\<lparr>mtype := t\<rparr> # drop i ?ms"
    using f(2) by (simp add: list_update_append nth_append)
  obtain x y hole where h: "find_hole ?ms 0x1000 0x800000000000 (sz + 0x1000) = (x, y, hole)"
    using prod_cases3 by blast
  show thesis
  proof (rule that)
    show "take_va_hole D p sz 0x1000 t s = (i, upd_proc p (\<lambda>q. q\<lparr>mem_maps :=
        take i (mem_maps q) @ (new_area a (a + sz))\<lparr>mtype := t\<rparr> # drop i (mem_maps q),
        proc_random := if hole - sz = 0 then proc_random (proc_at s p)
          else snd (rg_next_uint_l D (proc_random (proc_at s p)) (hole - sz))\<rparr>) s)"
      unfolding take_va_hole_def Let_def f(1) h prod.case prod.inject
      by (intro conjI refl upd_proc_eqI) (simp only: upd)
    show "maps_ok (take i ?ms @ (new_area a (a + sz))\<lparr>mtype := t\<rparr> # drop i ?ms)"
      unfolding maps_ok_mtype by (rule f(6))
  qed (use f bound in auto)
qed


section \<open>Allocation backs the area it reserves\<close>

definition pages_mapped :: "('arr, 'q, 'l, 'h, 'z) kernel_state_scheme \<Rightarrow> u64 \<Rightarrow> u64 \<Rightarrow> nat
    \<Rightarrow> ('arr, 'q, 'l, 'h, 'z) kernel_state_scheme \<Rightarrow> bool" where
  "pages_mapped s cr3 a len s' \<longleftrightarrow> (\<forall>va. va_pml va \<in> user_slots \<longrightarrow>
     (if in_range a (unat a + len) va
      then PRESENT (pte s' cr3 va) \<and> bit (pte s' cr3 va) 1 \<and> bit (pte s' cr3 va) 2
      else pte s' cr3 va = pte s cr3 va))"

definition pages_cleared :: "('arr, 'q, 'l, 'h, 'z) kernel_state_scheme \<Rightarrow> u64 \<Rightarrow> u64 \<Rightarrow> nat
    \<Rightarrow> ('arr, 'q, 'l, 'h, 'z) kernel_state_scheme \<Rightarrow> bool" where
  "pages_cleared s cr3 a len s' \<longleftrightarrow> (\<forall>va. va_pml va \<in> user_slots \<longrightarrow>
     pte s' cr3 va = (if in_range a (unat a + len) va \<and> PRESENT (pte s cr3 va) then 0 else pte s cr3 va))"

lemma proc_alloc_direct_spec:
  fixes s :: "('arr, 'q, 'l, 'h, 'z) kernel_state_scheme"
  assumes ok: "proc_mem_ok s p" and cpu: "one_cpu E s" and sz: "0 < sz" "4096 dvd unat sz"
    and room: "\<forall>m \<in> set (mem_maps (proc_at s p)). unat (vaend m) + (unat sz + 4096) \<le> 0x800000000000"
      "unat sz + 4096 \<le> 0x800000000000"
    and rg: "\<forall>seed d. 0 < d \<longrightarrow> fst (rg_next_uint_l D seed d) < d"
  shows "\<exists>a s' i n. proc_alloc_direct E D p sz s = Some (a, s') \<and> proc_mem_ok s' p \<and> one_cpu E s' \<and>
    i \<le> length (mem_maps (proc_at s p)) \<and> pml4 (proc_at s' p) = pml4 (proc_at s p) \<and>
    mem_maps (proc_at s' p) = take i (mem_maps (proc_at s p)) @
      (new_area a (a + sz))\<lparr>mtype := kernel_allocated_heap_data\<rparr> # drop i (mem_maps (proc_at s p)) \<and>
    n \<le> unat sz \<and>
    (pages_mapped s (pml4 (proc_at s p)) a (unat sz) s' \<or>
     (\<forall>va. va_pml va \<in> user_slots \<longrightarrow> pte s' (pml4 (proc_at s p)) va =
        (if in_range a (unat a + n) va then 0 else pte s (pml4 (proc_at s p)) va)))"
proof -
  let ?ms = "mem_maps (proc_at s p)" and ?cr3 = "pml4 (proc_at s p)"
  obtain i a seed where h: "take_va_hole D p sz 0x1000 kernel_allocated_heap_data s = (i, upd_proc p (\<lambda>q. q\<lparr>mem_maps :=
      take i (mem_maps q) @ (new_area a (a + sz))\<lparr>mtype := kernel_allocated_heap_data\<rparr> # drop i (mem_maps q),
      proc_random := seed\<rparr>) s)" (is "_ = (i, ?s1)")
    "i \<le> length ?ms" "4096 dvd unat a" "unat (a + sz) = unat a + unat sz" "unat (a + sz) \<le> 0x800000000000"
    "maps_ok (take i ?ms @ (new_area a (a + sz))\<lparr>mtype := kernel_allocated_heap_data\<rparr> # drop i ?ms)"
    by (rule take_va_hole_spec [OF ok sz room rg])
  have al: "ALIGN a = a" using h(3) by (rule ALIGN_dvd)
  have vm: "vm_ok user_slots ?s1 ?cr3" "low_frames ?s1" "frame_lock ?s1 = 0" "one_cpu E ?s1"
    and pl: "\<And>va. va_pml va \<in> user_slots \<Longrightarrow> plain_entry (pte s ?cr3 va)"
    using ok cpu by (simp_all add: proc_mem_ok_def Let_def upd_proc_mm one_cpu_upd_proc)
  have k: "va_pml (page_k (ALIGN a) k) \<in> user_slots" if "unat (ALIGN a) + k * 4096 < unat a + unat sz" for k
    using user_page_k [OF that] h(4,5) by (simp add: al)
  obtain ok' s2 n where r: "allocate E a sz False False ?cr3 ?s1 = Some (ok', s2)" "vm_ok user_slots s2 ?cr3"
    "low_frames s2" "frame_lock s2 = 0" "one_cpu E s2"
    "\<forall>va. va_pml va \<in> user_slots \<longrightarrow>
       (if ok' then
          (if in_range a (unat a + unat sz) va
           then \<exists>f. pte s2 ?cr3 va = page_entry f False False False else pte s2 ?cr3 va = pte s ?cr3 va)
        else pte s2 ?cr3 va = (if in_range a (unat a + n * 4096) va then 0 else pte s ?cr3 va))"
    "\<not> ok' \<longrightarrow> unat a + n * 4096 < unat a + unat sz"
  proof -
    have big: "unat a + unat sz + 12288 \<le> 18446744073709551616" using h(4,5) by simp
    have "plain_entry (pte ?s1 ?cr3 (page_k (ALIGN a) k))" if "unat (ALIGN a) + k * 4096 < unat a + unat sz" for k
      using pl [OF k [OF that]] by (simp add: upd_proc_mm)
    from allocate_spec [OF vm big k this, of False False, unfolded al upd_proc_mm]
    show thesis using that by blast
  qed
  have pr: "proc_at s2 p = proc_at ?s1 p" using kernel_of_more(1) [OF allocate_more [OF vm(4) r(1)]] by simp
  have run: "proc_alloc_direct E D p sz s = Some (a, s2)"
    using h(1,2) r(1) by (simp add: proc_alloc_direct_def Let_def proc_at_upd_proc nth_append new_area_def)
  have "\<forall>va. va_pml va \<in> user_slots \<longrightarrow> plain_entry (pte s2 ?cr3 va)"
    using r(6) pl page_entry_plain plain_entry_zero by (metis (full_types))
  moreover have "\<forall>m \<in> set (take i ?ms @ (new_area a (a + sz))\<lparr>mtype := kernel_allocated_heap_data\<rparr> # drop i ?ms).
      4096 dvd unat (vastart m) \<and> 4096 dvd unat (vaend m) \<and> unat (vaend m) \<le> 0x800000000000"
  proof -
    have "4096 dvd unat (a + sz)" unfolding h(4) using h(3) sz(2) by (rule dvd_add)
    then show ?thesis
      using ok h(3,5) by (auto simp: proc_mem_ok_def Let_def new_area_def dest!: in_set_takeD in_set_dropD)
  qed
  ultimately have "proc_mem_ok s2 p"
    using r(2-4) h(6) unfolding proc_mem_ok_def Let_def pr proc_at_upd_proc by simp
  moreover have "pages_mapped s ?cr3 a (unat sz) s2" if ok'
    using r(6) that unfolding pages_mapped_def
    by (auto simp: page_flags page_flags(1) [unfolded One_nat_def] split: if_splits)
  ultimately show ?thesis
    using run r(5-7) h(2) pr
    by (intro exI [of _ a] exI [of _ s2] exI [of _ i] exI [of _ "if ok' then 0 else n * 4096"])
      (auto simp: proc_at_upd_proc)
qed


text \<open>
  C12. A request of whole pages on one processor, for a process whose areas are page-aligned and do not overlap and
  leave room above each of them. Then \<open>proc_alloc_direct\<close> returns and adds one area of the requested size to the
  process's map, which stays sorted, page-aligned and free of overlaps, and either every
  page of that area is present, writable and accessible from user mode and no other page entry
  has changed, or (out of frames) no page outside the area has changed; the result of
  \<open>allocate\<close> is not reported to the caller. (Nothing is claimed for sizes that are no multiple of the page size, which
  \<open>find_va_hole\<close> does not round and with which areas can overlap, \<open>find_va_hole_overlap\<close>, nor for several processors.)
\<close>

theorem proc_alloc_direct_backs_area:
  assumes "proc_mem_ok s p" and "one_cpu E s" and "0 < sz" and "4096 dvd unat sz"
    and "\<forall>m \<in> set (mem_maps (proc_at s p)). unat (vaend m) + (unat sz + 4096) \<le> 0x800000000000"
    and "unat sz + 4096 \<le> 0x800000000000"
    and "\<forall>seed d. 0 < d \<longrightarrow> fst (rg_next_uint_l D seed d) < d"
  shows "\<exists>a s' i n. proc_alloc_direct E D p sz s = Some (a, s') \<and> proc_mem_ok s' p \<and> one_cpu E s' \<and>
    mem_maps (proc_at s' p) = take i (mem_maps (proc_at s p)) @
      (new_area a (a + sz))\<lparr>mtype := kernel_allocated_heap_data\<rparr> # drop i (mem_maps (proc_at s p)) \<and>
    n \<le> unat sz \<and>
    (pages_mapped s (pml4 (proc_at s p)) a (unat sz) s' \<or>
     (\<forall>va. va_pml va \<in> user_slots \<longrightarrow> pte s' (pml4 (proc_at s p)) va =
        (if in_range a (unat a + n) va then 0 else pte s (pml4 (proc_at s p)) va)))"
  using proc_alloc_direct_spec [OF assms] by blast

definition demo_proc :: "nat list proc" where
  "demo_proc = \<lparr>proc_id = 1, parent = None, pprocess = True, pml4 = 0x100000, proc_random = 7, environ = 0,
     argv = 0, argc = 0, threads = [0], proc_priority = 0, mem_maps = demo_maps, ob_lock = 0,
     output_buffer = [], input_buffer = [], pq_input_buffer = [], futexes = 0, blocked_wait_messages = 0,
     proc_temp_processes = 0\<rparr>"

definition demo_ds :: "(nat list, nat list, (u64 \<times> nat) list) ds_env" where
  "demo_ds = \<lparr>queue_size = \<lambda>q. of_nat (length q), queue_has_elements = \<lambda>q. q \<noteq> [],
     queue_push = \<lambda>q x. q @ [x], queue_pop = \<lambda>q. (case q of [] \<Rightarrow> (None, []) | x # xs \<Rightarrow> (Some x, xs)),
     list_push_right = \<lambda>l x. l @ [x],
     list_take_next = \<lambda>l. (case l of [] \<Rightarrow> None | x # xs \<Rightarrow> Some (x, xs)),
     table_get = \<lambda>h k. map_of h k, table_set = \<lambda>h k v. (False, (k, v) # h),
     rg_next_uint_l = \<lambda>seed d. (0, seed + 1)\<rparr>"


definition demo_thread :: thread where
  "demo_thread = \<lparr>tId = 1, parent_process = 0, priority = 0, blocked = False,
     continuation = \<lparr>cnt_syscall = \<lparr>sc_present = False, uses_error = False, unsafe = False, args = 0, sc_fn = None\<rparr>,
       cnt_0 = 0, cnt_1 = 0, cnt_2 = 0, cnt_3 = 0, cnt_4 = 0, cnt_present = False\<rparr>,
     last_rip = 0x400000, last_rsp = 0x7FFFF000, last_rax = 0, last_rdi = 0, last_rsi = 0, last_rdx = 0, last_rcx = 0,
     last_r8 = 0, last_r9 = 0, last_r10 = 0, last_r11 = 0, last_rbx = 0, last_rbp = 0, last_r12 = 0, last_r13 = 0,
     last_r14 = 0, last_r15 = 0, last_rflags = 0x200, stack_top_address = 0, stack_bottom_address = 0,
     local_info = 0, futex_block = 0\<rparr>"

definition demo_kernel :: "(nat list, nat list, nat list, (u64 \<times> nat) list) kernel_state" where
  "demo_kernel = smp_state.extend (demo_smp [0])
     \<lparr>thread_at = (\<lambda>_. demo_thread), proc_at = (\<lambda>_. demo_proc), list_at = (\<lambda>_. []), table_at = (\<lambda>_. []),
      thread_modifier = 0, halted_modifier = 0, proclist_lock = 0, proclist_lock2 = 0, process_id_num = 1,
      thread_id_num = 1, processes = 0, temp_processes = 1, gs_base = 0, gs_swaps = 0\<rparr>"

definition demo_kenv :: "(nat list, (nat list, nat list, nat list, (u64 \<times> nat) list) kernel_state) smp_env" where
  "demo_kenv = \<lparr>array_get_size = length, array_get_at = (!), array_find_by_pred = (\<lambda>a P. find P a),
     array_push_data = (\<lambda>a x. a @ [x]), remote_ipi = (\<lambda>_. Some), ipi_schedule = (\<lambda>r s. Some (r, s))\<rparr>"

lemma demo_kernel_fields [simp]:
  "kmem demo_kernel = (\<lambda>_. 0)" "frame_pool demo_kernel = [demo_section]" "mem_mirror_present demo_kernel"
  "frame_lock demo_kernel = 0" "proc_at demo_kernel p = demo_proc" "thread_at demo_kernel t = demo_thread"
  "current_cpu demo_kernel = 0" "cpus demo_kernel = [0]" "thread_modifier demo_kernel = 0"
  "halted_modifier demo_kernel = 0" "cpu_at demo_kernel 0 = demo_cpu"
  by (simp_all add: demo_kernel_def smp_state.defs demo_smp_def mm_state.defs demo_state_def demo_cpu_def)

lemma demo_kernel_one_cpu: "one_cpu demo_kenv demo_kernel"
  by (simp add: one_cpu_def demo_kenv_def demo_kernel_def smp_state.defs demo_smp_def demo_state_def mm_state.defs
      get_local_apic_id_def demo_cpu_def)

lemma demo_kernel_mem_ok: "proc_mem_ok demo_kernel p"
  using demo_pool_vm [of demo_kernel] demo_maps_ok
  by (simp add: proc_mem_ok_def demo_proc_def plain_entry_zero) (simp add: demo_maps_def new_area_def)

theorem proc_alloc_direct_backs_area_witness:
  "\<exists>a s'. proc_alloc_direct demo_kenv demo_ds 0 0x3000 demo_kernel = Some (a, s') \<and> proc_mem_ok s' 0"
proof -
  have "\<forall>seed d. 0 < d \<longrightarrow> fst (rg_next_uint_l demo_ds seed d) < d" by (simp add: demo_ds_def)
  then show ?thesis
    using proc_alloc_direct_backs_area [OF demo_kernel_mem_ok demo_kernel_one_cpu, of "0x3000" 0 demo_ds]
    by (auto simp: demo_proc_def demo_maps_def new_area_def)
qed

section \<open>Release undoes allocation\<close>

lemma free_mmap_area_spec:
  fixes s :: "('arr, 'q, 'l, 'h, 'z) kernel_state_scheme"
  assumes ok: "proc_mem_ok s p" and cpu: "one_cpu E s" and i: "i < length (mem_maps (proc_at s p))"
    and ty: "mtype (mem_maps (proc_at s p) ! i) \<noteq> nondealloc_map"
  shows "\<exists>s'. free_mmap_area E p i s = Some s' \<and> proc_mem_ok s' p \<and> one_cpu E s' \<and>
    pml4 (proc_at s' p) = pml4 (proc_at s p) \<and>
    mem_maps (proc_at s' p) = take i (mem_maps (proc_at s p)) @ drop (Suc i) (mem_maps (proc_at s p)) \<and>
    pages_cleared s (pml4 (proc_at s p)) (vastart (mem_maps (proc_at s p) ! i))
      (unat (vaend (mem_maps (proc_at s p) ! i) - vastart (mem_maps (proc_at s p) ! i))) s'"
proof -
  let ?ms = "mem_maps (proc_at s p)" and ?cr3 = "pml4 (proc_at s p)"
  let ?m = "?ms ! i"
  let ?n = "vaend ?m - vastart ?m"
  have m: "?m \<in> set ?ms" using i by simp
  then have f: "4096 dvd unat (vastart ?m)" "unat (vaend ?m) \<le> 0x800000000000" "vastart ?m < vaend ?m"
    using ok by (auto simp: proc_mem_ok_def Let_def maps_ok_def area_ok_def)
  have al: "ALIGN (vastart ?m) = vastart ?m" using f(1) by (rule ALIGN_dvd)
  have u: "unat (vastart ?m) + unat ?n = unat (vaend ?m)" using f(3) by (simp add: unat_diff_u64 word_less_nat_alt)
  have vm: "vm_ok user_slots s ?cr3" "low_frames s" "frame_lock s = 0"
    and pl: "\<And>va. va_pml va \<in> user_slots \<Longrightarrow> plain_entry (pte s ?cr3 va)"
    using ok by (simp_all add: proc_mem_ok_def Let_def)
  have k: "va_pml (page_k (ALIGN (vastart ?m)) k) \<in> user_slots"
    if "unat (ALIGN (vastart ?m)) + k * 4096 < unat (vastart ?m) + unat ?n" for k
    using user_page_k [OF that] f(2) u by (simp add: al)
  have big: "unat (vastart ?m) + unat ?n + 8192 \<le> 18446744073709551616" using u f(2) by simp
  show ?thesis
  proof (rule deallocate_spec [OF vm cpu big k])
    fix s'
    assume d: "deallocate E (vastart ?m) ?n ?cr3 s = Some s'" "vm_ok user_slots s' ?cr3" "low_frames s'"
      "frame_lock s' = 0" "one_cpu E s'"
      and e: "\<And>va. va_pml va \<in> user_slots \<Longrightarrow> pte s' ?cr3 va =
       (if in_range (ALIGN (vastart ?m)) (unat (vastart ?m) + unat ?n) va \<and> PRESENT (pte s ?cr3 va) then 0 else pte s ?cr3 va)"
    let ?s2 = "upd_proc p (\<lambda>q. q\<lparr>mem_maps := take i (mem_maps q) @ drop (Suc i) (mem_maps q)\<rparr>) s'"
    have pr: "proc_at s' = proc_at s" using kernel_of_more(1) [OF deallocate_more [OF cpu d(1)]] .
    have run: "free_mmap_area E p i s = Some ?s2"
      using d(1) ty by (simp add: free_mmap_area_def Let_def split: ma_type.splits)
    have "maps_ok (take i ?ms @ drop (Suc i) ?ms)"
    proof -
      have "maps_ok (take i ?ms @ ?m # drop (Suc i) ?ms)"
        using ok i by (simp add: proc_mem_ok_def Let_def id_take_nth_drop [symmetric])
      then show ?thesis by (auto simp: maps_ok_def sorted_wrt_append)
    qed
    moreover have "\<forall>va. va_pml va \<in> user_slots \<longrightarrow> plain_entry (pte s' ?cr3 va)"
      using e pl plain_entry_zero by simp
    ultimately have "proc_mem_ok ?s2 p"
      using d(2-4) ok unfolding proc_mem_ok_def Let_def upd_proc_mm
      by (auto simp: proc_at_upd_proc pr dest!: in_set_takeD in_set_dropD)
    moreover have "pages_cleared s ?cr3 (vastart ?m) (unat ?n) ?s2"
      using e by (simp add: pages_cleared_def upd_proc_mm al)
    ultimately show ?thesis using run d(5) by (simp add: proc_at_upd_proc pr one_cpu_upd_proc)
  qed
qed


text \<open>
  C13. Under the conditions of the allocation above (one processor, whole pages, aligned areas, room), releasing an address
  returned by \<open>proc_alloc_direct\<close> returns and restores the
  address map; no page of the area is present any more and no other page entry differs from
  before the allocation.
\<close>

theorem proc_alloc_dealloc_roundtrip:
  assumes "proc_mem_ok s p" and "one_cpu E s" and "0 < sz" and "4096 dvd unat sz"
    and "\<forall>m \<in> set (mem_maps (proc_at s p)). unat (vaend m) + (unat sz + 4096) \<le> 0x800000000000"
    and "unat sz + 4096 \<le> 0x800000000000"
    and "\<forall>seed d. 0 < d \<longrightarrow> fst (rg_next_uint_l D seed d) < d"
    and run: "proc_alloc_direct E D p sz s = Some (a, s1)"
  shows "\<exists>s2. proc_dealloc_direct E p a s1 = Some s2 \<and> proc_mem_ok s2 p \<and> one_cpu E s2 \<and>
    mem_maps (proc_at s2 p) = mem_maps (proc_at s p) \<and>
    (\<forall>va. va_pml va \<in> user_slots \<longrightarrow>
       (if in_range a (unat a + unat sz) va then \<not> PRESENT (pte s2 (pml4 (proc_at s p)) va)
        else pte s2 (pml4 (proc_at s p)) va = pte s (pml4 (proc_at s p)) va))"
proof -
  let ?ms = "mem_maps (proc_at s p)" and ?cr3 = "pml4 (proc_at s p)"
  let ?m = "(new_area a (a + sz))\<lparr>mtype := kernel_allocated_heap_data\<rparr>"
  obtain i n where r: "proc_mem_ok s1 p" "one_cpu E s1" "i \<le> length ?ms" "pml4 (proc_at s1 p) = ?cr3"
    "mem_maps (proc_at s1 p) = take i ?ms @ ?m # drop i ?ms" "n \<le> unat sz"
    "pages_mapped s ?cr3 a (unat sz) s1 \<or>
     (\<forall>va. va_pml va \<in> user_slots \<longrightarrow> pte s1 ?cr3 va = (if in_range a (unat a + n) va then 0 else pte s ?cr3 va))"
    using proc_alloc_direct_spec [OF assms(1-7)] run by auto
  let ?ms1 = "mem_maps (proc_at s1 p)"
  have at_i: "?ms1 ! i = ?m" "i < length ?ms1" using r(3,5) by (simp_all add: nth_append)
  have "area_ok ?m" using r(1,5) by (auto simp: proc_mem_ok_def Let_def maps_ok_def)
  then have "in_area a ?m" by (simp add: in_area_def area_ok_def new_area_def)
  then have find: "mmap_area_at ?ms1 a = Some i"
    using mmap_area_at_iff [of ?ms1 a i] r(1) at_i by (simp add: proc_mem_ok_def Let_def)
  obtain s2 where f: "free_mmap_area E p i s1 = Some s2" "proc_mem_ok s2 p" "one_cpu E s2"
    "mem_maps (proc_at s2 p) = take i ?ms1 @ drop (Suc i) ?ms1" "pages_cleared s1 ?cr3 a (unat sz) s2"
    using free_mmap_area_spec [OF r(1,2) at_i(2)] r(4) by (auto simp: at_i new_area_def)
  have "take i ?ms1 @ drop (Suc i) ?ms1 = ?ms" unfolding r(5) using r(3) by simp
  moreover have "if in_range a (unat a + unat sz) va then \<not> PRESENT (pte s2 ?cr3 va) else pte s2 ?cr3 va = pte s ?cr3 va"
    if "va_pml va \<in> user_slots" for va
  proof -
    have "in_range a (unat a + unat sz) va" if "in_range a (unat a + n) va"
      using that r(6) unfolding in_range_def by (meson add_left_mono less_le_trans)
    then show ?thesis
      using that f(5) r(7) unfolding pages_cleared_def pages_mapped_def by (auto split: if_splits)
  qed
  ultimately show ?thesis using f find by (simp add: proc_dealloc_direct_def)
qed

theorem proc_alloc_dealloc_roundtrip_witness:
  "\<exists>a s1 s2. proc_alloc_direct demo_kenv demo_ds 0 0x3000 demo_kernel = Some (a, s1) \<and>
     proc_dealloc_direct demo_kenv 0 a s1 = Some s2 \<and> mem_maps (proc_at s2 0) = demo_maps"
proof -
  have rg: "\<forall>seed d. 0 < d \<longrightarrow> fst (rg_next_uint_l demo_ds seed d) < d" by (simp add: demo_ds_def)
  have m: "mem_maps demo_proc = demo_maps" by (simp add: demo_proc_def)
  have room: "\<forall>m \<in> set (mem_maps (proc_at demo_kernel 0)). unat (vaend m) + (unat (0x3000 :: u64) + 4096) \<le> 0x800000000000"
    by (simp add: demo_proc_def demo_maps_def new_area_def)
  obtain a s1 where r: "proc_alloc_direct demo_kenv demo_ds 0 0x3000 demo_kernel = Some (a, s1)"
    using proc_alloc_direct_spec [OF demo_kernel_mem_ok demo_kernel_one_cpu _ _ room _ rg] by auto
  then show ?thesis
    using proc_alloc_dealloc_roundtrip [OF demo_kernel_mem_ok demo_kernel_one_cpu _ _ room _ rg r] m by auto
qed

lemma free_areas_spec:
  fixes s :: "('arr, 'q, 'l, 'h, 'z) kernel_state_scheme"
  assumes "proc_mem_ok s p" and "one_cpu E s" and "mem_maps (proc_at s p) = ms"
    and "\<forall>m \<in> set ms. mtype m \<noteq> nondealloc_map"
  shows "\<exists>s'. free_areas E p ms s = Some s' \<and> proc_mem_ok s' p \<and> one_cpu E s' \<and> mem_maps (proc_at s' p) = [] \<and>
    (\<forall>va. va_pml va \<in> user_slots \<longrightarrow>
       (pte s' (pml4 (proc_at s p)) va = 0 \<or> pte s' (pml4 (proc_at s p)) va = pte s (pml4 (proc_at s p)) va) \<and>
       ((\<exists>m \<in> set ms. in_range (vastart m) (unat (vaend m)) va) \<longrightarrow> \<not> PRESENT (pte s' (pml4 (proc_at s p)) va)))"
  using assms
proof (induction ms arbitrary: s)
  case (Cons m ms)
  let ?cr3 = "pml4 (proc_at s p)"
  have 0: "0 < length (mem_maps (proc_at s p))" "mem_maps (proc_at s p) ! 0 = m" using Cons.prems(3) by simp_all
  obtain s1 where f: "free_mmap_area E p 0 s = Some s1" "proc_mem_ok s1 p" "one_cpu E s1"
    "mem_maps (proc_at s1 p) = ms" "pages_cleared s ?cr3 (vastart m) (unat (vaend m - vastart m)) s1"
    and cr3: "pml4 (proc_at s1 p) = ?cr3"
    using free_mmap_area_spec [OF Cons.prems(1,2) 0(1)] Cons.prems(3,4) 0(2) by auto
  have "vastart m < vaend m" using Cons.prems(1,3) by (simp add: proc_mem_ok_def Let_def maps_ok_def area_ok_def)
  then have u: "unat (vastart m) + unat (vaend m - vastart m) = unat (vaend m)"
    by (simp add: unat_diff_u64 word_less_nat_alt)
  obtain s' where s': "free_areas E p ms s1 = Some s'" "proc_mem_ok s' p" "one_cpu E s'" "mem_maps (proc_at s' p) = []"
    "\<forall>va. va_pml va \<in> user_slots \<longrightarrow> (pte s' ?cr3 va = 0 \<or> pte s' ?cr3 va = pte s1 ?cr3 va) \<and>
       ((\<exists>m \<in> set ms. in_range (vastart m) (unat (vaend m)) va) \<longrightarrow> \<not> PRESENT (pte s' ?cr3 va))"
    using Cons.IH [OF f(2-4)] Cons.prems(4) cr3 by auto
  have "\<not> PRESENT (pte s' ?cr3 va)" if "va_pml va \<in> user_slots" "in_range (vastart m) (unat (vaend m)) va" for va
    using s'(5) f(5) that unfolding pages_cleared_def u by (metis not_PRESENT_0)
  moreover have "pte s' ?cr3 va = 0 \<or> pte s' ?cr3 va = pte s ?cr3 va" if "va_pml va \<in> user_slots" for va
    using s'(5) f(5) that unfolding pages_cleared_def by metis
  ultimately show ?case using s' f(1) by auto
qed simp

text \<open>
  \<open>free_proc_memory\<close> always returns and leaves the process with an empty address map and no
  present page in any of its former areas.
\<close>

theorem free_proc_memory_unmaps_all:
  assumes "proc_mem_ok s p" and "one_cpu E s"
    and "\<forall>m \<in> set (mem_maps (proc_at s p)). mtype m \<noteq> nondealloc_map"
  shows "\<exists>s'. free_proc_memory E p s = Some s' \<and> proc_mem_ok s' p \<and> mem_maps (proc_at s' p) = [] \<and>
    (\<forall>m \<in> set (mem_maps (proc_at s p)). \<forall>va. va_pml va \<in> user_slots \<longrightarrow>
       in_range (vastart m) (unat (vaend m)) va \<longrightarrow> \<not> PRESENT (pte s' (pml4 (proc_at s p)) va))"
  using free_areas_spec [OF assms(1,2) refl assms(3)] unfolding free_proc_memory_def by blast

theorem free_proc_memory_unmaps_all_witness:
  "\<exists>s'. free_proc_memory demo_kenv 0 demo_kernel = Some s' \<and> mem_maps (proc_at s' 0) = []"
  using free_proc_memory_unmaps_all [OF demo_kernel_mem_ok demo_kernel_one_cpu, of 0]
  by (auto simp: demo_proc_def demo_maps_def new_area_def)

end
