(* ===== verification/Scheduler.thy ===== *)
theory Scheduler
  imports Process_Memory "HOL-Library.Multiset"
begin

text \<open>
  The scheduler (\<open>processes/scheduler.c\<close>): five priority queues per processor, selection with
  promotion of one waiting thread, the context switch, placement of threads on processors and
  futexes. \<open>wait_until_activated\<close> is the argument \<open>W\<close> (what other processors do to the state
  until this one is woken); the system call a resumed thread continues with is the argument
  \<open>S\<close>. Dereferencing NULL or indexing the queue array out of range does not return
  (\<open>None\<close>).
\<close>

section \<open>Queues\<close>

definition queues_of :: "'q cpu \<Rightarrow> 'q list" where
  "queues_of c = [priority_0 c, priority_1 c, priority_2 c, priority_3 c, priority_4 c]"

definition set_queues :: "'q list \<Rightarrow> 'q cpu \<Rightarrow> 'q cpu" where
  "set_queues qs c = c\<lparr>priority_0 := qs ! 0, priority_1 := qs ! 1, priority_2 := qs ! 2,
     priority_3 := qs ! 3, priority_4 := qs ! 4\<rparr>"

definition do_get_priority_count :: "('q, 'l, 'h) ds_env \<Rightarrow> 'q cpu \<Rightarrow> u64" where
  "do_get_priority_count D c =
     fold (\<lambda>i count. count + queue_size D (queues_of c ! i) * of_nat (5 - i)) [0..<5] 0"

definition get_priority_count :: "('q, 'l, 'h) ds_env \<Rightarrow> nat \<Rightarrow> ('arr, 'q, 'z) smp_state_scheme
    \<Rightarrow> (u64 \<times> ('arr, 'q, 'z) smp_state_scheme) option" where
  "get_priority_count D c s =
     do { s1 \<leftarrow> lock_cpu c s;
          s2 \<leftarrow> lock_sched c s1;
          Some (do_get_priority_count D (cpu_at s2 c), unlock_sched c (unlock_cpu c s2)) }"

text \<open>
  The processor that is nudged is drawn at random: \<open>pick n\<close> is the \<open>n\<close>-th draw. The
  \<open>continue\<close> of the code skips the tick counter.
\<close>

partial_function (option) attemp_to_run_scheduler :: "('arr, ('arr, 'q, 'z) smp_state_scheme) smp_env
    \<Rightarrow> ('q, 'l, 'h) ds_env \<Rightarrow> (nat \<Rightarrow> nat) \<Rightarrow> nat \<Rightarrow> u32 \<Rightarrow> registers option
    \<Rightarrow> ('arr, 'q, 'z) smp_state_scheme \<Rightarrow> (registers option \<times> ('arr, 'q, 'z) smp_state_scheme) option" where
  "attemp_to_run_scheduler E D pick n ticks r s =
     (let c = pick n; more = (\<lambda>t. t < of_nat (array_get_size E (cpus s)))
      in if do_get_priority_count D (cpu_at s c) > 0 then
           if c = current_cpu s \<and> cpu_lock (cpu_at s c) = 1 then
             (if more ticks then attemp_to_run_scheduler E D pick (Suc n) ticks r s else Some (r, s))
           else send_ipi_nowait E (apic_id (cpu_at s c)) IPI_RUN_SCHEDULER 0 0 0 r s
         else if more (ticks + 1) then attemp_to_run_scheduler E D pick (Suc n) (ticks + 1) r s
         else Some (r, s))"

declare attemp_to_run_scheduler.simps [code]

text \<open>
  The search of \<open>get_and_update_queue\<close>: the first non-empty queue below the selected one, and
  the queue right above it.
\<close>

fun search_lower :: "('q, 'l, 'h) ds_env \<Rightarrow> 'q list \<Rightarrow> nat list \<Rightarrow> nat \<Rightarrow> (nat \<times> nat) option" where
  "search_lower D qs [] pushq = None"
| "search_lower D qs (i # is) pushq =
     (if queue_has_elements D (qs ! i) then Some (i, pushq) else search_lower D qs is i)"

definition get_and_update_queue :: "('q, 'l, 'h) ds_env \<Rightarrow> nat \<Rightarrow> 'q list \<Rightarrow> nat option \<times> 'q list" where
  "get_and_update_queue D ord qs =
     (let (winner, q) = queue_pop D (qs ! ord); qs1 = qs[ord := q]
      in case search_lower D qs1 [ord + 1..<5] ord of
           None \<Rightarrow> (winner, qs1)
         | Some (popq, pushq) \<Rightarrow>
             (case queue_pop D (qs1 ! popq) of
                (None, q') \<Rightarrow> (winner, qs1[popq := q'])
              | (Some ptpick, q') \<Rightarrow>
                  let qs2 = qs1[popq := q']
                  in (winner, qs2[pushq := queue_push D (qs2 ! pushq) ptpick])))"

fun first_queue :: "('q, 'l, 'h) ds_env \<Rightarrow> nat list \<Rightarrow> 'q list \<Rightarrow> nat option \<times> 'q list" where
  "first_queue D [] qs = (None, qs)"
| "first_queue D (i # is) qs =
     (if queue_has_elements D (qs ! i) then get_and_update_queue D i qs else first_queue D is qs)"

definition get_and_update_threads :: "('q, 'l, 'h) ds_env \<Rightarrow> 'q list \<Rightarrow> nat option \<times> 'q list" where
  "get_and_update_threads D qs = first_queue D [0..<5] qs"

section \<open>The context switch\<close>

definition copy_registers :: "registers \<Rightarrow> thread \<Rightarrow> thread" where
  "copy_registers r t = t\<lparr>last_rip := rip r, last_rsp := uesp r, last_rax := rax r, last_rcx := rcx r,
     last_rdx := rdx r, last_rdi := rdi r, last_rsi := rsi r, last_r8 := r8 r, last_r9 := r9 r,
     last_r10 := r10 r, last_r11 := r11 r, last_rbp := rbp r, last_rbx := rbx r, last_r12 := r12 r,
     last_r13 := r13 r, last_r14 := r14 r, last_r15 := r15 r, last_rflags := rflags r\<rparr>"

definition registers_copy :: "thread \<Rightarrow> registers \<Rightarrow> registers" where
  "registers_copy t r = r\<lparr>rip := last_rip t, uesp := last_rsp t, rbp := last_rbp t, rax := last_rax t,
     rbx := last_rbx t, rcx := last_rcx t, rdx := last_rdx t, rsi := last_rsi t, rdi := last_rdi t,
     r8 := last_r8 t, r9 := last_r9 t, r10 := last_r10 t, r11 := last_r11 t, r12 := last_r12 t,
     r13 := last_r13 t, r14 := last_r14 t, r15 := last_r15 t, rflags := last_rflags t\<rparr>"

text \<open>
  Without a register frame the switch ends in \<open>switch_to_usermode\<close>, which does not return:
  \<open>UserMode\<close> holds its arguments in the order \<open>rdi, rip, rsp, flags, rsi, rdx\<close>.
\<close>

datatype switch_result = Returned "registers option" | UserMode u64 u64 u64 u64 u64 u64

definition push_thread :: "('q, 'l, 'h) ds_env \<Rightarrow> nat \<Rightarrow> nat \<Rightarrow> ('arr, 'q, 'l, 'h, 'z) kernel_state_scheme
    \<Rightarrow> ('arr, 'q, 'l, 'h, 'z) kernel_state_scheme option" where
  "push_thread D t c s =
     (let qs = queues_of (cpu_at s c); i = unat (priority (thread_at s t))
      in if i < 5 then Some (upd_cpu c (set_queues (qs[i := queue_push D (qs ! i) t])) s) else None)"

definition enter_thread :: "(registers option \<Rightarrow> nat \<Rightarrow> ('arr, 'q, 'l, 'h, 'z) kernel_state_scheme
      \<Rightarrow> (registers option \<times> ('arr, 'q, 'l, 'h, 'z) kernel_state_scheme) option)
    \<Rightarrow> registers option \<Rightarrow> nat \<Rightarrow> nat \<Rightarrow> ('arr, 'q, 'l, 'h, 'z) kernel_state_scheme
    \<Rightarrow> (switch_result \<times> ('arr, 'q, 'l, 'h, 'z) kernel_state_scheme) option" where
  "enter_thread S r c selection s =
     do { t \<leftarrow> ct (cpu_at s c);
          let th = thread_at s t;
          let cr3 = pml4 (proc_at s (parent_process th));
          let s1 = (if cr3 \<noteq> active_page s then s\<lparr>active_page := cr3\<rparr> else s);
          let s2 = upd_cpu c (\<lambda>k. k\<lparr>current_address_space := active_page s1\<rparr>) s1;
          let s3 = unlock_three c (s2\<lparr>gs_base := local_info th, gs_swaps := gs_swaps s2 + 1\<rparr>);
          (case r of
             None \<Rightarrow> Some (UserMode (last_rdi th) (last_rip th) (last_rsp th) (push_bit 9 1) (last_rsi th) (last_rcx th), s3)
           | Some x \<Rightarrow>
               let r' = Some (registers_copy th (x\<lparr>r_cs := 40 OR 3, r_ss := 32 OR 3, r_ds := 32 OR 3, r_es := 32 OR 3\<rparr>))
               in if cnt_present (continuation (thread_at s3 selection)) then
                    do { (r'', s4) \<leftarrow> S r' selection (upd_thread selection
                           (\<lambda>t. t\<lparr>continuation := (continuation t)\<lparr>cnt_present := False\<rparr>\<rparr>) s3);
                         Some (Returned r'', s4) }
                  else Some (Returned r', s3)) }"

definition context_switch :: "('q, 'l, 'h) ds_env
    \<Rightarrow> (registers option \<Rightarrow> nat \<Rightarrow> ('arr, 'q, 'l, 'h, 'z) kernel_state_scheme
      \<Rightarrow> (registers option \<times> ('arr, 'q, 'l, 'h, 'z) kernel_state_scheme) option)
    \<Rightarrow> registers option \<Rightarrow> nat \<Rightarrow> nat option \<Rightarrow> nat option \<Rightarrow> ('arr, 'q, 'l, 'h, 'z) kernel_state_scheme
    \<Rightarrow> (switch_result \<times> ('arr, 'q, 'l, 'h, 'z) kernel_state_scheme) option" where
  "context_switch D S r c old_head selection s =
     do { s1 \<leftarrow> (case old_head of
                   Some old \<Rightarrow> if \<not> blocked (thread_at s old) then push_thread D old c s else Some s
                 | None \<Rightarrow> Some s);
          (if old_head \<noteq> selection then
             do { let s2 = upd_cpu c (\<lambda>k. k\<lparr>ct := selection\<rparr>) s1;
                  s3 \<leftarrow> (case r of
                          Some x \<Rightarrow>
                            if r_cs x \<noteq> 8 then
                              map_option (\<lambda>old. upd_thread old (copy_registers x) s2) old_head
                            else Some s2
                        | None \<Rightarrow> Some s2);
                  sel \<leftarrow> selection;
                  enter_thread S r c sel s3 }
           else
             (case r of
                Some x \<Rightarrow>
                  if r_cs x = 40 OR 3 then Some (Returned r, unlock_three c s1)
                  else do { sel \<leftarrow> selection; enter_thread S r c sel s1 }
              | None \<Rightarrow> do { sel \<leftarrow> selection; enter_thread S r c sel s1 })) }"

text \<open>The wait for work; entering it discards the register frame.\<close>

partial_function (option) wait_for_thread :: "('q, 'l, 'h) ds_env
    \<Rightarrow> (('arr, 'q, 'l, 'h, 'z) kernel_state_scheme \<Rightarrow> ('arr, 'q, 'l, 'h, 'z) kernel_state_scheme option)
    \<Rightarrow> registers option \<Rightarrow> nat \<Rightarrow> ('arr, 'q, 'l, 'h, 'z) kernel_state_scheme
    \<Rightarrow> (registers option \<times> ('arr, 'q, 'l, 'h, 'z) kernel_state_scheme) option" where
  "wait_for_thread D W r c s =
     (if do_get_priority_count D (cpu_at s c) = 0 then
        do { s1 \<leftarrow> W (unlock_sched c (unlock_cpu c s));
             s2 \<leftarrow> lock_cpu c s1;
             s3 \<leftarrow> lock_sched c s2;
             wait_for_thread D W None c s3 }
      else Some (r, s))"

declare wait_for_thread.simps [code]

definition schedule :: "('q, 'l, 'h) ds_env
    \<Rightarrow> (('arr, 'q, 'l, 'h, 'z) kernel_state_scheme \<Rightarrow> ('arr, 'q, 'l, 'h, 'z) kernel_state_scheme option)
    \<Rightarrow> (registers option \<Rightarrow> nat \<Rightarrow> ('arr, 'q, 'l, 'h, 'z) kernel_state_scheme
      \<Rightarrow> (registers option \<times> ('arr, 'q, 'l, 'h, 'z) kernel_state_scheme) option)
    \<Rightarrow> registers option \<Rightarrow> ('arr, 'q, 'l, 'h, 'z) kernel_state_scheme
    \<Rightarrow> (switch_result \<times> ('arr, 'q, 'l, 'h, 'z) kernel_state_scheme) option" where
  "schedule D W S r s =
     do { let c = current_cpu s;
          s1 \<leftarrow> lock_cpu c s;
          s2 \<leftarrow> lock_sched c s1;
          (r', s3) \<leftarrow> wait_for_thread D W r c s2;
          s4 \<leftarrow> lock_threads s3;
          let (selection, qs) = get_and_update_threads D (queues_of (cpu_at s4 c));
          let s5 = upd_cpu c (set_queues qs) s4;
          context_switch D S r' c (ct (cpu_at s5 c)) selection s5 }"

section \<open>Placing threads\<close>

definition do_enschedule :: "('arr, ('arr, 'q, 'l, 'h, 'z) kernel_state_scheme) smp_env \<Rightarrow> ('q, 'l, 'h) ds_env
    \<Rightarrow> nat \<Rightarrow> nat \<Rightarrow> ('arr, 'q, 'l, 'h, 'z) kernel_state_scheme \<Rightarrow> ('arr, 'q, 'l, 'h, 'z) kernel_state_scheme option" where
  "do_enschedule E D t c s =
     do { s1 \<leftarrow> push_thread D t c s;
          (if c \<noteq> current_cpu s1
           then map_option snd (send_ipi_nowait E (apic_id (cpu_at s1 c)) IPI_RUN_SCHEDULER 0 0 0 None s1)
           else Some s1) }"

definition enschedule :: "('arr, ('arr, 'q, 'l, 'h, 'z) kernel_state_scheme) smp_env \<Rightarrow> ('q, 'l, 'h) ds_env
    \<Rightarrow> nat \<Rightarrow> nat \<Rightarrow> ('arr, 'q, 'l, 'h, 'z) kernel_state_scheme \<Rightarrow> ('arr, 'q, 'l, 'h, 'z) kernel_state_scheme option" where
  "enschedule E D t c s =
     do { s1 \<leftarrow> lock_three c s;
          s2 \<leftarrow> do_enschedule E D t c s1;
          Some (unlock_cpu c (unlock_sched c (unlock_threads s2))) }"

definition enschedule_to_self :: "('arr, ('arr, 'q, 'l, 'h, 'z) kernel_state_scheme) smp_env \<Rightarrow> ('q, 'l, 'h) ds_env
    \<Rightarrow> nat \<Rightarrow> ('arr, 'q, 'l, 'h, 'z) kernel_state_scheme \<Rightarrow> ('arr, 'q, 'l, 'h, 'z) kernel_state_scheme option" where
  "enschedule_to_self E D t s = enschedule E D t (current_cpu s) s"

text \<open>The search for the least loaded processor; every turn looks at element 0.\<close>

primrec best_cpu :: "('arr, ('arr, 'q, 'z) smp_state_scheme) smp_env \<Rightarrow> ('q, 'l, 'h) ds_env
    \<Rightarrow> nat list \<Rightarrow> nat \<times> u64 \<Rightarrow> ('arr, 'q, 'z) smp_state_scheme \<Rightarrow> (nat \<times> ('arr, 'q, 'z) smp_state_scheme) option" where
  "best_cpu E D [] m s = Some (fst m, s)"
| "best_cpu E D (i # is) m s =
     do { let test = array_get_at E (cpus s) 0;
          (np, s1) \<leftarrow> get_priority_count D test s;
          best_cpu E D is (if np < snd m then (test, np) else m) s1 }"

definition find_best_cpu :: "('arr, ('arr, 'q, 'z) smp_state_scheme) smp_env \<Rightarrow> ('q, 'l, 'h) ds_env
    \<Rightarrow> ('arr, 'q, 'z) smp_state_scheme \<Rightarrow> (nat \<times> ('arr, 'q, 'z) smp_state_scheme) option" where
  "find_best_cpu E D s =
     do { let mincpu = array_get_at E (cpus s) 0;
          (prio, s1) \<leftarrow> get_priority_count D mincpu s;
          best_cpu E D [1..<array_get_size E (cpus s1)] (mincpu, prio) s1 }"

definition enschedule_best :: "('arr, ('arr, 'q, 'l, 'h, 'z) kernel_state_scheme) smp_env \<Rightarrow> ('q, 'l, 'h) ds_env
    \<Rightarrow> nat \<Rightarrow> ('arr, 'q, 'l, 'h, 'z) kernel_state_scheme \<Rightarrow> ('arr, 'q, 'l, 'h, 'z) kernel_state_scheme option" where
  "enschedule_best E D t s = do { (c, s1) \<leftarrow> find_best_cpu E D s; enschedule E D t c s1 }"

definition enschedule_best_nolock :: "('arr, ('arr, 'q, 'l, 'h, 'z) kernel_state_scheme) smp_env \<Rightarrow> ('q, 'l, 'h) ds_env
    \<Rightarrow> nat \<Rightarrow> ('arr, 'q, 'l, 'h, 'z) kernel_state_scheme \<Rightarrow> ('arr, 'q, 'l, 'h, 'z) kernel_state_scheme option" where
  "enschedule_best_nolock E D t s = do { (c, s1) \<leftarrow> find_best_cpu E D s; do_enschedule E D t c s1 }"

definition initialize_scheduler :: "('arr, 'q, 'l, 'h, 'z) kernel_state_scheme \<Rightarrow> ('arr, 'q, 'l, 'h, 'z) kernel_state_scheme" where
  "initialize_scheduler s = s\<lparr>thread_modifier := 0, halted_modifier := 0\<rparr>"

section \<open>Futexes\<close>

text \<open>A 32-bit read from user memory: the processor translates the address with the active tables.\<close>

definition user_read32 :: "'a mm_state_scheme \<Rightarrow> u64 \<Rightarrow> u32" where
  "user_read32 s a = ucast (read_bytes 4 (kmem s)
     (physical_to_virtual s (ALIGN (pte s (active_page s) a)) + (a - ALIGN a)))"

definition lock_four :: "nat \<Rightarrow> ('arr, 'q, 'l, 'h, 'z) kernel_state_scheme \<Rightarrow> ('arr, 'q, 'l, 'h, 'z) kernel_state_scheme option" where
  "lock_four c s =
     do { s1 \<leftarrow> lock_three c s;
          if halted_modifier s1 \<noteq> 0 then None else Some (s1\<lparr>halted_modifier := 1\<rparr>) }"

definition unlock_four :: "nat \<Rightarrow> ('arr, 'q, 'l, 'h, 'z) kernel_state_scheme \<Rightarrow> ('arr, 'q, 'l, 'h, 'z) kernel_state_scheme" where
  "unlock_four c s = unlock_cpu c (unlock_sched c (unlock_threads (s\<lparr>halted_modifier := 0\<rparr>)))"

definition block_on :: "('q, 'l, 'h) ds_env \<Rightarrow> u64 \<Rightarrow> nat \<Rightarrow> ('arr, 'q, 'l, 'h, 'z) kernel_state_scheme
    \<Rightarrow> ('arr, 'q, 'l, 'h, 'z) kernel_state_scheme" where
  "block_on D ftx t s =
     (let tab = futexes (proc_at s (parent_process (thread_at s t)));
          (btl, s1) = (case table_get D (table_at s tab) ftx of
              Some l \<Rightarrow> (l, s)
            | None \<Rightarrow> let l = futex_block (thread_at s t)
                      in (l, s\<lparr>table_at := (table_at s)(tab := snd (table_set D (table_at s tab) ftx l))\<rparr>));
          s2 = s1\<lparr>list_at := (list_at s1)(btl := list_push_right D (list_at s1 btl) t)\<rparr>
      in upd_thread t (\<lambda>k. k\<lparr>blocked := True\<rparr>) s2)"

definition futex_wait :: "('q, 'l, 'h) ds_env
    \<Rightarrow> (('arr, 'q, 'l, 'h, 'z) kernel_state_scheme \<Rightarrow> ('arr, 'q, 'l, 'h, 'z) kernel_state_scheme option)
    \<Rightarrow> (registers option \<Rightarrow> nat \<Rightarrow> ('arr, 'q, 'l, 'h, 'z) kernel_state_scheme
      \<Rightarrow> (registers option \<times> ('arr, 'q, 'l, 'h, 'z) kernel_state_scheme) option)
    \<Rightarrow> registers option \<Rightarrow> u64 \<Rightarrow> u32 \<Rightarrow> ('arr, 'q, 'l, 'h, 'z) kernel_state_scheme
    \<Rightarrow> (errno option \<times> switch_result \<times> ('arr, 'q, 'l, 'h, 'z) kernel_state_scheme) option" where
  "futex_wait D W S r ftx val s =
     (if user_read32 s ftx \<noteq> val then Some (Some EWOULDBLOCK, Returned r, s)
      else do { let c = current_cpu s;
                s1 \<leftarrow> lock_four c s;
                t \<leftarrow> ct (cpu_at s1 c);
                (res, s2) \<leftarrow> schedule D W S r (unlock_four c (block_on D ftx t s1));
                Some (None, res, s2) })"

primrec wake_threads :: "('arr, ('arr, 'q, 'l, 'h, 'z) kernel_state_scheme) smp_env \<Rightarrow> ('q, 'l, 'h) ds_env
    \<Rightarrow> nat \<Rightarrow> nat \<Rightarrow> ('arr, 'q, 'l, 'h, 'z) kernel_state_scheme \<Rightarrow> ('arr, 'q, 'l, 'h, 'z) kernel_state_scheme option" where
  "wake_threads E D btl 0 s = Some s"
| "wake_threads E D btl (Suc n) s =
     (case list_take_next D (list_at s btl) of
        None \<Rightarrow> Some s
      | Some (t, l) \<Rightarrow>
          do { s1 \<leftarrow> enschedule_best_nolock E D t
                 (upd_thread t (\<lambda>k. k\<lparr>blocked := False\<rparr>) (s\<lparr>list_at := (list_at s)(btl := l)\<rparr>));
               wake_threads E D btl n s1 })"

definition futex_wake :: "('arr, ('arr, 'q, 'l, 'h, 'z) kernel_state_scheme) smp_env \<Rightarrow> ('q, 'l, 'h) ds_env
    \<Rightarrow> u64 \<Rightarrow> u32 \<Rightarrow> ('arr, 'q, 'l, 'h, 'z) kernel_state_scheme
    \<Rightarrow> (errno option \<times> ('arr, 'q, 'l, 'h, 'z) kernel_state_scheme) option" where
  "futex_wake E D ftx num s =
     do { let c = current_cpu s;
          s1 \<leftarrow> lock_four c s;
          t \<leftarrow> ct (cpu_at s1 c);
          (case table_get D (table_at s1 (futexes (proc_at s1 (parent_process (thread_at s1 t))))) ftx of
             None \<Rightarrow> Some (Some EINVAL, unlock_four c s1)
           | Some btl \<Rightarrow>
               map_option (\<lambda>s2. (None, unlock_four c s2)) (wake_threads E D btl (nat (sint num)) s1)) }"


section \<open>Selection refines an abstract schedule\<close>

text \<open>
  What the code relies on of KCLib's queues: first in, first out. \<open>qc\<close> is the content. The queues of a
  processor are intrusive (\<open>create_queue_static\<close> with the link \<open>schedule_list\<close> of the thread), so nothing
  is relied on when a thread is pushed that is already queued: the lemmas below are about queues in
  which every thread stands at most once.
\<close>

definition queue_laws :: "('q, 'l, 'h) ds_env \<Rightarrow> ('q \<Rightarrow> nat list) \<Rightarrow> bool" where
  "queue_laws D qc \<longleftrightarrow>
     (\<forall>q. queue_size D q = of_nat (length (qc q))) \<and>
     (\<forall>q. queue_has_elements D q \<longleftrightarrow> qc q \<noteq> []) \<and>
     (\<forall>q x. x \<notin> set (qc q) \<longrightarrow> qc (queue_push D q x) = qc q @ [x]) \<and>
     (\<forall>q x xs. qc q = x # xs \<longrightarrow> (\<exists>q'. queue_pop D q = (Some x, q') \<and> qc q' = xs))"

text \<open>
  The abstract schedule on the contents: the head of the first non-empty queue runs; the head of
  the next non-empty queue moves to the end of the queue just above its own.
\<close>

definition promote :: "nat \<Rightarrow> nat list list \<Rightarrow> nat list list" where
  "promote j qs = (let qs1 = qs[j := tl (qs ! j)] in qs1[j - 1 := qs1 ! (j - 1) @ [hd (qs ! j)]])"

definition sched_spec :: "nat list list \<Rightarrow> nat option \<times> nat list list" where
  "sched_spec qs =
     (case filter (\<lambda>i. qs ! i \<noteq> []) [0..<length qs] of
        [] \<Rightarrow> (None, qs)
      | [i] \<Rightarrow> (Some (hd (qs ! i)), qs[i := tl (qs ! i)])
      | i # j # _ \<Rightarrow> (Some (hd (qs ! i)), promote j (qs[i := tl (qs ! i)])))"

lemma pop_laws:
  assumes "queue_laws D qc" and "qc q \<noteq> []"
  obtains q' where "queue_pop D q = (Some (hd (qc q)), q')" "qc q' = tl (qc q)"
  using assms unfolding queue_laws_def by (metis list.collapse)

lemma search_lower_filter:
  assumes "queue_laws D qc"
  shows "search_lower D qs [Suc k..<n] k =
    (case filter (\<lambda>i. qc (qs ! i) \<noteq> []) [Suc k..<n] of [] \<Rightarrow> None | j # _ \<Rightarrow> Some (j, j - 1))"
proof (induction "n - k" arbitrary: k)
  case (Suc m)
  show ?case
  proof (cases "Suc k < n")
    case True
    then have u: "[Suc k..<n] = Suc k # [Suc (Suc k)..<n]" by (simp add: upt_conv_Cons)
    show ?thesis
      using assms Suc.hyps(1) [of "Suc k"] Suc.hyps(2) True unfolding u by (simp add: queue_laws_def)
  qed simp
qed simp

lemma first_queue_filter:
  assumes "queue_laws D qc"
  shows "first_queue D is qs = (case filter (\<lambda>i. qc (qs ! i) \<noteq> []) is of
      [] \<Rightarrow> (None, qs) | i # _ \<Rightarrow> get_and_update_queue D i qs)"
  using assms by (induction "is") (simp_all add: queue_laws_def)

lemma filter_upt_Cons:
  assumes "filter P [0..<n] = i # is"
  shows "is = filter P [Suc i..<n]" "i < n" "P i"
proof -
  have "i \<in> set (filter P [0..<n])" by (simp add: assms)
  then show i: "i < n" "P i" by auto
  have "[0..<n] = [0..<i] @ i # [Suc i..<n]"
    using i(1) upt_add_eq_append [of 0 i "n - i"] by (simp add: upt_conv_Cons)
  then have "filter P [0..<i] @ i # filter P [Suc i..<n] = i # is" using assms i(2) by (metis filter.simps(2) filter_append)
  moreover have "i \<notin> set (filter P [0..<i])" by simp
  ultimately show "is = filter P [Suc i..<n]" by (cases "filter P [0..<i]") auto
qed

lemma distinct_concat_nth:
  assumes "distinct (concat xss)" and "i < j" and "j < length xss"
  shows "set (xss ! i) \<inter> set (xss ! j) = {}"
  using assms
proof (induction xss arbitrary: i j)
  case (Cons xs xss)
  then obtain j' where j: "j = Suc j'" "j' < length xss" by (cases j) auto
  show ?case
  proof (cases i)
    case 0
    have "set (xss ! j') \<subseteq> set (concat xss)" using j(2) by (auto intro: nth_mem)
    moreover have "set xs \<inter> set (concat xss) = {}" using Cons.prems(1) by simp
    ultimately show ?thesis using 0 j(1) by auto
  next
    case (Suc i')
    then show ?thesis using Cons.IH [of i' j'] Cons.prems j by simp
  qed
qed simp

lemma get_and_update_threads_refines:
  assumes laws: "queue_laws D qc" and len: "length qs = 5" and once: "distinct (concat (map qc qs))"
  shows "fst (get_and_update_threads D qs) = fst (sched_spec (map qc qs)) \<and>
    map qc (snd (get_and_update_threads D qs)) = snd (sched_spec (map qc qs))"
proof -
  let ?P = "\<lambda>i. qc (qs ! i) \<noteq> []"
  have F: "filter (\<lambda>i. map qc qs ! i \<noteq> []) [0..<5] = filter ?P [0..<5]"
    by (rule filter_cong) (auto simp: len)
  show ?thesis
  proof (cases "filter ?P [0..<5]")
    case Nil
    then show ?thesis
      by (simp add: get_and_update_threads_def first_queue_filter [OF laws] sched_spec_def F len)
  next
    case (Cons i "is")
    note i = filter_upt_Cons [OF Cons]
    obtain q where q: "queue_pop D (qs ! i) = (Some (hd (qc (qs ! i))), q)" "qc q = tl (qc (qs ! i))"
      by (rule pop_laws [OF laws i(3)])
    let ?qs1 = "qs[i := q]"
    have same: "filter (\<lambda>j. qc (?qs1 ! j) \<noteq> []) [Suc i..<5] = is"
      unfolding i(1) by (rule filter_cong) auto
    have run: "get_and_update_threads D qs = get_and_update_queue D i qs"
      by (simp add: get_and_update_threads_def first_queue_filter [OF laws] Cons)
    show ?thesis
    proof (cases "is")
      case Nil
      then show ?thesis
        using search_lower_filter [OF laws, of ?qs1 i 5] same q
        by (simp add: run get_and_update_queue_def Let_def sched_spec_def F Cons map_update i(2) len)
    next
      case C2: (Cons j js)
      have "j \<in> set is" by (simp add: C2)
      then have j: "j < 5" "i < j" "qc (qs ! j) \<noteq> []" unfolding i(1) by auto
      obtain q2 where q2: "queue_pop D (qs ! j) = (Some (hd (qc (qs ! j))), q2)" "qc q2 = tl (qc (qs ! j))"
        by (rule pop_laws [OF laws j(3)])
      let ?x = "qs[i := q, j := q2] ! (j - 1)"
      have x: "qc ?x = (map qc qs)[i := tl (qc (qs ! i)), j := tl (qc (qs ! j))] ! (j - 1)"
        using j i(2) len q q2 by (simp add: nth_list_update)
      have "set (qc ?x) \<subseteq> set (qc (qs ! (j - 1)))"
        unfolding x using j i len by (auto simp: nth_list_update dest: list.set_sel(2) split: if_splits)
      moreover have "set (qc (qs ! (j - 1))) \<inter> set (qc (qs ! j)) = {}"
        using distinct_concat_nth [OF once, of "j - 1" j] j len by simp
      ultimately have "hd (qc (qs ! j)) \<notin> set (qc ?x)" using hd_in_set [OF j(3)] by blast
      then have push: "qc (queue_push D ?x (hd (qc (qs ! j)))) = qc ?x @ [hd (qc (qs ! j))]" using laws by (simp add: queue_laws_def)
      note x
      moreover have "j \<noteq> j - Suc 0" using j(2) by simp
      ultimately show ?thesis
        using search_lower_filter [OF laws, of ?qs1 i 5] same q q2 j i(2)
        using push by (simp add: run get_and_update_queue_def Let_def sched_spec_def F Cons C2 map_update len promote_def
            nth_list_update)
    qed
  qed
qed


text \<open>
  C17. Choosing the next thread refines the abstract schedule, when no thread is queued twice: the head of the
  highest-priority non-empty queue is chosen and exactly one waiting thread, the head of the next
  non-empty queue, moves up one level.
\<close>

theorem scheduler_refines_spec:
  assumes "queue_laws D qc" and "length qs = 5" and "distinct (concat (map qc qs))"
  shows "fst (get_and_update_threads D qs) = fst (sched_spec (map qc qs)) \<and>
    map qc (snd (get_and_update_threads D qs)) = snd (sched_spec (map qc qs))"
  by (rule get_and_update_threads_refines [OF assms])

lemma demo_queue_laws: "queue_laws demo_ds (\<lambda>q. q)"
  by (simp add: queue_laws_def demo_ds_def)

theorem scheduler_refines_spec_witness:
  "get_and_update_threads demo_ds [[], [1, 2], [], [], [3]] = (Some 1, [[], [2], [], [3], []])"
  using scheduler_refines_spec [OF demo_queue_laws, of "[[], [1, 2], [], [], [3]]"]
  by (simp add: sched_spec_def promote_def numeral_eq_Suc upt_conv_Cons prod_eq_iff)

section \<open>No thread is lost\<close>

lemma mset_concat_update:
  "i < length qs \<Longrightarrow> mset (concat (qs[i := x])) + mset (qs ! i) = mset (concat qs) + mset x"
proof (induction qs arbitrary: i)
  case (Cons q qs)
  then show ?case by (cases i) (auto simp: ac_simps)
qed simp

lemma promote_mset:
  assumes "0 < j" and "j < length qs" and "qs ! j \<noteq> []"
  shows "mset (concat (promote j qs)) = mset (concat qs)"
proof -
  let ?q1 = "qs[j := tl (qs ! j)]"
  have "mset (concat ?q1) + mset (qs ! j) = mset (concat qs) + mset (tl (qs ! j))"
    using assms by (intro mset_concat_update) simp
  moreover have "mset (concat (promote j qs)) + mset (?q1 ! (j - 1)) =
      mset (concat ?q1) + mset (?q1 ! (j - 1) @ [hd (qs ! j)])"
    unfolding promote_def Let_def using assms by (intro mset_concat_update) simp
  moreover have "mset (qs ! j) = add_mset (hd (qs ! j)) (mset (tl (qs ! j)))"
    using assms(3) by (cases "qs ! j") simp_all
  ultimately show ?thesis by simp
qed

lemma sched_spec_mset:
  assumes "concat qs \<noteq> []"
  obtains t qs' where "sched_spec qs = (Some t, qs')" "mset (concat qs') + {#t#} = mset (concat qs)"
    "length qs' = length qs" "\<exists>i < length qs. qs ! i \<noteq> [] \<and> t = hd (qs ! i) \<and> (\<forall>k < i. qs ! k = [])"
proof -
  let ?P = "\<lambda>i. qs ! i \<noteq> []"
  have "filter ?P [0..<length qs] \<noteq> []"
    using assms by (fastforce simp: filter_empty_conv in_set_conv_nth)
  then obtain i "is" where C: "filter ?P [0..<length qs] = i # is" by (cases "filter ?P [0..<length qs]") auto
  note f = filter_upt_Cons [OF C]
  have first: "\<forall>k < i. qs ! k = []"
  proof (intro allI impI, rule ccontr)
    fix k assume k: "k < i" "qs ! k \<noteq> []"
    then have "k \<in> set (i # is)" unfolding C [symmetric] using f(2) by simp
    then show False using k(1) unfolding f(1) by auto
  qed
  let ?q1 = "qs[i := tl (qs ! i)]"
  have hd: "mset (qs ! i) = add_mset (hd (qs ! i)) (mset (tl (qs ! i)))"
    using f(3) by (cases "qs ! i") simp_all
  have m1: "mset (concat ?q1) + {#hd (qs ! i)#} = mset (concat qs)"
    using mset_concat_update [OF f(2), of "tl (qs ! i)"] hd by simp
  show thesis
  proof (cases "is")
    case Nil
    then show thesis
      using that [of "hd (qs ! i)" ?q1] m1 f first C by (auto simp: sched_spec_def)
  next
    case (Cons j js)
    have "j \<in> set is" by (simp add: Cons)
    then have j: "j < length qs" "i < j" "qs ! j \<noteq> []" unfolding f(1) by auto
    then have "mset (concat (promote j ?q1)) = mset (concat ?q1)" by (intro promote_mset) auto
    then have m2: "mset (concat (promote j ?q1)) + {#hd (qs ! i)#} = mset (concat qs)" using m1 by simp
    have "sched_spec qs = (Some (hd (qs ! i)), promote j ?q1)" by (simp add: sched_spec_def C Cons)
    then show thesis
      by (rule that) (use m2 f(2,3) first in \<open>auto simp: promote_def Let_def\<close>)
  qed
qed

definition queued :: "('q \<Rightarrow> nat list) \<Rightarrow> 'q cpu \<Rightarrow> nat multiset" where
  "queued qc c = mset (concat (map qc (queues_of c)))"

lemma queues_of_set_queues: "length qs = 5 \<Longrightarrow> queues_of (set_queues qs c) = qs"
  by (auto simp: queues_of_def set_queues_def numeral_eq_Suc length_Suc_conv)

lemma length_queues_of [simp]: "length (queues_of c) = 5"
  by (simp add: queues_of_def)

lemma count_pos_queued:
  assumes "queue_laws D qc" and "do_get_priority_count D c \<noteq> 0"
  shows "concat (map qc (queues_of c)) \<noteq> []"
proof
  assume "concat (map qc (queues_of c)) = []"
  then have "queue_size D q = 0" if "q \<in> set (queues_of c)" for q
    using assms(1) that by (auto simp: queue_laws_def)
  then have "do_get_priority_count D c = 0"
    by (simp add: do_get_priority_count_def numeral_eq_Suc queues_of_def)
  with assms(2) show False by simp
qed

text \<open>
  The contents of a processor's queues, and what the switch away from a thread does to them: the
  thread goes to the end of the queue of its priority unless it is blocked.
\<close>

definition queue_contents :: "('q \<Rightarrow> nat list) \<Rightarrow> 'q cpu \<Rightarrow> nat list list" where
  "queue_contents qc c = map qc (queues_of c)"

definition enqueue :: "nat \<Rightarrow> nat \<Rightarrow> nat list list \<Rightarrow> nat list list" where
  "enqueue i t qs = qs[i := qs ! i @ [t]]"

definition requeue :: "thread \<Rightarrow> nat \<Rightarrow> nat list list \<Rightarrow> nat list list" where
  "requeue th t qs = (if blocked th then qs else enqueue (unat (priority th)) t qs)"

lemma length_queue_contents [simp]: "length (queue_contents qc c) = 5"
  by (simp add: queue_contents_def)

lemma queued_contents: "queued qc c = mset (concat (queue_contents qc c))"
  by (simp add: queued_def queue_contents_def)

lemma contents_updates [simp]:
  "queue_contents qc (c\<lparr>ct := x\<rparr>) = queue_contents qc c" "queue_contents qc (c\<lparr>cpu_lock := l\<rparr>) = queue_contents qc c"
  "queue_contents qc (c\<lparr>cpu_sched_lock := l\<rparr>) = queue_contents qc c" "queue_contents qc (c\<lparr>current_address_space := a\<rparr>) = queue_contents qc c"
  by (simp_all add: queue_contents_def queues_of_def)

lemma contents_set_queues [simp]: "length qs = 5 \<Longrightarrow> queue_contents qc (set_queues qs c) = map qc qs"
  by (simp add: queue_contents_def queues_of_set_queues)

lemma length_enqueue [simp]: "length (enqueue i t qs) = length qs"
  by (simp add: enqueue_def)

lemma mset_enqueue: "i < length qs \<Longrightarrow> mset (concat (enqueue i t qs)) = add_mset t (mset (concat qs))"
  using mset_concat_update [of i qs "qs ! i @ [t]"] by (simp add: enqueue_def)

lemma mset_requeue:
  assumes "\<not> blocked th \<longrightarrow> unat (priority th) < length qs"
  shows "mset (concat (requeue th t qs)) = mset (concat qs) + (if blocked th then {#} else {#t#})"
  using assms by (simp add: requeue_def mset_enqueue)

lemma push_thread_spec:
  assumes "queue_laws D qc" and "unat (priority (thread_at s t)) < 5" and "t \<notin> set (concat (queue_contents qc (cpu_at s c)))"
  obtains qs where "push_thread D t c s = Some (upd_cpu c (set_queues qs) s)" "length qs = 5"
    "map qc qs = enqueue (unat (priority (thread_at s t))) t (queue_contents qc (cpu_at s c))"
proof -
  let ?i = "unat (priority (thread_at s t))" and ?qs = "queues_of (cpu_at s c)"
  have "t \<notin> set (qc (?qs ! ?i))" using assms(2,3) by (force simp: queue_contents_def)
  then have "qc (queue_push D (?qs ! ?i) t) = qc (?qs ! ?i) @ [t]" using assms(1) by (simp add: queue_laws_def)
  then show thesis
    using assms(2) by (intro that [of "?qs[?i := queue_push D (?qs ! ?i) t]"])
      (simp_all add: push_thread_def Let_def map_update enqueue_def queue_contents_def)
qed


lemma set_queues_fields [simp]:
  "ct (set_queues qs c) = ct c" "cpu_lock (set_queues qs c) = cpu_lock c"
  "cpu_sched_lock (set_queues qs c) = cpu_sched_lock c"
  by (simp_all add: set_queues_def)

lemma kernel_upd [simp]:
  "thread_at (upd_cpu c f s) = thread_at s" "proc_at (upd_cpu c f s) = proc_at s"
  "thread_modifier (upd_cpu c f s) = thread_modifier s" "current_cpu (upd_cpu c f s) = current_cpu s"
  "halted_modifier (upd_cpu c f s) = halted_modifier s" "halted_modifier (upd_thread t g s) = halted_modifier s"
  "cpu_at (upd_thread t g s) = cpu_at s" "current_cpu (upd_thread t g s) = current_cpu s"
  "thread_modifier (upd_thread t g s) = thread_modifier s" "proc_at (upd_thread t g s) = proc_at s"
  "thread_at (upd_thread t g s) u = (if u = t then g (thread_at s t) else thread_at s u)"
  by (simp_all add: upd_cpu_def upd_thread_def)

text \<open>Entering a thread only touches the active address space, the gs base and the locks.\<close>

lemma enter_thread_spec:
  assumes "ct (cpu_at s c) = Some t" and "\<not> cnt_present (continuation (thread_at s t))"
  shows "\<exists>s' x'. enter_thread S (Some x) c t s = Some (Returned (Some x'), s') \<and>
    x' = registers_copy (thread_at s t) (x\<lparr>r_cs := 40 OR 3, r_ss := 32 OR 3, r_ds := 32 OR 3, r_es := 32 OR 3\<rparr>) \<and>
    ct (cpu_at s' c) = Some t \<and> queue_contents qc (cpu_at s' c) = queue_contents qc (cpu_at s c) \<and>
    cpu_free c s' \<and> thread_modifier s' = 0 \<and> thread_at s' = thread_at s \<and>
    current_cpu s' = current_cpu s \<and> halted_modifier s' = halted_modifier s"
  using assms
  by (simp add: enter_thread_def Let_def unlock_three_def unlock_sched_def unlock_cpu_def unlock_threads_def
      cpu_free_def upd_cpu_def)

lemma unlock_three_spec:
  "ct (cpu_at (unlock_three c s) c) = ct (cpu_at s c)" "queue_contents qc (cpu_at (unlock_three c s) c) = queue_contents qc (cpu_at s c)"
  "cpu_free c (unlock_three c s)" "thread_modifier (unlock_three c s) = 0" "thread_at (unlock_three c s) = thread_at s"
  "current_cpu (unlock_three c s) = current_cpu s" "halted_modifier (unlock_three c s) = halted_modifier s"
  by (simp_all add: unlock_three_def unlock_sched_def unlock_cpu_def unlock_threads_def cpu_free_def upd_cpu_def)

lemma context_switch_spec:
  assumes laws: "queue_laws D qc" and cs: "r_cs x = 40 OR 3"
    and prio: "\<not> blocked (thread_at s old) \<longrightarrow> unat (priority (thread_at s old)) < 5"
    and out: "old \<notin> set (concat (queue_contents qc (cpu_at s c)))"
    and ct: "ct (cpu_at s c) = Some old" and cont: "\<not> cnt_present (continuation (thread_at s sel))"
  shows "\<exists>s' x'. context_switch D S (Some x) c (Some old) (Some sel) s = Some (Returned (Some x'), s') \<and>
    ct (cpu_at s' c) = Some sel \<and> cpu_free c s' \<and> thread_modifier s' = 0 \<and>
    queue_contents qc (cpu_at s' c) = requeue (thread_at s old) old (queue_contents qc (cpu_at s c)) \<and>
    current_cpu s' = current_cpu s \<and> halted_modifier s' = halted_modifier s \<and>
    thread_at s' = (if sel = old then thread_at s else (thread_at s)(old := copy_registers x (thread_at s old))) \<and>
    (sel \<noteq> old \<longrightarrow>
       x' = registers_copy (thread_at s sel) (x\<lparr>r_cs := 40 OR 3, r_ss := 32 OR 3, r_ds := 32 OR 3, r_es := 32 OR 3\<rparr>))"
proof -
  obtain s1 where s1: "(if \<not> blocked (thread_at s old) then push_thread D old c s else Some s) = Some s1"
    "queue_contents qc (cpu_at s1 c) = requeue (thread_at s old) old (queue_contents qc (cpu_at s c))"
    "ct (cpu_at s1 c) = Some old" "thread_at s1 = thread_at s" "current_cpu s1 = current_cpu s"
    "halted_modifier s1 = halted_modifier s"
  proof (cases "blocked (thread_at s old)")
    case True
    then show thesis using that [of s] ct by (simp add: requeue_def)
  next
    case False
    obtain qs where "push_thread D old c s = Some (upd_cpu c (set_queues qs) s)" "length qs = 5"
      "map qc qs = enqueue (unat (priority (thread_at s old))) old (queue_contents qc (cpu_at s c))"
      using push_thread_spec [OF laws _ out] prio False by blast
    then show thesis using that [of "upd_cpu c (set_queues qs) s"] ct False by (simp add: cpu_at_upd_cpu requeue_def)
  qed
  show ?thesis
  proof (cases "sel = old")
    case True
    then show ?thesis using s1 cs by (simp add: context_switch_def unlock_three_spec)
  next
    case False
    let ?s3 = "upd_thread old (copy_registers x) (upd_cpu c (\<lambda>k. k\<lparr>ct := Some sel\<rparr>) s1)"
    have th: "thread_at ?s3 sel = thread_at s sel" "thread_at ?s3 = (thread_at s)(old := copy_registers x (thread_at s old))"
      using False s1(4) by auto
    have "context_switch D S (Some x) c (Some old) (Some sel) s = enter_thread S (Some x) c sel ?s3"
      using False s1(1) cs by (simp add: context_switch_def)
    moreover have "ct (cpu_at ?s3 c) = Some sel" "queue_contents qc (cpu_at ?s3 c) = queue_contents qc (cpu_at s1 c)"
      by (simp_all add: cpu_at_upd_cpu)
    moreover have "current_cpu ?s3 = current_cpu s" "halted_modifier ?s3 = halted_modifier s"
      using s1(5,6) by simp_all
    ultimately show ?thesis
      using enter_thread_spec [of ?s3 c sel S x qc] cont th s1(2) False by auto
  qed
qed

text \<open>While work is queued, the scheduler switches to the thread that the abstract schedule chooses.\<close>

lemma schedule_select:
  fixes s :: "('arr, 'q, 'l, 'h, 'z) kernel_state_scheme"
  assumes laws: "queue_laws D qc" and c: "c = current_cpu s" and free: "cpu_free c s" "thread_modifier s = 0"
    and work: "do_get_priority_count D (cpu_at s c) \<noteq> 0" and once: "distinct (concat (queue_contents qc (cpu_at s c)))"
  obtains sel qs' s5 where "schedule D W S r s = context_switch D S r c (ct (cpu_at s c)) (Some sel) s5"
    "sched_spec (queue_contents qc (cpu_at s c)) = (Some sel, qs')"
    "thread_at s5 = thread_at s" "queue_contents qc (cpu_at s5 c) = qs'" "ct (cpu_at s5 c) = ct (cpu_at s c)"
    "current_cpu s5 = c" "halted_modifier s5 = halted_modifier s" "proc_at s5 = proc_at s"
proof -
  let ?qs = "queues_of (cpu_at s c)"
  obtain sel qs' where sp: "sched_spec (queue_contents qc (cpu_at s c)) = (Some sel, qs')"
    by (rule sched_spec_mset [OF count_pos_queued [OF laws work]]) (rule that, simp add: queue_contents_def)
  obtain q where g: "get_and_update_threads D ?qs = (Some sel, q)" "map qc q = qs'"
    using get_and_update_threads_refines [OF laws length_queues_of, of "cpu_at s c"] sp once
    by (cases "get_and_update_threads D ?qs") (auto simp: queue_contents_def)
  have "length (snd (get_and_update_threads D qs)) = length qs" for qs
    by (auto simp: get_and_update_threads_def first_queue_filter [OF laws] get_and_update_queue_def Let_def
        split: list.splits prod.splits option.splits)
  then have len: "length q = 5" using g(1) by (metis length_queues_of snd_conv)
  let ?s2 = "upd_cpu c (\<lambda>k. k\<lparr>cpu_lock := 1, cpu_sched_lock := 1\<rparr>) s"
  let ?s4 = "?s2\<lparr>thread_modifier := 1\<rparr>"
  have "do_get_priority_count D (cpu_at ?s2 c) \<noteq> 0"
    using work by (simp add: do_get_priority_count_def queues_of_def cpu_at_upd_cpu)
  then have w: "wait_for_thread D W r c ?s2 = Some (r, ?s2)" by (subst wait_for_thread.simps) simp
  have q4: "queues_of (cpu_at ?s4 c) = ?qs" by (simp add: cpu_at_upd_cpu queues_of_def)
  have "lock_cpu c s = Some (upd_cpu c (\<lambda>k. k\<lparr>cpu_lock := 1\<rparr>) s)"
    "lock_sched c (upd_cpu c (\<lambda>k. k\<lparr>cpu_lock := 1\<rparr>) s) = Some ?s2" "lock_threads ?s2 = Some ?s4"
    using free by (simp_all add: lock_cpu_def lock_sched_def lock_threads_def cpu_free_def cpu_at_upd_cpu upd_cpu_upd_cpu)
  then have "schedule D W S r s = context_switch D S r c (ct (cpu_at s c)) (Some sel) (upd_cpu c (set_queues q) ?s4)"
    using w g(1) q4 by (simp add: schedule_def c [symmetric] Let_def cpu_at_upd_cpu)
  then show thesis
    by (rule that [OF _ sp]) (use len g(2) c in \<open>simp_all add: cpu_at_upd_cpu\<close>)
qed

text \<open>One scheduler tick, exactly: what is chosen, where every thread is afterwards and what else changes.\<close>

lemma schedule_tick:
  fixes s :: "('arr, 'q, 'l, 'h, 'z) kernel_state_scheme"
  assumes laws: "queue_laws D qc" and c: "c = current_cpu s" and free: "cpu_free c s" "thread_modifier s = 0"
    and work: "do_get_priority_count D (cpu_at s c) \<noteq> 0" and cs: "r_cs x = 40 OR 3"
    and ct: "ct (cpu_at s c) = Some old"
    and prio: "\<not> blocked (thread_at s old) \<longrightarrow> unat (priority (thread_at s old)) < 5"
    and cont: "\<forall>t. \<not> cnt_present (continuation (thread_at s t))"
    and once: "distinct (old # concat (queue_contents qc (cpu_at s c)))"
  obtains sel qs' s' x' where "schedule D W S (Some x) s = Some (Returned (Some x'), s')"
    "sched_spec (queue_contents qc (cpu_at s c)) = (Some sel, qs')" "ct (cpu_at s' c) = Some sel"
    "queue_contents qc (cpu_at s' c) = requeue (thread_at s old) old qs'"
    "cpu_free c s'" "thread_modifier s' = 0" "current_cpu s' = c" "halted_modifier s' = halted_modifier s"
    "thread_at s' = (if sel = old then thread_at s else (thread_at s)(old := copy_registers x (thread_at s old)))"
    "sel \<noteq> old \<longrightarrow>
       x' = registers_copy (thread_at s sel) (x\<lparr>r_cs := 40 OR 3, r_ss := 32 OR 3, r_ds := 32 OR 3, r_es := 32 OR 3\<rparr>)"
proof (rule schedule_select [OF laws c free work, of W S "Some x"])
  show "distinct (concat (queue_contents qc (cpu_at s c)))" using once by simp
  fix sel qs' s5
  assume run: "schedule D W S (Some x) s = context_switch D S (Some x) c (ct (cpu_at s c)) (Some sel) s5"
    and sp: "sched_spec (queue_contents qc (cpu_at s c)) = (Some sel, qs')"
    and s5: "thread_at s5 = thread_at s" "queue_contents qc (cpu_at s5 c) = qs'" "ct (cpu_at s5 c) = ct (cpu_at s c)"
      "current_cpu s5 = c" "halted_modifier s5 = halted_modifier s"
  have "concat (queue_contents qc (cpu_at s c)) \<noteq> []" using count_pos_queued [OF laws work] by (simp add: queue_contents_def)
  then have "set_mset (mset (concat qs') + {#sel#}) = set (concat (queue_contents qc (cpu_at s c)))"
    by (rule sched_spec_mset) (use sp in \<open>metis fst_conv snd_conv option.inject set_mset_mset\<close>)
  then have out: "old \<notin> set (concat (queue_contents qc (cpu_at s5 c)))" using once s5(2) by auto
  obtain s' x' where r: "context_switch D S (Some x) c (Some old) (Some sel) s5 = Some (Returned (Some x'), s')"
    "ct (cpu_at s' c) = Some sel" "cpu_free c s'" "thread_modifier s' = 0"
    "queue_contents qc (cpu_at s' c) = requeue (thread_at s5 old) old (queue_contents qc (cpu_at s5 c))"
    "current_cpu s' = current_cpu s5" "halted_modifier s' = halted_modifier s5"
    "thread_at s' = (if sel = old then thread_at s5 else (thread_at s5)(old := copy_registers x (thread_at s5 old)))"
    "sel \<noteq> old \<longrightarrow>
       x' = registers_copy (thread_at s5 sel) (x\<lparr>r_cs := 40 OR 3, r_ss := 32 OR 3, r_ds := 32 OR 3, r_es := 32 OR 3\<rparr>)"
    using context_switch_spec [OF laws cs _ out, of sel S] prio cont s5 ct by metis
  show thesis
    by (rule that [of x' s' sel qs']) (use run sp r s5 ct in \<open>simp_all\<close>)
qed

text \<open>The first switch of a processor has no thread to save and no frame to return to.\<close>

lemma schedule_first:
  fixes s :: "('arr, 'q, 'l, 'h, 'z) kernel_state_scheme"
  assumes laws: "queue_laws D qc" and c: "c = current_cpu s" and free: "cpu_free c s" "thread_modifier s = 0"
    and work: "do_get_priority_count D (cpu_at s c) \<noteq> 0" and ct: "ct (cpu_at s c) = None"
    and once: "distinct (concat (queue_contents qc (cpu_at s c)))"
  obtains sel qs' s' where "schedule D W S None s = Some (let th = thread_at s sel
      in UserMode (last_rdi th) (last_rip th) (last_rsp th) (push_bit 9 1) (last_rsi th) (last_rcx th), s')"
    "sched_spec (queue_contents qc (cpu_at s c)) = (Some sel, qs')" "ct (cpu_at s' c) = Some sel"
    "queue_contents qc (cpu_at s' c) = qs'" "cpu_free c s'" "thread_modifier s' = 0" "current_cpu s' = c"
    "halted_modifier s' = halted_modifier s" "thread_at s' = thread_at s"
proof (rule schedule_select [OF laws c free work once, of W S None])
  fix sel qs' s5
  assume run: "schedule D W S None s = context_switch D S None c (ct (cpu_at s c)) (Some sel) s5"
    and sp: "sched_spec (queue_contents qc (cpu_at s c)) = (Some sel, qs')"
    and s5: "thread_at s5 = thread_at s" "queue_contents qc (cpu_at s5 c) = qs'" "ct (cpu_at s5 c) = ct (cpu_at s c)"
      "current_cpu s5 = c" "halted_modifier s5 = halted_modifier s"
  let ?th = "thread_at s sel"
  have "\<exists>s'. context_switch D S None c None (Some sel) s5 =
      Some (UserMode (last_rdi ?th) (last_rip ?th) (last_rsp ?th) (push_bit 9 1) (last_rsi ?th) (last_rcx ?th), s') \<and>
      ct (cpu_at s' c) = Some sel \<and> queue_contents qc (cpu_at s' c) = qs' \<and> cpu_free c s' \<and> thread_modifier s' = 0 \<and>
      current_cpu s' = c \<and> halted_modifier s' = halted_modifier s \<and> thread_at s' = thread_at s"
    using s5 by (simp add: context_switch_def enter_thread_def Let_def cpu_at_upd_cpu unlock_three_def unlock_sched_def
        unlock_cpu_def unlock_threads_def cpu_free_def)
  then show thesis using that [of sel _ qs'] run sp ct by (auto simp: Let_def)
qed

lemma schedule_spec:
  fixes s :: "('arr, 'q, 'l, 'h, 'z) kernel_state_scheme"
  assumes laws: "queue_laws D qc" and c: "c = current_cpu s" and free: "cpu_free c s" "thread_modifier s = 0"
    and work: "do_get_priority_count D (cpu_at s c) \<noteq> 0" and cs: "r_cs x = 40 OR 3"
    and ct: "ct (cpu_at s c) = Some old"
    and prio: "\<not> blocked (thread_at s old) \<longrightarrow> unat (priority (thread_at s old)) < 5"
    and cont: "\<forall>t. \<not> cnt_present (continuation (thread_at s t))"
    and once: "distinct (old # concat (queue_contents qc (cpu_at s c)))"
  shows "\<exists>sel s' x'. schedule D W S (Some x) s = Some (Returned (Some x'), s') \<and> ct (cpu_at s' c) = Some sel \<and>
    (\<exists>i < 5. qc (queues_of (cpu_at s c) ! i) \<noteq> [] \<and> sel = hd (qc (queues_of (cpu_at s c) ! i)) \<and>
       (\<forall>k < i. qc (queues_of (cpu_at s c) ! k) = [])) \<and>
    queued qc (cpu_at s' c) + {#sel#} =
      queued qc (cpu_at s c) + (if blocked (thread_at s old) then {#} else {#old#}) \<and>
    cpu_free c s' \<and> thread_modifier s' = 0 \<and>
    (sel \<noteq> old \<longrightarrow> thread_at s' old = copy_registers x (thread_at s old) \<and>
       x' = registers_copy (thread_at s sel) (x\<lparr>r_cs := 40 OR 3, r_ss := 32 OR 3, r_ds := 32 OR 3, r_es := 32 OR 3\<rparr>))"
proof (rule schedule_tick [OF assms, of W S])
  fix sel qs' s' x'
  assume r: "schedule D W S (Some x) s = Some (Returned (Some x'), s')"
    and sp: "sched_spec (queue_contents qc (cpu_at s c)) = (Some sel, qs')"
    and s': "ct (cpu_at s' c) = Some sel" "queue_contents qc (cpu_at s' c) = requeue (thread_at s old) old qs'"
      "cpu_free c s'" "thread_modifier s' = 0"
    and th: "thread_at s' = (if sel = old then thread_at s else (thread_at s)(old := copy_registers x (thread_at s old)))"
    and x': "sel \<noteq> old \<longrightarrow>
      x' = registers_copy (thread_at s sel) (x\<lparr>r_cs := 40 OR 3, r_ss := 32 OR 3, r_ds := 32 OR 3, r_es := 32 OR 3\<rparr>)"
  have ne: "concat (queue_contents qc (cpu_at s c)) \<noteq> []"
    using count_pos_queued [OF laws work] by (simp add: queue_contents_def)
  have m: "mset (concat qs') + {#sel#} = queued qc (cpu_at s c)" "length qs' = 5"
    and i: "\<exists>i < 5. queue_contents qc (cpu_at s c) ! i \<noteq> [] \<and> sel = hd (queue_contents qc (cpu_at s c) ! i) \<and>
      (\<forall>k < i. queue_contents qc (cpu_at s c) ! k = [])"
    by (rule sched_spec_mset [OF ne]; use sp in \<open>simp add: queued_contents\<close>)+
  have "mset (concat (requeue (thread_at s old) old qs')) =
      mset (concat qs') + (if blocked (thread_at s old) then {#} else {#old#})"
    using prio m(2) by (intro mset_requeue) simp
  then have "queued qc (cpu_at s' c) + {#sel#} = queued qc (cpu_at s c) + (if blocked (thread_at s old) then {#} else {#old#})"
    using m(1) s'(2) by (simp add: queued_contents ac_simps)
  then show ?thesis
    using r s' th x' i by (auto simp: queue_contents_def)
qed


text \<open>
  C14. When a user thread that is not queued is interrupted and the processor's queues hold at least one thread
  and none twice, \<open>schedule\<close> returns with the chosen thread current and all locks free. It chooses the head of
  the highest non-empty queue; counting multiplicities, the queued threads are those from before,
  less the chosen one, plus the interrupted one unless it is blocked; and a different thread gets
  its own saved registers while the interrupted thread's are saved.
\<close>

theorem schedule_keeps_threads:
  fixes s :: "('arr, 'q, 'l, 'h, 'z) kernel_state_scheme"
  assumes laws: "queue_laws D qc" and c: "c = current_cpu s" and free: "cpu_free c s" "thread_modifier s = 0"
    and work: "do_get_priority_count D (cpu_at s c) \<noteq> 0" and cs: "r_cs x = 40 OR 3"
    and ct: "ct (cpu_at s c) = Some old"
    and prio: "\<not> blocked (thread_at s old) \<longrightarrow> unat (priority (thread_at s old)) < 5"
    and cont: "\<forall>t. \<not> cnt_present (continuation (thread_at s t))"
    and once: "distinct (old # concat (queue_contents qc (cpu_at s c)))"
  shows "\<exists>sel s' x'. schedule D W S (Some x) s = Some (Returned (Some x'), s') \<and> ct (cpu_at s' c) = Some sel \<and>
    (\<exists>i < 5. qc (queues_of (cpu_at s c) ! i) \<noteq> [] \<and> sel = hd (qc (queues_of (cpu_at s c) ! i)) \<and>
       (\<forall>k < i. qc (queues_of (cpu_at s c) ! k) = [])) \<and>
    queued qc (cpu_at s' c) + {#sel#} =
      queued qc (cpu_at s c) + (if blocked (thread_at s old) then {#} else {#old#}) \<and>
    cpu_free c s' \<and> thread_modifier s' = 0 \<and>
    (sel \<noteq> old \<longrightarrow> thread_at s' old = copy_registers x (thread_at s old) \<and>
       x' = registers_copy (thread_at s sel) (x\<lparr>r_cs := 40 OR 3, r_ss := 32 OR 3, r_ds := 32 OR 3, r_es := 32 OR 3\<rparr>))"
  by (rule schedule_spec [OF assms])

definition demo_regs :: registers where
  "demo_regs = \<lparr>r15 = 15, r14 = 14, r13 = 13, r12 = 12, r11 = 11, r10 = 10, r9 = 9, r8 = 8, rbp = 0, rcx = 3,
     rbx = 2, rdx = 4, rsi = 5, rdi = 6, r_es = 35, r_ds = 35, r_fs = 0, rax = 1, r_type = 0, r_ecode = 0,
     rip = 0x401000, r_cs = 43, rflags = 0x200, uesp = 0x7000, r_ss = 35\<rparr>"

definition demo_sched :: "(nat list, nat list, nat list, (u64 \<times> nat) list) kernel_state" where
  "demo_sched = demo_kernel\<lparr>cpu_at := \<lambda>_. demo_cpu\<lparr>ct := Some 0, priority_1 := [1, 2]\<rparr>\<rparr>"

lemma demo_sched_fields [simp]:
  "cpu_at demo_sched c = demo_cpu\<lparr>ct := Some 0, priority_1 := [1, 2]\<rparr>" "current_cpu demo_sched = 0"
  "thread_at demo_sched t = demo_thread" "thread_modifier demo_sched = 0" "halted_modifier demo_sched = 0"
  "cpus demo_sched = [0]" "proc_at demo_sched p = demo_proc"
  by (simp_all add: demo_sched_def)

lemma demo_sched_queues:
  "do_get_priority_count demo_ds (demo_cpu\<lparr>ct := Some 0, priority_1 := [1, 2]\<rparr>) \<noteq> 0"
  "distinct (0 # concat (queue_contents (\<lambda>q. q) (demo_cpu\<lparr>ct := Some 0, priority_1 := [1, 2]\<rparr>)))"
  by (simp_all add: do_get_priority_count_def demo_ds_def queue_contents_def queues_of_def demo_cpu_def upt_conv_Cons)

theorem schedule_keeps_threads_witness:
  "\<exists>s' x'. schedule demo_ds (\<lambda>_. None) (\<lambda>r _ s. Some (r, s)) (Some demo_regs) demo_sched = Some (Returned (Some x'), s') \<and>
     ct (cpu_at s' 0) = Some 1 \<and> queued (\<lambda>q. q) (cpu_at s' 0) = {#0, 2#}"
proof -
  note cnt = demo_sched_queues
  obtain sel s' x' where r: "schedule demo_ds (\<lambda>_. None) (\<lambda>r _ s. Some (r, s)) (Some demo_regs) demo_sched = Some (Returned (Some x'), s')"
    "ct (cpu_at s' 0) = Some sel"
    "\<exists>i < 5. queues_of (cpu_at demo_sched 0) ! i \<noteq> [] \<and> sel = hd (queues_of (cpu_at demo_sched 0) ! i) \<and>
       (\<forall>k < i. queues_of (cpu_at demo_sched 0) ! k = [])"
    "queued (\<lambda>q. q) (cpu_at s' 0) + {#sel#} = queued (\<lambda>q. q) (cpu_at demo_sched 0) + {#0#}"
    using schedule_keeps_threads [OF demo_queue_laws refl, of demo_sched demo_regs 0 "\<lambda>_. None" "\<lambda>r _ s. Some (r, s)"] cnt
    by (auto simp: cpu_free_def demo_cpu_def demo_regs_def demo_thread_def)
  obtain i where i: "i < 5" "queues_of (cpu_at demo_sched 0) ! i \<noteq> []" "sel = hd (queues_of (cpu_at demo_sched 0) ! i)"
    "\<forall>k < i. queues_of (cpu_at demo_sched 0) ! k = []" using r(3) by blast
  have "i \<in> {0, 1, 2, 3, 4}" using i(1) by auto
  then have "sel = 1" using i(2-4) by (auto simp: queues_of_def demo_cpu_def)
  with r show ?thesis by (auto simp: queued_def queues_of_def demo_cpu_def)
qed

section \<open>Saved registers\<close>

text \<open>
  Saving the registers of an interrupted thread and restoring them later into any frame gives
  back every general register, the instruction and stack pointers and the flags.
\<close>

theorem registers_roundtrip:
  "registers_copy (copy_registers r t) r' =
     r\<lparr>r_es := r_es r', r_ds := r_ds r', r_fs := r_fs r', r_type := r_type r', r_ecode := r_ecode r',
       r_cs := r_cs r', r_ss := r_ss r'\<rparr>"
  by (simp add: registers_copy_def copy_registers_def)

section \<open>Placement\<close>

lemma enschedule_to_self_spec:
  fixes s :: "('arr, 'q, 'l, 'h, 'z) kernel_state_scheme"
  assumes laws: "queue_laws D qc" and c: "c = current_cpu s" and free: "cpu_free c s" "thread_modifier s = 0"
    and t: "unat (priority (thread_at s t)) < 5" and out: "t \<notin> set (concat (queue_contents qc (cpu_at s c)))"
  obtains s' where "enschedule_to_self E D t s = Some s'" "current_cpu s' = c" "ct (cpu_at s' c) = ct (cpu_at s c)"
    "thread_at s' = thread_at s" "cpu_free c s'" "thread_modifier s' = 0" "halted_modifier s' = halted_modifier s"
    "queue_contents qc (cpu_at s' c) = enqueue (unat (priority (thread_at s t))) t (queue_contents qc (cpu_at s c))"
proof -
  let ?s1 = "(upd_cpu c (\<lambda>k. k\<lparr>cpu_lock := 1, cpu_sched_lock := 1\<rparr>) s)\<lparr>thread_modifier := 1\<rparr>"
  obtain qs where qs: "push_thread D t c ?s1 = Some (upd_cpu c (set_queues qs) ?s1)" "length qs = 5"
    "map qc qs = enqueue (unat (priority (thread_at s t))) t (queue_contents qc (cpu_at s c))"
    using push_thread_spec [OF laws, of ?s1 t c] t out by (auto simp: cpu_at_upd_cpu)
  let ?s' = "unlock_cpu c (unlock_sched c (unlock_threads (upd_cpu c (set_queues qs) ?s1)))"
  have "enschedule_to_self E D t s = Some ?s'"
    using free qs(1) by (simp add: enschedule_to_self_def enschedule_def do_enschedule_def lock_three_eq c)
  then show thesis
    by (rule that) (use qs(2,3) c in \<open>simp_all add: unlock_cpu_def unlock_sched_def unlock_threads_def cpu_at_upd_cpu cpu_free_def\<close>)
qed

lemma get_priority_count_pure:
  "get_priority_count D c s = (if cpu_free c s then Some (do_get_priority_count D (cpu_at s c), s) else None)"
proof -
  have "do_get_priority_count D (k\<lparr>cpu_lock := a, cpu_sched_lock := b\<rparr>) = do_get_priority_count D k" for k a b
    by (simp add: do_get_priority_count_def queues_of_def)
  moreover have "upd_cpu c (\<lambda>k. k\<lparr>cpu_lock := 0, cpu_sched_lock := 0\<rparr>) s = s" if "cpu_free c s"
    using that by (intro upd_cpu_same) (simp add: cpu_free_def)
  ultimately show ?thesis
    by (auto simp: get_priority_count_def lock_cpu_def lock_sched_def unlock_sched_def unlock_cpu_def
        cpu_at_upd_cpu upd_cpu_upd_cpu cpu_free_def)
qed

lemma find_best_cpu_first:
  "find_best_cpu E D s = (if cpu_free (array_get_at E (cpus s) 0) s then Some (array_get_at E (cpus s) 0, s) else None)"
proof -
  have "best_cpu E D is (array_get_at E (cpus s) 0, do_get_priority_count D (cpu_at s (array_get_at E (cpus s) 0))) s =
      Some (array_get_at E (cpus s) 0, s)" if "cpu_free (array_get_at E (cpus s) 0) s" for "is"
    using that by (induction "is") (simp_all add: get_priority_count_pure)
  then show ?thesis by (simp add: find_best_cpu_def get_priority_count_pure)
qed

text \<open>
  \<open>enschedule_best\<close> does not balance: whatever the load of the processors, the thread is put
  on processor 0 of the array.
\<close>

theorem enschedule_best_is_first:
  "enschedule_best E D t s = enschedule E D t (array_get_at E (cpus s) 0) s"
  by (auto simp: enschedule_best_def find_best_cpu_first enschedule_def lock_three_eq)

section \<open>Futexes\<close>

text \<open>
  C18. \<open>futex_wake\<close> never returns when it is called on processor 0 and a thread waits on the
  futex: it takes the processor's locks and then asks for its load, which takes them again.
\<close>

theorem futex_wake_deadlocks:
  assumes "current_cpu s = array_get_at E (cpus s) 0" and "ct (cpu_at s (current_cpu s)) = Some t"
    and "table_get D (table_at s (futexes (proc_at s (parent_process (thread_at s t))))) ftx = Some btl"
    and "list_take_next D (list_at s btl) = Some (w, l)" and "0 < sint num"
  shows "futex_wake E D ftx num s = None"
proof -
  let ?c = "current_cpu s"
  obtain n where n: "nat (sint num) = Suc n" using assms(5) by (cases "nat (sint num)") auto
  have "wake_threads E D btl (Suc n) s1 = None"
    if s1: "lock_four ?c s = Some s1" for s1
  proof -
    have e: "s1 = (upd_cpu ?c (\<lambda>k. k\<lparr>cpu_lock := 1, cpu_sched_lock := 1\<rparr>) s)\<lparr>thread_modifier := 1, halted_modifier := 1\<rparr>"
      using s1 by (auto simp: lock_four_def lock_three_eq split: if_splits)
    have "list_at s1 = list_at s" "cpus s1 = cpus s" by (simp_all add: e upd_cpu_def)
    moreover have "\<not> cpu_free ?c (upd_thread w f (s1\<lparr>list_at := g\<rparr>))" for f g
      by (simp add: e cpu_free_def cpu_at_upd_cpu)
    moreover have "cpus (upd_thread w f (s1\<lparr>list_at := g\<rparr>)) = cpus s" for f g
      using \<open>cpus s1 = cpus s\<close> by (simp add: upd_thread_def)
    ultimately show ?thesis
      using assms(1,4) by (simp add: enschedule_best_nolock_def find_best_cpu_first)
  qed
  moreover have "ct (cpu_at s1 ?c) = Some t \<and> thread_at s1 = thread_at s \<and> proc_at s1 = proc_at s \<and> table_at s1 = table_at s"
    if "lock_four ?c s = Some s1" for s1
    using that assms(2) by (auto simp: lock_four_def lock_three_eq upd_cpu_def split: if_splits)
  ultimately show ?thesis
    using assms(3) n by (cases "lock_four ?c s") (simp_all add: futex_wake_def)
qed

definition demo_futex :: "(nat list, nat list, nat list, (u64 \<times> nat) list) kernel_state" where
  "demo_futex = demo_sched\<lparr>table_at := \<lambda>_. [(0x5000, 7)], list_at := \<lambda>_. [3]\<rparr>"

theorem futex_wake_deadlocks_witness:
  "futex_wake demo_kenv demo_ds 0x5000 1 demo_futex = None"
proof -
  have "current_cpu demo_futex = array_get_at demo_kenv (cpus demo_futex) 0"
    "ct (cpu_at demo_futex (current_cpu demo_futex)) = Some 0"
    by (simp_all add: demo_futex_def demo_kenv_def)
  then show ?thesis
    by (rule futex_wake_deadlocks [of _ _ 0 demo_ds "0x5000" 7 3 "[]" 1])
      (simp_all add: demo_futex_def demo_ds_def)
qed

lemma block_on_fields [simp]:
  "cpu_at (block_on D ftx t s) = cpu_at s" "current_cpu (block_on D ftx t s) = current_cpu s"
  "thread_modifier (block_on D ftx t s) = thread_modifier s" "halted_modifier (block_on D ftx t s) = halted_modifier s"
  "thread_at (block_on D ftx t s) u =
     (if u = t then (thread_at s t)\<lparr>blocked := True\<rparr> else thread_at s u)"
  by (simp_all add: block_on_def Let_def upd_thread_def split: prod.splits option.splits)

text \<open>The wait, exactly: the caller is marked blocked and the scheduler is run once.\<close>

lemma futex_wait_tick:
  fixes s :: "('arr, 'q, 'l, 'h, 'z) kernel_state_scheme"
  assumes laws: "queue_laws D qc" and c: "c = current_cpu s" and free: "cpu_free c s" "thread_modifier s = 0"
      "halted_modifier s = 0"
    and work: "do_get_priority_count D (cpu_at s c) \<noteq> 0" and cs: "r_cs x = 40 OR 3"
    and ct: "ct (cpu_at s c) = Some t" and cont: "\<forall>t. \<not> cnt_present (continuation (thread_at s t))"
    and once: "distinct (t # concat (queue_contents qc (cpu_at s c)))" and val: "user_read32 s ftx = val"
  obtains sel qs' s' x' where "futex_wait D W S (Some x) ftx val s = Some (None, Returned (Some x'), s')"
    "sched_spec (queue_contents qc (cpu_at s c)) = (Some sel, qs')" "ct (cpu_at s' c) = Some sel"
    "queue_contents qc (cpu_at s' c) = qs'"
    "cpu_free c s'" "thread_modifier s' = 0" "current_cpu s' = c" "halted_modifier s' = 0"
    "\<And>u. priority (thread_at s' u) = priority (thread_at s u)"
    "\<And>u. continuation (thread_at s' u) = continuation (thread_at s u)"
    "\<And>u. blocked (thread_at s' u) = (u = t \<or> blocked (thread_at s u))"
proof -
  let ?s1 = "(upd_cpu c (\<lambda>k. k\<lparr>cpu_lock := 1, cpu_sched_lock := 1\<rparr>) s)\<lparr>thread_modifier := 1, halted_modifier := 1\<rparr>"
  let ?s0 = "unlock_four c (block_on D ftx t ?s1)"
  note unlocks = unlock_four_def unlock_cpu_def unlock_sched_def unlock_threads_def
  have l: "lock_four c s = Some ?s1" using free by (simp add: lock_four_def lock_three_eq upd_cpu_def)
  have cpu: "cpu_at ?s0 c = cpu_at s c" using free by (simp add: unlocks cpu_at_upd_cpu cpu_free_def)
  have th: "thread_at ?s0 u = (if u = t then (thread_at s t)\<lparr>blocked := True\<rparr> else thread_at s u)" for u
    by (simp add: unlocks)
  have rest: "c = current_cpu ?s0" "cpu_free c ?s0" "thread_modifier ?s0 = 0" "halted_modifier ?s0 = 0"
    using c free cpu by (simp_all add: unlocks cpu_free_def cpu_at_upd_cpu)
  have b0: "blocked (thread_at ?s0 t)" and w0: "do_get_priority_count D (cpu_at ?s0 c) \<noteq> 0"
    and c0: "ct (cpu_at ?s0 c) = Some t" and n0: "\<forall>t. \<not> cnt_present (continuation (thread_at ?s0 t))"
    using work ct cont by (simp_all add: th cpu)
  have p0: "\<not> blocked (thread_at ?s0 t) \<longrightarrow> unat (priority (thread_at ?s0 t)) < 5" using b0 by blast
  have run: "futex_wait D W S (Some x) ftx val s = map_option (\<lambda>(res, s2). (None, res, s2)) (schedule D W S (Some x) ?s0)"
    using l ct c val
    by (cases "schedule D W S (Some x) ?s0") (simp_all add: futex_wait_def cpu_at_upd_cpu split: prod.splits)
  show thesis
  proof (rule schedule_tick [OF laws rest(1-3) w0 cs c0 p0 n0, of W S])
    show "distinct (t # concat (queue_contents qc (cpu_at ?s0 c)))" using once by (simp add: cpu)
    fix sel qs' s' x'
    assume r: "schedule D W S (Some x) ?s0 = Some (Returned (Some x'), s')"
      "sched_spec (queue_contents qc (cpu_at ?s0 c)) = (Some sel, qs')" "ct (cpu_at s' c) = Some sel"
      "queue_contents qc (cpu_at s' c) = requeue (thread_at ?s0 t) t qs'"
      "cpu_free c s'" "thread_modifier s' = 0" "current_cpu s' = c" "halted_modifier s' = halted_modifier ?s0"
      "thread_at s' = (if sel = t then thread_at ?s0 else (thread_at ?s0)(t := copy_registers x (thread_at ?s0 t)))"
    show thesis
      by (rule that [of x' s' sel qs']) (use r run rest(4) in \<open>simp_all add: cpu requeue_def th copy_registers_def\<close>)
  qed
qed

text \<open>
  \<open>futex_wait\<close> on a futex whose value differs from the expected one fails with
  \<open>EWOULDBLOCK\<close> and changes nothing; otherwise, when work is queued and no lock is held, the
  calling thread is blocked and another thread is entered.
\<close>

theorem futex_wait_blocks:
  fixes s :: "('arr, 'q, 'l, 'h, 'z) kernel_state_scheme"
  assumes laws: "queue_laws D qc" and c: "c = current_cpu s" and free: "cpu_free c s" "thread_modifier s = 0"
      "halted_modifier s = 0"
    and work: "do_get_priority_count D (cpu_at s c) \<noteq> 0" and cs: "r_cs x = 40 OR 3"
    and ct: "ct (cpu_at s c) = Some t" and cont: "\<forall>t. \<not> cnt_present (continuation (thread_at s t))"
    and once: "distinct (t # concat (queue_contents qc (cpu_at s c)))"
  shows "(user_read32 s ftx \<noteq> val \<longrightarrow> futex_wait D W S (Some x) ftx val s = Some (Some EWOULDBLOCK, Returned (Some x), s)) \<and>
    (user_read32 s ftx = val \<longrightarrow> (\<exists>sel s' x'. futex_wait D W S (Some x) ftx val s = Some (None, Returned (Some x'), s') \<and>
       ct (cpu_at s' c) = Some sel \<and> queued qc (cpu_at s' c) + {#sel#} = queued qc (cpu_at s c)))"
proof (intro conjI impI)
  show "futex_wait D W S (Some x) ftx val s = Some (Some EWOULDBLOCK, Returned (Some x), s)" if "user_read32 s ftx \<noteq> val"
    using that by (simp add: futex_wait_def)
  show "\<exists>sel s' x'. futex_wait D W S (Some x) ftx val s = Some (None, Returned (Some x'), s') \<and>
       ct (cpu_at s' c) = Some sel \<and> queued qc (cpu_at s' c) + {#sel#} = queued qc (cpu_at s c)" if "user_read32 s ftx = val"
  proof (rule futex_wait_tick [OF assms that, of W S])
    fix sel qs' s' x'
    assume r: "futex_wait D W S (Some x) ftx val s = Some (None, Returned (Some x'), s')" "ct (cpu_at s' c) = Some sel"
      "queue_contents qc (cpu_at s' c) = qs'" and sp: "sched_spec (queue_contents qc (cpu_at s c)) = (Some sel, qs')"
    have "concat (queue_contents qc (cpu_at s c)) \<noteq> []" using count_pos_queued [OF laws work] by (simp add: queue_contents_def)
    then have "mset (concat qs') + {#sel#} = queued qc (cpu_at s c)"
      by (rule sched_spec_mset) (use sp in \<open>simp add: queued_contents\<close>)
    then show ?thesis using r by (auto simp: queued_contents)
  qed
qed

theorem futex_wait_blocks_witness:
  "\<exists>s' x'. futex_wait demo_ds (\<lambda>_. None) (\<lambda>r _ s. Some (r, s)) (Some demo_regs) 0x5000 0 demo_sched
      = Some (None, Returned (Some x'), s')"
proof -
  note cnt = demo_sched_queues
  have "kmem demo_sched = (\<lambda>_. 0)" by (simp add: demo_sched_def)
  then have "user_read32 demo_sched 0x5000 = 0" by (simp add: user_read32_def numeral_eq_Suc)
  then show ?thesis
    using futex_wait_blocks [OF demo_queue_laws refl, of demo_sched demo_regs 0 "0x5000" 0 "\<lambda>_. None" "\<lambda>r _ s. Some (r, s)"] cnt
    by (auto simp: cpu_free_def demo_cpu_def demo_regs_def demo_thread_def)
qed

end
