(* ===== verification/Clock.thy ===== *)
theory Clock
  imports Scheduler "HOL-Library.Signed_Division"
begin

text \<open>
  The clock (\<open>interrupts/clock.c\<close>): the real-time clock is read through the CMOS ports, its
  fields are converted to Unix time, and the timer interrupt advances it. Port input and output
  are hardware: \<open>io_outb\<close> and \<open>io_inb\<close> act on an abstract device state. The C type \<open>int\<close> is
  \<open>int\<close> here (signed overflow is undefined in C), unsigned 32-bit values wrap explicitly and C's
  division of signed integers is \<open>sdiv\<close>.
\<close>

section \<open>Dates\<close>

definition wrap32 :: "int \<Rightarrow> int" where
  "wrap32 x = x mod 4294967296"

definition to_int32 :: "int \<Rightarrow> int" where
  "to_int32 x = (if x < 2147483648 then x else x - 4294967296)"

text \<open>
  The C types are \<open>int32_t\<close> and \<open>int\<close>; the arithmetic is exact here. The one caller passes a year made of two
  bytes of the real-time clock, far below the years (about 5.8 million) where \<open>era * 146097\<close> would leave the type.
\<close>

definition days_from_civil :: "int \<Rightarrow> int \<Rightarrow> int \<Rightarrow> int" where
  "days_from_civil y0 m d =
     (let y = y0 - (if m \<le> 2 then 1 else 0);
          era = (if 0 \<le> y then y else y - 399) sdiv 400;
          yoe = wrap32 (y - era * 400);
          doy = wrap32 ((153 * (m + (if 2 < m then -3 else 9)) + 2) sdiv 5 + d - 1);
          doe = wrap32 (yoe * 365 + yoe div 4 - yoe div 100 + doy)
      in era * 146097 + to_int32 doe - 719468)"

section \<open>The real-time clock\<close>

record 'd io_env =
  io_outb :: "u16 \<Rightarrow> u8 \<Rightarrow> 'd \<Rightarrow> 'd"
  io_inb :: "u16 \<Rightarrow> 'd \<Rightarrow> u8 \<times> 'd"

definition cmos_address :: u16 where "cmos_address = 0x70"
definition cmos_data :: u16 where "cmos_data = 0x71"

definition get_update_in_progress_flag :: "'d io_env \<Rightarrow> 'd \<Rightarrow> bool \<times> 'd" where
  "get_update_in_progress_flag io d =
     (let (v, d') = io_inb io cmos_data (io_outb io cmos_address 0x0A d) in (v AND 0x80 \<noteq> 0, d'))"

definition get_RTC_register :: "'d io_env \<Rightarrow> u8 \<Rightarrow> 'd \<Rightarrow> u8 \<times> 'd" where
  "get_RTC_register io reg d = io_inb io cmos_data (io_outb io cmos_address reg d)"

record rtc =
  second :: u8
  minute :: u8
  hour :: u8
  day :: u8
  month :: u8
  year :: u32
  century :: u8

partial_function (option) wait_rtc :: "'d io_env \<Rightarrow> 'd \<Rightarrow> 'd option" where
  "wait_rtc io d = (case get_update_in_progress_flag io d of
     (busy, d') \<Rightarrow> if busy then wait_rtc io d' else Some d')"

declare wait_rtc.simps [code]

text \<open>One pass over the registers; without a century register the field keeps its value.\<close>

definition read_rtc :: "'d io_env \<Rightarrow> u8 \<Rightarrow> u8 \<Rightarrow> 'd \<Rightarrow> rtc \<times> 'd" where
  "read_rtc io century_register old_century d0 =
     (let (s, d1) = get_RTC_register io 0x00 d0;
          (mi, d2) = get_RTC_register io 0x02 d1;
          (h, d3) = get_RTC_register io 0x04 d2;
          (dy, d4) = get_RTC_register io 0x07 d3;
          (mo, d5) = get_RTC_register io 0x08 d4;
          (y, d6) = get_RTC_register io 0x09 d5;
          (c, d7) = (if century_register \<noteq> 0 then get_RTC_register io century_register d6 else (old_century, d6))
      in (\<lparr>second = s, minute = mi, hour = h, day = dy, month = mo, year = ucast y, century = c\<rparr>, d7))"

text \<open>
  Reading until two passes agree. \<open>last_year\<close> is an 8-bit copy of the year just read, which
  came from an 8-bit register.
\<close>

partial_function (option) stable_rtc :: "'d io_env \<Rightarrow> u8 \<Rightarrow> rtc \<Rightarrow> 'd \<Rightarrow> (rtc \<times> 'd) option" where
  "stable_rtc io century_register last_rtc d =
     do { d1 \<leftarrow> wait_rtc io d;
          let (t, d2) = read_rtc io century_register (century last_rtc) d1;
          if t = last_rtc then Some (t, d2) else stable_rtc io century_register t d2 }"

declare stable_rtc.simps [code]

definition bcd :: "'a::len word \<Rightarrow> 'a word" where
  "bcd x = (x AND 0x0F) + (x div 16) * 10"

definition rtc_to_binary :: "u8 \<Rightarrow> u8 \<Rightarrow> rtc \<Rightarrow> rtc" where
  "rtc_to_binary registerB century_register t =
     (if registerB AND 0x04 = 0 then
        t\<lparr>second := bcd (second t), minute := bcd (minute t),
          hour := ((hour t AND 0x0F) + ((hour t AND 0x70) div 16) * 10) OR (hour t AND 0x80),
          day := bcd (day t), month := bcd (month t), year := bcd (year t),
          century := (if century_register \<noteq> 0 then bcd (century t) else century t)\<rparr>
      else t)"

definition hour_to_24 :: "u8 \<Rightarrow> rtc \<Rightarrow> rtc" where
  "hour_to_24 registerB t =
     (if registerB AND 0x02 = 0 \<and> hour t AND 0x80 \<noteq> 0
      then t\<lparr>hour := ((hour t AND 0x7F) + 12) mod 24\<rparr> else t)"

definition full_year :: "u8 \<Rightarrow> rtc \<Rightarrow> rtc" where
  "full_year century_register t =
     (if century_register \<noteq> 0 then t\<lparr>year := year t + ucast (century t) * 100\<rparr>
      else let y = year t + 2000 in t\<lparr>year := (if y < 2016 then y + 100 else y)\<rparr>)"

section \<open>Ticks\<close>

record clock =
  clock_s :: u64
  clock_ms :: u64

definition initialize_ticker :: "'d io_env \<Rightarrow> rtc \<Rightarrow> 'd \<Rightarrow> clock \<times> 'd" where
  "initialize_ticker io t d =
     (let days = days_from_civil (uint (year t)) (uint (month t)) (uint (day t));
          clk = \<lparr>clock_s = word_of_int days * (3600 * 24) +
                   word_of_int (uint (hour t) * 3600 + uint (minute t) * 60 + uint (second t)),
                 clock_ms = 0\<rparr>;
          divisor = (1193180 div 1193 :: u32);
          d1 = io_outb io 0x43 0x36 d;
          d2 = io_outb io 0x40 (ucast (divisor AND 0xFF)) d1
      in (clk, io_outb io 0x40 (ucast (drop_bit 8 divisor AND 0xFF)) d2))"

definition initialize_clock :: "'d io_env \<Rightarrow> u8 \<Rightarrow> 'd \<Rightarrow> (clock \<times> 'd) option" where
  "initialize_clock io century_register d =
     do { d1 \<leftarrow> wait_rtc io d;
          let (t0, d2) = read_rtc io century_register 20 d1;
          (t1, d3) \<leftarrow> stable_rtc io century_register t0 d2;
          let (registerB, d4) = get_RTC_register io 0x0B d3;
          let t = full_year century_register (hour_to_24 registerB (rtc_to_binary registerB century_register t1));
          Some (initialize_ticker io t d4) }"

definition advance_clock :: "clock \<Rightarrow> clock" where
  "advance_clock k =
     (let ms = clock_ms k + 1
      in if 1000 \<le> ms then \<lparr>clock_s = clock_s k + 1, clock_ms = ms - 1000\<rparr> else k\<lparr>clock_ms := ms\<rparr>)"

definition timer_tick :: "('arr, ('arr, 'q, 'z) smp_state_scheme) smp_env \<Rightarrow> ('q, 'l, 'h) ds_env \<Rightarrow> (nat \<Rightarrow> nat) \<Rightarrow> bool
    \<Rightarrow> registers option \<Rightarrow> clock \<Rightarrow> ('arr, 'q, 'z) smp_state_scheme
    \<Rightarrow> (registers option \<times> clock \<times> ('arr, 'q, 'z) smp_state_scheme) option" where
  "timer_tick E D pick scheduler_enabled r k s =
     (let k' = advance_clock k
      in if scheduler_enabled \<and> clock_ms k' mod 2 = 0
         then map_option (\<lambda>(r', s'). (r', k', s')) (attemp_to_run_scheduler E D pick 0 0 r s)
         else Some (r, k', s))"

definition get_unix_time :: "clock \<Rightarrow> u64" where "get_unix_time k = clock_s k"
definition get_unix_time_ms :: "clock \<Rightarrow> u64" where "get_unix_time_ms k = clock_ms k"

text \<open>The busy wait reads the clock once per turn: \<open>now n\<close> is the \<open>n\<close>-th reading.\<close>

partial_function (option) busy_wait :: "(nat \<Rightarrow> clock) \<Rightarrow> nat \<Rightarrow> clock \<Rightarrow> u64 \<Rightarrow> nat option" where
  "busy_wait now n old milis =
     (if milis = 0 then Some n
      else let k = now n;
               totaldiff = (clock_s k - clock_s old) * 1000 + (clock_ms k - clock_ms old)
           in if milis < totaldiff then Some (Suc n) else busy_wait now (Suc n) k (milis - totaldiff))"

declare busy_wait.simps [code]

definition busy_wait_milis :: "(nat \<Rightarrow> clock) \<Rightarrow> u64 \<Rightarrow> nat option" where
  "busy_wait_milis now milis = busy_wait now 1 (now 0) milis"

text \<open>
  Readings of a clock that runs: in milliseconds they do not decrease, grow by less than 1000 from one reading
  to the next and pass every bound.
\<close>

definition clock_runs :: "(nat \<Rightarrow> clock) \<Rightarrow> (nat \<Rightarrow> nat) \<Rightarrow> bool" where
  "clock_runs now T \<longleftrightarrow>
     (\<forall>i. clock_s (now i) * 1000 + clock_ms (now i) = of_nat (T i)) \<and>
     (\<forall>i. T i \<le> T (Suc i) \<and> T (Suc i) < T i + 1000) \<and> (\<forall>x. \<exists>i. x \<le> T i)"

lemma clock_runs_mono: "clock_runs now T \<Longrightarrow> i \<le> j \<Longrightarrow> T i \<le> T j"
  by (rule lift_Suc_mono_le) (simp_all add: clock_runs_def)

lemma busy_wait_until:
  assumes "clock_runs now T" and "T n + unat milis \<le> T i"
  shows "\<exists>k. busy_wait now (Suc n) (now n) milis = Some k"
  using assms(2)
proof (induction "i - n" arbitrary: n milis)
  case 0
  then have "T i \<le> T n" using clock_runs_mono [OF assms(1)] by simp
  then have "milis = 0" using 0 by (metis add_leD2 add_le_same_cancel1 le_trans le_zero_eq unat_eq_0)
  then show ?case by (subst busy_wait.simps) simp
next
  case (Suc m)
  let ?d = "clock_s (now (Suc n)) * 1000 + clock_ms (now (Suc n)) - (clock_s (now n) * 1000 + clock_ms (now n))"
  have T: "T n \<le> T (Suc n)" "T (Suc n) < T n + 1000" using assms(1) by (simp_all add: clock_runs_def)
  have "?d = of_nat (T (Suc n)) - of_nat (T n)" using assms(1) by (simp only: clock_runs_def)
  also have "\<dots> = of_nat (T (Suc n) - T n)" using T(1) by (simp add: of_nat_diff)
  finally have "?d = of_nat (T (Suc n) - T n)" .
  moreover have "unat (of_nat (T (Suc n) - T n) :: u64) = T (Suc n) - T n" using T by (intro unat_of_nat_u64) simp
  ultimately have "unat ?d = T (Suc n) - T n" by (simp only:)
  moreover have "(clock_s (now (Suc n)) - clock_s (now n)) * 1000 + (clock_ms (now (Suc n)) - clock_ms (now n)) = ?d"
    by (simp add: algebra_simps)
  ultimately obtain d where d: "(clock_s (now (Suc n)) - clock_s (now n)) * 1000 + (clock_ms (now (Suc n)) - clock_ms (now n)) = d"
    "unat d = T (Suc n) - T n" by metis
  have step: "busy_wait now (Suc n) (now n) milis = (if milis = 0 then Some (Suc n) else if milis < d then Some (Suc (Suc n))
      else busy_wait now (Suc (Suc n)) (now (Suc n)) (milis - d))"
    by (subst busy_wait.simps) (simp only: Let_def d(1))
  show ?case
  proof (cases "milis = 0 \<or> milis < d")
    case True
    then show ?thesis by (auto simp: step)
  next
    case False
    then have le: "d \<le> milis" by (simp add: not_less)
    have "unat (milis - d) = unat milis - unat d" using le by (simp add: unat_sub word_le_nat_alt)
    moreover have "unat d \<le> unat milis" using le by (simp add: word_le_nat_alt)
    ultimately have "T (Suc n) + unat (milis - d) \<le> T i" using Suc.prems d(2) T(1) by simp
    moreover have "m = i - Suc n" using Suc.hyps(2) by simp
    ultimately obtain k where "busy_wait now (Suc (Suc n)) (now (Suc n)) (milis - d) = Some k"
      using Suc.hyps(1) by blast
    then show ?thesis using False by (simp add: step)
  qed
qed

text \<open>The busy wait ends on a clock that runs.\<close>

lemma busy_wait_milis_returns:
  assumes "clock_runs now T"
  shows "\<exists>k. busy_wait_milis now milis = Some k"
proof -
  obtain i where "T 0 + unat milis \<le> T i" using assms unfolding clock_runs_def by blast
  from busy_wait_until [OF assms this] show ?thesis by (simp add: busy_wait_milis_def)
qed

section \<open>The calendar\<close>

definition is_leap :: "int \<Rightarrow> bool" where
  "is_leap y \<longleftrightarrow> 4 dvd y \<and> (\<not> 100 dvd y \<or> 400 dvd y)"

definition month_days :: "int \<Rightarrow> int \<Rightarrow> int" where
  "month_days y m = (if m = 2 then (if is_leap y then 29 else 28) else if m \<in> {4, 6, 9, 11} then 30 else 31)"

definition valid_date :: "int \<Rightarrow> int \<Rightarrow> int \<Rightarrow> bool" where
  "valid_date y m d \<longleftrightarrow> 1 \<le> m \<and> m \<le> 12 \<and> 1 \<le> d \<and> d \<le> month_days y m"

definition next_date :: "int \<Rightarrow> int \<Rightarrow> int \<Rightarrow> int \<times> int \<times> int" where
  "next_date y m d =
     (if d < month_days y m then (y, m, d + 1) else if m < 12 then (y, m + 1, 1) else (y + 1, 1, 1))"

lemma month_days_bound: "month_days y m \<le> 31"
  by (simp add: month_days_def)

text \<open>In range no step wraps, and the count is a closed formula in the year that starts in March.\<close>

lemma days_closed:
  assumes "1 \<le> m" "m \<le> 12" "1 \<le> d" "d \<le> 31"
  shows "days_from_civil y0 m d =
    (let y = y0 - (if m \<le> 2 then 1 else 0); mp = m + (if 2 < m then -3 else 9)
     in 365 * y + y div 4 - y div 100 + y div 400 + (153 * mp + 2) div 5 + d - 1 - 719468)"
proof -
  define y where "y = y0 - (if m \<le> 2 then 1 else 0)"
  define mp where "mp = m + (if 2 < m then -3 else 9)"
  have mp: "0 \<le> mp" "mp \<le> 11" using assms by (auto simp: mp_def)
  have era: "(if 0 \<le> y then y else y - 399) sdiv 400 = y div 400"
  proof (cases "0 \<le> y")
    case False
    then have "(y - 399) sdiv 400 = - ((399 - y) div 400)" by (simp add: signed_divide_int_def sgn_if)
    moreover have "(399 - y) div 400 = - (y div 400)"
      by (rule int_div_pos_eq [where r = "399 - y mod 400"]) (simp_all add: algebra_simps minus_mult_div_eq_mod [symmetric] pos_mod_bound [of 400 y, simplified] less_imp_le)
    ultimately show ?thesis using False by simp
  qed (simp add: signed_divide_int_def sgn_if)
  have yoe: "wrap32 (y - y div 400 * 400) = y mod 400"
    by (simp add: wrap32_def minus_div_mult_eq_mod)
  have doy: "wrap32 ((153 * mp + 2) sdiv 5 + d - 1) = (153 * mp + 2) div 5 + d - 1"
    using mp assms by (simp add: wrap32_def signed_divide_int_def sgn_if)
  let ?doe = "y mod 400 * 365 + y mod 400 div 4 - y mod 400 div 100 + ((153 * mp + 2) div 5 + d - 1)"
  have b: "0 \<le> ?doe" "?doe < 2147483648"
  proof -
    have "0 \<le> y mod 400" "y mod 400 < 400" by simp_all
    then have "0 \<le> y mod 400 * 365 + y mod 400 div 4 - y mod 400 div 100"
      "y mod 400 * 365 + y mod 400 div 4 - y mod 400 div 100 \<le> 400 * 365 + 100" by linarith+
    moreover have "0 \<le> (153 * mp + 2) div 5" "(153 * mp + 2) div 5 \<le> 337" using mp by linarith+
    ultimately show "0 \<le> ?doe" "?doe < 2147483648" using assms by linarith+
  qed
  then have doe: "to_int32 (wrap32 ?doe) = ?doe" by (simp add: wrap32_def to_int32_def)
  have "y div 400 * 146097 + (y mod 400 * 365 + y mod 400 div 4 - y mod 400 div 100) =
      365 * y + y div 4 - y div 100 + y div 400"
  proof -
    have m: "y mod 400 = y - 400 * (y div 400)" by (simp add: minus_mult_div_eq_mod)
    have "y mod 400 = y + (- 100 * (y div 400)) * 4" "y mod 400 = y + (- 4 * (y div 400)) * 100" using m by simp_all
    then have "y mod 400 div 4 = y div 4 - 100 * (y div 400)" "y mod 400 div 100 = y div 100 - 4 * (y div 400)"
      by (metis add.commute div_mult_self1 minus_mult_left uminus_add_conv_diff zero_neq_numeral)+
    then show ?thesis using m by linarith
  qed
  then show ?thesis
    unfolding days_from_civil_def Let_def
    by (fold y_def mp_def) (simp only: era yoe doy doe)
qed


lemma div_pred:
  assumes "0 < (k :: int)"
  shows "y div k = (y - 1) div k + (if k dvd y then 1 else 0)"
proof (cases "k dvd y")
  case True
  then obtain q where q: "y = k * q" by blast
  have "(y - 1) div k = q - 1"
    by (rule int_div_pos_eq [where r = "k - 1"]) (use assms in \<open>simp_all add: q algebra_simps\<close>)
  then show ?thesis using True q assms by simp
next
  case False
  then have "0 < y mod k" using assms by (simp add: dvd_eq_mod_eq_0 order_less_le)
  moreover have "y mod k < k" using assms by simp
  ultimately have "(y - 1) div k = y div k"
    by (intro int_div_pos_eq [where r = "y mod k - 1"]) (simp_all add: algebra_simps)
  then show ?thesis using False by simp
qed

lemma leap_cases:
  "(p400 \<Longrightarrow> p100) \<Longrightarrow> (p100 \<Longrightarrow> p4) \<Longrightarrow>
   (a + (if p4 then 1 else 0)) + ((c + (if p400 then 1 else 0)) - (b + (if p100 then 1 else 0))) =
     (if p4 \<and> (\<not> p100 \<or> p400) then 1 else 0) + (a + (c - b :: int))"
  by (cases p4; cases p100; cases p400) simp_all

lemma february_end:
  "(y :: int) div 4 + (y div 400 - y div 100) =
     (if is_leap y then 1 else 0) + ((y - 1) div 4 + ((y - 1) div 400 - (y - 1) div 100))"
proof -
  have D: "y div 4 = (y - 1) div 4 + (if 4 dvd y then 1 else 0)" "y div 100 = (y - 1) div 100 + (if 100 dvd y then 1 else 0)"
    "y div 400 = (y - 1) div 400 + (if 400 dvd y then 1 else 0)" by (rule div_pred; simp)+
  show ?thesis unfolding is_leap_def
    by (subst D(1), subst D(2), subst D(3), rule leap_cases) (erule dvd_trans [rotated], simp)+
qed

text \<open>
  C22. \<open>days_from_civil\<close> is the day count of the Gregorian calendar: 1 January 1970 is day 0 and the
  day after any valid date, with the calendar's month lengths and leap years, counts one more.
\<close>

theorem days_from_civil_counts_days:
  "days_from_civil 1970 1 1 = 0 \<and>
   (valid_date y m d \<longrightarrow> (case next_date y m d of (y', m', d') \<Rightarrow>
      days_from_civil y' m' d' = days_from_civil y m d + 1))"
proof
  show "days_from_civil 1970 1 1 = 0" by (simp add: days_closed)
  show "valid_date y m d \<longrightarrow> (case next_date y m d of (y', m', d') \<Rightarrow>
      days_from_civil y' m' d' = days_from_civil y m d + 1)"
  proof
    assume v: "valid_date y m d"
    then have r: "1 \<le> m" "m \<le> 12" "1 \<le> d" "d \<le> 31" using month_days_bound [of y m] by (auto simp: valid_date_def)
    consider "d < month_days y m" | "d = month_days y m" "m < 12" | "d = month_days y m" "m = 12"
      using v r unfolding valid_date_def by linarith
    then show "case next_date y m d of (y', m', d') \<Rightarrow> days_from_civil y' m' d' = days_from_civil y m d + 1"
    proof cases
      case 1
      then have "d + 1 \<le> 31" using month_days_bound [of y m] by simp
      with 1 r show ?thesis by (simp add: next_date_def days_closed Let_def)
    next
      case 2
      have "m \<in> {1, 2, 3, 4, 5, 6, 7, 8, 9, 10, 11}" using r(1) 2(2) unfolding insert_iff empty_iff by presburger
      moreover have "m = 2 \<Longrightarrow> ?thesis"
        using 2 february_end [of y] by (simp add: next_date_def days_closed Let_def month_days_def)
      ultimately show ?thesis
        using 2 by (auto simp: next_date_def days_closed Let_def month_days_def)
    next
      case 3
      then show ?thesis by (simp add: next_date_def days_closed Let_def month_days_def)
    qed
  qed
qed

theorem days_from_civil_counts_days_witness:
  "days_from_civil 2016 3 1 = days_from_civil 2016 2 29 + 1"
  using days_from_civil_counts_days [of 2016 2 29]
  by (simp add: valid_date_def next_date_def month_days_def is_leap_def)

section \<open>Ticks and fields\<close>

definition clock_total :: "clock \<Rightarrow> nat" where
  "clock_total k = unat (clock_s k) * 1000 + unat (clock_ms k)"

text \<open>
  C23. Each timer tick advances the clock by exactly one millisecond and keeps the millisecond
  part below 1000, until the seconds counter wraps.
\<close>

theorem timer_tick_advances:
  assumes "unat (clock_ms k) < 1000" and "unat (clock_s k) + 1 < 18446744073709551616"
    and "timer_tick E D pick en r k s = Some (r', k', s')"
  shows "clock_total k' = clock_total k + 1 \<and> unat (clock_ms k') < 1000"
proof -
  have k': "k' = advance_clock k" using assms(3) by (auto simp: timer_tick_def Let_def split: if_splits)
  have ms: "unat (clock_ms k + 1) = unat (clock_ms k) + 1" using assms(1) by (simp add: unat_add_no_wrap)
  show ?thesis
  proof (cases "1000 \<le> clock_ms k + 1")
    case True
    then have "unat (clock_ms k) = 999" using ms assms(1) by (simp add: word_le_nat_alt)
    moreover have "unat (clock_ms k + 1 - 1000) = 0"
      using True ms calculation by (subst unat_sub) simp_all
    moreover have "unat (clock_s k + 1) = unat (clock_s k) + 1" using assms(2) by (simp add: unat_add_no_wrap)
    ultimately show ?thesis using True by (simp add: k' advance_clock_def clock_total_def)
  next
    case False
    then show ?thesis using ms by (simp add: k' advance_clock_def clock_total_def word_le_nat_alt)
  qed
qed

theorem timer_tick_advances_witness:
  "\<exists>r' k' s'. timer_tick demo_kenv demo_ds (\<lambda>_. 0) False None \<lparr>clock_s = 5, clock_ms = 999\<rparr> demo_kernel = Some (r', k', s') \<and>
     clock_total k' = 6000"
proof -
  obtain r' k' s' where t: "timer_tick demo_kenv demo_ds (\<lambda>_. 0) False None \<lparr>clock_s = 5, clock_ms = 999\<rparr> demo_kernel = Some (r', k', s')"
    by (simp add: timer_tick_def Let_def)
  then show ?thesis using timer_tick_advances [OF _ _ t] by (simp add: clock_total_def)
qed

lemma bcd_decodes:
  assumes "v < 100"
  shows "bcd (of_nat (16 * (v div 10) + v mod 10) :: u8) = of_nat v"
proof -
  define n where "n = 16 * (v div 10) + v mod 10"
  define x where "x = (of_nat n :: u8)"
  have n: "n < 256" using assms by (simp add: n_def)
  then have u: "unat x = n" by (simp add: x_def unsigned_of_nat take_bit_eq_mod)
  have "x AND 0x0F = take_bit 4 x" by (simp add: take_bit_eq_mask mask_eq_exp_minus_1)
  then have lo: "unat (x AND 0x0F) = v mod 10"
    by (simp add: take_bit_eq_mod unat_mod_distrib u n_def)
  have hi: "unat (x div 16) = v div 10" by (simp add: unat_div_distrib u n_def)
  have "unat (bcd x) = (v mod 10 + v div 10 * 10) mod 256"
    by (simp add: bcd_def unat_word_ariths(1,2) lo hi mod_simps del: unat_div_distrib)
  also have "\<dots> = v" using assms by simp
  finally have "unat (bcd x) = unat (of_nat v :: u8)" using assms by (simp add: unsigned_of_nat take_bit_eq_mod)
  then show ?thesis by (simp add: word_unat_eq_iff x_def n_def)
qed

text \<open>
  The binary-coded fields of the real-time clock are decoded to the values they encode, and
  the 12-hour conversion is right except at 12: noon (12 pm) becomes hour 0.
\<close>

theorem rtc_conversion:
  "(\<forall>v \<in> {0..<100}. bcd (of_nat (16 * (v div 10) + v mod 10) :: u8) = of_nat v) \<and>
   (\<forall>h \<in> {1..<12}. hour (hour_to_24 0 (t\<lparr>hour := of_nat h OR 0x80\<rparr>)) = of_nat (h + 12)) \<and>
   hour (hour_to_24 0 (t\<lparr>hour := 12 OR 0x80\<rparr>)) = 0"
proof (intro conjI)
  show "\<forall>v \<in> {0..<100}. bcd (of_nat (16 * (v div 10) + v mod 10) :: u8) = of_nat v"
    using bcd_decodes by simp
  have "\<forall>h \<in> set [1..<12]. (((of_nat h OR 0x80) AND 0x7F) + 12) mod 24 = (of_nat (h + 12) :: u8) \<and> (of_nat h OR 0x80) AND 0x80 \<noteq> (0 :: u8)"
    by code_simp
  then show "\<forall>h \<in> {1..<12}. hour (hour_to_24 0 (t\<lparr>hour := of_nat h OR 0x80\<rparr>)) = of_nat (h + 12)"
    by (simp add: hour_to_24_def)
  show "hour (hour_to_24 0 (t\<lparr>hour := 12 OR 0x80\<rparr>)) = 0" by (simp add: hour_to_24_def)
qed


theorem rtc_conversion_witness:
  "bcd (0x59 :: u8) = 59 \<and> (\<forall>t. hour (hour_to_24 0 (t\<lparr>hour := 12 OR 0x80\<rparr>)) = 0)"
proof -
  have "(59 :: nat) \<in> {0..<100}" by simp
  then show ?thesis using rtc_conversion by fastforce
qed

end
