(* ===== verification/Daemons.thy ===== *)
theory Daemons
  imports Scheduler
begin

text \<open>
  The registry of daemon services (\<open>processes/daemons.c\<close>): a table from service names to process
  ids behind one lock. The string table is a KCLib container; its operations are fields of
  \<open>daemon_env\<close>. The state extends the kernel state with the registry and the system call table.
\<close>

record ('arr, 'q, 'l, 'h, 'd) sys_state = "('arr, 'q, 'l, 'h) kernel_state" +
  daemon_registration_lock :: u64
  dr_table :: 'd
  syscalls :: "nat \<Rightarrow> syscall"

record 'd daemon_env =
  table_contains :: "'d \<Rightarrow> string \<Rightarrow> bool"
  dtable_set :: "'d \<Rightarrow> string \<Rightarrow> u64 \<Rightarrow> bool \<times> 'd"
  dtable_get :: "'d \<Rightarrow> string \<Rightarrow> u64"

definition SERVICE_DDM :: string where "SERVICE_DDM = ''::device-driver-manager''"
definition SERVICE_FRAMEBUFFER :: string where "SERVICE_FRAMEBUFFER = ''::service::internal::framebuffer''"

definition lock_daemons :: "('arr, 'q, 'l, 'h, 'd, 'z) sys_state_scheme \<Rightarrow> ('arr, 'q, 'l, 'h, 'd, 'z) sys_state_scheme option" where
  "lock_daemons s = (if daemon_registration_lock s \<noteq> 0 then None else Some (s\<lparr>daemon_registration_lock := 1\<rparr>))"

definition unlock_daemons :: "('arr, 'q, 'l, 'h, 'd, 'z) sys_state_scheme \<Rightarrow> ('arr, 'q, 'l, 'h, 'd, 'z) sys_state_scheme" where
  "unlock_daemons s = s\<lparr>daemon_registration_lock := 0\<rparr>"

definition set_cnt_present :: "nat \<Rightarrow> ('arr, 'q, 'l, 'h, 'z) kernel_state_scheme \<Rightarrow> ('arr, 'q, 'l, 'h, 'z) kernel_state_scheme" where
  "set_cnt_present t s = upd_thread t (\<lambda>k. k\<lparr>continuation := (continuation k)\<lparr>cnt_present := True\<rparr>\<rparr>) s"

interpretation daemon_spin: spin_lock "\<lambda>s. daemon_registration_lock s \<noteq> 0" lock_daemons unlock_daemons
  by unfold_locales (auto simp: lock_daemons_def unlock_daemons_def split: if_splits)

text \<open>\<open>c\<close> is the thread whose continuation the caller passes. \<open>Inl\<close> is an error code.\<close>

definition register_daemon_service :: "'d daemon_env \<Rightarrow> u64 \<Rightarrow> string \<Rightarrow> bool \<Rightarrow> nat \<Rightarrow> ('arr, 'q, 'l, 'h, 'd, 'z) sys_state_scheme
    \<Rightarrow> ((errno + u64) \<times> ('arr, 'q, 'l, 'h, 'd, 'z) sys_state_scheme) option" where
  "register_daemon_service T process service overwrite_old c s =
     do { s1 \<leftarrow> lock_daemons s;
          (if table_contains T (dr_table s1) service \<and> \<not> overwrite_old then Some (Inr (- 1), s1)
           else let (err, tab) = dtable_set T (dr_table s1) service process
                in if err then Some (Inl ENOMEM_INTERNAL, unlock_daemons (set_cnt_present c (s1\<lparr>dr_table := tab\<rparr>)))
                   else Some (Inr (dtable_get T tab service), unlock_daemons (s1\<lparr>dr_table := tab\<rparr>))) }"

definition daemon_registered :: "'d daemon_env \<Rightarrow> string \<Rightarrow> ('arr, 'q, 'l, 'h, 'd, 'z) sys_state_scheme
    \<Rightarrow> (bool \<times> ('arr, 'q, 'l, 'h, 'd, 'z) sys_state_scheme) option" where
  "daemon_registered T service s =
     do { s1 \<leftarrow> lock_daemons s; Some (table_contains T (dr_table s1) service, unlock_daemons s1) }"

definition is_daemon_process :: "'d daemon_env \<Rightarrow> u64 \<Rightarrow> string \<Rightarrow> ('arr, 'q, 'l, 'h, 'd, 'z) sys_state_scheme
    \<Rightarrow> (bool \<times> ('arr, 'q, 'l, 'h, 'd, 'z) sys_state_scheme) option" where
  "is_daemon_process T process service s =
     do { s1 \<leftarrow> lock_daemons s;
          (if \<not> table_contains T (dr_table s1) service then Some (False, unlock_daemons s1)
           else Some (dtable_get T (dr_table s1) service = process, unlock_daemons s1)) }"

definition initialize_daemon_services :: "'d \<Rightarrow> ('arr, 'q, 'l, 'h, 'd, 'z) sys_state_scheme
    \<Rightarrow> ('arr, 'q, 'l, 'h, 'd, 'z) sys_state_scheme" where
  "initialize_daemon_services empty_table s = s\<lparr>daemon_registration_lock := 0, dr_table := empty_table\<rparr>"

section \<open>Properties\<close>

text \<open>What the code relies on of the string table.\<close>

definition table_laws :: "'d daemon_env \<Rightarrow> bool" where
  "table_laws T \<longleftrightarrow>
     (\<forall>t k v t'. dtable_set T t k v = (False, t') \<longrightarrow> table_contains T t' k \<and> dtable_get T t' k = v \<and>
        (\<forall>k'. k' \<noteq> k \<longrightarrow> table_contains T t' k' = table_contains T t k' \<and> dtable_get T t' k' = dtable_get T t k')) \<and>
     (\<forall>t k v t'. dtable_set T t k v = (True, t') \<longrightarrow> t' = t)"

text \<open>
  Registering a service name that is new returns the registering process, after which the
  service is registered and belongs to exactly that process; other services are not affected and
  the lock is free. Registering a name that is taken is refused, but with the registry's lock
  held for ever: every later operation on the registry blocks.
\<close>

theorem register_daemon_service_spec:
  assumes laws: "table_laws T" and lock: "daemon_registration_lock s = 0"
    and run: "register_daemon_service T process service False c s = Some (r, s')"
  shows "if table_contains T (dr_table s) service then
      r = Inr (- 1) \<and> daemon_registered T name s' = None \<and> is_daemon_process T p name s' = None \<and>
      register_daemon_service T p name ow c' s' = None
    else
      (r = Inl ENOMEM_INTERNAL \<and> dr_table s' = dr_table s \<or>
       r = Inr process \<and> is_daemon_process T p service s' = Some (p = process, s') \<and>
       (name \<noteq> service \<longrightarrow> daemon_registered T name s' = map_option (\<lambda>(b, _). (b, s')) (daemon_registered T name s))) \<and>
      daemon_registration_lock s' = 0"
proof (cases "table_contains T (dr_table s) service")
  case True
  then have "r = Inr (- 1)" "daemon_registration_lock s' = 1"
    using run lock by (auto simp: register_daemon_service_def lock_daemons_def)
  with True show ?thesis
    by (simp add: daemon_registered_def is_daemon_process_def register_daemon_service_def lock_daemons_def)
next
  case False
  obtain err tab where e: "dtable_set T (dr_table s) service process = (err, tab)" by fastforce
  show ?thesis
  proof (cases err)
    case True
    then have "tab = dr_table s" using e laws unfolding table_laws_def by (metis (full_types))
    with True False e run lock show ?thesis
      by (auto simp: register_daemon_service_def lock_daemons_def unlock_daemons_def set_cnt_present_def upd_thread_def)
  next
    case ok: False
    then have t: "table_contains T tab service" "dtable_get T tab service = process"
      "\<forall>k'. k' \<noteq> service \<longrightarrow> table_contains T tab k' = table_contains T (dr_table s) k'"
      using e laws unfolding table_laws_def by (metis (full_types))+
    have "r = Inr process" "dr_table s' = tab" "daemon_registration_lock s' = 0"
      using run lock False e ok t by (auto simp: register_daemon_service_def lock_daemons_def unlock_daemons_def)
    moreover from this have "s'\<lparr>daemon_registration_lock := 0\<rparr> = s'" by simp
    ultimately show ?thesis
      using False t lock
      by (auto simp: is_daemon_process_def daemon_registered_def lock_daemons_def unlock_daemons_def)
  qed
qed

definition demo_tab :: "(string \<times> u64) list daemon_env" where
  "demo_tab = \<lparr>table_contains = \<lambda>t k. map_of t k \<noteq> None, dtable_set = \<lambda>t k v. (False, (k, v) # t),
     dtable_get = \<lambda>t k. (case map_of t k of Some v \<Rightarrow> v | None \<Rightarrow> 0)\<rparr>"

definition demo_sys :: "(nat list, nat list, nat list, (u64 \<times> nat) list, (string \<times> u64) list) sys_state" where
  "demo_sys = kernel_state.extend demo_kernel
     \<lparr>daemon_registration_lock = 0, dr_table = [(''::device-driver-manager'', 5)],
      syscalls = (\<lambda>_. \<lparr>sc_present = False, uses_error = False, unsafe = False, args = 0, sc_fn = None\<rparr>)\<rparr>"

lemma demo_sys_daemons [simp]:
  "daemon_registration_lock demo_sys = 0" "dr_table demo_sys = [(''::device-driver-manager'', 5)]"
  by (simp_all add: demo_sys_def kernel_state.defs)

lemma demo_table_laws: "table_laws demo_tab"
  by (simp add: table_laws_def demo_tab_def)

theorem register_daemon_service_spec_witness:
  "\<exists>r s'. register_daemon_service demo_tab 7 SERVICE_DDM False 0 demo_sys = Some (r, s') \<and>
     daemon_registered demo_tab SERVICE_DDM s' = None"
proof -
  obtain r s' where r: "register_daemon_service demo_tab 7 SERVICE_DDM False 0 demo_sys = Some (r, s')"
    by (auto simp: register_daemon_service_def lock_daemons_def demo_tab_def SERVICE_DDM_def)
  have "table_contains demo_tab (dr_table demo_sys) SERVICE_DDM" by (simp add: demo_tab_def SERVICE_DDM_def)
  then show ?thesis
    using register_daemon_service_spec [OF demo_table_laws _ r, of SERVICE_DDM 0 False 0] r by auto
qed

end
