(* ===== verification/User_Memory.thy ===== *)
theory User_Memory
  imports Scheduler
begin

text \<open>
  Memory accesses of the kernel through virtual addresses. An address in the lower half belongs to
  the current process and is translated with the active page tables; an address in the upper half is
  kernel memory. Also the loads of 16 and 32 bits.
\<close>

definition ld16 :: "store \<Rightarrow> u64 \<Rightarrow> u16" where "ld16 m a = ucast (read_bytes 2 m a)"
definition ld32 :: "store \<Rightarrow> u64 \<Rightarrow> u32" where "ld32 m a = ucast (read_bytes 4 m a)"

text \<open>Where the processor finds the byte at a user address, with the active tables.\<close>

definition user_loc :: "'a mm_state_scheme \<Rightarrow> u64 \<Rightarrow> u64" where
  "user_loc s a = physical_to_virtual s (ALIGN (pte s (active_page s) a)) + (a - ALIGN a)"

definition user_read8 :: "'a mm_state_scheme \<Rightarrow> u64 \<Rightarrow> u8" where
  "user_read8 s a = kmem s (user_loc s a)"

definition user_read64 :: "'a mm_state_scheme \<Rightarrow> u64 \<Rightarrow> u64" where
  "user_read64 s a = read_bytes 8 (\<lambda>i. user_read8 s i) a"

primrec user_store :: "u64 \<Rightarrow> u8 list \<Rightarrow> 'a mm_state_scheme \<Rightarrow> 'a mm_state_scheme" where
  "user_store a [] s = s"
| "user_store a (b # bs) s = user_store (a + 1) bs (s\<lparr>kmem := (kmem s)(user_loc s a := b)\<rparr>)"

definition bytes_of :: "nat \<Rightarrow> u64 \<Rightarrow> u8 list" where
  "bytes_of n v = map (\<lambda>i. ucast (drop_bit (8 * i) v)) [0..<n]"

text \<open>All of memory as the running kernel sees it.\<close>

definition vmem :: "'a mm_state_scheme \<Rightarrow> store" where
  "vmem s = (\<lambda>a. if a < 0x800000000000 then user_read8 s a else kmem s a)"

text \<open>
  The checksum of a message: the sum of its bytes in 64 bits, computed by the library that sends it and by
  the kernel.
\<close>

definition MESSAGE_SIZE :: nat where "MESSAGE_SIZE = 0x19980"

definition message_sum :: "store \<Rightarrow> u64 \<Rightarrow> u64" where
  "message_sum m a = fold (\<lambda>i v. v + ucast (m (a + of_nat i))) [0..<MESSAGE_SIZE] 0"

end
