(* ===== verification/Elf_Loader.thy ===== *)
theory Elf_Loader
  imports User_Memory
begin

text \<open>
  The ELF loader (\<open>loader/elf.c\<close>). The image lies in kernel memory; headers, section headers and
  symbols are read from it at the offsets of the packed structures of \<open>elf.h\<close>, and the loader
  writes \<open>sh_addr\<close> and \<open>sh_offset\<close> of the section headers in place. Alignment 0 (a division
  by zero), a NULL area and a process without a thread do not return (\<open>None\<close>).
\<close>

section \<open>Structures\<close>

datatype elf_error = ELF_ERROR_NOTCLASS64 | ELF_ERROR_NOTDATA2LSB | ELF_ERROR_NOT_EXEC_EXEC_REQUIRED
  | ELF_ERROR_HEADER_MAGIC_INCORRECT | ELF_ERROR_MACHINE_INVALID | ELF_ERROR_VERSION_NOT_CURRENT
  | ELF_ERROR_RELOC_ERROR_SYM_INDEX_OUT_OF_RANGE | ELF_ERROR_RELOC_ERROR_SYM_EXTERNAL_NOT_FOUND
  | ELF_ERROR_SECTION_OVERLAPS | ELF_ERROR_UNSUPPORTED_SECTION_TYPE_FIXADDR | ELF_ERROR_ENOMEM

record elf64_hdr =
  e_ident :: "nat \<Rightarrow> u8"
  e_type :: u16
  e_machine :: u16
  e_version :: u32
  e_entry :: u64
  e_shoff :: u64
  e_shnum :: u16
  e_shstrndx :: u16

definition elf_header_at :: "store \<Rightarrow> u64 \<Rightarrow> elf64_hdr" where
  "elf_header_at m a = \<lparr>e_ident = \<lambda>i. m (a + of_nat i), e_type = ld16 m (a + 16), e_machine = ld16 m (a + 18),
     e_version = ld32 m (a + 20), e_entry = read64 m (a + 24), e_shoff = read64 m (a + 40),
     e_shnum = ld16 m (a + 60), e_shstrndx = ld16 m (a + 62)\<rparr>"

record elf64_shdr =
  sh_type :: u32
  sh_flags :: u64
  sh_addr :: u64
  sh_offset :: u64
  sh_size :: u64
  sh_link :: u32
  sh_addralign :: u64
  sh_entsize :: u64

definition shdr_at :: "store \<Rightarrow> u64 \<Rightarrow> elf64_shdr" where
  "shdr_at m a = \<lparr>sh_type = ld32 m (a + 4), sh_flags = read64 m (a + 8), sh_addr = read64 m (a + 16),
     sh_offset = read64 m (a + 24), sh_size = read64 m (a + 32), sh_link = ld32 m (a + 40),
     sh_addralign = read64 m (a + 48), sh_entsize = read64 m (a + 56)\<rparr>"

record elf64_sym =
  st_name :: u32
  st_info :: u8
  st_shndx :: u16
  st_value :: u64

definition sym_at :: "store \<Rightarrow> u64 \<Rightarrow> elf64_sym" where
  "sym_at m a = \<lparr>st_name = ld32 m a, st_info = m (a + 4), st_shndx = ld16 m (a + 6), st_value = read64 m (a + 8)\<rparr>"

section \<open>Headers and symbols\<close>

definition check_elf_header :: "elf64_hdr \<Rightarrow> elf_error option" where
  "check_elf_header h =
     (if e_ident h 0 \<noteq> 0x7F then Some ELF_ERROR_HEADER_MAGIC_INCORRECT
      else if e_ident h 1 \<noteq> 0x45 then Some ELF_ERROR_HEADER_MAGIC_INCORRECT
      else if e_ident h 2 \<noteq> 0x4C then Some ELF_ERROR_HEADER_MAGIC_INCORRECT
      else if e_ident h 3 \<noteq> 0x46 then Some ELF_ERROR_HEADER_MAGIC_INCORRECT
      else if e_ident h 4 \<noteq> 2 then Some ELF_ERROR_NOTCLASS64
      else if e_ident h 5 \<noteq> 1 then Some ELF_ERROR_NOTDATA2LSB
      else if e_machine h \<noteq> 62 then Some ELF_ERROR_MACHINE_INVALID
      else if e_version h \<noteq> 1 then Some ELF_ERROR_VERSION_NOT_CURRENT
      else None)"

definition elf_lookup_symbol :: "u64 \<Rightarrow> u64 option" where
  "elf_lookup_symbol name = None"

definition elf_section_header :: "elf64_hdr \<Rightarrow> u64 \<Rightarrow> u64" where
  "elf_section_header h base = base + e_shoff h"

definition elf_section :: "elf64_hdr \<Rightarrow> u64 \<Rightarrow> u64 \<Rightarrow> u64" where
  "elf_section h base idx = elf_section_header h base + idx * 64"

definition elf_string_table :: "store \<Rightarrow> elf64_hdr \<Rightarrow> u64 \<Rightarrow> u64 option" where
  "elf_string_table m h base =
     (if e_shstrndx h = 0 then None
      else Some (base + sh_offset (shdr_at m (elf_section h base (ucast (e_shstrndx h))))))"

definition elf_string :: "store \<Rightarrow> elf64_hdr \<Rightarrow> u64 \<Rightarrow> u32 \<Rightarrow> u64 option" where
  "elf_string m h base offset = map_option (\<lambda>tab. tab + scast offset) (elf_string_table m h base)"

text \<open>\<open>Inl\<close> sets \<open>*error\<close>; the value returned with it is 0. A zero entry size does not return.\<close>

definition elf_symbol_value :: "store \<Rightarrow> elf64_hdr \<Rightarrow> u64 \<Rightarrow> u64 \<Rightarrow> u64 \<Rightarrow> (elf_error + u64) option" where
  "elf_symbol_value m h base table idx =
     (if table = 0 \<or> idx = 0 then Some (Inr 0)
      else let symtab = shdr_at m (elf_section h base table)
           in if sh_entsize symtab = 0 then None
              else if sh_size symtab div sh_entsize symtab \<le> idx
              then Some (Inl ELF_ERROR_RELOC_ERROR_SYM_INDEX_OUT_OF_RANGE)
              else let sym = sym_at m (base + sh_offset symtab + idx * 24)
                   in if st_shndx sym = 0 then
                        let strtab = shdr_at m (elf_section h base (ucast (sh_link symtab)));
                            name = base + sh_offset strtab + ucast (st_name sym)
                        in case elf_lookup_symbol name of
                             None \<Rightarrow> if drop_bit 4 (st_info sym) AND 2 \<noteq> 0 then Some (Inr 0)
                                     else Some (Inl ELF_ERROR_RELOC_ERROR_SYM_EXTERNAL_NOT_FOUND)
                           | Some v \<Rightarrow> Some (Inr v)
                      else if st_shndx sym = 0xFFF1 then Some (Inr (st_value sym))
                      else Some (Inr (base + st_value sym +
                             sh_offset (shdr_at m (elf_section h base (ucast (st_shndx sym)))))))"

section \<open>Loading sections\<close>

text \<open>
  Fills a section whose area is \<open>[va, va + n)\<close>: \<open>sec\<close> is the address of its header and \<open>fixed\<close>
  tells the two loops apart, of which only the second records the address.
\<close>

definition fill_section :: "nat \<Rightarrow> u64 \<Rightarrow> bool \<Rightarrow> u64 \<Rightarrow> u64 \<Rightarrow> u64 \<Rightarrow> ('arr, 'q, 'l, 'h, 'z) kernel_state_scheme
    \<Rightarrow> elf_error option \<times> ('arr, 'q, 'l, 'h, 'z) kernel_state_scheme" where
  "fill_section p base fixed sec va n s =
     (let sh = shdr_at (kmem s) sec; cr3 = pml4 (proc_at s p)
      in if sh_type sh = 8 then
           (None, assign (sec + 24) (base - va) (memset_dpgs cr3 va 0 n s))
         else if sh_type sh = 1 then
           let s1 = memcpy_dpgs cr3 (active_page s) va (base + sh_offset sh) n s
           in (None, if fixed then s1 else assign (sec + 16) va s1)
         else (Some ELF_ERROR_UNSUPPORTED_SECTION_TYPE_FIXADDR, s))"

text \<open>A section with a fixed address. An overlap gives a NULL pointer, which is dereferenced.\<close>

definition load_fixed :: "('arr, ('arr, 'q, 'l, 'h, 'z) kernel_state_scheme) smp_env \<Rightarrow> nat \<Rightarrow> u64 \<Rightarrow> u64
    \<Rightarrow> ('arr, 'q, 'l, 'h, 'z) kernel_state_scheme \<Rightarrow> (elf_error option \<times> ('arr, 'q, 'l, 'h, 'z) kernel_state_scheme) option" where
  "load_fixed E p base sec s =
     (let sh = shdr_at (kmem s) sec
      in if sh_type sh = 0 \<or> sh_flags sh AND 2 = 0 \<or> sh_addr sh = 0 \<or> sh_size sh = 0 then Some (None, s)
         else case request_va_hole (mem_maps (proc_at s p)) (sh_addr sh) (sh_size sh) of
           None \<Rightarrow> None
         | Some (i, ms) \<Rightarrow>
             do { let area = (ms ! i)\<lparr>mtype := program_data\<rparr>;
                  let s1 = upd_proc p (\<lambda>q. q\<lparr>mem_maps := ms[i := area]\<rparr>) s;
                  (ok, s2) \<leftarrow> allocate E (vastart area) (vaend area - vastart area) False False (pml4 (proc_at s1 p)) s1;
                  Some (if \<not> ok then (Some ELF_ERROR_ENOMEM, s2)
                        else fill_section p base True sec (vastart area) (vaend area - vastart area) s2) })"

text \<open>A section without an address is placed anywhere.\<close>

definition load_floating :: "('arr, ('arr, 'q, 'l, 'h, 'z) kernel_state_scheme) smp_env \<Rightarrow> ('q, 'l, 'h) ds_env \<Rightarrow> nat \<Rightarrow> u64 \<Rightarrow> u64
    \<Rightarrow> ('arr, 'q, 'l, 'h, 'z) kernel_state_scheme \<Rightarrow> (elf_error option \<times> ('arr, 'q, 'l, 'h, 'z) kernel_state_scheme) option" where
  "load_floating E D p base sec s =
     (let sh = shdr_at (kmem s) sec
      in if sh_type sh = 0 \<or> sh_flags sh AND 2 = 0 \<or> sh_addr sh \<noteq> 0 \<or> sh_size sh = 0 then Some (None, s)
         else if sh_addralign sh = 0 then None
         else do { let (i, s1) = take_va_hole D p (sh_size sh) (sh_addralign sh) program_data s;
                   let area = mem_maps (proc_at s1 p) ! i;
                   (ok, s2) \<leftarrow> allocate E (vastart area) (vaend area - vastart area) False False (pml4 (proc_at s1 p)) s1;
                   Some (if \<not> ok then (Some ELF_ERROR_ENOMEM, s2)
                         else fill_section p base False sec (vastart area) (vaend area - vastart area) s2) })"

fun each_section :: "(u64 \<Rightarrow> 's \<Rightarrow> (elf_error option \<times> 's) option) \<Rightarrow> u64 list \<Rightarrow> 's \<Rightarrow> (elf_error option \<times> 's) option" where
  "each_section f [] s = Some (None, s)"
| "each_section f (sec # secs) s =
     (case f sec s of
        None \<Rightarrow> None
      | Some (Some e, s1) \<Rightarrow> Some (Some e, s1)
      | Some (None, s1) \<Rightarrow> each_section f secs s1)"

definition sections_of :: "elf64_hdr \<Rightarrow> u64 \<Rightarrow> u64 list" where
  "sections_of h base = map (\<lambda>i. elf_section h base (of_nat i)) [0..<unat (e_shnum h)]"

definition load_elf_stage_one :: "('arr, ('arr, 'q, 'l, 'h, 'z) kernel_state_scheme) smp_env \<Rightarrow> ('q, 'l, 'h) ds_env
    \<Rightarrow> elf64_hdr \<Rightarrow> u64 \<Rightarrow> nat \<Rightarrow> ('arr, 'q, 'l, 'h, 'z) kernel_state_scheme
    \<Rightarrow> (elf_error option \<times> ('arr, 'q, 'l, 'h, 'z) kernel_state_scheme) option" where
  "load_elf_stage_one E D h base p s =
     (case each_section (load_fixed E p base) (sections_of h base) s of
        None \<Rightarrow> None
      | Some (Some e, s1) \<Rightarrow> Some (Some e, s1)
      | Some (None, s1) \<Rightarrow> each_section (load_floating E D p base) (sections_of h base) s1)"

definition protect_section :: "('arr, ('arr, 'q, 'l, 'h, 'z) kernel_state_scheme) smp_env \<Rightarrow> nat \<Rightarrow> u64
    \<Rightarrow> ('arr, 'q, 'l, 'h, 'z) kernel_state_scheme \<Rightarrow> (elf_error option \<times> ('arr, 'q, 'l, 'h, 'z) kernel_state_scheme) option" where
  "protect_section E p sec s =
     (let sh = shdr_at (kmem s) sec
      in if sh_type sh \<noteq> 0 \<and> sh_flags sh AND 2 \<noteq> 0 \<and> sh_addr sh \<noteq> 0 \<and> sh_flags sh AND 1 = 0
         then map_option (Pair None)
                (mem_change_type E (sh_addr sh) (sh_size sh) CHNG_TYPE_RW False (pml4 (proc_at s p)) s)
         else Some (None, s))"

definition load_elf_stage_two :: "('arr, ('arr, 'q, 'l, 'h, 'z) kernel_state_scheme) smp_env
    \<Rightarrow> elf64_hdr \<Rightarrow> u64 \<Rightarrow> nat \<Rightarrow> ('arr, 'q, 'l, 'h, 'z) kernel_state_scheme
    \<Rightarrow> (elf_error option \<times> ('arr, 'q, 'l, 'h, 'z) kernel_state_scheme) option" where
  "load_elf_stage_two E h base p s = each_section (protect_section E p) (sections_of h base) s"

definition load_elf_general :: "('arr, ('arr, 'q, 'l, 'h, 'z) kernel_state_scheme) smp_env \<Rightarrow> ('q, 'l, 'h) ds_env
    \<Rightarrow> elf64_hdr \<Rightarrow> u64 \<Rightarrow> nat \<Rightarrow> ('arr, 'q, 'l, 'h, 'z) kernel_state_scheme
    \<Rightarrow> (elf_error option \<times> ('arr, 'q, 'l, 'h, 'z) kernel_state_scheme) option" where
  "load_elf_general E D h base p s =
     (case load_elf_stage_one E D h base p s of
        None \<Rightarrow> None
      | Some (Some e, s1) \<Rightarrow> Some (Some e, s1)
      | Some (None, s1) \<Rightarrow> load_elf_stage_two E h base p s1)"

definition BASE_STACK_SIZE :: u64 where "BASE_STACK_SIZE = 0x1000000"

definition load_elf_exec :: "('arr, ('arr, 'q, 'l, 'h, 'z) kernel_state_scheme) smp_env \<Rightarrow> ('q, 'l, 'h) ds_env
    \<Rightarrow> u64 \<Rightarrow> nat \<Rightarrow> ('arr, 'q, 'l, 'h, 'z) kernel_state_scheme
    \<Rightarrow> (elf_error option \<times> ('arr, 'q, 'l, 'h, 'z) kernel_state_scheme) option" where
  "load_elf_exec E D img p s =
     (let h = elf_header_at (kmem s) img
      in case check_elf_header h of
           Some e \<Rightarrow> Some (Some e, s)
         | None \<Rightarrow>
             if e_type h \<noteq> 2 then Some (Some ELF_ERROR_NOT_EXEC_EXEC_REQUIRED, s)
             else if threads (proc_at s p) = [] then None
             else let t = threads (proc_at s p) ! 0;
                      s1 = upd_thread t (\<lambda>k. k\<lparr>last_rip := e_entry h\<rparr>) s
                  in case load_elf_general E D h img p s1 of
                       None \<Rightarrow> None
                     | Some (Some e, s2) \<Rightarrow> Some (Some e, s2)
                     | Some (None, s2) \<Rightarrow>
                         do { let (i, s3) = take_va_hole D p BASE_STACK_SIZE 0x1000 stack_data s2;
                              let area = mem_maps (proc_at s3 p) ! i;
                              (ok, s4) \<leftarrow> allocate E (vastart area) BASE_STACK_SIZE False False (pml4 (proc_at s3 p)) s3;
                              Some (if \<not> ok then (Some ELF_ERROR_ENOMEM, s4)
                                    else (None, upd_thread t (\<lambda>k. k\<lparr>stack_bottom_address := vastart area,
                                        stack_top_address := vaend area, last_rsp := vaend area\<rparr>)
                                      (memset_dpgs (pml4 (proc_at s4 p)) (vastart area) 0 BASE_STACK_SIZE s4))) })"


section \<open>Properties\<close>

lemma find_hole_index: "fst (find_hole ms st h need) \<le> length ms"
  by (induction ms arbitrary: st h) (auto simp: Let_def split: prod.splits, metis fst_conv)

lemma take_va_hole_area:
  assumes "take_va_hole D p req al t s = (i, s1)"
  shows "vaend (mem_maps (proc_at s1 p) ! i) = vastart (mem_maps (proc_at s1 p) ! i) + req"
proof -
  let ?ms = "mem_maps (proc_at s p)"
  obtain j st0 hole where h: "find_hole ?ms 0x1000 0x800000000000 (req + al) = (j, st0, hole)" using prod_cases3 by blast
  have j: "j \<le> length ?ms" using find_hole_index [of ?ms "0x1000" "0x800000000000" "req + al"] by (simp add: h)
  then show ?thesis
    using assms by (auto simp: take_va_hole_def find_va_hole_def h Let_def proc_at_upd_proc list_update_append nth_append
        new_area_def)
qed

text \<open>
  C24. A program that is not a 64-bit little-endian x86-64 executable is rejected with an error and no
  change of state. When loading succeeds the header was valid and the main thread's stack is an
  area of 16 MB whose top is the initial stack pointer.
\<close>

theorem load_elf_exec_result:
  assumes "load_elf_exec E D img p s = Some (r, s')"
  shows "if check_elf_header (elf_header_at (kmem s) img) = None \<and> e_type (elf_header_at (kmem s) img) = 2
    then r = None \<longrightarrow>
      (let th = thread_at s' (threads (proc_at s p) ! 0)
       in last_rsp th = stack_top_address th \<and> stack_top_address th = stack_bottom_address th + BASE_STACK_SIZE)
    else r \<noteq> None \<and> s' = s"
proof (cases "check_elf_header (elf_header_at (kmem s) img) = None \<and> e_type (elf_header_at (kmem s) img) = 2")
  case False
  then have "r \<noteq> None \<and> s' = s"
  proof (cases "check_elf_header (elf_header_at (kmem s) img)")
    case None
    then show ?thesis using False assms by (auto simp: load_elf_exec_def Let_def)
  next
    case (Some e)
    then have "load_elf_exec E D img p s = Some (Some e, s)" by (simp add: load_elf_exec_def Let_def)
    then show ?thesis using assms by simp
  qed
  with False show ?thesis by (subst if_not_P)
next
  case True
  have "last_rsp (thread_at s' (threads (proc_at s p) ! 0)) = stack_top_address (thread_at s' (threads (proc_at s p) ! 0)) \<and>
      stack_top_address (thread_at s' (threads (proc_at s p) ! 0)) =
        stack_bottom_address (thread_at s' (threads (proc_at s p) ! 0)) + BASE_STACK_SIZE" if "r = None"
    using assms True that
    by (auto simp: load_elf_exec_def Let_def bind_eq_Some_conv take_va_hole_area
        split: option.splits prod.splits if_splits)
  with True show ?thesis by (simp add: Let_def)
qed

theorem load_elf_exec_result_witness:
  "load_elf_exec demo_kenv demo_ds 0x1000 0 demo_kernel = Some (Some ELF_ERROR_HEADER_MAGIC_INCORRECT, demo_kernel)"
proof -
  have z: "check_elf_header (elf_header_at (kmem demo_kernel) 0x1000) = Some ELF_ERROR_HEADER_MAGIC_INCORRECT"
    by (simp add: check_elf_header_def elf_header_at_def)
  then have r: "load_elf_exec demo_kenv demo_ds 0x1000 0 demo_kernel = Some (Some ELF_ERROR_HEADER_MAGIC_INCORRECT, demo_kernel)"
    by (simp add: load_elf_exec_def Let_def)
  then show ?thesis using load_elf_exec_result [OF r] z by simp
qed

end
