(* ===== verification/Process_Create.thy ===== *)
theory Process_Create
  imports Elf_Loader
begin

text \<open>
  Creation of processes (\<open>processes/process.c\<close>): the first kernel process, processes from an ELF
  image, and the first stage of staged creation. The kernel heap is KCLib's: which request succeeds and at
  which address is the parameter \<open>kmalloc\<close>. The model gives every request a number, which
  serves as the pointer of the object, and keeps the objects that are not yet freed, so that leaks
  are visible. The nodes of a process's address map are elements of \<open>mem_maps\<close> and are not counted as objects.
  A NULL pointer is \<open>None\<close>; handing NULL to a KCLib destructor, halting in \<open>error\<close> and
  a held lock do not return.
\<close>

section \<open>The kernel heap\<close>

datatype kobj = k_bytes u64 | k_temp_proc | k_proc | k_thread | k_continuation | k_fds | k_threads | k_table | k_queue | k_list

text \<open>The pointer fields of \<open>proc_t\<close> and, below, of its main thread.\<close>

record proc_parts =
  pp_fds :: "nat option"
  pp_threads :: "nat option"
  pp_futexes :: "nat option"
  pp_input_buffer :: "nat option"
  pp_pq_input_buffer :: "nat option"
  pp_blocked_wait_messages :: "nat option"
  pp_temp_processes :: "nat option"

datatype proc_state = CP1

record temp_proc =
  cstate :: proc_state
  tp_process :: nat

record kheap =
  next_obj :: nat
  live :: "nat \<Rightarrow> kobj option"
  parts_at :: "nat \<Rightarrow> proc_parts"
  temp_at :: "nat \<Rightarrow> temp_proc"

record ('q, 'l, 'h) new_env =
  kmalloc :: "nat \<Rightarrow> kobj \<Rightarrow> u64 option"
  array_push_ok :: "nat \<Rightarrow> bool"
  new_table :: 'h
  new_list :: 'l
  new_queue :: 'q
  rg_create_random_generator :: "u64 \<Rightarrow> u64"

definition kalloc :: "('q, 'l, 'h) new_env \<Rightarrow> kobj \<Rightarrow> kheap \<Rightarrow> (nat \<times> u64) option \<times> kheap" where
  "kalloc A k h =
     (let n = next_obj h; h1 = h\<lparr>next_obj := Suc n\<rparr>
      in case kmalloc A n k of
           None \<Rightarrow> (None, h1)
         | Some a \<Rightarrow> (Some (n, a), h1\<lparr>live := (live h1)(n := Some k)\<rparr>))"

definition knew :: "('q, 'l, 'h) new_env \<Rightarrow> kobj \<Rightarrow> kheap \<Rightarrow> nat option \<times> kheap" where
  "knew A k h = (case kalloc A k h of (r, h1) \<Rightarrow> (map_option fst r, h1))"

definition kfree :: "nat option \<Rightarrow> kheap \<Rightarrow> kheap option" where
  "kfree p h = (case p of None \<Rightarrow> None | Some n \<Rightarrow> Some (h\<lparr>live := (live h)(n := None)\<rparr>))"

primrec kfree_all :: "nat option list \<Rightarrow> kheap \<Rightarrow> kheap option" where
  "kfree_all [] h = Some h"
| "kfree_all (p # ps) h = do { h1 \<leftarrow> kfree p h; kfree_all ps h1 }"

text \<open>An error return after the given objects are freed in order.\<close>

definition fail_with :: "errno \<Rightarrow> nat option list \<Rightarrow> 's \<Rightarrow> kheap \<Rightarrow> ((errno + 'r) \<times> 's \<times> kheap) option" where
  "fail_with e ps s h = do { h1 \<leftarrow> kfree_all ps h; Some (Inl e, s, h1) }"

section \<open>Blank objects\<close>

definition zero_syscall :: syscall where
  "zero_syscall = \<lparr>sc_present = False, uses_error = False, unsafe = False, args = 0, sc_fn = None\<rparr>"

definition zero_continuation :: continuation where
  "zero_continuation = \<lparr>cnt_syscall = zero_syscall, cnt_0 = 0, cnt_1 = 0, cnt_2 = 0, cnt_3 = 0, cnt_4 = 0, cnt_present = False\<rparr>"

definition zero_thread :: thread where
  "zero_thread = \<lparr>tId = 0, parent_process = 0, priority = 0, blocked = False, continuation = zero_continuation,
     last_rip = 0, last_rsp = 0, last_rax = 0, last_rdi = 0, last_rsi = 0, last_rdx = 0, last_rcx = 0,
     last_r8 = 0, last_r9 = 0, last_r10 = 0, last_r11 = 0, last_rbx = 0, last_rbp = 0, last_r12 = 0, last_r13 = 0,
     last_r14 = 0, last_r15 = 0, last_rflags = 0, stack_top_address = 0, stack_bottom_address = 0,
     local_info = 0, futex_block = 0\<rparr>"

definition MESSAGE_BUFFER_CNT :: nat where "MESSAGE_BUFFER_CNT = 30"

definition zero_proc :: "'q \<Rightarrow> 'q proc" where
  "zero_proc q = \<lparr>proc_id = 0, parent = None, pprocess = False, pml4 = 0, proc_random = 0, environ = 0,
     argv = 0, argc = 0, threads = [], proc_priority = 0, mem_maps = [], ob_lock = 0,
     output_buffer = replicate MESSAGE_BUFFER_CNT \<lparr>msg_used = False, msg_owner = 0, msg_message = 0\<rparr>,
     input_buffer = q, pq_input_buffer = q, futexes = 0, blocked_wait_messages = 0, proc_temp_processes = 0\<rparr>"

definition no_parts :: proc_parts where
  "no_parts = \<lparr>pp_fds = None, pp_threads = None, pp_futexes = None, pp_input_buffer = None,
     pp_pq_input_buffer = None, pp_blocked_wait_messages = None, pp_temp_processes = None\<rparr>"

text \<open>The containers a process or a thread got, installed in the stores; a NULL container has no contents.\<close>

definition new_list_at :: "('q, 'l, 'h) new_env \<Rightarrow> nat option \<Rightarrow> ('arr, 'q, 'l, 'h, 'z) kernel_state_scheme
    \<Rightarrow> ('arr, 'q, 'l, 'h, 'z) kernel_state_scheme" where
  "new_list_at A p s = (case p of None \<Rightarrow> s | Some n \<Rightarrow> s\<lparr>list_at := (list_at s)(n := new_list A)\<rparr>)"

definition new_table_at :: "('q, 'l, 'h) new_env \<Rightarrow> nat option \<Rightarrow> ('arr, 'q, 'l, 'h, 'z) kernel_state_scheme
    \<Rightarrow> ('arr, 'q, 'l, 'h, 'z) kernel_state_scheme" where
  "new_table_at A p s = (case p of None \<Rightarrow> s | Some n \<Rightarrow> s\<lparr>table_at := (table_at s)(n := new_table A)\<rparr>)"

definition install_process :: "('q, 'l, 'h) new_env \<Rightarrow> nat \<Rightarrow> 'q proc \<Rightarrow> proc_parts \<Rightarrow> ('arr, 'q, 'l, 'h, 'z) kernel_state_scheme
    \<Rightarrow> ('arr, 'q, 'l, 'h, 'z) kernel_state_scheme" where
  "install_process A p pr ps s =
     upd_proc p (\<lambda>_. pr\<lparr>futexes := (case pp_futexes ps of None \<Rightarrow> 0 | Some n \<Rightarrow> n),
        blocked_wait_messages := (case pp_blocked_wait_messages ps of None \<Rightarrow> 0 | Some n \<Rightarrow> n),
        proc_temp_processes := (case pp_temp_processes ps of None \<Rightarrow> 0 | Some n \<Rightarrow> n)\<rparr>)
       (new_table_at A (pp_futexes ps) (new_list_at A (pp_blocked_wait_messages ps)
         (new_list_at A (pp_temp_processes ps) s)))"

definition lock_proclist :: "('arr, 'q, 'l, 'h, 'z) kernel_state_scheme \<Rightarrow> ('arr, 'q, 'l, 'h, 'z) kernel_state_scheme option" where
  "lock_proclist s = (if proclist_lock s \<noteq> 0 then None else Some (s\<lparr>proclist_lock := 1\<rparr>))"

definition unlock_proclist :: "('arr, 'q, 'l, 'h, 'z) kernel_state_scheme \<Rightarrow> ('arr, 'q, 'l, 'h, 'z) kernel_state_scheme" where
  "unlock_proclist s = s\<lparr>proclist_lock := 0\<rparr>"

interpretation proclist_spin: spin_lock "\<lambda>s. proclist_lock s \<noteq> 0" lock_proclist unlock_proclist
  by unfold_locales (auto simp: lock_proclist_def unlock_proclist_def split: if_splits)

definition list_add :: "('q, 'l, 'h) ds_env \<Rightarrow> nat \<Rightarrow> nat \<Rightarrow> ('arr, 'q, 'l, 'h, 'z) kernel_state_scheme
    \<Rightarrow> ('arr, 'q, 'l, 'h, 'z) kernel_state_scheme" where
  "list_add D l x s = s\<lparr>list_at := (list_at s)(l := list_push_right D (list_at s l) x)\<rparr>"

section \<open>Copies of the arguments\<close>

text \<open>
  The strings and the arrays of pointers to them are read through virtual addresses: they belong to
  the calling process, or to the kernel for the first program.
  The copy of one array of strings: \<open>made\<close> are the copies so far. \<open>None\<close> inside means out of
  memory, after which all copies have been freed again.
\<close>

primrec copy_each :: "('q, 'l, 'h) new_env \<Rightarrow> u64 \<Rightarrow> u64 \<Rightarrow> nat list \<Rightarrow> nat list \<Rightarrow> 'a mm_state_scheme \<Rightarrow> kheap
    \<Rightarrow> (nat list option \<times> 'a mm_state_scheme \<times> kheap) option" where
  "copy_each A arr na [] made s h = Some (Some made, s, h)"
| "copy_each A arr na (i # is) made s h =
     do { let src = read64 (vmem s) (arr + of_nat i * 8);
          n \<leftarrow> c_strlen (vmem s) src;
          let (r, h1) = kalloc A (k_bytes (n + 1)) h;
          (case r of
             None \<Rightarrow> do { h2 \<leftarrow> kfree_all (map Some made) h1; Some (None, s, h2) }
           | Some (c, a) \<Rightarrow>
               copy_each A arr na is (made @ [c])
                 (assign (na + of_nat i * 8) a (s\<lparr>kmem := (\<lambda>x. if x - a < n + 1 then vmem s (src + (x - a)) else kmem s x)\<rparr>)) h1) }"

text \<open>The result is the new array: its object, its address and the objects of its strings.\<close>

definition cpy_array :: "('q, 'l, 'h) new_env \<Rightarrow> nat \<Rightarrow> u64 \<Rightarrow> 'a mm_state_scheme \<Rightarrow> kheap
    \<Rightarrow> ((errno + nat \<times> u64 \<times> nat list) \<times> 'a mm_state_scheme \<times> kheap) option" where
  "cpy_array A cnt arr s h =
     (case kalloc A (k_bytes (8 * (of_nat cnt + 1))) h of
        (None, h1) \<Rightarrow> Some (Inl ENOMEM_INTERNAL, s, h1)
      | (Some (o_na, na), h1) \<Rightarrow>
          do { (r, s1, h2) \<leftarrow> copy_each A arr na [0..<cnt] [] s h1;
               (case r of
                  None \<Rightarrow> do { h3 \<leftarrow> kfree (Some o_na) h2; Some (Inl ENOMEM_INTERNAL, s1, h3) }
                | Some made \<Rightarrow> Some (Inr (o_na, na, made), assign (na + of_nat cnt * 8) 0 s1, h2)) })"

definition free_array :: "nat \<times> u64 \<times> nat list \<Rightarrow> kheap \<Rightarrow> kheap option" where
  "free_array a h = (case a of (o_na, _, made) \<Rightarrow> do { h1 \<leftarrow> kfree_all (map Some made) h; kfree (Some o_na) h1 })"

partial_function (option) count_strings :: "store \<Rightarrow> u64 \<Rightarrow> nat option" where
  "count_strings m a = (if read64 m a = 0 then Some 0 else do { n \<leftarrow> count_strings m (a + 8); Some (Suc n) })"

declare count_strings.simps [code]

section \<open>A process from an ELF image\<close>

text \<open>The main thread and its pointers.\<close>

record thread_parts =
  tp_thread :: nat
  tp_continuation :: nat
  tp_futex_block :: nat

text \<open>
  The objects of a new process. The creation of \<open>threads\<close>, \<open>pq_input_buffer\<close> and
  \<open>temp_processes\<close> is followed by a test of another pointer, so these may be NULL afterwards.
\<close>

definition new_process_objects :: "('q, 'l, 'h) new_env \<Rightarrow> u64 \<Rightarrow> u8 \<Rightarrow> ('arr, 'q, 'l, 'h, 'z) kernel_state_scheme \<Rightarrow> kheap
    \<Rightarrow> ((errno + nat \<times> proc_parts) \<times> ('arr, 'q, 'l, 'h, 'z) kernel_state_scheme \<times> kheap) option" where
  "new_process_objects A now asked_priority s h =
     (case knew A k_proc h of
        (None, h1) \<Rightarrow> Some (Inl ENOMEM_INTERNAL, s, h1)
      | (Some p, h1) \<Rightarrow>
     (case knew A k_fds h1 of
        (None, h2) \<Rightarrow> fail_with ENOMEM_INTERNAL [Some p] s h2
      | (Some fds, h2) \<Rightarrow>
     (let (thr, h3) = knew A k_threads h2 in
      do { (cr3, s1) \<leftarrow> create_pml4 s;
     (if cr3 = 0 then fail_with ENOMEM_INTERNAL [Some fds, Some p] s1 h3
      else case knew A k_table h3 of
        (None, h4) \<Rightarrow> fail_with ENOMEM_INTERNAL [thr, Some fds, Some p] s1 h4
      | (Some fut, h4) \<Rightarrow>
     (case knew A k_queue h4 of
        (None, h5) \<Rightarrow> fail_with ENOMEM_INTERNAL [Some fut, thr, Some fds, Some p] s1 h5
      | (Some inb, h5) \<Rightarrow>
     (let (pq, h6) = knew A k_queue h5 in
      case knew A k_list h6 of
        (None, h7) \<Rightarrow> fail_with ENOMEM_INTERNAL [pq, Some inb, Some fut, thr, Some fds, Some p] s1 h7
      | (Some bwm, h7) \<Rightarrow>
     (let (tmp, h8) = knew A k_list h7;
          ps = \<lparr>pp_fds = Some fds, pp_threads = thr, pp_futexes = Some fut, pp_input_buffer = Some inb,
                pp_pq_input_buffer = pq, pp_blocked_wait_messages = Some bwm, pp_temp_processes = tmp\<rparr>;
          pr = (zero_proc (new_queue A))\<lparr>pprocess := True, proc_priority := asked_priority, pml4 := cr3,
                proc_random := rg_create_random_generator A now\<rparr>
      in Some (Inr (p, ps), install_process A p pr ps s1, h8\<lparr>parts_at := (parts_at h8)(p := ps)\<rparr>))))) })))"

definition process_objects :: "nat \<Rightarrow> proc_parts \<Rightarrow> nat option list" where
  "process_objects p ps =
     [pp_temp_processes ps, pp_blocked_wait_messages ps, pp_pq_input_buffer ps, pp_input_buffer ps, pp_futexes ps,
      pp_threads ps, pp_fds ps, Some p]"

definition new_main_thread :: "('q, 'l, 'h) new_env \<Rightarrow> nat \<Rightarrow> proc_parts \<Rightarrow> u8
    \<Rightarrow> ('arr, 'q, 'l, 'h, 'z) kernel_state_scheme \<Rightarrow> kheap
    \<Rightarrow> ((errno + thread_parts) \<times> ('arr, 'q, 'l, 'h, 'z) kernel_state_scheme \<times> kheap) option" where
  "new_main_thread A p ps asked_priority s h =
     (case knew A k_thread h of
        (None, h1) \<Rightarrow> fail_with ENOMEM_INTERNAL (process_objects p ps) s h1
      | (Some t, h1) \<Rightarrow>
     (case knew A k_continuation h1 of
        (None, h2) \<Rightarrow> fail_with ENOMEM_INTERNAL (Some t # process_objects p ps) s h2
      | (Some c, h2) \<Rightarrow>
     (case knew A k_list h2 of
        (None, h3) \<Rightarrow> fail_with ENOMEM_INTERNAL (Some c # Some t # process_objects p ps) s h3
      | (Some fb, h3) \<Rightarrow>
          Some (Inr \<lparr>tp_thread = t, tp_continuation = c, tp_futex_block = fb\<rparr>,
            upd_thread t (\<lambda>_. zero_thread\<lparr>parent_process := p, priority := asked_priority, futex_block := fb\<rparr>)
              (new_list_at A (Some fb) s), h3))))"

definition thread_objects :: "thread_parts \<Rightarrow> nat \<Rightarrow> proc_parts \<Rightarrow> nat option list" where
  "thread_objects tp p ps =
     Some (tp_futex_block tp) # Some (tp_continuation tp) # Some (tp_thread tp) # process_objects p ps"

text \<open>The output buffers: 2 MB of process memory each. \<open>False\<close> when memory ran out.\<close>

primrec alloc_messages :: "('arr, ('arr, 'q, 'l, 'h, 'z) kernel_state_scheme) smp_env \<Rightarrow> ('q, 'l, 'h) ds_env
    \<Rightarrow> nat \<Rightarrow> nat list \<Rightarrow> ('arr, 'q, 'l, 'h, 'z) kernel_state_scheme
    \<Rightarrow> (bool \<times> ('arr, 'q, 'l, 'h, 'z) kernel_state_scheme) option" where
  "alloc_messages E D p [] s = Some (True, s)"
| "alloc_messages E D p (i # is) s =
     do { (m, s1) \<leftarrow> proc_alloc_direct E D p 0x200000 s;
          let s2 = upd_proc p (\<lambda>q. q\<lparr>output_buffer :=
                (output_buffer q)[i := \<lparr>msg_used = False, msg_owner = p, msg_message = m\<rparr>]\<rparr>) s1;
          (if m = 0 then Some (False, s2) else alloc_messages E D p is s2) }"

definition strings_at :: "'a mm_state_scheme \<Rightarrow> u64 \<Rightarrow> nat \<Rightarrow> u64 list" where
  "strings_at s a n = map (\<lambda>i. read64 (kmem s) (a + of_nat i * 8)) [0..<n]"

text \<open>
  The user part of the process: program, arguments, thread-local block and message buffers. The
  result holds the addresses for \<open>argv\<close> and \<open>environ\<close> and the kernel address of the
  thread-local block.
\<close>

definition load_process_image :: "('arr, ('arr, 'q, 'l, 'h, 'z) kernel_state_scheme) smp_env \<Rightarrow> ('q, 'l, 'h) ds_env
    \<Rightarrow> ('q, 'l, 'h) new_env \<Rightarrow> u64 \<Rightarrow> nat \<Rightarrow> u64 \<Rightarrow> nat \<Rightarrow> u64 \<Rightarrow> nat \<Rightarrow> proc_parts \<Rightarrow> thread_parts
    \<Rightarrow> ('arr, 'q, 'l, 'h, 'z) kernel_state_scheme \<Rightarrow> kheap
    \<Rightarrow> ((errno + u64 \<times> u64 \<times> u64) \<times> ('arr, 'q, 'l, 'h, 'z) kernel_state_scheme \<times> kheap) option" where
  "load_process_image E D A img argc0 argv0 envc envp0 p ps tp s h =
     (if pp_threads ps = None then None
      else let t = tp_thread tp;
               s1 = (if array_push_ok A (next_obj h) then upd_proc p (\<lambda>q. q\<lparr>threads := threads q @ [t]\<rparr>) s else s)
           in do { (err, s2) \<leftarrow> load_elf_exec E D img p s1;
     (case err of
        Some e \<Rightarrow> fail_with (if e = ELF_ERROR_ENOMEM then ENOMEM_INTERNAL else EINVAL) (thread_objects tp p ps) s2 h
      | None \<Rightarrow>
          do { (r1, s3) \<leftarrow> cpy_array_user E D p (strings_at s2 argv0 argc0) s2;
     (case r1 of
        Inl e \<Rightarrow> fail_with e (thread_objects tp p ps) s3 h
      | Inr argvu \<Rightarrow>
          do { (r2, s4) \<leftarrow> cpy_array_user E D p (strings_at s3 envp0 envc) s3;
     (case r2 of
        Inl e \<Rightarrow> fail_with e (thread_objects tp p ps) s4 h
      | Inr envpu \<Rightarrow>
          do { (li, s5) \<leftarrow> proc_alloc_direct E D p 32 s4;
               let s6 = upd_thread t (\<lambda>k. k\<lparr>local_info := li\<rparr>) s5;
     (if li = 0 then fail_with ENOMEM_INTERNAL (thread_objects tp p ps) s6 h
      else do { lik \<leftarrow> different_page_mem (pml4 (proc_at s6 p)) li s6;
                (ok, s7) \<leftarrow> alloc_messages E D p [0..<MESSAGE_BUFFER_CNT] (assign lik li s6);
                (if \<not> ok then fail_with ENOMEM_INTERNAL (thread_objects tp p ps) s7 h
                 else Some (Inr (argvu, envpu, lik), s7, h)) }) }) }) }) })"

text \<open>The end of a successful creation: registers, numbers, the process list and the scheduler.\<close>

definition start_process :: "('arr, ('arr, 'q, 'l, 'h, 'z) kernel_state_scheme) smp_env \<Rightarrow> ('q, 'l, 'h) ds_env
    \<Rightarrow> nat \<Rightarrow> nat \<Rightarrow> nat \<Rightarrow> u64 \<Rightarrow> u64 \<Rightarrow> u64 \<Rightarrow> ('arr, 'q, 'l, 'h, 'z) kernel_state_scheme
    \<Rightarrow> ('arr, 'q, 'l, 'h, 'z) kernel_state_scheme option" where
  "start_process E D p t argc0 argvu envpu lik s =
     do { let s1 = upd_proc p (\<lambda>q. q\<lparr>argc := of_nat argc0, argv := argvu, environ := envpu\<rparr>) s;
          let s2 = upd_thread t (\<lambda>k. k\<lparr>last_r12 := 0, last_r11 := 0, last_r10 := 0, last_r9 := 0, last_r8 := 0,
                     last_rax := 0, last_rbx := 0, last_rcx := 0, last_rdx := 0, last_rdi := 0, last_rsi := 0,
                     last_rbp := 0, last_rflags := 0x200\<rparr>) s1;
          s3 \<leftarrow> lock_proclist s2;
          let s4 = s3\<lparr>thread_id_num := thread_id_num s3 + 1, process_id_num := process_id_num s3 + 1\<rparr>;
          let s5 = upd_thread t (\<lambda>k. k\<lparr>tId := thread_id_num s4\<rparr>) s4;
          let s6 = upd_proc p (\<lambda>q. q\<lparr>proc_id := process_id_num s4\<rparr>) s5;
          let s7 = unlock_proclist (list_add D (processes s6) p s6);
          let s8 = assign (lik + 8) (tId (thread_at s7 t)) s7;
          let s9 = upd_thread t (\<lambda>k. k\<lparr>last_rdi := ucast (argc (proc_at s8 p)), last_rsi := argv (proc_at s8 p),
                     last_rdx := environ (proc_at s8 p), last_rax := proc_id (proc_at s8 p)\<rparr>) s8;
          enschedule_best E D t s9 }"

definition create_process_base :: "('arr, ('arr, 'q, 'l, 'h, 'z) kernel_state_scheme) smp_env \<Rightarrow> ('q, 'l, 'h) ds_env
    \<Rightarrow> ('q, 'l, 'h) new_env \<Rightarrow> u64 \<Rightarrow> u64 \<Rightarrow> nat \<Rightarrow> u64 \<Rightarrow> u64 \<Rightarrow> u8
    \<Rightarrow> ('arr, 'q, 'l, 'h, 'z) kernel_state_scheme \<Rightarrow> kheap
    \<Rightarrow> ((errno + nat) \<times> ('arr, 'q, 'l, 'h, 'z) kernel_state_scheme \<times> kheap) option" where
  "create_process_base E D A now image_data argc0 argv0 envp0 asked_priority s h =
     do { s1 \<leftarrow> lock_threads s;
          ct0 \<leftarrow> ct (cpu_at s1 (current_cpu s1));
          let cpp = proc_priority (proc_at s1 (parent_process (thread_at s1 ct0)));
          let s2 = unlock_threads s1;
     (if asked_priority < cpp then Some (Inl EINVAL, s2, h)
      else do { envc \<leftarrow> count_strings (vmem s2) envp0;
                (r1, s3, h1) \<leftarrow> cpy_array A argc0 argv0 s2 h;
     (case r1 of
        Inl e \<Rightarrow> Some (Inl e, s3, h1)
      | Inr av \<Rightarrow>
          do { (r2, s4, h2) \<leftarrow> cpy_array A envc envp0 s3 h1;
     (case r2 of
        Inl e \<Rightarrow> do { h3 \<leftarrow> free_array av h2; Some (Inl e, s4, h3) }
      | Inr ev \<Rightarrow>
          do { (r3, s5, h3) \<leftarrow> new_process_objects A now asked_priority s4 h2;
     (case r3 of
        Inl e \<Rightarrow> Some (Inl e, s5, h3)
      | Inr (p, ps) \<Rightarrow>
          do { (r4, s6, h4) \<leftarrow> new_main_thread A p ps asked_priority s5 h3;
     (case r4 of
        Inl e \<Rightarrow> Some (Inl e, s6, h4)
      | Inr tp \<Rightarrow>
          do { (r5, s7, h5) \<leftarrow> load_process_image E D A image_data argc0 (fst (snd av)) envc (fst (snd ev)) p ps tp s6 h4;
     (case r5 of
        Inl e \<Rightarrow> Some (Inl e, s7, h5)
      | Inr (argvu, envpu, lik) \<Rightarrow>
          do { s8 \<leftarrow> start_process E D p (tp_thread tp) argc0 argvu envpu lik s7;
               h6 \<leftarrow> free_array av h5;
               h7 \<leftarrow> free_array ev h6;
               Some (Inr p, s8, h7) }) }) }) }) }) }) }"

section \<open>The first process\<close>

text \<open>Every failed allocation but the one of \<open>temp_processes\<close> halts the kernel.\<close>

definition create_init_process_structure :: "('q, 'l, 'h) ds_env \<Rightarrow> ('q, 'l, 'h) new_env \<Rightarrow> u64 \<Rightarrow> u64
    \<Rightarrow> ('arr, 'q, 'l, 'h, 'z) kernel_state_scheme \<Rightarrow> kheap
    \<Rightarrow> (nat \<times> ('arr, 'q, 'l, 'h, 'z) kernel_state_scheme \<times> kheap) option" where
  "create_init_process_structure D A now pml s h =
     do { let (pr, h1) = knew A k_proc h;
          p \<leftarrow> pr;
          s1 \<leftarrow> lock_proclist s;
          let s2 = s1\<lparr>process_id_num := process_id_num s1 + 1\<rparr>;
          let s3 = unlock_proclist (list_add D (processes s2) p s2);
          let (fds, h2) = knew A k_fds h1;
          _ \<leftarrow> fds;
          let (thr, h3) = knew A k_threads h2;
          _ \<leftarrow> thr;
          let (fut, h4) = knew A k_table h3;
          _ \<leftarrow> fut;
          let (inb, h5) = knew A k_queue h4;
          _ \<leftarrow> inb;
          let (pq, h6) = knew A k_queue h5;
          _ \<leftarrow> pq;
          let (bwm, h7) = knew A k_list h6;
          _ \<leftarrow> bwm;
          let (tmp, h8) = knew A k_list h7;
          let ps = \<lparr>pp_fds = fds, pp_threads = thr, pp_futexes = fut, pp_input_buffer = inb,
                    pp_pq_input_buffer = pq, pp_blocked_wait_messages = bwm, pp_temp_processes = tmp\<rparr>;
          let s4 = install_process A p ((zero_proc (new_queue A))\<lparr>proc_id := process_id_num s2, pprocess := True, pml4 := pml,
                     proc_random := rg_create_random_generator A now\<rparr>) ps s3;
          let (tr, h9) = knew A k_thread h8;
          t \<leftarrow> tr;
          let s5 = s4\<lparr>thread_id_num := thread_id_num s4 + 1\<rparr>;
          let (fb, h10) = knew A k_list h9;
          fb' \<leftarrow> fb;
          let (cnt, h11) = knew A k_continuation h10;
          _ \<leftarrow> cnt;
          let s6 = upd_thread t (\<lambda>_. zero_thread\<lparr>parent_process := p, tId := thread_id_num s5, futex_block := fb',
                     last_rdi := ucast (argc (proc_at s5 p)), last_rsi := argv (proc_at s5 p),
                     last_rdx := environ (proc_at s5 p)\<rparr>) (new_list_at A fb s5);
          (if array_push_ok A (next_obj h11)
           then Some (p, upd_proc p (\<lambda>q. q\<lparr>threads := threads q @ [t]\<rparr>) s6, h11\<lparr>parts_at := (parts_at h11)(p := ps)\<rparr>)
           else None) }"

text \<open>
  The thread-local block of the first process is written through its user address, which is
  mapped in the active address space.
\<close>

definition process_init :: "('arr, ('arr, 'q, 'l, 'h, 'z) kernel_state_scheme) smp_env \<Rightarrow> ('q, 'l, 'h) ds_env
    \<Rightarrow> nat \<Rightarrow> ('arr, 'q, 'l, 'h, 'z) kernel_state_scheme \<Rightarrow> ('arr, 'q, 'l, 'h, 'z) kernel_state_scheme option" where
  "process_init E D p s =
     (if threads (proc_at s p) = [] then None
      else let t = threads (proc_at s p) ! 0
           in do { (li, s1) \<leftarrow> proc_alloc_direct E D p 32 s;
                   (if li = 0 then None
                    else do { lik \<leftarrow> different_page_mem (active_page s1) li s1;
                              let s2 = upd_thread t (\<lambda>k. k\<lparr>local_info := li\<rparr>) s1;
                              let s3 = assign (lik + 8) (tId (thread_at s2 t)) (assign lik li s2);
                              (ok, s4) \<leftarrow> alloc_messages E D p [0..<MESSAGE_BUFFER_CNT] s3;
                              (if ok then Some s4 else None) }) })"

definition initialize_processes :: "('q, 'l, 'h) new_env \<Rightarrow> ('arr, 'q, 'l, 'h, 'z) kernel_state_scheme \<Rightarrow> kheap
    \<Rightarrow> ('arr, 'q, 'l, 'h, 'z) kernel_state_scheme \<times> kheap" where
  "initialize_processes A s h =
     (let (l, h1) = knew A k_list h;
          (tab, h2) = knew A k_table h1
      in (new_table_at A tab (new_list_at A l
            (s\<lparr>proclist_lock := 0, process_id_num := 0, thread_id_num := 0, proclist_lock2 := 0,
               processes := (case l of None \<Rightarrow> 0 | Some n \<Rightarrow> n), temp_processes := (case tab of None \<Rightarrow> 0 | Some n \<Rightarrow> n)\<rparr>)), h2))"

section \<open>Staged creation\<close>

record cp_stage1 =
  cp_parent :: bool
  cp_privilege :: bool
  cp_priority :: "8 word"

text \<open>The error exit: every object whose pointer is not NULL is freed.\<close>

definition free_set :: "nat option list \<Rightarrow> kheap \<Rightarrow> kheap" where
  "free_set ps h = fold (\<lambda>p h. case p of None \<Rightarrow> h | Some n \<Rightarrow> h\<lparr>live := (live h)(n := None)\<rparr>) ps h"

definition handle_mem_error :: "errno option \<Rightarrow> nat option \<Rightarrow> (nat \<times> proc_parts) option \<Rightarrow> 's \<Rightarrow> kheap
    \<Rightarrow> (errno option \<times> u64 \<times> 's \<times> kheap) option" where
  "handle_mem_error err tp process s h =
     Some (err, 0, s, free_set ([tp] @ (case process of
        None \<Rightarrow> []
      | Some (p, ps) \<Rightarrow> [pp_fds ps, pp_threads ps, pp_futexes ps, pp_input_buffer ps, pp_pq_input_buffer ps,
          pp_blocked_wait_messages ps, pp_temp_processes ps, Some p])) h)"

text \<open>
  The containers of the process. \<open>Inl\<close> is a jump to the error exit, with the value of \<open>error\<close> (\<open>None\<close>
  for 0) and the pointers set so far. The tests after \<open>threads\<close>, \<open>pq_input_buffer\<close> and
  \<open>temp_processes\<close> look at other pointers and never fail.
\<close>

definition cp_objects :: "('q, 'l, 'h) new_env \<Rightarrow> u8 \<Rightarrow> kheap \<Rightarrow> ((errno option \<times> proc_parts) + proc_parts) \<times> kheap" where
  "cp_objects A prio h =
     (case knew A k_fds h of
        (None, h1) \<Rightarrow> (Inl (None, no_parts), h1)
      | (Some fds, h1) \<Rightarrow>
     (case knew A k_threads h1 of (thr, h2) \<Rightarrow>
     (let ps = no_parts\<lparr>pp_fds := Some fds, pp_threads := thr\<rparr>
      in if \<not> prio <s 0 \<and> 4 <s prio then (Inl (Some EINVAL, ps), h2)
      else case knew A k_table h2 of
        (None, h3) \<Rightarrow> (Inl (Some ENOMEM_INTERNAL, ps), h3)
      | (Some fut, h3) \<Rightarrow>
     (case knew A k_queue h3 of
        (None, h4) \<Rightarrow> (Inl (Some ENOMEM_INTERNAL, ps\<lparr>pp_futexes := Some fut\<rparr>), h4)
      | (Some inb, h4) \<Rightarrow>
     (case knew A k_queue h4 of (pq, h5) \<Rightarrow>
     (let ps = ps\<lparr>pp_futexes := Some fut, pp_input_buffer := Some inb, pp_pq_input_buffer := pq\<rparr>
      in case knew A k_list h5 of
        (None, h6) \<Rightarrow> (Inl (Some ENOMEM_INTERNAL, ps), h6)
      | (Some bwm, h6) \<Rightarrow>
     (case knew A k_list h6 of (tmp, h7) \<Rightarrow>
        (Inr (ps\<lparr>pp_blocked_wait_messages := Some bwm, pp_temp_processes := tmp\<rparr>), h7))))))))"

text \<open>The end of \<open>cp_stage_1\<close>: a process id under the first lock, the registration under the second.\<close>

definition cp_register :: "('q, 'l, 'h) ds_env \<Rightarrow> ('q, 'l, 'h) new_env \<Rightarrow> u64 \<Rightarrow> cp_stage1 \<Rightarrow> nat \<Rightarrow> nat \<Rightarrow> nat \<Rightarrow> proc_parts
    \<Rightarrow> ('arr, 'q, 'l, 'h, 'z) kernel_state_scheme \<Rightarrow> kheap
    \<Rightarrow> (errno option \<times> u64 \<times> ('arr, 'q, 'l, 'h, 'z) kernel_state_scheme \<times> kheap) option" where
  "cp_register D A now data cp tp p ps s1 h3 =
     do { s2 \<leftarrow> lock_proclist s1;
          let pid = process_id_num s2 + 1;
          let s3 = unlock_proclist (s2\<lparr>process_id_num := pid\<rparr>);
          let (failed, tab) = table_set D (table_at s3 (temp_processes s3)) pid tp;
          let s4 = s3\<lparr>table_at := (table_at s3)(temp_processes s3 := tab)\<rparr>;
          let prio = cp_priority data;
          let pr = (zero_proc (new_queue A))\<lparr>pprocess := (cp_privilege data \<and> pprocess (proc_at s1 cp)),
                     proc_random := rg_create_random_generator A now,
                     parent := (if cp_parent data then Some cp else None),
                     proc_priority := (if prio <s 0 then proc_priority (proc_at s1 cp) else prio), proc_id := pid\<rparr>;
          (if proclist_lock2 s3 \<noteq> 0 then None
           else if failed then handle_mem_error (Some ENOMEM_INTERNAL) (Some tp) (Some (p, ps)) s4 h3
           else Some (None, 0,
                  list_add D (proc_temp_processes (proc_at s4 cp)) p (install_process A p pr ps s4),
                  h3\<lparr>parts_at := (parts_at h3)(p := ps)\<rparr>)) }"

text \<open>
  The result is the returned error and \<open>*process_num\<close>. When the first
  allocation fails, the exit reads the pointer \<open>process\<close> before its initialisation, which is undefined.
\<close>

definition cp_stage_1 :: "('q, 'l, 'h) ds_env \<Rightarrow> ('q, 'l, 'h) new_env \<Rightarrow> u64 \<Rightarrow> cp_stage1
    \<Rightarrow> ('arr, 'q, 'l, 'h, 'z) kernel_state_scheme \<Rightarrow> kheap
    \<Rightarrow> (errno option \<times> u64 \<times> ('arr, 'q, 'l, 'h, 'z) kernel_state_scheme \<times> kheap) option" where
  "cp_stage_1 D A now data s h =
     do { (cp, s1) \<leftarrow> get_current_process s;
     (case knew A k_temp_proc h of
        (None, h1) \<Rightarrow> None
      | (Some tp, h1) \<Rightarrow>
     (case knew A k_proc h1 of
        (None, h2) \<Rightarrow> handle_mem_error None (Some tp) None s1 h2
      | (Some p, h2) \<Rightarrow>
     (case cp_objects A (cp_priority data) (h2\<lparr>temp_at := (temp_at h2)(tp := \<lparr>cstate = CP1, tp_process = p\<rparr>)\<rparr>) of
        (Inl (err, ps), h3) \<Rightarrow> handle_mem_error err (Some tp) (Some (p, ps)) s1 h3
      | (Inr ps, h3) \<Rightarrow> cp_register D A now data cp tp p ps s1 h3))) }"

section \<open>Properties\<close>

definition heap_fresh :: "kheap \<Rightarrow> bool" where
  "heap_fresh h \<longleftrightarrow> (\<forall>n \<ge> next_obj h. live h n = None)"

lemma knew_None:
  "knew A k h = (None, h') \<longleftrightarrow> kmalloc A (next_obj h) k = None \<and> h' = h\<lparr>next_obj := Suc (next_obj h)\<rparr>"
  by (auto simp: knew_def kalloc_def Let_def split: option.splits)

lemma knew_Some:
  "knew A k h = (Some n, h') \<longleftrightarrow> n = next_obj h \<and> kmalloc A n k \<noteq> None \<and>
     h' = h\<lparr>next_obj := Suc n, live := (live h)(n := Some k)\<rparr>"
  by (auto simp: knew_def kalloc_def Let_def split: option.splits)

lemmas knew_eqs = knew_None knew_Some

lemma live_free_set: "live (free_set ps h) = (\<lambda>n. if Some n \<in> set ps then None else live h n)"
proof (induction ps arbitrary: h)
  case (Cons p ps)
  then show ?case by (cases p) (auto simp: free_set_def)
qed (simp add: free_set_def)

lemma knew_step:
  assumes "knew A k h = (r, h')"
  shows "next_obj h' = Suc (next_obj h)" "temp_at h' = temp_at h" "parts_at h' = parts_at h"
    "live h' = (live h)(next_obj h := (if r = None then live h (next_obj h) else Some k))"
    "r = (if kmalloc A (next_obj h) k = None then None else Some (next_obj h))"
  using assms by (auto simp: knew_def kalloc_def Let_def fun_upd_idem split: option.splits)

lemma get_current_process_fields:
  assumes "get_current_process s = Some (cp, s1)"
  shows "proc_at s1 = proc_at s" "process_id_num s1 = process_id_num s" "table_at s1 = table_at s"
    "temp_processes s1 = temp_processes s" "\<exists>t. ct (cpu_at s (current_cpu s)) = Some t \<and> cp = parent_process (thread_at s t)"
  using assms by (auto simp: get_current_process_def lock_three_eq unlock_three_def unlock_sched_def unlock_cpu_def
      unlock_threads_def upd_cpu_def bind_eq_Some_conv Let_def split: if_splits)

lemma list_add_fields [simp]:
  "proc_at (list_add D l x s) = proc_at s"
  by (simp add: list_add_def)

definition parts_list :: "proc_parts \<Rightarrow> nat option list" where
  "parts_list ps = [pp_fds ps, pp_threads ps, pp_futexes ps, pp_input_buffer ps, pp_pq_input_buffer ps,
          pp_blocked_wait_messages ps, pp_temp_processes ps]"

text \<open>The objects \<open>ps\<close> are new since \<open>h0\<close> and nothing else changed.\<close>

definition owns :: "kheap \<Rightarrow> kheap \<Rightarrow> nat option list \<Rightarrow> bool" where
  "owns h0 h ps \<longleftrightarrow> next_obj h0 \<le> next_obj h \<and>
     (\<forall>n. Some n \<notin> set ps \<longrightarrow> live h n = live h0 n) \<and> (\<forall>n. Some n \<in> set ps \<longrightarrow> next_obj h0 \<le> n \<and> n < next_obj h)"

lemma owns_refl: "owns h h []"
  by (simp add: owns_def)

lemma owns_knew: "owns h0 h ps \<Longrightarrow> knew A k h = (r, h') \<Longrightarrow> owns h0 h' (r # ps)"
  by (auto simp: owns_def knew_def kalloc_def Let_def split: option.splits if_splits)

lemma owns_set: "owns h0 h ps \<Longrightarrow> set ps - {None} = set qs - {None} \<Longrightarrow> owns h0 h qs"
  unfolding owns_def by (metis Diff_iff option.discI singletonD)

lemma owns_trans:
  assumes "owns h0 h1 ps" "owns h1 h2 qs"
  shows "owns h0 h2 (ps @ qs)"
proof -
  have "next_obj h0 \<le> n \<and> n < next_obj h2" if "Some n \<in> set ps \<union> set qs" for n
    using assms that by (auto simp: owns_def intro: order_trans less_le_trans)
  then show ?thesis using assms by (simp add: owns_def)
qed

lemma owns_temp_at [simp]: "owns (h0\<lparr>temp_at := f\<rparr>) h ps = owns h0 h ps"
  by (simp add: owns_def)

lemma owns_free_set: "owns h0 h ps \<Longrightarrow> heap_fresh h0 \<Longrightarrow> live (free_set ps h) = live h0"
  by (auto simp: owns_def heap_fresh_def live_free_set)

lemma knew_temp_at: "knew A k h = (r, h') \<Longrightarrow> temp_at h' = temp_at h"
  by (auto simp: knew_def kalloc_def Let_def split: option.splits)

lemma cp_objects_spec:
  assumes "cp_objects A prio h = (r, h')"
  shows "owns h h' (parts_list (case r of Inl (_, q) \<Rightarrow> q | Inr q \<Rightarrow> q))" "temp_at h' = temp_at h"
proof -
  obtain r1 h1 where 1: "knew A k_fds h = (r1, h1)" by fastforce
  obtain r2 h2 where 2: "knew A k_threads h1 = (r2, h2)" by fastforce
  obtain r3 h3 where 3: "knew A k_table h2 = (r3, h3)" by fastforce
  obtain r4 h4 where 4: "knew A k_queue h3 = (r4, h4)" by fastforce
  obtain r5 h5 where 5: "knew A k_queue h4 = (r5, h5)" by fastforce
  obtain r6 h6 where 6: "knew A k_list h5 = (r6, h6)" by fastforce
  obtain r7 h7 where 7: "knew A k_list h6 = (r7, h7)" by fastforce
  note o1 = owns_knew [OF owns_refl 1] and o2 = owns_knew [OF owns_knew [OF owns_refl 1] 2]
  note o3 = owns_knew [OF o2 3]
  note o4 = owns_knew [OF o3 4]
  note o5 = owns_knew [OF o4 5]
  note o6 = owns_knew [OF o5 6]
  note o7 = owns_knew [OF o6 7]
  note t = 1 [THEN knew_temp_at] 2 [THEN knew_temp_at] 3 [THEN knew_temp_at] 4 [THEN knew_temp_at] 5 [THEN knew_temp_at]
    6 [THEN knew_temp_at] 7 [THEN knew_temp_at]
  show "owns h h' (parts_list (case r of Inl (_, q) \<Rightarrow> q | Inr q \<Rightarrow> q))"
    using assms o1 o2 o3 o4 o6 o7
    apply (auto simp: cp_objects_def 1 2 3 4 5 6 7 Let_def no_parts_def parts_list_def split: option.splits if_splits)
    apply (erule owns_set, auto)+
    done
  show "temp_at h' = temp_at h"
    using assms t by (auto simp: cp_objects_def 1 2 3 4 5 6 7 Let_def split: option.splits if_splits)
qed

lemma owns_keeps: "owns h0 h ps \<Longrightarrow> n < next_obj h0 \<Longrightarrow> live h n = live h0 n"
  unfolding owns_def by (meson linorder_not_less)

lemma cp_objects_result:
  assumes "cp_objects A prio h = (r, h')"
  shows "kmalloc A (next_obj h) k_fds = None \<longleftrightarrow> (\<exists>q. r = Inl (None, q))"
    "r = Inl (Some e, q) \<Longrightarrow> e = EINVAL \<longleftrightarrow> 4 <s prio" "r = Inr q \<Longrightarrow> \<not> 4 <s prio"
  using assms
  by (auto simp: cp_objects_def Let_def knew_None knew_Some word_sless_alt split: prod.splits option.splits if_splits)

lemma install_process_fields [simp]:
  "proc_at (install_process A p pr ps s) q = (if q = p then pr\<lparr>futexes := (case pp_futexes ps of None \<Rightarrow> 0 | Some n \<Rightarrow> n),
        blocked_wait_messages := (case pp_blocked_wait_messages ps of None \<Rightarrow> 0 | Some n \<Rightarrow> n),
        proc_temp_processes := (case pp_temp_processes ps of None \<Rightarrow> 0 | Some n \<Rightarrow> n)\<rparr> else proc_at s q)"
  "process_id_num (install_process A p pr ps s) = process_id_num s"
  by (auto simp: install_process_def new_table_at_def new_list_at_def upd_proc_def split: option.splits)

lemma handle_mem_error_frees:
  assumes "handle_mem_error e (Some tp) (Some (p, ps)) s2 h3 = Some (err, num, s', h')"
    and "owns h h3 ([Some p, Some tp] @ parts_list ps)" "heap_fresh h"
  shows "err = e \<and> num = 0 \<and> s' = s2 \<and> live h' = live h"
proof -
  have "live (free_set ([Some tp] @ parts_list ps @ [Some p]) h3) = live h"
    by (rule owns_free_set [OF owns_set [OF assms(2)] assms(3)]) auto
  then show ?thesis using assms(1) by (auto simp: handle_mem_error_def parts_list_def)
qed

lemma cp_register_cases:
  assumes run: "cp_register D A now data cp tp p ps s1 h3 = Some (err, num, s', h')"
  obtains s4 where "handle_mem_error (Some ENOMEM_INTERNAL) (Some tp) (Some (p, ps)) s4 h3 = Some (err, num, s', h')"
    "proc_at s4 = proc_at s1"
  | "err = None" "num = 0" "h' = h3\<lparr>parts_at := (parts_at h3)(p := ps)\<rparr>"
    "proc_id (proc_at s' p) = process_id_num s1 + 1"
    "pprocess (proc_at s' p) \<Longrightarrow> pprocess (proc_at s1 cp)"
proof -
  obtain s2 where l: "lock_proclist s1 = Some s2" using run by (auto simp: cp_register_def bind_eq_Some_conv)
  define s3 where "s3 = unlock_proclist (s2\<lparr>process_id_num := process_id_num s2 + 1\<rparr>)"
  have s3: "proc_at s3 = proc_at s1" and pid: "process_id_num s2 = process_id_num s1"
    using l by (auto simp: s3_def lock_proclist_def unlock_proclist_def split: if_splits)
  obtain failed tab where ts: "table_set D (table_at s3 (temp_processes s3)) (process_id_num s2 + 1) tp = (failed, tab)"
    by fastforce
  note d = cp_register_def l s3_def [symmetric] Let_def
  show thesis
  proof (cases failed)
    case True
    show thesis
      by (rule that(1) [of "s3\<lparr>table_at := (table_at s3)(temp_processes s3 := tab)\<rparr>"])
        (use run ts True s3 in \<open>simp_all add: d split: if_splits\<close>)
  next
    case False
    obtain l0 pr0 where r: "err = None" "num = 0" "h' = h3\<lparr>parts_at := (parts_at h3)(p := ps)\<rparr>"
      "s' = list_add D l0 p (install_process A p pr0 ps (s3\<lparr>table_at := (table_at s3)(temp_processes s3 := tab)\<rparr>))"
      "proc_id pr0 = process_id_num s2 + 1" "pprocess pr0 = (cp_privilege data \<and> pprocess (proc_at s1 cp))"
      using run ts False by (simp add: d split del: if_split split: if_split_asm; fastforce)
    show thesis by (rule that(2)) (use r pid in auto)
  qed
qed

text \<open>The first two allocations of the staged creation.\<close>

lemma cp_stage_1_start:
  assumes run: "cp_stage_1 D A now data s h = Some x"
  obtains cp s1 h1 r h2 where "get_current_process s = Some (cp, s1)"
    "knew A k_temp_proc h = (Some (next_obj h), h1)" "next_obj h1 = Suc (next_obj h)" "knew A k_proc h1 = (r, h2)"
    "owns h h2 [r, Some (next_obj h)]"
proof -
  obtain cp s1 where g: "get_current_process s = Some (cp, s1)" using run by (auto simp: cp_stage_1_def bind_eq_Some_conv)
  obtain r0 h1 where r0: "knew A k_temp_proc h = (r0, h1)" by fastforce
  have "r0 \<noteq> None" using run r0 by (intro notI) (simp add: cp_stage_1_def g)
  then have tp: "knew A k_temp_proc h = (Some (next_obj h), h1)" "next_obj h1 = Suc (next_obj h)"
    using r0 by (auto simp: knew_eqs)
  obtain r h2 where pr: "knew A k_proc h1 = (r, h2)" by fastforce
  show thesis by (rule that [OF g tp pr owns_knew [OF owns_knew [OF owns_refl tp(1)] pr]])
qed

text \<open>
  C25. Staged creation always sets the process number to 0. When the process object or its
  descriptor array cannot be allocated it reports success without a process. Every other failure reports an
  error, EINVAL exactly for a priority above 4, and no object stays allocated. On success the new
  process has the next process id, is registered in stage CP1, and is privileged only if the creating process is.
\<close>

theorem cp_stage_1_result:
  assumes run: "cp_stage_1 D A now data s h = Some (err, num, s', h')" and fresh: "heap_fresh h"
    and cur: "ct (cpu_at s (current_cpu s)) = Some t"
  shows "num = 0 \<and>
    (if kmalloc A (next_obj h + 1) k_proc = None \<or> kmalloc A (next_obj h + 2) k_fds = None
     then err = None \<and> live h' = live h \<and> proc_at s' = proc_at s
     else if err \<noteq> None then live h' = live h \<and> proc_at s' = proc_at s \<and> (err = Some EINVAL \<longleftrightarrow> 4 <s cp_priority data)
     else live h' (next_obj h + 1) = Some k_proc \<and>
       temp_at h' (next_obj h) = \<lparr>cstate = CP1, tp_process = next_obj h + 1\<rparr> \<and>
       proc_id (proc_at s' (next_obj h + 1)) = process_id_num s + 1 \<and>
       (pprocess (proc_at s' (next_obj h + 1)) \<longrightarrow> pprocess (proc_at s (parent_process (thread_at s t)))) \<and>
       \<not> 4 <s cp_priority data)"
proof -
  let ?n = "next_obj h"
  obtain cp s1 h1 r h2 where g: "get_current_process s = Some (cp, s1)"
    and tp: "knew A k_temp_proc h = (Some ?n, h1)" "next_obj h1 = Suc ?n" and pr: "knew A k_proc h1 = (r, h2)"
    and own2: "owns h h2 [r, Some ?n]"
    by (rule cp_stage_1_start [OF run])
  note gf = get_current_process_fields [OF g]
  have cp: "cp = parent_process (thread_at s t)" using gf(5) cur by simp
  show ?thesis
  proof (cases r)
    case None
    then show ?thesis using run pr gf(1) owns_free_set [OF owns_set [OF own2, of "[Some ?n]"] fresh]
      by (auto simp: cp_stage_1_def g tp knew_eqs handle_mem_error_def)
  next
    case (Some p)
    have p: "p = Suc ?n" "next_obj h2 = Suc (Suc ?n)" "kmalloc A (Suc ?n) k_proc \<noteq> None"
      using pr Some tp(2) by (auto simp: knew_eqs)
    let ?h = "h2\<lparr>temp_at := (temp_at h2)(?n := \<lparr>cstate = CP1, tp_process = p\<rparr>)\<rparr>"
    obtain r3 h3 where o: "cp_objects A (cp_priority data) ?h = (r3, h3)" by fastforce
    note own3 = cp_objects_spec(1) [OF o, simplified] and res = cp_objects_result [OF o]
    have all: "owns h h3 ([Some p, Some ?n] @ parts_list (case r3 of Inl (_, q) \<Rightarrow> q | Inr q \<Rightarrow> q))"
      using owns_trans [OF own2 own3] Some by simp
    show ?thesis
    proof (cases r3)
      case (Inl x)
      obtain e ps where x: "x = (e, ps)" by (cases x)
      have "handle_mem_error e (Some ?n) (Some (p, ps)) s1 h3 = Some (err, num, s', h')"
        using run by (simp add: cp_stage_1_def g tp pr Some o Inl x)
      from handle_mem_error_frees [OF this _ fresh] show ?thesis
        using all gf(1) res(1,2) p by (auto simp: Inl x)
    next
      case (Inr ps)
      have "cp_register D A now data cp ?n p ps s1 h3 = Some (err, num, s', h')"
        using run by (simp add: cp_stage_1_def g tp pr Some o Inr)
      then show ?thesis
      proof (cases rule: cp_register_cases)
        case (1 s4)
        from handle_mem_error_frees [OF 1(1) _ fresh] show ?thesis
          using all 1(2) gf(1) res(1,3) p by (auto simp: Inr)
      next
        case 2
        have "live h3 p = Some k_proc" using owns_keeps [OF own3, of p] p pr Some by (auto simp: knew_eqs)
        moreover have "temp_at h3 ?n = \<lparr>cstate = CP1, tp_process = p\<rparr>" using cp_objects_spec(2) [OF o] by simp
        moreover have "kmalloc A (Suc p) k_fds \<noteq> None" using res(1) p by (simp add: Inr)
        ultimately show ?thesis using 2 res(3) [OF Inr] p gf(1,2) cp by auto
      qed
    qed
  qed
qed

definition demo_alloc :: "nat \<Rightarrow> (nat list, nat list, (u64 \<times> nat) list) new_env" where
  "demo_alloc k = \<lparr>kmalloc = (\<lambda>n _. if n = k then None else Some (0x900000 + of_nat n * 0x1000)), array_push_ok = (\<lambda>_. True),
     new_table = [], new_list = [], new_queue = [], rg_create_random_generator = (\<lambda>x. x)\<rparr>"

definition demo_heap :: kheap where
  "demo_heap = \<lparr>next_obj = 10, live = (\<lambda>_. None), parts_at = (\<lambda>_. no_parts), temp_at = (\<lambda>_. \<lparr>cstate = CP1, tp_process = 0\<rparr>)\<rparr>"

lemma demo_heap_fresh: "heap_fresh demo_heap"
  by (simp add: heap_fresh_def demo_heap_def)

text \<open>Here the allocation of the descriptor array (the third request) fails.\<close>

theorem cp_stage_1_result_witness:
  "\<exists>s' h'. cp_stage_1 demo_ds (demo_alloc 12) 0 \<lparr>cp_parent = True, cp_privilege = True, cp_priority = 2\<rparr> demo_sched demo_heap =
     Some (None, 0, s', h') \<and> live h' = live demo_heap \<and> proc_at s' = proc_at demo_sched"
proof -
  let ?c = "cp_stage_1 demo_ds (demo_alloc 12) 0 \<lparr>cp_parent = True, cp_privilege = True, cp_priority = 2\<rparr> demo_sched demo_heap"
  obtain err num s' h' where r: "?c = Some (err, num, s', h')"
    by (simp add: cp_stage_1_def get_current_process_def lock_three_eq cpu_free_def demo_cpu_def cpu_at_upd_cpu cp_objects_def knew_def kalloc_def
        demo_alloc_def demo_heap_def handle_mem_error_def bind_eq_Some_conv Let_def)
  show ?thesis
    using cp_stage_1_result [OF r demo_heap_fresh, of 0] r by (auto simp: demo_alloc_def demo_heap_def)
qed

section \<open>Leaks of a failed creation\<close>

lemma kfree_all_live:
  "kfree_all ps h = Some h' \<Longrightarrow> live h' = (\<lambda>n. if Some n \<in> set ps then None else live h n) \<and> next_obj h' = next_obj h"
proof (induction ps arbitrary: h)
  case (Cons p ps)
  obtain n where p: "p = Some n" using Cons.prems by (cases p) (auto simp: kfree_def)
  have "kfree_all ps (h\<lparr>live := (live h)(n := None)\<rparr>) = Some h'" using Cons.prems by (simp add: p kfree_def)
  from Cons.IH [OF this] show ?case by (auto simp: p)
qed simp

lemma owns_freed:
  assumes "owns h0 h ps" "kfree_all qs h = Some h'" "heap_fresh h0" "set ps - {None} = set qs - {None}"
  shows "live h' = live h0"
  using owns_free_set [OF owns_set [OF assms(1,4)] assms(3)] kfree_all_live [OF assms(2)] by (simp add: live_free_set)

lemma owns_kalloc: "owns h0 h ps \<Longrightarrow> kalloc A k h = (Some (n, a), h') \<Longrightarrow> owns h0 h' (Some n # ps)"
  by (auto simp: owns_def kalloc_def Let_def split: option.splits if_splits)

lemma kalloc_live: "kalloc A k h = (Some (n, a), h') \<Longrightarrow> n = next_obj h \<and> live h' = (live h)(n := Some k) \<and> next_obj h' = Suc n"
  by (auto simp: kalloc_def Let_def split: option.splits)

lemma kalloc_None: "kalloc A k h = (None, h') \<Longrightarrow> live h' = live h \<and> next_obj h' = Suc (next_obj h)"
  by (auto simp: kalloc_def Let_def split: option.splits)

lemma heap_fresh_kalloc: "heap_fresh h \<Longrightarrow> kalloc A k h = (r, h') \<Longrightarrow> heap_fresh h'"
  by (auto simp: heap_fresh_def kalloc_def Let_def split: option.splits)

definition is_bytes :: "kobj option \<Rightarrow> bool" where
  "is_bytes k \<longleftrightarrow> (\<exists>b. k = Some (k_bytes b))"

lemma copy_each_spec:
  assumes "copy_each A arr na is made s h = Some (r, s', h')" "owns h0 h (map Some made)" "heap_fresh h0"
    and "\<forall>n \<in> set made. is_bytes (live h n)"
  shows "case r of None \<Rightarrow> live h' = live h0 \<and> next_obj h0 \<le> next_obj h'
    | Some made' \<Rightarrow> owns h0 h' (map Some made') \<and> (\<forall>n \<in> set made'. is_bytes (live h' n))"
  using assms
proof (induction "is" arbitrary: made s h)
  case (Cons i "is")
  let ?src = "read64 (vmem s) (arr + of_nat i * 8)"
  obtain n where n: "c_strlen (vmem s) ?src = Some n" using Cons.prems(1) by (auto simp: bind_eq_Some_conv Let_def)
  obtain q h1 where k: "kalloc A (k_bytes (n + 1)) h = (q, h1)" by fastforce
  show ?case
  proof (cases q)
    case None
    then obtain h2 where h2: "kfree_all (map Some made) h1 = Some h2" "r = None" "h' = h2"
      using Cons.prems(1) by (auto simp: n k bind_eq_Some_conv Let_def)
    have "owns h0 h1 (map Some made)" using Cons.prems(2) kalloc_None [of A _ h h1] k None by (auto simp: owns_def)
    from owns_freed [OF this h2(1) Cons.prems(3) refl] this show ?thesis
      using h2 kfree_all_live [OF h2(1)] by (simp add: owns_def)
  next
    case (Some c)
    obtain o1 a where c: "c = (o1, a)" by (cases c)
    have own: "owns h0 h1 (map Some (made @ [o1]))"
      by (rule owns_set [OF owns_kalloc [OF Cons.prems(2), of A "k_bytes (n + 1)" o1 a h1]]) (use k Some c in auto)
    have b: "\<forall>m \<in> set (made @ [o1]). is_bytes (live h1 m)"
      using Cons.prems(4) kalloc_live [of A "k_bytes (n + 1)" h o1 a h1] k Some c by (auto simp: is_bytes_def)
    show ?thesis
      by (rule Cons.IH [OF _ own Cons.prems(3) b]) (use Cons.prems(1) in \<open>simp add: n k Some c Let_def\<close>)
  qed
qed auto

lemma cpy_array_spec:
  assumes "cpy_array A cnt arr s h = Some (r, s', h')" "heap_fresh h"
  shows "case r of Inl e \<Rightarrow> live h' = live h \<and> next_obj h \<le> next_obj h'
    | Inr (o_na, a, made) \<Rightarrow> o_na = next_obj h \<and> live h' o_na = Some (k_bytes (8 * (of_nat cnt + 1))) \<and>
        owns h h' (Some o_na # map Some made) \<and> (\<forall>n \<in> set made. is_bytes (live h' n))"
proof -
  define b where "b = (8 * (of_nat cnt + 1) :: u64)"
  note run = assms(1) [unfolded cpy_array_def, folded b_def]
  obtain q h1 where k: "kalloc A (k_bytes b) h = (q, h1)" by fastforce
  show ?thesis
  proof (cases q)
    case None
    then show ?thesis using run k kalloc_None [of A _ h h1] by auto
  next
    case (Some c)
    obtain o_na na where c: "c = (o_na, na)" by (cases c)
    note k1 = k [unfolded Some c]
    obtain t s1 h2 where ce: "copy_each A arr na [0..<cnt] [] s h1 = Some (t, s1, h2)"
      using run by (auto simp: k Some c bind_eq_Some_conv)
    note spec = copy_each_spec [OF ce, of h1, simplified, OF owns_refl heap_fresh_kalloc [OF assms(2) k]]
    have own: "owns h h1 [Some o_na]" by (rule owns_kalloc [OF owns_refl k1])
    show ?thesis
    proof (cases t)
      case None
      have "live h2 = live h1" "next_obj h1 \<le> next_obj h2" using spec by (simp_all add: None)
      then show ?thesis
        using run assms(2) own by (auto simp: k1 ce None kfree_def heap_fresh_def owns_def fun_eq_iff)
    next
      case (Some made)
      have o2: "owns h1 h2 (map Some made)" "\<forall>n \<in> set made. is_bytes (live h2 n)" using spec by (simp_all add: Some)
      have "live h2 o_na = live h1 o_na" using owns_keeps [OF o2(1)] kalloc_live [OF k1] by simp
      moreover have "owns h h2 (Some o_na # map Some made)" using owns_trans [OF own o2(1)] by simp
      ultimately show ?thesis using run o2(2) kalloc_live [OF k1] by (auto simp: k1 ce Some) (simp add: b_def)
    qed
  qed
qed

text \<open>A failure of the address space leaves the thread array allocated; every other failure frees all objects.\<close>

lemma fail_with_live:
  assumes "fail_with e qs s h = Some (r, s', h')" "owns h0 h ps" "heap_fresh h0" "set ps - {None} = set qs - {None}"
  shows "live h' = live h0" "r = Inl e"
  using assms owns_freed [OF assms(2) _ assms(3,4)] by (auto simp: fail_with_def bind_eq_Some_conv)

lemma new_process_objects_spec:
  assumes "new_process_objects A now prio s h = Some (r, s', h')" "heap_fresh h"
  shows "case r of Inl e \<Rightarrow> live h' = live h \<or> (\<exists>n \<ge> next_obj h. live h' = (live h)(n := Some k_threads))
    | Inr (p, ps) \<Rightarrow> owns h h' (process_objects p ps)"
proof -
  obtain r1 h1 where 1: "knew A k_proc h = (r1, h1)" by fastforce
  obtain r2 h2 where 2: "knew A k_fds h1 = (r2, h2)" by fastforce
  obtain r3 h3 where 3: "knew A k_threads h2 = (r3, h3)" by fastforce
  obtain r4 h4 where 4: "knew A k_table h3 = (r4, h4)" by fastforce
  obtain r5 h5 where 5: "knew A k_queue h4 = (r5, h5)" by fastforce
  obtain r6 h6 where 6: "knew A k_queue h5 = (r6, h6)" by fastforce
  obtain r7 h7 where 7: "knew A k_list h6 = (r7, h7)" by fastforce
  obtain r8 h8 where 8: "knew A k_list h7 = (r8, h8)" by fastforce
  note o1 = owns_knew [OF owns_refl 1]
  note o2 = owns_knew [OF o1 2]
  note o3 = owns_knew [OF o2 3]
  note o4 = owns_knew [OF o3 4]
  note o5 = owns_knew [OF o4 5]
  note o6 = owns_knew [OF o5 6]
  note o7 = owns_knew [OF o6 7]
  note o8 = owns_knew [OF o7 8]
  note defs = new_process_objects_def 1 2 3 4 5 6 7 8
  have F: ?thesis if "fail_with e qs t k = Some (r, s', h')" "owns h k ps" "set ps - {None} = set qs - {None}" for e qs t k ps
    using fail_with_live [OF that(1,2) assms(2) that(3)] by simp
  consider "r1 = None" | "r1 \<noteq> None" "r2 = None" | p fds where "r1 = Some p" "r2 = Some fds" by auto
  then show ?thesis
  proof cases
    case 1
    then show ?thesis using assms(1) o1 by (auto simp: defs owns_def fun_eq_iff)
  next
    case 2
    then have "fail_with ENOMEM_INTERNAL [r1] s h2 = Some (r, s', h')" using assms(1) by (auto simp: defs)
    then show ?thesis by (rule F [OF _ o2]) (simp add: 2)
  next
    case 3
    obtain cr3 s1 where c: "create_pml4 s = Some (cr3, s1)" using assms(1) by (auto simp: defs 3 bind_eq_Some_conv)
    show ?thesis
    proof (cases "cr3 = 0")
      case True
      then have "fail_with ENOMEM_INTERNAL [r2, r1] s1 h3 = Some (r, s', h')" using assms(1) by (simp add: defs c 3)
      then obtain h9 where h9: "kfree_all [r2, r1] h3 = Some h9" "h' = h9" "r = Inl ENOMEM_INTERNAL"
        by (auto simp: fail_with_def bind_eq_Some_conv)
      have l: "live h3 = (live h2)(next_obj h2 := (if r3 = None then live h2 (next_obj h2) else Some k_threads))"
        using 3 knew_step(4) [OF \<open>knew A k_threads h2 = (r3, h3)\<close>] by simp
      have "live h' = (live h)(next_obj h2 := (if r3 = None then None else Some k_threads))"
        using kfree_all_live [OF h9(1)] h9(2) o2 assms(2) l by (fastforce simp: fun_eq_iff owns_def heap_fresh_def 3)
      moreover have "live h (next_obj h2) = None" "next_obj h \<le> next_obj h2" using o2 assms(2) by (simp_all add: owns_def heap_fresh_def)
      ultimately show ?thesis using h9(3) by (auto simp: fun_upd_idem)
    next
      case False
      note d = defs c 3 False
      consider "r4 = None" | "r4 \<noteq> None" "r5 = None" | "r4 \<noteq> None" "r5 \<noteq> None" "r7 = None"
        | fut inb bwm where "r4 = Some fut" "r5 = Some inb" "r7 = Some bwm" by auto
      then show ?thesis
      proof cases
        case 1
        then have "fail_with ENOMEM_INTERNAL [r3, r2, r1] s1 h4 = Some (r, s', h')" using assms(1) by (simp add: d)
        then show ?thesis by (rule F [OF _ o4]) (auto simp: 1)
      next
        case 2
        then have "fail_with ENOMEM_INTERNAL [r4, r3, r2, r1] s1 h5 = Some (r, s', h')" using assms(1) by (auto simp: d)
        then show ?thesis by (rule F [OF _ o5]) (auto simp: 2)
      next
        case 3
        then have "fail_with ENOMEM_INTERNAL [r6, r5, r4, r3, r2, r1] s1 h7 = Some (r, s', h')" using assms(1) by (auto simp: d)
        then show ?thesis by (rule F [OF _ o7]) (auto simp: 3)
      next
        case 4
        have "owns h h8 (process_objects p \<lparr>pp_fds = r2, pp_threads = r3, pp_futexes = r4, pp_input_buffer = r5,
                pp_pq_input_buffer = r6, pp_blocked_wait_messages = r7, pp_temp_processes = r8\<rparr>)"
          by (rule owns_set [OF o8]) (auto simp: process_objects_def 3)
        then show ?thesis using assms(1) by (auto simp: d 4 Let_def owns_def)
      qed
    qed
  qed
qed

lemma new_main_thread_spec:
  assumes "new_main_thread A p ps prio s h = Some (r, s', h')" "owns h0 h (process_objects p ps)" "heap_fresh h0"
  shows "case r of Inl e \<Rightarrow> live h' = live h0 | Inr tp \<Rightarrow> owns h0 h' (thread_objects tp p ps)"
proof -
  obtain r1 h1 where 1: "knew A k_thread h = (r1, h1)" by fastforce
  obtain r2 h2 where 2: "knew A k_continuation h1 = (r2, h2)" by fastforce
  obtain r3 h3 where 3: "knew A k_list h2 = (r3, h3)" by fastforce
  note o1 = owns_knew [OF assms(2) 1]
  note o2 = owns_knew [OF o1 2]
  note o3 = owns_knew [OF o2 3]
  note d = new_main_thread_def 1 2 3
  have F: ?thesis if "fail_with e qs t k = Some (r, s', h')" "owns h0 k ps'" "set ps' - {None} = set qs - {None}" for e qs t k ps'
    using fail_with_live [OF that(1,2) assms(3) that(3)] by simp
  consider "r1 = None" | "r1 \<noteq> None" "r2 = None" | "r1 \<noteq> None" "r2 \<noteq> None" "r3 = None"
    | t c fb where "r1 = Some t" "r2 = Some c" "r3 = Some fb" by auto
  then show ?thesis
  proof cases
    case 1
    then have "fail_with ENOMEM_INTERNAL (process_objects p ps) s h1 = Some (r, s', h')" using assms(1) by (simp add: d)
    then show ?thesis by (rule F [OF _ o1]) (auto simp: 1)
  next
    case 2
    then have "fail_with ENOMEM_INTERNAL (r1 # process_objects p ps) s h2 = Some (r, s', h')" using assms(1) by (auto simp: d)
    then show ?thesis by (rule F [OF _ o2]) (auto simp: 2)
  next
    case 3
    then have "fail_with ENOMEM_INTERNAL (r2 # r1 # process_objects p ps) s h3 = Some (r, s', h')" using assms(1) by (auto simp: d)
    then show ?thesis by (rule F [OF _ o3]) (auto simp: 3)
  next
    case 4
    then show ?thesis using assms(1) o3 by (auto simp: d thread_objects_def)
  qed
qed

lemma load_process_image_spec:
  assumes "load_process_image E D A img argc0 argv0 envc envp0 p ps tp s h = Some (Inl e, s', h')"
    and "owns h0 h (thread_objects tp p ps)" "heap_fresh h0"
  shows "live h' = live h0"
proof -
  have "\<exists>e' t. fail_with e' (thread_objects tp p ps) t h = Some (Inl e :: errno + u64 \<times> u64 \<times> u64, s', h')"
    using assms(1) unfolding load_process_image_def Let_def
    by (auto split: if_split_asm option.split_asm sum.split_asm prod.split_asm Option.bind_split_asm)
  then obtain e' t where f: "fail_with e' (thread_objects tp p ps) t h = Some (Inl e :: errno + u64 \<times> u64 \<times> u64, s', h')"
    by blast
  show ?thesis by (rule fail_with_live(1) [OF f assms(2,3) refl])
qed

text \<open>Both arrays of strings could be copied into the kernel heap.\<close>

definition args_copied :: "('q, 'l, 'h) new_env \<Rightarrow> nat \<Rightarrow> u64 \<Rightarrow> u64 \<Rightarrow> 'a mm_state_scheme \<Rightarrow> kheap \<Rightarrow> bool" where
  "args_copied A argc0 argv0 envp0 s h \<longleftrightarrow>
     (\<exists>envc av s1 h1 ev s2 h2. count_strings (vmem s) envp0 = Some envc \<and>
        cpy_array A argc0 argv0 s h = Some (Inr av, s1, h1) \<and> cpy_array A envc envp0 s1 h1 = Some (Inr ev, s2, h2))"

lemma free_array_live:
  assumes "owns h0 h (Some o_na # map Some made)" "free_array (o_na, a, made) h = Some h'" "heap_fresh h0"
  shows "live h' = live h0"
proof -
  have "kfree_all (map Some made @ [Some o_na]) h = Some h'"
  proof -
    have "kfree_all (ps @ [q]) k = do { k1 \<leftarrow> kfree_all ps k; kfree q k1 }" for ps q k
      by (induction ps arbitrary: k) (auto split: option.splits)
    then show ?thesis using assms(2) by (simp add: free_array_def)
  qed
  from owns_freed [OF assms(1) this assms(3)] show ?thesis by auto
qed

lemma heap_fresh_owns: "owns h0 h ps \<Longrightarrow> heap_fresh h0 \<Longrightarrow> heap_fresh h"
  unfolding owns_def heap_fresh_def by (metis le_trans linorder_not_less)

lemma copies_stay:
  assumes "owns h h1 (Some o1 # map Some m1)" "\<forall>n \<in> set (o1 # m1). is_bytes (live h1 n)"
    and "owns h1 h2 (Some o2 # map Some m2)" "\<forall>n \<in> set (o2 # m2). is_bytes (live h2 n)"
    and "live h' = live h2 \<or> (\<exists>n \<ge> next_obj h2. live h' = (live h2)(n := Some k_threads))" "heap_fresh h"
  shows "live h' o1 = live h1 o1"
    and "live h' n \<noteq> live h n \<Longrightarrow> live h n = None \<and> (is_bytes (live h' n) \<or> live h' n = Some k_threads)"
proof -
  have lt: "k < next_obj h1" if "k \<in> set (o1 # m1)" for k using assms(1) that by (auto simp: owns_def)
  have le: "next_obj h \<le> next_obj h1" "next_obj h1 \<le> next_obj h2" using assms(1,3) by (auto simp: owns_def)
  have keep: "live h2 k = live h1 k" if "k < next_obj h1" for k using owns_keeps [OF assms(3) that] .
  show "live h' o1 = live h1 o1" using assms(5) keep [of o1] lt [of o1] le by auto
  assume ne: "live h' n \<noteq> live h n"
  have "next_obj h \<le> n"
  proof (rule ccontr)
    assume "\<not> next_obj h \<le> n"
    then have "live h2 n = live h n" using owns_keeps [OF assms(1), of n] keep [of n] le by simp
    then show False using ne assms(5) le \<open>\<not> next_obj h \<le> n\<close> by auto
  qed
  moreover have "is_bytes (live h2 n)" if "live h2 n \<noteq> live h n"
  proof -
    have "n \<in> set (o1 # m1) \<or> n \<in> set (o2 # m2)" using that assms(1,3) by (auto simp: owns_def inj_image_mem_iff)
    then show ?thesis using assms(2,4) keep lt by auto
  qed
  ultimately show "live h n = None \<and> (is_bytes (live h' n) \<or> live h' n = Some k_threads)"
    using assms(5,6) ne by (auto simp: heap_fresh_def split: if_splits)
qed

text \<open>The part of the creation that follows the copies.\<close>

lemma create_process_after_copies:
  assumes "new_process_objects A now prio s h = Some (r3, s5, h3)" "heap_fresh h"
    and "case r3 of Inl e' \<Rightarrow> Some (Inl e', s5, h3) = Some (Inl e, s', h')
      | Inr (p, ps) \<Rightarrow> \<exists>r4 s6 h4. new_main_thread A p ps prio s5 h3 = Some (r4, s6, h4) \<and>
         (case r4 of Inl e' \<Rightarrow> h' = h4
          | Inr tp \<Rightarrow> \<exists>argv1 envp1 envc s7. load_process_image E D A img argc0 argv1 envc envp1 p ps tp s6 h4 = Some (Inl e, s7, h'))"
  shows "live h' = live h \<or> (\<exists>n \<ge> next_obj h. live h' = (live h)(n := Some k_threads))"
proof (cases r3)
  case (Inl e1)
  then show ?thesis using new_process_objects_spec [OF assms(1,2)] assms(3) by simp
next
  case (Inr x)
  obtain p ps where x: "x = (p, ps)" by (cases x)
  have own: "owns h h3 (process_objects p ps)" using new_process_objects_spec [OF assms(1,2)] by (simp add: Inr x)
  obtain r4 s6 h4 where r4: "new_main_thread A p ps prio s5 h3 = Some (r4, s6, h4)"
    "case r4 of Inl e' \<Rightarrow> h' = h4
     | Inr tp \<Rightarrow> \<exists>argv1 envp1 envc s7. load_process_image E D A img argc0 argv1 envc envp1 p ps tp s6 h4 = Some (Inl e, s7, h')"
    using assms(3) by (auto simp: Inr x)
  note m = new_main_thread_spec [OF r4(1) own assms(2)]
  show ?thesis using m r4(2) load_process_image_spec [OF _ _ assms(2)] by (cases r4) auto
qed

lemma both_copies_leak:
  assumes fresh: "heap_fresh h" and 1: "cpy_array A argc0 argv0 s h = Some (Inr av, s3, h1)"
    and 2: "cpy_array A envc envp0 s3 h1 = Some (Inr ev, s4, h2)"
    and last: "heap_fresh h2 \<Longrightarrow> live h' = live h2 \<or> (\<exists>n \<ge> next_obj h2. live h' = (live h2)(n := Some k_threads))"
  shows "live h' (next_obj h) = Some (k_bytes (8 * (of_nat argc0 + 1)))"
    "live h' n \<noteq> live h n \<Longrightarrow> live h n = None \<and> (is_bytes (live h' n) \<or> live h' n = Some k_threads)"
proof -
  obtain o_na a made where av: "av = (o_na, a, made)" by (cases av)
  obtain o_ev b made' where ev: "ev = (o_ev, b, made')" by (cases ev)
  have own: "o_na = next_obj h" "live h1 o_na = Some (k_bytes (8 * (of_nat argc0 + 1)))" "owns h h1 (Some o_na # map Some made)"
    "\<forall>n \<in> set made. is_bytes (live h1 n)" using cpy_array_spec [OF 1 fresh] by (auto simp: av)
  note fr1 = heap_fresh_owns [OF own(3) fresh]
  have own2: "owns h1 h2 (Some o_ev # map Some made')" "\<forall>n \<in> set (o_ev # made'). is_bytes (live h2 n)"
    using cpy_array_spec [OF 2 fr1] by (auto simp: ev is_bytes_def)
  note stay = copies_stay [OF own(3) _ own2 last [OF heap_fresh_owns [OF own2(1) fr1]] fresh]
  show "live h' (next_obj h) = Some (k_bytes (8 * (of_nat argc0 + 1)))" using stay(1) own by (auto simp: is_bytes_def)
  show "live h n = None \<and> (is_bytes (live h' n) \<or> live h' n = Some k_threads)" if "live h' n \<noteq> live h n"
    using stay(2) [OF _ that] own by (auto simp: is_bytes_def)
qed

lemma first_copy_freed:
  assumes fresh: "heap_fresh h" and 1: "cpy_array A argc0 argv0 s h = Some (Inr av, s3, h1)"
    and 2: "cpy_array A envc envp0 s3 h1 = Some (Inl e2, s4, h2)" and free: "free_array av h2 = Some h'"
  shows "live h' = live h"
proof -
  obtain o_na a made where av: "av = (o_na, a, made)" by (cases av)
  have own: "owns h h1 (Some o_na # map Some made)" using cpy_array_spec [OF 1 fresh] by (auto simp: av)
  have "owns h h2 (Some o_na # map Some made)"
    using own cpy_array_spec [OF 2 heap_fresh_owns [OF own fresh]] by (auto simp: owns_def)
  then show ?thesis using free_array_live [OF _ _ fresh] free by (auto simp: av)
qed

text \<open>
  C26. The heap objects that \<open>create_process_base\<close> itself requests, when it fails. As long as
  the arguments had not both been copied, all of them are freed. After that point the copies are never
  freed: the array of argument pointers stays allocated, and what else stays allocated are byte blocks (the
  copies) and possibly the thread array, never a process, thread, continuation, file, queue, list or table
  object. The address space, its frames and the nodes of its map are not among these objects: the error
  paths do not release them at all.
\<close>

theorem create_process_base_leaks:
  assumes run: "create_process_base E D A now img argc0 argv0 envp0 prio s h = Some (Inl e, s', h')" and fresh: "heap_fresh h"
    and cur: "ct (cpu_at s (current_cpu s)) = Some t"
  shows "if proc_priority (proc_at s (parent_process (thread_at s t))) \<le> prio \<and> args_copied A argc0 argv0 envp0 s h
    then live h' (next_obj h) = Some (k_bytes (8 * (of_nat argc0 + 1))) \<and>
      (\<forall>n. live h' n \<noteq> live h n \<longrightarrow> live h n = None \<and> (is_bytes (live h' n) \<or> live h' n = Some k_threads))
    else live h' = live h"
proof -
  let ?pr = "proc_priority (proc_at s (parent_process (thread_at s t)))"
  have th: "thread_modifier s = 0" using run by (auto simp: create_process_base_def lock_threads_def split: if_splits)
  then have un: "unlock_threads (s\<lparr>thread_modifier := 1\<rparr>) = s" by (simp add: unlock_threads_def)
  note d = create_process_base_def lock_threads_def th cur un
  show ?thesis
  proof (cases "?pr \<le> prio")
    case False
    then show ?thesis using run by (auto simp: d not_le)
  next
    case True
    then have np: "\<not> prio < ?pr" by simp
    obtain envc r1 s3 h1 where 1: "count_strings (vmem s) envp0 = Some envc" "cpy_array A argc0 argv0 s h = Some (r1, s3, h1)"
      using run np by (auto simp: d bind_eq_Some_conv)
    show ?thesis
    proof (cases r1)
      case (Inl e1)
      then have "\<not> args_copied A argc0 argv0 envp0 s h" using 1 by (auto simp: args_copied_def)
      then show ?thesis using run np 1 cpy_array_spec [OF 1(2) fresh] Inl by (simp add: d)
    next
      case (Inr av)
      note c1 = 1(2) [unfolded Inr]
      obtain r2 s4 h2 where 2: "cpy_array A envc envp0 s3 h1 = Some (r2, s4, h2)"
        using run np by (auto simp: d 1 Inr bind_eq_Some_conv)
      show ?thesis
      proof (cases r2)
        case (Inl e2)
        have "free_array av h2 = Some h'" using run np by (auto simp: d 1 Inr 2 Inl bind_eq_Some_conv split: prod.split_asm)
        moreover have "\<not> args_copied A argc0 argv0 envp0 s h" using 1 2 Inr Inl by (auto simp: args_copied_def)
        ultimately show ?thesis using first_copy_freed [OF fresh c1 2 [unfolded Inl]] by simp
      next
        case r2: (Inr ev)
        obtain r3 s5 h3 where 3: "new_process_objects A now prio s4 h2 = Some (r3, s5, h3)"
          using run np by (auto simp: d 1 Inr 2 r2 bind_eq_Some_conv)
        have "live h' = live h2 \<or> (\<exists>n \<ge> next_obj h2. live h' = (live h2)(n := Some k_threads))" if "heap_fresh h2"
          by (rule create_process_after_copies [OF 3 that])
            (use run np in \<open>auto simp: d 1 Inr 2 r2 3 split: sum.split_asm prod.split_asm Option.bind_split_asm\<close>)
        note leak = both_copies_leak [OF fresh c1 2 [unfolded r2] this]
        have "args_copied A argc0 argv0 envp0 s h" unfolding args_copied_def using 1(1) c1 2 [unfolded r2] by blast
        then show ?thesis using True leak by simp
      qed
    qed
  qed
qed

text \<open>No arguments, an empty environment, and no memory for the process object.\<close>

theorem create_process_base_leaks_witness:
  "\<exists>s' h'. create_process_base demo_kenv demo_ds (demo_alloc 12) 0 0x1000 0 0x2000 0x3000 1 demo_sched demo_heap =
     Some (Inl ENOMEM_INTERNAL, s', h') \<and> live demo_heap 10 = None \<and> live h' 10 = Some (k_bytes 8)"
proof -
  have k: "kmem demo_sched = (\<lambda>_. 0)" by (simp add: demo_sched_def)
  then have m: "vmem demo_sched = (\<lambda>_. 0)" by (intro ext) (simp add: vmem_def user_read8_def)
  have z: "read64 (\<lambda>_. 0) a = 0" for a by (simp add: read64_def eval_nat_numeral)
  have cs: "count_strings (vmem demo_sched) 0x3000 = Some 0" by (subst count_strings.simps) (simp add: m z)
  let ?A = "demo_alloc 12"
  obtain s1 h1 where c1: "cpy_array ?A 0 0x2000 demo_sched demo_heap = Some (Inr (10, 0x90A000, []), s1, h1)" "next_obj h1 = 11"
    by (simp add: cpy_array_def kalloc_def demo_alloc_def demo_heap_def)
  obtain s2 h2 where c2: "cpy_array ?A 0 0x3000 s1 h1 = Some (Inr (11, 0x90B000, []), s2, h2)" "next_obj h2 = 12"
    using c1(2) by (simp add: cpy_array_def kalloc_def demo_alloc_def)
  obtain h3 where p: "new_process_objects ?A 0 1 s2 h2 = Some (Inl ENOMEM_INTERNAL, s2, h3)"
    using c2(2) by (simp add: new_process_objects_def knew_def kalloc_def demo_alloc_def)
  have un: "unlock_threads (demo_sched\<lparr>thread_modifier := 1\<rparr>) = demo_sched"
    by (simp add: unlock_threads_def demo_sched_def demo_kernel_def smp_state.defs)
  have r: "create_process_base demo_kenv demo_ds ?A 0 0x1000 0 0x2000 0x3000 1 demo_sched demo_heap = Some (Inl ENOMEM_INTERNAL, s2, h3)"
    by (simp add: create_process_base_def lock_threads_def un cs c1 c2 p demo_proc_def)
  have "args_copied ?A 0 0x2000 0x3000 demo_sched demo_heap" using cs c1 c2 by (auto simp: args_copied_def)
  then show ?thesis
    using create_process_base_leaks [OF r demo_heap_fresh, of 0] r by (simp add: demo_proc_def demo_heap_def)
qed

end
