(* ===== verification/Acpi.thy ===== *)
theory Acpi
  imports Elf_Loader
begin

text \<open>
  ACPI tables (\<open>structures/acpi.c\<close>): the search for the root pointer, the table lookup and the list
  of PCI Express buses. Tables are read from kernel memory at the offsets of the structures of
  \<open>acpi.h\<close> on x86-64, where \<open>XSDT\<close> is not packed: its first pointer is at offset 40, not at 36. Logging is left out.
\<close>

section \<open>Checksums\<close>

definition add_bytes :: "store \<Rightarrow> u64 \<Rightarrow> nat \<Rightarrow> u64" where
  "add_bytes m addr len = fold (\<lambda>p v. v + ucast (m (addr + of_nat p))) [0..<len] 0"

definition check_lowestbyte :: "u64 \<Rightarrow> bool" where
  "check_lowestbyte v \<longleftrightarrow> (ucast v :: u8) = 0"

definition acpisdt_checksum :: "store \<Rightarrow> u64 \<Rightarrow> bool" where
  "acpisdt_checksum m th \<longleftrightarrow> fold (\<lambda>i v. v + m (th + of_nat i)) [0..<unat (ld32 m (th + 4))] (0 :: u8) = 0"

definition valid_rsdt :: "store \<Rightarrow> u64 \<Rightarrow> bool" where "valid_rsdt m a = acpisdt_checksum m a"
definition valid_xsdt :: "store \<Rightarrow> u64 \<Rightarrow> bool" where "valid_xsdt m a = acpisdt_checksum m a"
definition valid_fadt :: "store \<Rightarrow> u64 \<Rightarrow> bool" where "valid_fadt m a = acpisdt_checksum m a"

section \<open>Tables\<close>

text \<open>The globals of the module; \<open>0\<close> is NULL.\<close>

record acpi =
  rsdp_descriptor :: u64
  rsdt :: u64
  xsdt :: u64
  fadt :: u64
  acpi_version :: u8
  century_register :: u8

text \<open>\<open>strncmp\<close> against a name without NUL characters: all bytes agree.\<close>

definition sig_is :: "store \<Rightarrow> u64 \<Rightarrow> string \<Rightarrow> bool" where
  "sig_is m a name \<longleftrightarrow> map (\<lambda>i. m (a + of_nat i)) [0..<length name] = map of_char name"

text \<open>
  The pointers of a root table: \<open>first\<close> is the offset of the first one and \<open>w\<close> their width. The
  number is a \<open>size_t\<close> quotient converted to \<open>int\<close>.
\<close>

definition sdt_pointers :: "'a mm_state_scheme \<Rightarrow> u64 \<Rightarrow> u64 \<Rightarrow> nat \<Rightarrow> u64 list" where
  "sdt_pointers s tab first w =
     (let entries = (ucast (ld32 (kmem s) (tab + 4)) - 36 :: u64) div of_nat w
      in map (\<lambda>i. physical_to_virtual s (read_bytes w (kmem s) (tab + first + of_nat (i * w))))
           [0..<nat (sint (ucast entries :: u32))])"

definition find_table_general :: "acpi \<Rightarrow> string \<Rightarrow> 'a mm_state_scheme \<Rightarrow> u64 option" where
  "find_table_general A name s =
     (let fits = (\<lambda>h. sig_is (kmem s) h name \<and> acpisdt_checksum (kmem s) h)
      in if acpi_version A = 1
         then if rsdt A = 0 then None else find fits (sdt_pointers s (rsdt A) 36 4)
         else if xsdt A = 0 then None else find fits (sdt_pointers s (xsdt A) 40 8))"

definition find_madt :: "acpi \<Rightarrow> 'a mm_state_scheme \<Rightarrow> u64 option" where
  "find_madt A s = find_table_general A ''APIC'' s"

definition valid_rsdp :: "store \<Rightarrow> u64 \<Rightarrow> acpi \<Rightarrow> bool \<times> acpi" where
  "valid_rsdp m rsdp A =
     (let v = m (rsdp + 15) + 1
      in (check_lowestbyte (add_bytes m rsdp (if v = 1 then 20 else 36)), A\<lparr>acpi_version := v\<rparr>))"

fun search_rsdp :: "store \<Rightarrow> u64 list \<Rightarrow> acpi \<Rightarrow> u64 option \<times> acpi" where
  "search_rsdp m [] A = (None, A)"
| "search_rsdp m (a # as) A =
     (if sig_is m a ''RSD PTR ''
      then case valid_rsdp m a A of (ok, A') \<Rightarrow> if ok then (Some a, A') else search_rsdp m as A'
      else search_rsdp m as A)"

text \<open>The 4 KB of the extended BIOS data area, then the BIOS area below 1 MB, every 16 bytes.\<close>

definition find_rsdp :: "store \<Rightarrow> u64 \<Rightarrow> acpi \<Rightarrow> u64 option \<times> acpi" where
  "find_rsdp m ebda A =
     (case search_rsdp m (map (\<lambda>i. ebda + of_nat (16 * i)) [0..<256]) A of
        (Some a, A') \<Rightarrow> (Some a, A')
      | (None, A') \<Rightarrow> search_rsdp m (map (\<lambda>i. 0xE0000 + of_nat (16 * i)) [0..<8192]) A')"

text \<open>
  A missing FADT is a NULL pointer whose checksum is taken: that does not return. The century
  register of the clock is read from the FADT.
\<close>

definition init_table_acpi :: "u64 \<Rightarrow> u8 \<Rightarrow> 'a mm_state_scheme \<Rightarrow> acpi option" where
  "init_table_acpi ebda century0 s =
     (let m = kmem s;
          A0 = \<lparr>rsdp_descriptor = 0, rsdt = 0, xsdt = 0, fadt = 0, acpi_version = 0, century_register = century0\<rparr>
      in case find_rsdp m ebda A0 of
           (None, A1) \<Rightarrow> Some A1
         | (Some r, A1) \<Rightarrow>
             let A2 = A1\<lparr>rsdp_descriptor := r\<rparr>;
                 rp = physical_to_virtual s (ucast (ld32 m (r + 16)));
                 xp = physical_to_virtual s (read64 m (r + 24));
                 ok = (if acpi_version A2 = 1 then valid_rsdt m rp else valid_xsdt m xp);
                 A3 = (if acpi_version A2 = 1 then A2\<lparr>rsdt := rp\<rparr> else A2\<lparr>xsdt := xp\<rparr>)
             in if \<not> ok then Some A2
                else case find_table_general A3 ''FACP'' s of
                       None \<Rightarrow> None
                     | Some f \<Rightarrow>
                         Some (if valid_fadt m f then A3\<lparr>fadt := f, century_register := m (f + 108)\<rparr> else A3))"

section \<open>PCI Express buses\<close>

text \<open>The loops subtract 16 until exactly 0 is left.\<close>

partial_function (option) count_allocations :: "u64 \<Rightarrow> u64 \<Rightarrow> u64 option" where
  "count_allocations bytes num =
     (if 0 < bytes then count_allocations (bytes - 16) (num + 1) else Some num)"

declare count_allocations.simps [code]

definition get_pcie_numcount :: "acpi \<Rightarrow> 'a mm_state_scheme \<Rightarrow> u64 option" where
  "get_pcie_numcount A s =
     (case find_table_general A ''MCFG'' s of
        None \<Rightarrow> Some (- 1)
      | Some mcfg \<Rightarrow> count_allocations (ucast (ld32 (kmem s) (mcfg + 4)) - 44) 0)"

partial_function (option) copy_allocations :: "u64 \<Rightarrow> u64 \<Rightarrow> u64 \<Rightarrow> 'a mm_state_scheme \<Rightarrow> 'a mm_state_scheme option" where
  "copy_allocations bytes addr e s =
     (if 0 < bytes then
        copy_allocations (bytes - 16) (addr + 16) (e + 16)
          (user_store e (map (\<lambda>i. kmem s (addr + of_nat i)) [0..<12]) s)
      else Some s)"

declare copy_allocations.simps [code]

definition get_pcie_info :: "acpi \<Rightarrow> u64 \<Rightarrow> 'a mm_state_scheme \<Rightarrow> 'a mm_state_scheme option" where
  "get_pcie_info A dst s =
     (case find_table_general A ''MCFG'' s of
        None \<Rightarrow> Some s
      | Some mcfg \<Rightarrow> copy_allocations (ucast (ld32 (kmem s) (mcfg + 4)) - 44) (mcfg + 44) dst s)"

section \<open>Lemmas\<close>

lemma uint_mod_16: "uint (b :: u64) mod 16 = int (unat b mod 16)"
  using of_nat_mod [of "unat b" 16, where 'a = int] by simp

lemma uint_sub_16: "uint ((b :: u64) - 16) mod 16 = uint b mod 16"
proof -
  have "uint (b - 16) = (uint b - 16) mod 18446744073709551616" by (simp add: uint_word_ariths)
  moreover have "((uint b - 16) mod 18446744073709551616) mod 16 = (uint b - 16) mod 16"
    by (rule mod_mod_cancel) simp
  ultimately show ?thesis by simp
qed

text \<open>A table whose length is not a whole number of entries keeps the count going for ever.\<close>

lemma count_allocations_diverges:
  assumes "count_allocations bytes num = Some r"
  shows "unat bytes mod 16 = 0"
proof (rule count_allocations.raw_induct [OF _ assms, of "\<lambda>b _ _. unat b mod 16 = 0"])
  fix f and bytes num r :: u64
  assume ih: "\<And>b n y. f b n = Some y \<Longrightarrow> unat b mod 16 = 0"
    and step: "(if 0 < bytes then f (bytes - 16) (num + 1) else Some num) = Some r"
  show "unat bytes mod 16 = 0"
  proof (cases "0 < bytes")
    case True
    then have "unat (bytes - 16) mod 16 = 0" using ih step by simp
    then show ?thesis using uint_sub_16 [of bytes] uint_mod_16 [of bytes] uint_mod_16 [of "bytes - 16"] by simp
  qed (simp add: word_gt_0)
qed

end
