(* ===== verification/Rlyeh.thy ===== *)
theory Rlyeh
  imports Acpi "HOL-Library.Sublist"
begin

text \<open>
  The initial RAM file system (\<open>rlyeh/rlyeh.c\<close>). Its tree of path elements is built from the
  header of the boot module and searched by path. \<open>strtok\<close> on \<open>"/"\<close> gives the non-empty parts
  of a path in order (that it overwrites the separators in the string is left out: the string is
  not read again). The kernel heap is assumed to serve the small objects of the tree: \<open>mk_dir\<close> halts the kernel when it
  does not. Treating a file entry as a directory, halting in \<open>error\<close> and a path without parts
  (a NULL name is compared) do not return.
\<close>

section \<open>The tree\<close>

datatype path_element = PE_DIR string "path_element list" | PE_FILE string u64 u64

primrec pe_name :: "path_element \<Rightarrow> string" where
  "pe_name (PE_DIR n _) = n"
| "pe_name (PE_FILE n _ _) = n"

definition find_by_name :: "path_element \<Rightarrow> string \<Rightarrow> bool" where
  "find_by_name pe name \<longleftrightarrow> pe_name pe = name"

text \<open>\<open>array_find_by_pred\<close> returns the first element that fits; the code changes it in place.\<close>

definition child :: "string \<Rightarrow> path_element list \<Rightarrow> path_element option" where
  "child name cs = find (\<lambda>pe. find_by_name pe name) cs"

primrec set_child :: "string \<Rightarrow> path_element \<Rightarrow> path_element list \<Rightarrow> path_element list" where
  "set_child name new [] = []"
| "set_child name new (c # cs) = (if find_by_name c name then new # cs else c # set_child name new cs)"

text \<open>A node for which there is no memory ends the kernel with \<open>ERROR_INITRD_ERROR\<close>; the tree is that of a start where all could be made.\<close>

definition mk_dir :: "string \<Rightarrow> path_element" where
  "mk_dir name = PE_DIR name []"

definition mk_file :: "string \<Rightarrow> u64 \<Rightarrow> u64 \<Rightarrow> path_element" where
  "mk_file name fsize offset = PE_FILE name fsize offset"

text \<open>
  One header entry: the walk creates missing directories, and the last element, which the walk left as a
  directory, becomes the file. A file on the way halts the kernel and a file at the end is
  deleted as if it were a directory.
\<close>

primrec add_file :: "string list \<Rightarrow> u64 \<Rightarrow> u64 \<Rightarrow> path_element \<Rightarrow> path_element option" where
  "add_file [] fsize offset pel =
     (case pel of PE_DIR n cs \<Rightarrow> Some (PE_FILE n fsize offset) | PE_FILE _ _ _ \<Rightarrow> None)"
| "add_file (pe # pes) fsize offset pel =
     (case pel of
        PE_FILE _ _ _ \<Rightarrow> None
      | PE_DIR n cs \<Rightarrow>
          (case child pe cs of
             None \<Rightarrow> do { c \<leftarrow> add_file pes fsize offset (mk_dir pe); Some (PE_DIR n (cs @ [c])) }
           | Some c \<Rightarrow> do { c' \<leftarrow> add_file pes fsize offset c; Some (PE_DIR n (set_child pe c' cs)) }))"

section \<open>Paths\<close>

primrec strtok_rest :: "string \<Rightarrow> string \<Rightarrow> string list" where
  "strtok_rest acc [] = (if acc = [] then [] else [acc])"
| "strtok_rest acc (c # cs) =
     (if c = CHR ''/'' then (if acc = [] then strtok_rest [] cs else acc # strtok_rest [] cs)
      else strtok_rest (acc @ [c]) cs)"

definition path_parts :: "string \<Rightarrow> string list" where
  "path_parts pth = strtok_rest [] pth"

section \<open>Loading\<close>

text \<open>A C string in kernel memory.\<close>

partial_function (option) c_string :: "store \<Rightarrow> u64 \<Rightarrow> string option" where
  "c_string m a = (if m a = 0 then Some [] else do { cs \<leftarrow> c_string m (a + 1); Some (char_of (unat (m a)) # cs) })"

declare c_string.simps [code]

record lfile_info =
  lf_offset :: u32
  lf_fsize :: u32
  lf_fpath :: string

definition lfile_info_at :: "store \<Rightarrow> u64 \<Rightarrow> lfile_info option" where
  "lfile_info_at m a =
     do { p \<leftarrow> c_string m (a + 8);
          Some \<lparr>lf_offset = ld32 m a, lf_fsize = ld32 m (a + 4), lf_fpath = p\<rparr> }"

definition load_file :: "u32 \<Rightarrow> lfile_info \<Rightarrow> path_element \<Rightarrow> path_element option" where
  "load_file dataoffset lf root =
     (case path_parts (lf_fpath lf) of
        [] \<Rightarrow> None
      | pes \<Rightarrow> add_file pes (ucast (lf_fsize lf)) (ucast (dataoffset + lf_offset lf)) root)"

primrec load_files :: "u32 \<Rightarrow> lfile_info list \<Rightarrow> path_element \<Rightarrow> path_element option" where
  "load_files dataoffset [] root = Some root"
| "load_files dataoffset (lf # lfs) root = do { root' \<leftarrow> load_file dataoffset lf root; load_files dataoffset lfs root' }"

text \<open>The entries are 264 bytes each and start at \<open>header\<close>.\<close>

primrec header_entries :: "store \<Rightarrow> u64 \<Rightarrow> nat list \<Rightarrow> lfile_info list option" where
  "header_entries m header [] = Some []"
| "header_entries m header (i # is) =
     do { lf \<leftarrow> lfile_info_at m (header + of_nat (i * 264));
          lfs \<leftarrow> header_entries m header is;
          Some (lf # lfs) }"

definition load_header :: "store \<Rightarrow> u64 \<Rightarrow> u32 \<Rightarrow> u32 \<Rightarrow> path_element \<Rightarrow> path_element option" where
  "load_header m header nument dataoffset root =
     do { lfs \<leftarrow> header_entries m header [0..<unat nument]; load_files dataoffset lfs root }"

text \<open>
  \<open>initrd\<close> is the address of the module as \<open>get_module\<close> returned it (\<open>0\<close> for none): four magic
  bytes, the number of entries, the offset of the data and the header.
\<close>

definition init_initramfs :: "store \<Rightarrow> u64 \<Rightarrow> path_element option" where
  "init_initramfs m initrd =
     (if initrd = 0 then None
      else if m initrd \<noteq> 0xDE \<or> m (initrd + 1) \<noteq> 0xAF \<or> m (initrd + 2) \<noteq> 0xD0 \<or> m (initrd + 3) \<noteq> 0x55 then None
      else load_header m (initrd + 12) (ld32 m (initrd + 4)) (ld32 m (initrd + 8)) (mk_dir []))"

definition get_data :: "u64 \<Rightarrow> u64 \<Rightarrow> u64" where
  "get_data initrd offset = offset + initrd"

section \<open>Search\<close>

text \<open>The inner \<open>None\<close> is the returned NULL.\<close>

primrec walk :: "string list \<Rightarrow> path_element \<Rightarrow> path_element option option" where
  "walk [] pel = Some (Some pel)"
| "walk (pe # pes) pel =
     (case pel of
        PE_FILE _ _ _ \<Rightarrow> None
      | PE_DIR n cs \<Rightarrow> (case child pe cs of None \<Rightarrow> Some None | Some c \<Rightarrow> walk pes c))"

definition get_path :: "path_element \<Rightarrow> string \<Rightarrow> path_element option option" where
  "get_path root pth = (case path_parts pth of [] \<Rightarrow> None | pes \<Rightarrow> walk pes root)"

section \<open>Deleting the tree\<close>

text \<open>
  The heap blocks of the tree: the element and its name, and the entry of a file or of a directory with its
  array. The functions give the blocks that are freed, in order.
\<close>

datatype tree_block = ELEMENT string | NAME string | FILE_ENTRY u64 u64 | DIR_ENTRY string | DIR_ARRAY string

definition delete_file_entry :: "u64 \<Rightarrow> u64 \<Rightarrow> tree_block list" where
  "delete_file_entry fsize offset = [FILE_ENTRY fsize offset]"

fun delete_entry :: "path_element \<Rightarrow> tree_block list" and delete_dir_entry :: "string \<Rightarrow> path_element list \<Rightarrow> tree_block list" where
  "delete_entry (PE_DIR n cs) = delete_dir_entry n cs @ [NAME n, ELEMENT n]"
| "delete_entry (PE_FILE n fsize offset) = delete_file_entry fsize offset @ [NAME n, ELEMENT n]"
| "delete_dir_entry n [] = [DIR_ARRAY n, DIR_ENTRY n]"
| "delete_dir_entry n (c # cs) = delete_entry c @ delete_dir_entry n cs"

text \<open>Every element of the tree gives back its name and itself; nothing else does.\<close>

fun tree_names :: "path_element \<Rightarrow> string list" and names_of :: "path_element list \<Rightarrow> string list" where
  "tree_names (PE_DIR n cs) = names_of cs @ [n]"
| "tree_names (PE_FILE n _ _) = [n]"
| "names_of [] = []"
| "names_of (c # cs) = tree_names c @ names_of cs"

lemma delete_entry_elements:
  "List.map_filter (\<lambda>b. case b of ELEMENT n \<Rightarrow> Some n | _ \<Rightarrow> None) (delete_entry pe) = tree_names pe"
  "List.map_filter (\<lambda>b. case b of ELEMENT n \<Rightarrow> Some n | _ \<Rightarrow> None) (delete_dir_entry m cs) = names_of cs"
  by (induction pe and m cs rule: delete_entry_delete_dir_entry.induct)
    (simp_all add: delete_file_entry_def map_filter_simps map_filter_def)

section \<open>Files that were loaded are found\<close>

lemma child_set_child:
  assumes "child t cs = Some c" "pe_name c' = t"
  shows "child u (set_child t c' cs) = (if u = t then Some c' else child u cs)"
  using assms by (induction cs) (auto simp: child_def find_by_name_def split: if_splits)

lemma child_append: "child u (cs @ [c]) = (case child u cs of None \<Rightarrow> if pe_name c = u then Some c else None | Some d \<Rightarrow> Some d)"
  by (induction cs) (auto simp: child_def find_by_name_def)

lemma child_name: "child t cs = Some c \<Longrightarrow> pe_name c = t"
  by (auto simp: child_def find_by_name_def find_Some_iff)

lemma add_file_name: "add_file pes sz off pel = Some pel' \<Longrightarrow> pe_name pel' = pe_name pel"
  by (cases pes) (auto simp: bind_eq_Some_conv split: path_element.splits option.splits)

lemma add_file_walk:
  "add_file pes sz off pel = Some pel' \<Longrightarrow> walk pes pel' = Some (Some (PE_FILE (last (pe_name pel # pes)) sz off))"
proof (induction pes arbitrary: pel pel')
  case (Cons t pes)
  obtain n cs where pel: "pel = PE_DIR n cs" using Cons.prems by (cases pel) auto
  show ?case
  proof (cases "child t cs")
    case None
    then obtain c where c: "add_file pes sz off (mk_dir t) = Some c" "pel' = PE_DIR n (cs @ [c])"
      using Cons.prems by (auto simp: pel bind_eq_Some_conv)
    then have "pe_name c = t" using add_file_name [OF c(1)] by (simp add: mk_dir_def)
    then show ?thesis using Cons.IH [OF c(1)] c(2) None by (simp add: child_append mk_dir_def)
  next
    case (Some d)
    then obtain c where c: "add_file pes sz off d = Some c" "pel' = PE_DIR n (set_child t c cs)"
      using Cons.prems by (auto simp: pel bind_eq_Some_conv)
    have "pe_name c = t" using add_file_name [OF c(1)] child_name [OF Some] by simp
    then show ?thesis using Cons.IH [OF c(1)] c(2) Some by (simp add: child_set_child child_name)
  qed
qed (auto split: path_element.splits)

text \<open>Paths of which neither is a prefix of the other.\<close>

abbreviation apart :: "string list \<Rightarrow> string list \<Rightarrow> bool" where
  "apart \<equiv> parallel"

lemma apart_Cons [simp]: "apart (a # as) (b # bs) \<longleftrightarrow> a \<noteq> b \<or> apart as bs"
  by (auto simp: parallel_def)

lemma apart_Nil [simp]: "\<not> apart [] bs" "\<not> apart as []"
  by (simp_all add: parallel_def)

lemma walk_mk_dir: "us \<noteq> [] \<Longrightarrow> walk us (mk_dir t) = Some None"
  by (cases us) (simp_all add: mk_dir_def child_def)

lemma add_file_other:
  "add_file pes sz off pel = Some pel' \<Longrightarrow> apart us pes \<Longrightarrow> walk us pel' = walk us pel"
proof (induction pes arbitrary: pel pel' us)
  case (Cons t pes)
  obtain n cs where pel: "pel = PE_DIR n cs" using Cons.prems by (cases pel) auto
  obtain u us' where us: "us = u # us'" using Cons.prems(2) by (cases us) auto
  show ?case
  proof (cases "child t cs")
    case None
    then obtain c where c: "add_file pes sz off (mk_dir t) = Some c" "pel' = PE_DIR n (cs @ [c])"
      using Cons.prems by (auto simp: pel bind_eq_Some_conv)
    then have "pe_name c = t" using add_file_name [OF c(1)] by (simp add: mk_dir_def)
    moreover have "walk us' c = Some None" if "apart us' pes"
      using Cons.IH [OF c(1) that] walk_mk_dir [of us' t] that by (cases us') auto
    ultimately show ?thesis using c(2) None Cons.prems(2) by (auto simp: us pel child_append split: option.splits)
  next
    case (Some d)
    then obtain c where c: "add_file pes sz off d = Some c" "pel' = PE_DIR n (set_child t c cs)"
      using Cons.prems by (auto simp: pel bind_eq_Some_conv)
    have "pe_name c = t" using add_file_name [OF c(1)] child_name [OF Some] by simp
    then show ?thesis using Cons.IH [OF c(1)] c(2) Some Cons.prems(2) by (auto simp: us pel child_set_child)
  qed
qed simp

lemma add_file_prefix:
  "add_file pes sz off pel = Some pel' \<Longrightarrow> strict_prefix q pes \<Longrightarrow> \<exists>n cs. walk q pel' = Some (Some (PE_DIR n cs))"
proof (induction pes arbitrary: pel pel' q)
  case (Cons t pes)
  obtain n cs where pel: "pel = PE_DIR n cs" using Cons.prems by (cases pel) auto
  show ?case
  proof (cases q)
    case Nil
    then show ?thesis using Cons.prems(1) by (auto simp: pel bind_eq_Some_conv split: option.splits)
  next
    case q: (Cons u q')
    then have u: "u = t" "strict_prefix q' pes" using Cons.prems(2) by auto
    show ?thesis
    proof (cases "child t cs")
      case None
      then obtain c where c: "add_file pes sz off (mk_dir t) = Some c" "pel' = PE_DIR n (cs @ [c])"
        using Cons.prems by (auto simp: pel bind_eq_Some_conv)
      then have "pe_name c = t" using add_file_name [OF c(1)] by (simp add: mk_dir_def)
      then show ?thesis using Cons.IH [OF c(1) u(2)] c(2) None by (simp add: q u child_append)
    next
      case (Some d)
      then obtain c where c: "add_file pes sz off d = Some c" "pel' = PE_DIR n (set_child t c cs)"
        using Cons.prems by (auto simp: pel bind_eq_Some_conv)
      have "pe_name c = t" using add_file_name [OF c(1)] child_name [OF Some] by simp
      then show ?thesis using Cons.IH [OF c(1) u(2)] c(2) Some by (simp add: q u child_set_child)
    qed
  qed
qed simp

lemma walk_append: "walk (a @ b) pel = (case walk a pel of Some (Some p) \<Rightarrow> walk b p | r \<Rightarrow> r)"
  by (induction a arbitrary: pel) (auto split: path_element.splits option.splits)

lemma add_file_None:
  "add_file pes sz off pel = None \<Longrightarrow> \<exists>q n s f. prefix q pes \<and> walk q pel = Some (Some (PE_FILE n s f))"
proof (induction pes arbitrary: pel)
  case Nil
  then show ?case by (cases pel) auto
next
  case (Cons t pes)
  show ?case
  proof (cases pel)
    case (PE_FILE n s f)
    then show ?thesis by (intro exI [of _ "[]"] exI [of _ n]) auto
  next
    case pel: (PE_DIR n cs)
    show ?thesis
    proof (cases "child t cs")
      case None
      then obtain q n s f where "walk q (mk_dir t) = Some (Some (PE_FILE n s f))"
        using Cons.IH [of "mk_dir t"] Cons.prems pel by (auto simp: bind_eq_None_conv)
      then show ?thesis using walk_mk_dir [of q t] by (cases q) (auto simp: mk_dir_def)
    next
      case (Some c)
      then obtain q n s f where "prefix q pes" "walk q c = Some (Some (PE_FILE n s f))"
        using Cons.IH [of c] Cons.prems pel by (auto simp: bind_eq_None_conv)
      then show ?thesis using Some pel by (intro exI [of _ "t # q"] exI [of _ n]) auto
    qed
  qed
qed

definition file_at :: "string list \<Rightarrow> path_element \<Rightarrow> bool" where
  "file_at q root \<longleftrightarrow> (\<exists>n s f. walk q root = Some (Some (PE_FILE n s f)))"

lemma add_file_files:
  assumes "add_file pes sz off root = Some root'" "file_at q root'"
  shows "q = pes \<or> file_at q root"
proof (cases "apart q pes")
  case True
  then show ?thesis using assms add_file_other [OF assms(1) True] by (simp add: file_at_def)
next
  case False
  then consider "q = pes" | "strict_prefix q pes" | x xs where "q = pes @ x # xs"
    by (auto simp: parallel_def strict_prefix_def prefix_def) (metis append.right_neutral list.exhaust)
  then show ?thesis
  proof cases
    case 2
    then show ?thesis using add_file_prefix [OF assms(1) 2] assms(2) by (auto simp: file_at_def)
  next
    case 3
    then show ?thesis using add_file_walk [OF assms(1)] assms(2) by (simp add: file_at_def walk_append)
  qed simp
qed

definition parts_of :: "lfile_info \<Rightarrow> string list" where
  "parts_of lf = path_parts (lf_fpath lf)"

definition file_of :: "u32 \<Rightarrow> lfile_info \<Rightarrow> path_element" where
  "file_of dataoffset lf = PE_FILE (last (parts_of lf)) (ucast (lf_fsize lf)) (ucast (dataoffset + lf_offset lf))"

lemma load_file_eq: "parts_of lf \<noteq> [] \<Longrightarrow>
    load_file d lf root = add_file (parts_of lf) (ucast (lf_fsize lf)) (ucast (d + lf_offset lf)) root"
  by (cases "parts_of lf") (simp_all add: load_file_def parts_of_def)

text \<open>The tree of files is a keyed store: paths are independent when neither continues the other, and files are the obstacles.\<close>

definition put_file :: "string list \<Rightarrow> u64 \<times> u64 \<Rightarrow> path_element \<Rightarrow> path_element option" where
  "put_file pes v root = add_file pes (fst v) (snd v) root"

interpretation files: keyed_store "\<lambda>pes. pes \<noteq> []" apart file_at put_file walk
  "\<lambda>pes v. Some (Some (PE_FILE (last pes) (fst v) (snd v)))"
proof unfold_locales
  fix k v s
  assume "\<And>q. file_at q s \<Longrightarrow> apart q k"
  then show "\<exists>s'. put_file k v s = Some s'"
    using add_file_None [of k "fst v" "snd v" s] by (cases "put_file k v s") (auto simp: put_file_def file_at_def parallel_def)
qed (auto simp: put_file_def add_file_walk add_file_other dest: add_file_files)

definition key_of :: "u32 \<Rightarrow> lfile_info \<Rightarrow> string list \<times> u64 \<times> u64" where
  "key_of d lf = (parts_of lf, ucast (lf_fsize lf), ucast (d + lf_offset lf))"

lemma load_files_put_all:
  "\<forall>lf \<in> set lfs. parts_of lf \<noteq> [] \<Longrightarrow> load_files d lfs root = put_all put_file (map (key_of d) lfs) root"
  by (induction lfs arbitrary: root) (auto simp: load_file_eq put_file_def key_of_def)

lemma load_files_found:
  assumes "sorted_wrt (\<lambda>a b. apart (parts_of a) (parts_of b)) lfs" "\<forall>lf \<in> set lfs. parts_of lf \<noteq> []"
  shows "\<exists>root. load_files d lfs (mk_dir []) = Some root \<and>
    (\<forall>lf \<in> set lfs. walk (parts_of lf) root = Some (Some (file_of d lf)))"
proof -
  have nofile: "\<not> file_at q (mk_dir [])" for q
    using walk_mk_dir [of q "[]"] by (cases q) (auto simp: file_at_def mk_dir_def)
  obtain root where "put_all put_file (map (key_of d) lfs) (mk_dir []) = Some root"
    "\<forall>kv \<in> set (map (key_of d) lfs). walk (fst kv) root = Some (Some (PE_FILE (last (fst kv)) (fst (snd kv)) (snd (snd kv))))"
    using files.put_all_found [of "map (key_of d) lfs" "mk_dir []" "{}"] assms nofile
    by (auto simp: sorted_wrt_map key_of_def)
  then show ?thesis using load_files_put_all [OF assms(2)] by (auto simp: key_of_def file_of_def)
qed

text \<open>
  C27. When no path of the header is a prefix of another and every path has a part, the initial file
  system is built, and every path of the header finds its file with its size and the position of its data. A path that
  continues below a file is not rejected: the lookup reads the file entry as a directory.
\<close>

theorem initramfs_lookup:
  assumes "sorted_wrt (\<lambda>a b. apart (parts_of a) (parts_of b)) lfs" "\<forall>lf \<in> set lfs. parts_of lf \<noteq> []"
  shows "\<exists>root. load_files d lfs (mk_dir []) = Some root \<and>
    (\<forall>lf \<in> set lfs. get_path root (lf_fpath lf) = Some (Some (file_of d lf)) \<and>
       (\<forall>x xs. walk (parts_of lf @ x # xs) root = None))"
proof -
  obtain root where r: "load_files d lfs (mk_dir []) = Some root"
    "\<forall>lf \<in> set lfs. walk (parts_of lf) root = Some (Some (file_of d lf))"
    using load_files_found [OF assms] by blast
  have "get_path root (lf_fpath lf) = walk (parts_of lf) root" if "lf \<in> set lfs" for lf
    using assms(2) that by (cases "parts_of lf") (auto simp: get_path_def parts_of_def)
  then show ?thesis using r by (auto simp: walk_append file_of_def)
qed

theorem initramfs_lookup_witness:
  "\<exists>root. load_files 100 [\<lparr>lf_offset = 0, lf_fsize = 7, lf_fpath = ''/bin/init''\<rparr>, \<lparr>lf_offset = 7, lf_fsize = 9, lf_fpath = ''/bin/ddm''\<rparr>]
      (mk_dir []) = Some root \<and>
    get_path root ''/bin/ddm'' = Some (Some (PE_FILE ''ddm'' 9 107))"
proof -
  let ?a = "\<lparr>lf_offset = 0, lf_fsize = 7, lf_fpath = ''/bin/init''\<rparr>" and ?b = "\<lparr>lf_offset = 7, lf_fsize = 9, lf_fpath = ''/bin/ddm''\<rparr>"
  have p: "parts_of ?a = [''bin'', ''init'']" "parts_of ?b = [''bin'', ''ddm'']" by (simp_all add: parts_of_def path_parts_def)
  have "\<exists>root. load_files 100 [?a, ?b] (mk_dir []) = Some root \<and>
    (\<forall>lf \<in> set [?a, ?b]. get_path root (lf_fpath lf) = Some (Some (file_of 100 lf)) \<and>
       (\<forall>x xs. walk (parts_of lf @ x # xs) root = None))"
    by (rule initramfs_lookup) (simp_all add: p)
  then show ?thesis by (auto simp: file_of_def p)
qed

end
