(* ===== verification/Syscalls.thy ===== *)
theory Syscalls
  imports Boot_Memory Clock Daemons Process_Create Rlyeh
begin

text \<open>
  System calls (\<open>syscalls/sys.c\<close> and \<open>syscalls/syscall_defs.cc\<close>): the table of calls, the dispatcher and
  the handlers. The state collects all of the kernel. A handler returns its value and the register
  frame, or no frame when the processor entered user mode instead of returning.
  Numbers of error codes, uninitialised stack memory and the screen are parameters (\<open>sys_env\<close>).
\<close>

section \<open>State\<close>

record ('arr, 'q, 'l, 'h, 'd) full_state = "('arr, 'q, 'l, 'h, 'd) sys_state" +
  kernel_heap :: kheap
  initramfs_exists :: bool
  fs_root :: path_element
  initrd_module :: u64
  acpi_tables :: acpi

type_synonym ('arr, 'q, 'l, 'h, 'd) kst = "('arr, 'q, 'l, 'h, 'd) full_state"

record ('arr, 'q, 'l, 'h, 'd) sys_env =
  env_smp :: "('arr, ('arr, 'q, 'l, 'h, 'd) kst) smp_env"
  env_ds :: "('q, 'l, 'h) ds_env"
  env_new :: "('q, 'l, 'h) new_env"
  env_daemon :: "'d daemon_env"
  env_wait :: "('arr, 'q, 'l, 'h, 'd) kst \<Rightarrow> ('arr, 'q, 'l, 'h, 'd) kst option"
  errno_code :: "errno \<Rightarrow> u64"
  stack_junk :: "u64 \<Rightarrow> u64"
  unix_time :: u64
  grx_get_height :: u32
  grx_get_width :: u32
  error_slot :: u64
  error_junk :: u32

type_synonym ('arr, 'q, 'l, 'h, 'd) handler_result =
  "((u64 \<times> registers) option \<times> ('arr, 'q, 'l, 'h, 'd) kst) option"

definition ret :: "u64 \<Rightarrow> registers \<Rightarrow> ('arr, 'q, 'l, 'h, 'd) kst \<Rightarrow> ('arr, 'q, 'l, 'h, 'd) handler_result" where
  "ret v r s = Some (Some (v, r), s)"

definition upd_cnt :: "nat \<Rightarrow> (continuation \<Rightarrow> continuation) \<Rightarrow> ('arr, 'q, 'l, 'h, 'z) kernel_state_scheme
    \<Rightarrow> ('arr, 'q, 'l, 'h, 'z) kernel_state_scheme" where
  "upd_cnt c f s = upd_thread c (\<lambda>k. k\<lparr>continuation := f (continuation k)\<rparr>) s"

section \<open>Checks of user memory\<close>

definition MAX_CHECKED_ELEMENTS :: u64 where "MAX_CHECKED_ELEMENTS = 0x512"

text \<open>Backs the pages that were left to be allocated on demand; \<open>c\<close> is the thread whose continuation is passed.\<close>

primrec repair_pages :: "(u64 \<Rightarrow> u64) \<Rightarrow> (u64 \<Rightarrow> u64) \<Rightarrow> nat list \<Rightarrow> nat \<Rightarrow> ('arr, 'q, 'l, 'h, 'z) kernel_state_scheme
    \<Rightarrow> (bool \<times> ('arr, 'q, 'l, 'h, 'z) kernel_state_scheme) option" where
  "repair_pages junk b [] c s = Some (True, s)"
| "repair_pages junk b (ix # ixs) c s =
     do { (ai, s1) \<leftarrow> allocate_mem junk \<lparr>ai_from = b (of_nat ix), ai_amount = 0x1000, ai_exec = False,
                        ai_finished = False, ai_aod = False\<rparr> False False (active_page s) s;
          (if \<not> ai_finished ai then Some (False, set_cnt_present c s1)
           else repair_pages junk b ixs c s1) }"

definition repair_memory :: "(u64 \<Rightarrow> u64) \<Rightarrow> memstate \<Rightarrow> (u64 \<Rightarrow> u64) \<Rightarrow> u64 \<Rightarrow> nat \<Rightarrow> ('arr, 'q, 'l, 'h, 'z) kernel_state_scheme
    \<Rightarrow> (bool \<times> ('arr, 'q, 'l, 'h, 'z) kernel_state_scheme) option" where
  "repair_memory junk state b elements c s =
     (case state of
        ms_okay \<Rightarrow> Some (True, s)
      | ms_allocondem \<Rightarrow> repair_pages junk b [0..<unat elements] c s
      | _ \<Rightarrow> Some (False, s))"

definition validate_address :: "(u64 \<Rightarrow> u64) \<Rightarrow> u64 \<Rightarrow> u64 \<Rightarrow> nat \<Rightarrow> ('arr, 'q, 'l, 'h, 'z) kernel_state_scheme
    \<Rightarrow> (bool \<times> ('arr, 'q, 'l, 'h, 'z) kernel_state_scheme) option" where
  "validate_address junk address sz c s =
     do { (state, localbuf, found) \<leftarrow> check_mem_state address sz junk MAX_CHECKED_ELEMENTS 0 s;
          (if state \<noteq> ms_okay then repair_memory junk state localbuf found c s else Some (True, s)) }"

definition has_nul :: "('a mm_state_scheme) \<Rightarrow> u64 \<Rightarrow> u64 \<Rightarrow> bool" where
  "has_nul s addr n = list_ex (\<lambda>i. vmem s (addr + of_nat i) = 0) [0..<unat n]"

text \<open>The loop over the pages of a string. \<open>found\<close> and the buffer carry over from page to page.\<close>

partial_function (option) validate_pages :: "(u64 \<Rightarrow> u64) \<Rightarrow> u64 \<Rightarrow> u64 \<Rightarrow> (u64 \<Rightarrow> u64) \<Rightarrow> u64 \<Rightarrow> nat
    \<Rightarrow> ('arr, 'q, 'l, 'h, 'z) kernel_state_scheme \<Rightarrow> (bool \<times> ('arr, 'q, 'l, 'h, 'z) kernel_state_scheme) option" where
  "validate_pages junk addr nextb localbuf found c s =
     do { (state, buf, used) \<leftarrow> check_mem_state addr (nextb - addr) localbuf MAX_CHECKED_ELEMENTS found s;
          (if state \<noteq> ms_okay then repair_memory junk state buf used c s
           else if has_nul s addr (nextb - addr) then Some (True, s)
           else validate_pages junk (addr + 0x1000) (nextb + 0x1000) buf used c s) }"

declare validate_pages.simps [code]

definition validate_string :: "(u64 \<Rightarrow> u64) \<Rightarrow> u64 \<Rightarrow> nat \<Rightarrow> ('arr, 'q, 'l, 'h, 'z) kernel_state_scheme
    \<Rightarrow> (bool \<times> ('arr, 'q, 'l, 'h, 'z) kernel_state_scheme) option" where
  "validate_string junk str c s = validate_pages junk str (ALIGN_UP str 0x1000) junk 0 c s"

text \<open>A message is 0x19980 bytes. The checksum is only computed when the address check failed.\<close>

definition validate_message :: "(u64 \<Rightarrow> u64) \<Rightarrow> u64 \<Rightarrow> nat \<Rightarrow> ('arr, 'q, 'l, 'h, 'z) kernel_state_scheme
    \<Rightarrow> (bool \<times> ('arr, 'q, 'l, 'h, 'z) kernel_state_scheme) option" where
  "validate_message junk message c s =
     do { (test, s1) \<leftarrow> validate_address junk message 0x19980 c s;
          (if test then Some (test, s1)
           else let cm = message_sum (vmem s1) message in Some (cm mod 16 = 0, s1)) }"

section \<open>Memory calls\<close>

definition SYS_ALLOC_CONT :: nat where "SYS_ALLOC_CONT = 10"

definition allocate_memory_cont :: "('arr, 'q, 'l, 'h, 'd) sys_env \<Rightarrow> registers \<Rightarrow> nat \<Rightarrow> u64 \<Rightarrow> u64 \<Rightarrow> u64
    \<Rightarrow> ('arr, 'q, 'l, 'h, 'd) kst \<Rightarrow> ('arr, 'q, 'l, 'h, 'd) handler_result" where
  "allocate_memory_cont V r c base sz addr s =
     do { let s1 = upd_cnt c (\<lambda>k. k\<lparr>cnt_syscall := syscalls s SYS_ALLOC_CONT, cnt_0 := base, cnt_1 := sz, cnt_2 := addr\<rparr>) s;
          (ai, s2) \<leftarrow> allocate_mem (stack_junk V) \<lparr>ai_from = base, ai_amount = sz, ai_exec = True,
                        ai_finished = False, ai_aod = True\<rparr> False False (active_page s1) s1;
          let s3 = (if \<not> ai_finished ai
                    then upd_cnt c (\<lambda>k. k\<lparr>cnt_0 := ai_from ai, cnt_1 := ai_amount ai, cnt_2 := addr, cnt_present := True\<rparr>) s2
                    else s2);
          ret addr r s3 }"

text \<open>\<open>find_va_hole\<close> never returns NULL, so the call always goes on to allocate.\<close>

definition allocate_memory :: "('arr, 'q, 'l, 'h, 'd) sys_env \<Rightarrow> registers \<Rightarrow> nat \<Rightarrow> u64
    \<Rightarrow> ('arr, 'q, 'l, 'h, 'd) kst \<Rightarrow> ('arr, 'q, 'l, 'h, 'd) handler_result" where
  "allocate_memory V r c sz s =
     do { let cpu = current_cpu s;
          s1 \<leftarrow> lock_cpu cpu s;
          s2 \<leftarrow> lock_threads s1;
          t \<leftarrow> ct (cpu_at s2 cpu);
          let p = parent_process (thread_at s2 t);
          let (i, s3) = take_va_hole (env_ds V) p sz 0x1000 heap_data s2;
          let start = vastart (mem_maps (proc_at s3 p) ! i);
          allocate_memory_cont V r c start sz start (unlock_cpu cpu (unlock_threads s3)) }"

primrec area_from :: "u64 \<Rightarrow> mmap_area list \<Rightarrow> nat option" where
  "area_from a [] = None"
| "area_from a (m # ms) = (if vastart m = a then Some 0 else map_option Suc (area_from a ms))"

text \<open>Both refusals return 1 without releasing the locks.\<close>

definition deallocate_memory :: "('arr, 'q, 'l, 'h, 'd) sys_env \<Rightarrow> registers \<Rightarrow> u64 \<Rightarrow> u64
    \<Rightarrow> ('arr, 'q, 'l, 'h, 'd) kst \<Rightarrow> ('arr, 'q, 'l, 'h, 'd) handler_result" where
  "deallocate_memory V r base aamount s =
     do { let cpu = current_cpu s;
          s1 \<leftarrow> lock_cpu cpu s;
          s2 \<leftarrow> lock_threads s1;
          t \<leftarrow> ct (cpu_at s2 cpu);
          let p = parent_process (thread_at s2 t);
          (case area_from base (mem_maps (proc_at s2 p)) of
             None \<Rightarrow> ret 1 r s2
           | Some i \<Rightarrow>
               let mm = mem_maps (proc_at s2 p) ! i
               in if vaend mm \<noteq> base + aamount \<or> mtype mm \<noteq> heap_data then ret 1 r s2
                  else do { s3 \<leftarrow> deallocate (env_smp V) (vastart mm) aamount (active_page s2) s2;
                            let s4 = upd_proc p (\<lambda>q. q\<lparr>mem_maps := take i (mem_maps q) @ drop (Suc i) (mem_maps q)\<rparr>) s3;
                            ret 0 r (unlock_cpu cpu (unlock_threads s4)) }) }"

section \<open>Processes, threads and services\<close>

text \<open>The test whether a service is provided by another process than the caller.\<close>

definition not_provider :: "('arr, 'q, 'l, 'h, 'd) sys_env \<Rightarrow> string \<Rightarrow> ('arr, 'q, 'l, 'h, 'd) kst
    \<Rightarrow> (bool \<times> ('arr, 'q, 'l, 'h, 'd) kst) option" where
  "not_provider V service s =
     do { (reg, s1) \<leftarrow> daemon_registered (env_daemon V) service s;
          (if \<not> reg then Some (False, s1)
           else do { (pid, s2) \<leftarrow> get_current_pid s1;
                     (own, s3) \<leftarrow> is_daemon_process (env_daemon V) pid service s2;
                     Some (\<not> own, s3) }) }"

definition dev_selfmap_physical :: "('arr, 'q, 'l, 'h, 'd) sys_env \<Rightarrow> registers \<Rightarrow> nat \<Rightarrow> u64 \<Rightarrow> u64
    \<Rightarrow> ('arr, 'q, 'l, 'h, 'd) kst \<Rightarrow> ('arr, 'q, 'l, 'h, 'd) handler_result" where
  "dev_selfmap_physical V r c physaddr0 sz s =
     do { (no, s1) \<leftarrow> not_provider V SERVICE_DDM s;
          (if no then ret (errno_code V EINVAL) r s1
           else do { (ptr, physaddr, s2) \<leftarrow> map_physical_virtual (env_smp V) (env_ds V) physaddr0 (physaddr0 + sz) False s1;
                     (if ptr = 0
                      then ret 0 r (upd_cnt c (\<lambda>k. k\<lparr>cnt_0 := physaddr, cnt_1 := sz - (physaddr - physaddr0), cnt_present := True\<rparr>) s2)
                      else ret ptr r s2) }) }"

definition get_pid :: "registers \<Rightarrow> ('arr, 'q, 'l, 'h, 'd) kst \<Rightarrow> ('arr, 'q, 'l, 'h, 'd) handler_result" where
  "get_pid r s = do { (pid, s1) \<leftarrow> get_current_pid s; ret pid r s1 }"

definition get_ct_priority :: "registers \<Rightarrow> ('arr, 'q, 'l, 'h, 'd) kst \<Rightarrow> ('arr, 'q, 'l, 'h, 'd) handler_result" where
  "get_ct_priority r s =
     do { let cpu = current_cpu s;
          s1 \<leftarrow> lock_cpu cpu s;
          s2 \<leftarrow> lock_threads s1;
          t \<leftarrow> ct (cpu_at s2 cpu);
          ret (ucast (proc_priority (proc_at s2 (parent_process (thread_at s2 t))))) r (unlock_cpu cpu (unlock_threads s2)) }"

definition DS_ERROR_NOT_ALLOWED :: u64 where "DS_ERROR_NOT_ALLOWED = - 2"

definition dev_fb_get_height :: "('arr, 'q, 'l, 'h, 'd) sys_env \<Rightarrow> registers \<Rightarrow> ('arr, 'q, 'l, 'h, 'd) kst
    \<Rightarrow> ('arr, 'q, 'l, 'h, 'd) handler_result" where
  "dev_fb_get_height V r s =
     do { (no, s1) \<leftarrow> not_provider V SERVICE_FRAMEBUFFER s;
          ret (if no then DS_ERROR_NOT_ALLOWED else ucast (grx_get_height V)) r s1 }"

definition dev_fb_get_width :: "('arr, 'q, 'l, 'h, 'd) sys_env \<Rightarrow> registers \<Rightarrow> ('arr, 'q, 'l, 'h, 'd) kst
    \<Rightarrow> ('arr, 'q, 'l, 'h, 'd) handler_result" where
  "dev_fb_get_width V r s =
     do { (no, s1) \<leftarrow> not_provider V SERVICE_FRAMEBUFFER s;
          ret (if no then DS_ERROR_NOT_ALLOWED else ucast (grx_get_width V)) r s1 }"

definition get_service_status :: "('arr, 'q, 'l, 'h, 'd) sys_env \<Rightarrow> registers \<Rightarrow> nat \<Rightarrow> u64
    \<Rightarrow> ('arr, 'q, 'l, 'h, 'd) kst \<Rightarrow> ('arr, 'q, 'l, 'h, 'd) handler_result" where
  "get_service_status V r c sname s =
     do { (ok, s1) \<leftarrow> validate_string (stack_junk V) sname c s;
          (if \<not> ok then ret (- 1) r s1
           else do { name \<leftarrow> c_string (vmem s1) sname;
                     (reg, s2) \<leftarrow> daemon_registered (env_daemon V) name s1;
                     ret (if reg then 1 else 0) r s2 }) }"

definition register_service :: "('arr, 'q, 'l, 'h, 'd) sys_env \<Rightarrow> registers \<Rightarrow> nat \<Rightarrow> u64
    \<Rightarrow> ('arr, 'q, 'l, 'h, 'd) kst \<Rightarrow> ('arr, 'q, 'l, 'h, 'd) handler_result" where
  "register_service V r c sname s =
     do { (ok, s1) \<leftarrow> validate_string (stack_junk V) sname c s;
          (if \<not> ok then ret (- 1) r s1
           else do { name \<leftarrow> c_string (vmem s1) sname;
                     (pid, s2) \<leftarrow> get_current_pid s1;
                     (res, s3) \<leftarrow> register_daemon_service (env_daemon V) pid name False c s2;
                     ret (case res of Inl e \<Rightarrow> errno_code V e | Inr p \<Rightarrow> p) r s3 }) }"


section \<open>The initial file system\<close>

definition E_EINVAL :: u64 where "E_EINVAL = - 2"
definition E_IFS_INITRAMFS_GONE :: u64 where "E_IFS_INITRAMFS_GONE = - 1"

text \<open>\<open>strncpy\<close>: at most \<open>n\<close> characters, filled up with zeros.\<close>

definition strncpy_bytes :: "string \<Rightarrow> nat \<Rightarrow> u8 list" where
  "strncpy_bytes name n = (let bs = map of_char (take n name) in bs @ replicate (n - length bs) 0)"

text \<open>
  The entry in user memory: the type (4 bytes), the size at offset 8, the name at 16 and the pointer at 272. In the
  branch for directories the body of the test for NULL is its first statement only, so the branch always returns the
  error; the loop after it is unreachable.
\<close>

definition get_initramfs_entry :: "('arr, 'q, 'l, 'h, 'd) sys_env \<Rightarrow> registers \<Rightarrow> nat \<Rightarrow> u64 \<Rightarrow> u64
    \<Rightarrow> ('arr, 'q, 'l, 'h, 'd) kst \<Rightarrow> ('arr, 'q, 'l, 'h, 'd) handler_result" where
  "get_initramfs_entry V r c p strpnt s =
     (if \<not> initramfs_exists s then ret E_IFS_INITRAMFS_GONE r s
      else do { (ok1, s1) \<leftarrow> validate_string (stack_junk V) p c s;
     (if \<not> ok1 then ret E_EINVAL r s1
      else do { (ok2, s2) \<leftarrow> validate_address (stack_junk V) strpnt 280 c s1;
     (if \<not> ok2 then ret E_EINVAL r s2
      else do { pth \<leftarrow> c_string (vmem s2) p;
                found \<leftarrow> get_path (fs_root s2) pth;
     (case found of
        None \<Rightarrow> ret E_EINVAL r s2
      | Some (PE_DIR name cs) \<Rightarrow>
          do { let n = of_nat (length cs);
               let s3 = user_store (strpnt + 8) (bytes_of 8 n) (user_store (strpnt + 16) (strncpy_bytes name 255)
                          (user_store strpnt (bytes_of 4 0) s2));
               (blk, s4) \<leftarrow> proc_alloc (env_smp V) (env_ds V) (n * 8) s3;
               let s5 = user_store (strpnt + 272) (bytes_of 8 blk) s4;
               ret (errno_code V ENOMEM_INTERNAL) r (if blk = 0 then set_cnt_present c s5 else s5) }
      | Some (PE_FILE name fsize offset) \<Rightarrow>
          do { let s3 = user_store (strpnt + 8) (bytes_of 8 fsize) (user_store (strpnt + 16) (strncpy_bytes name 255)
                          (user_store strpnt (bytes_of 4 1) s2));
               let fe = get_data (initrd_module s3) offset - ADDRESS_OFFSET RESERVED_KBLOCK_RAM_MAPPINGS;
               (cont, _, s4) \<leftarrow> map_physical_virtual (env_smp V) (env_ds V) fe (fe + fsize) True s3;
               let s5 = user_store (strpnt + 272) (bytes_of 8 cont) s4;
               (if cont = 0 then ret (errno_code V ENOMEM_INTERNAL) r (set_cnt_present c s5) else ret 0 r s5) }) }) }) })"

primrec validate_strings :: "(u64 \<Rightarrow> u64) \<Rightarrow> u64 \<Rightarrow> nat list \<Rightarrow> nat \<Rightarrow> ('arr, 'q, 'l, 'h, 'z) kernel_state_scheme
    \<Rightarrow> (bool \<times> ('arr, 'q, 'l, 'h, 'z) kernel_state_scheme) option" where
  "validate_strings junk arr [] c s = Some (True, s)"
| "validate_strings junk arr (i # is) c s =
     do { (ok, s1) \<leftarrow> validate_string junk (read64 (vmem s) (arr + of_nat i * 8)) c s;
          (if \<not> ok then Some (False, s1) else validate_strings junk arr is c s1) }"

text \<open>The loop over the environment never advances its index.\<close>

partial_function (option) validate_environment :: "(u64 \<Rightarrow> u64) \<Rightarrow> u64 \<Rightarrow> nat \<Rightarrow> ('arr, 'q, 'l, 'h, 'z) kernel_state_scheme
    \<Rightarrow> (bool \<times> ('arr, 'q, 'l, 'h, 'z) kernel_state_scheme) option" where
  "validate_environment junk envp c s =
     do { (ok, s1) \<leftarrow> validate_address junk envp 8 c s;
          (if \<not> ok then Some (False, s1)
           else if read64 (vmem s1) envp = 0 then Some (True, s1)
           else do { (ok2, s2) \<leftarrow> validate_string junk (read64 (vmem s1) envp) c s1;
                     (if \<not> ok2 then Some (False, s2) else validate_environment junk envp c s2) }) }"

declare validate_environment.simps [code]

definition create_process_ivfs :: "('arr, 'q, 'l, 'h, 'd) sys_env \<Rightarrow> registers \<Rightarrow> nat \<Rightarrow> u64 \<Rightarrow> u64 \<Rightarrow> u64 \<Rightarrow> u64
    \<Rightarrow> ('arr, 'q, 'l, 'h, 'd) kst \<Rightarrow> ('arr, 'q, 'l, 'h, 'd) handler_result" where
  "create_process_ivfs V r c path0 argc0 argv0 envp0 s =
     do { let einval = ret (errno_code V EINVAL) r;
          let junk = stack_junk V;
          let n = (ucast argc0 :: u32);
          (ok1, s1) \<leftarrow> validate_string junk path0 c s;
     (if \<not> ok1 then einval s1
      else do { (ok2, s2) \<leftarrow> validate_address junk argv0 (scast ((n + 1) * 8)) c s1;
     (if \<not> ok2 then einval s2
      else do { (ok3, s3) \<leftarrow> validate_strings junk argv0 [0..<unat (scast n :: u64)] c s2;
     (if \<not> ok3 then einval s3
      else do { (ok4, s4) \<leftarrow> validate_environment junk envp0 c s3;
     (if \<not> ok4 then einval s4
      else do { pth \<leftarrow> c_string (vmem s4) path0;
                pe \<leftarrow> get_path (fs_root s4) pth;
     (case pe of
        Some (PE_FILE _ _ offset) \<Rightarrow>
          do { (cp, s5) \<leftarrow> get_current_process s4;
               (rv, s6, h) \<leftarrow> create_process_base (env_smp V) (env_ds V) (env_new V) (unix_time V)
                  (get_data (initrd_module s5) offset) (nat (sint n)) argv0 envp0 0 s5 (kernel_heap s5);
               let s7 = s6\<lparr>kernel_heap := h\<rparr>;
               (case rv of
                  Inl e \<Rightarrow> ret (errno_code V e) r s7
                | Inr process \<Rightarrow> ret 0 r (upd_proc process (\<lambda>q. q\<lparr>parent := Some cp\<rparr>) s7)) }
      | _ \<Rightarrow> ret (errno_code V ENOENT) r s4) }) }) }) }) }"

section \<open>Messages and futexes\<close>

definition GMI_PROCESS_CREATE_STAGE_1 :: u64 where "GMI_PROCESS_CREATE_STAGE_1 = 1"

text \<open>An error of the creation is dropped: the result is always 0.\<close>

definition self_message :: "('arr, 'q, 'l, 'h, 'd) sys_env \<Rightarrow> u64 \<Rightarrow> u64 \<Rightarrow> ('arr, 'q, 'l, 'h, 'd) kst
    \<Rightarrow> (errno option \<times> ('arr, 'q, 'l, 'h, 'd) kst) option" where
  "self_message V command data s =
     (if command = GMI_PROCESS_CREATE_STAGE_1 then
        do { let d = \<lparr>cp_parent = vmem s data \<noteq> 0, cp_privilege = vmem s (data + 1) \<noteq> 0, cp_priority = vmem s (data + 2)\<rparr>;
             (_, _, s1, h) \<leftarrow> cp_stage_1 (env_ds V) (env_new V) (unix_time V) d s (kernel_heap s);
             Some (None, s1\<lparr>kernel_heap := h\<rparr>) }
      else Some (None, s))"

text \<open>The flags of the header are at offset 24, \<open>gps_id\<close> at 56 and the data at 64.\<close>

definition sys_send_message :: "('arr, 'q, 'l, 'h, 'd) sys_env \<Rightarrow> registers \<Rightarrow> nat \<Rightarrow> u64
    \<Rightarrow> ('arr, 'q, 'l, 'h, 'd) kst \<Rightarrow> ('arr, 'q, 'l, 'h, 'd) handler_result" where
  "sys_send_message V r c message s =
     do { (ok, s1) \<leftarrow> validate_message (stack_junk V) message c s;
          (if \<not> ok then ret 0 r s1
           else do { (retval, s2) \<leftarrow> (if read64 (vmem s1) (message + 24) AND 1 \<noteq> 0
                        then self_message V (read64 (vmem s1) (message + 56)) (message + 64) s1
                        else Some (None, s1));
                     (if retval = Some ENOMEM_INTERNAL
                      then ret (errno_code V ENOMEM_INTERNAL) r (set_cnt_present c s2)
                      else ret 0 r s2) }) }"

text \<open>The first buffer that is not in use.\<close>

primrec free_buffer :: "kmessage list \<Rightarrow> nat option" where
  "free_buffer [] = None"
| "free_buffer (m # ms) = (if \<not> msg_used m then Some 0 else map_option Suc (free_buffer ms))"

definition get_empty_message :: "('arr, 'q, 'l, 'h, 'd) sys_env \<Rightarrow> registers \<Rightarrow> nat \<Rightarrow> u64
    \<Rightarrow> ('arr, 'q, 'l, 'h, 'd) kst \<Rightarrow> ('arr, 'q, 'l, 'h, 'd) handler_result" where
  "get_empty_message V r c mp s =
     do { (ok, s1) \<leftarrow> validate_address (stack_junk V) mp 8 c s;
          (if \<not> ok then ret (errno_code V EINVAL) r s1
           else do { (cp, s2) \<leftarrow> get_current_process s1;
     (if ob_lock (proc_at s2 cp) \<noteq> 0 then None
      else case free_buffer (output_buffer (proc_at s2 cp)) of
             None \<Rightarrow> ret (errno_code V ETRYAGAIN) r s2
           | Some i \<Rightarrow>
               let m = output_buffer (proc_at s2 cp) ! i;
                   s3 = upd_proc cp (\<lambda>q. q\<lparr>output_buffer := (output_buffer q)[i := m\<lparr>msg_used := True\<rparr>]\<rparr>) s2;
                   s4 = memset_dpgs (active_page s3) (msg_message m) 0 0x19980 s3
               in ret 0 r (user_store mp (bytes_of 8 (msg_message m)) s4)) }) }"

text \<open>The body of the receiving call is empty: its value is whatever the register holds.\<close>

definition sys_recv_message :: "registers \<Rightarrow> ('arr, 'q, 'l, 'h, 'd) kst \<Rightarrow> ('arr, 'q, 'l, 'h, 'd) handler_result" where
  "sys_recv_message r s = ret (rax r) r s"

definition sys_futex_wait :: "('arr, 'q, 'l, 'h, 'd) sys_env
    \<Rightarrow> (registers option \<Rightarrow> nat \<Rightarrow> ('arr, 'q, 'l, 'h, 'd) kst \<Rightarrow> (registers option \<times> ('arr, 'q, 'l, 'h, 'd) kst) option)
    \<Rightarrow> registers \<Rightarrow> nat \<Rightarrow> u64 \<Rightarrow> u64 \<Rightarrow> ('arr, 'q, 'l, 'h, 'd) kst \<Rightarrow> ('arr, 'q, 'l, 'h, 'd) handler_result" where
  "sys_futex_wait V S r c ftx_addr state s =
     do { (ok, s1) \<leftarrow> validate_address (stack_junk V) ftx_addr 8 c s;
          (if \<not> ok then ret (errno_code V EINVAL) r s1
           else do { (e, res, s2) \<leftarrow> futex_wait (env_ds V) (env_wait V) S (Some r) ftx_addr (ucast state) s1;
                     (case res of
                        Returned (Some r') \<Rightarrow> ret (case e of None \<Rightarrow> 0 | Some x \<Rightarrow> errno_code V x) r' s2
                      | _ \<Rightarrow> Some (None, s2)) }) }"

definition sys_futex_wake :: "('arr, 'q, 'l, 'h, 'd) sys_env \<Rightarrow> registers \<Rightarrow> nat \<Rightarrow> u64 \<Rightarrow> u64
    \<Rightarrow> ('arr, 'q, 'l, 'h, 'd) kst \<Rightarrow> ('arr, 'q, 'l, 'h, 'd) handler_result" where
  "sys_futex_wake V r c ftx_addr num s =
     do { (ok, s1) \<leftarrow> validate_address (stack_junk V) ftx_addr 8 c s;
          (if \<not> ok then ret (errno_code V EINVAL) r s1
           else do { (e, s2) \<leftarrow> futex_wake (env_smp V) (env_ds V) ftx_addr (ucast num) s1;
                     ret (case e of None \<Rightarrow> 0 | Some x \<Rightarrow> errno_code V x) r s2 }) }"

section \<open>PCI Express\<close>

definition dev_dm_get_pcie_c :: "('arr, 'q, 'l, 'h, 'd) sys_env \<Rightarrow> registers \<Rightarrow> ('arr, 'q, 'l, 'h, 'd) kst
    \<Rightarrow> ('arr, 'q, 'l, 'h, 'd) handler_result" where
  "dev_dm_get_pcie_c V r s =
     do { (no, s1) \<leftarrow> not_provider V SERVICE_DDM s;
          (if no then ret (errno_code V EINVAL) r s1
           else do { n \<leftarrow> get_pcie_numcount (acpi_tables s1) s1; ret n r s1 }) }"

definition dev_dm_get_pcie_info :: "('arr, 'q, 'l, 'h, 'd) sys_env \<Rightarrow> registers \<Rightarrow> nat \<Rightarrow> u64
    \<Rightarrow> ('arr, 'q, 'l, 'h, 'd) kst \<Rightarrow> ('arr, 'q, 'l, 'h, 'd) handler_result" where
  "dev_dm_get_pcie_info V r c pcistruct s =
     do { (no, s1) \<leftarrow> not_provider V SERVICE_DDM s;
          (if no then ret (errno_code V EINVAL) r s1
           else do { pcicount \<leftarrow> get_pcie_numcount (acpi_tables s1) s1;
     (if sint pcicount \<le> 0 then ret (errno_code V EINVAL) r s1
      else do { (ok, s2) \<leftarrow> validate_address (stack_junk V) pcistruct (16 * pcicount) c s1;
                (if \<not> ok then ret (errno_code V EINVAL) r s2
                 else do { s3 \<leftarrow> get_pcie_info (acpi_tables s2) pcistruct s2; ret 0 r s3 }) }) }) }"


section \<open>The table of system calls\<close>

text \<open>The fields the constructors leave uninitialised: \<open>present\<close>, and \<open>uses_error\<close> for five arguments (\<open>junk_e\<close>).\<close>

definition make_syscall_0 :: "sys_fn \<Rightarrow> bool \<Rightarrow> bool \<Rightarrow> bool \<Rightarrow> syscall" where
  "make_syscall_0 sfnc e uns junk_p = \<lparr>sc_present = junk_p, uses_error = e, unsafe = uns, args = 0, sc_fn = Some sfnc\<rparr>"

definition make_syscall_1 :: "sys_fn \<Rightarrow> bool \<Rightarrow> bool \<Rightarrow> bool \<Rightarrow> syscall" where
  "make_syscall_1 sfnc e uns junk_p = \<lparr>sc_present = junk_p, uses_error = e, unsafe = uns, args = 1, sc_fn = Some sfnc\<rparr>"

definition make_syscall_2 :: "sys_fn \<Rightarrow> bool \<Rightarrow> bool \<Rightarrow> bool \<Rightarrow> syscall" where
  "make_syscall_2 sfnc e uns junk_p = \<lparr>sc_present = junk_p, uses_error = e, unsafe = uns, args = 2, sc_fn = Some sfnc\<rparr>"

definition make_syscall_3 :: "sys_fn \<Rightarrow> bool \<Rightarrow> bool \<Rightarrow> bool \<Rightarrow> syscall" where
  "make_syscall_3 sfnc e uns junk_p = \<lparr>sc_present = junk_p, uses_error = e, unsafe = uns, args = 3, sc_fn = Some sfnc\<rparr>"

definition make_syscall_4 :: "sys_fn \<Rightarrow> bool \<Rightarrow> bool \<Rightarrow> bool \<Rightarrow> syscall" where
  "make_syscall_4 sfnc e uns junk_p = \<lparr>sc_present = junk_p, uses_error = e, unsafe = uns, args = 4, sc_fn = Some sfnc\<rparr>"

definition make_syscall_5 :: "sys_fn \<Rightarrow> bool \<Rightarrow> bool \<Rightarrow> bool \<Rightarrow> bool \<Rightarrow> syscall" where
  "make_syscall_5 sfnc e uns junk_p junk_e = \<lparr>sc_present = junk_p, uses_error = junk_e, unsafe = uns, args = 5, sc_fn = Some sfnc\<rparr>"

definition register_syscall :: "nat \<Rightarrow> syscall \<Rightarrow> (nat \<Rightarrow> syscall) \<Rightarrow> (nat \<Rightarrow> syscall)" where
  "register_syscall sysid sc tab =
     (if uses_error sc \<and> args sc = 0 then tab else tab(sysid := sc\<lparr>sc_present := True\<rparr>))"

text \<open>The calls that are registered, with their numbers from \<open>ct_sys.h\<close> and \<open>devsys.h\<close>.\<close>

definition registered_calls :: "bool \<Rightarrow> (nat \<times> syscall) list" where
  "registered_calls j =
     [(1, make_syscall_1 allocate_memory_fn False False j),
      (10, make_syscall_3 allocate_memory_cont_fn False False j),
      (2, make_syscall_2 deallocate_memory_fn False False j),
      (4, make_syscall_0 get_pid_fn False False j),
      (5, make_syscall_1 sys_send_message_fn False True j),
      (6, make_syscall_1 sys_recv_message_fn False True j),
      (7, make_syscall_0 get_ct_priority_fn False False j),
      (8, make_syscall_2 futex_wait_fn False False j),
      (9, make_syscall_2 futex_wake_fn False False j),
      (11, make_syscall_1 get_empty_message_fn False False j),
      (2050, make_syscall_0 dev_fb_get_height_fn False False j),
      (2049, make_syscall_0 dev_fb_get_width_fn False False j),
      (2051, make_syscall_2 get_initramfs_entry_fn False True j),
      (2052, make_syscall_1 get_service_status_fn False True j),
      (2053, make_syscall_1 register_service_fn False True j),
      (2054, make_syscall_4 create_process_ivfs_fn False True j),
      (2055, make_syscall_0 dev_dm_get_pcie_c_fn False False j),
      (2056, make_syscall_1 dev_dm_get_pcie_info_fn False False j),
      (2057, make_syscall_2 dev_selfmap_physical_fn False False j)]"

definition initialize_system_calls :: "bool \<Rightarrow> ('arr, 'q, 'l, 'h, 'd, 'z) sys_state_scheme \<Rightarrow> ('arr, 'q, 'l, 'h, 'd, 'z) sys_state_scheme" where
  "initialize_system_calls j s =
     s\<lparr>syscalls := fold (\<lambda>(n, sc). register_syscall n sc) (registered_calls j) (\<lambda>_. zero_syscall)\<rparr>"

section \<open>Dispatch\<close>

text \<open>A call through the function pointer; with another number of arguments than the function has it is undefined.\<close>

definition call_fn :: "('arr, 'q, 'l, 'h, 'd) sys_env
    \<Rightarrow> (registers option \<Rightarrow> nat \<Rightarrow> ('arr, 'q, 'l, 'h, 'd) kst \<Rightarrow> (registers option \<times> ('arr, 'q, 'l, 'h, 'd) kst) option)
    \<Rightarrow> sys_fn \<Rightarrow> registers \<Rightarrow> nat \<Rightarrow> u64 list \<Rightarrow> ('arr, 'q, 'l, 'h, 'd) kst \<Rightarrow> ('arr, 'q, 'l, 'h, 'd) handler_result" where
  "call_fn V S f r c xs s =
     (case f of
        allocate_memory_fn \<Rightarrow> (case xs of [a] \<Rightarrow> allocate_memory V r c a s | _ \<Rightarrow> None)
      | allocate_memory_cont_fn \<Rightarrow> (case xs of [a, b, d] \<Rightarrow> allocate_memory_cont V r c a b d s | _ \<Rightarrow> None)
      | deallocate_memory_fn \<Rightarrow> (case xs of [a, b] \<Rightarrow> deallocate_memory V r a b s | _ \<Rightarrow> None)
      | get_pid_fn \<Rightarrow> (case xs of [] \<Rightarrow> get_pid r s | _ \<Rightarrow> None)
      | sys_send_message_fn \<Rightarrow> (case xs of [a] \<Rightarrow> sys_send_message V r c a s | _ \<Rightarrow> None)
      | sys_recv_message_fn \<Rightarrow> (case xs of [a] \<Rightarrow> sys_recv_message r s | _ \<Rightarrow> None)
      | get_ct_priority_fn \<Rightarrow> (case xs of [] \<Rightarrow> get_ct_priority r s | _ \<Rightarrow> None)
      | futex_wait_fn \<Rightarrow> (case xs of [a, b] \<Rightarrow> sys_futex_wait V S r c a b s | _ \<Rightarrow> None)
      | futex_wake_fn \<Rightarrow> (case xs of [a, b] \<Rightarrow> sys_futex_wake V r c a b s | _ \<Rightarrow> None)
      | get_empty_message_fn \<Rightarrow> (case xs of [a] \<Rightarrow> get_empty_message V r c a s | _ \<Rightarrow> None)
      | dev_fb_get_height_fn \<Rightarrow> (case xs of [] \<Rightarrow> dev_fb_get_height V r s | _ \<Rightarrow> None)
      | dev_fb_get_width_fn \<Rightarrow> (case xs of [] \<Rightarrow> dev_fb_get_width V r s | _ \<Rightarrow> None)
      | get_initramfs_entry_fn \<Rightarrow> (case xs of [a, b] \<Rightarrow> get_initramfs_entry V r c a b s | _ \<Rightarrow> None)
      | get_service_status_fn \<Rightarrow> (case xs of [a] \<Rightarrow> get_service_status V r c a s | _ \<Rightarrow> None)
      | register_service_fn \<Rightarrow> (case xs of [a] \<Rightarrow> register_service V r c a s | _ \<Rightarrow> None)
      | create_process_ivfs_fn \<Rightarrow> (case xs of [a, b, d, e] \<Rightarrow> create_process_ivfs V r c a b d e s | _ \<Rightarrow> None)
      | dev_dm_get_pcie_c_fn \<Rightarrow> (case xs of [] \<Rightarrow> dev_dm_get_pcie_c V r s | _ \<Rightarrow> None)
      | dev_dm_get_pcie_info_fn \<Rightarrow> (case xs of [a] \<Rightarrow> dev_dm_get_pcie_info V r c a s | _ \<Rightarrow> None)
      | dev_selfmap_physical_fn \<Rightarrow> (case xs of [a, b] \<Rightarrow> dev_selfmap_physical V r c a b s | _ \<Rightarrow> None))"

definition call_args :: "syscall \<Rightarrow> registers \<Rightarrow> u64 \<Rightarrow> u64 list" where
  "call_args sc r slot =
     (if uses_error sc then take (unat (args sc)) [slot, rdi r, rsi r, rdx r, r8 r]
      else take (unat (args sc)) [rdi r, rsi r, rdx r, r8 r, r9 r])"

definition set_error_reg :: "syscall \<Rightarrow> u64 \<Rightarrow> registers \<Rightarrow> registers" where
  "set_error_reg sc e r =
     (if \<not> uses_error sc then r
      else if args sc = 1 then r\<lparr>rsi := e\<rparr>
      else if args sc = 2 then r\<lparr>rdx := e\<rparr>
      else if args sc = 3 \<or> args sc = 4 then r\<lparr>r8 := e\<rparr>
      else r\<lparr>r9 := e\<rparr>)"

text \<open>
  Runs a call for thread \<open>c\<close>. When it switches to a thread whose call was interrupted, that
  call is run again from inside (\<open>context_switch\<close>): the fuel bounds this nesting. A call with more
  than five arguments, or with none and an error slot, falls through the switch. The function pointer of an absent entry is NULL.
\<close>

primrec do_sys_handler :: "('arr, 'q, 'l, 'h, 'd) sys_env \<Rightarrow> nat \<Rightarrow> registers \<Rightarrow> syscall \<Rightarrow> nat \<Rightarrow> ('arr, 'q, 'l, 'h, 'd) kst
    \<Rightarrow> (registers option \<times> ('arr, 'q, 'l, 'h, 'd) kst) option" where
  "do_sys_handler V 0 r sc c s = None"
| "do_sys_handler V (Suc fuel) r sc c s =
     (if 5 < args sc \<or> uses_error sc \<and> args sc = 0 then Some (Some r, s)
      else case sc_fn sc of
        None \<Rightarrow> None
      | Some f \<Rightarrow>
          do { (res, s1) \<leftarrow> call_fn V
                 (\<lambda>r' sel s'. case r' of None \<Rightarrow> None
                    | Some x \<Rightarrow> do_sys_handler V fuel x (cnt_syscall (continuation (thread_at s' sel))) sel s')
                 f r c (call_args sc r (error_slot V)) s;
               (case res of
                  None \<Rightarrow> Some (None, s1)
                | Some (v, r1) \<Rightarrow> Some (Some (set_error_reg sc (scast (error_junk V)) (r1\<lparr>rax := v\<rparr>)), s1)) })"

definition sys_handler :: "('arr, 'q, 'l, 'h, 'd) sys_env \<Rightarrow> nat \<Rightarrow> registers \<Rightarrow> ('arr, 'q, 'l, 'h, 'd) kst
    \<Rightarrow> (registers option \<times> ('arr, 'q, 'l, 'h, 'd) kst) option" where
  "sys_handler V fuel r s =
     (if 4096 \<le> rax r then Some (Some (r\<lparr>rdi := - 1\<rparr>), s)
      else let rnum = unat (rax r)
      in if \<not> sc_present (syscalls s rnum) then Some (Some (r\<lparr>rdi := - 1\<rparr>), s)
      else if rnum = SYS_ALLOC_CONT then Some (Some (r\<lparr>rax := errno_code V EINVAL\<rparr>), s)
      else do { let sc = syscalls s rnum;
                let cpu = current_cpu s;
                s1 \<leftarrow> lock_three cpu s;
                t \<leftarrow> ct (cpu_at s1 cpu);
                let s2 = upd_cnt t (\<lambda>k. k\<lparr>cnt_syscall := sc, cnt_0 := rdi r, cnt_1 := rsi r, cnt_2 := r8 r,
                            cnt_3 := r9 r, cnt_4 := r10 r\<rparr>) s1;
                do_sys_handler V fuel r sc t (unlock_cpu cpu (unlock_sched cpu (unlock_threads s2))) })"


section \<open>Strings at the start of a page\<close>

lemma check_mem_state_empty: "check_mem_state a 0 buf maxc used s = Some (ms_okay, buf, used)"
  by (simp add: check_mem_state_def for_pages.simps)

lemma validate_pages_progress:
  assumes "validate_pages junk addr nextb buf found c s = Some x"
  shows "addr \<noteq> nextb"
proof (rule validate_pages.raw_induct [OF _ assms, of "\<lambda>_ a n _ _ _ _ _. a \<noteq> n"])
  fix f junk addr nextb buf found c s x
  assume ih: "\<And>j a n b d e t y. f j a n b d e t = Some y \<Longrightarrow> a \<noteq> n"
    and step: "check_mem_state addr (nextb - addr) buf MAX_CHECKED_ELEMENTS found s \<bind>
      (\<lambda>(state, b', used). if state \<noteq> ms_okay then repair_memory junk state b' used c s
        else if has_nul s addr (nextb - addr) then Some (True, s)
        else f junk (addr + 4096) (nextb + 4096) b' used c s) = Some x"
  show "addr \<noteq> nextb"
  proof
    assume eq: "addr = nextb"
    have "f junk (addr + 4096) (nextb + 4096) buf found c s = Some x"
      using step by (simp add: eq check_mem_state_empty has_nul_def)
    from ih [OF this] show False by (simp add: eq)
  qed
qed

lemma validate_string_None:
  assumes "str mod 0x1000 = 0"
  shows "validate_string junk str c s = None"
proof (rule ccontr)
  assume "validate_string junk str c s \<noteq> None"
  then obtain x where "validate_pages junk str (ALIGN_UP str 0x1000) junk 0 c s = Some x"
    by (auto simp: validate_string_def)
  from validate_pages_progress [OF this] show False using assms by (simp add: ALIGN_UP_def)
qed

text \<open>
  C28. A string that starts on a page boundary is never validated: the range up to the next
  boundary is empty, no character is looked at, and the loop goes on for ever. So every call
  with such a string argument hangs the kernel.
\<close>

theorem validate_string_page_start:
  assumes "str mod 0x1000 = 0"
  shows "validate_string junk str c s = None \<and> get_service_status V r c str t = None \<and>
    register_service V r c str t = None \<and> create_process_ivfs V r c str n argv0 envp0 t = None \<and>
    (initramfs_exists t \<longrightarrow> get_initramfs_entry V r c str q t = None)"
  by (simp add: get_service_status_def register_service_def create_process_ivfs_def get_initramfs_entry_def
      validate_string_None [OF assms])

theorem validate_string_page_start_witness:
  "validate_string (\<lambda>_. 0) 0x400000 0 demo_kernel = None"
  by (rule validate_string_page_start [THEN conjunct1]) simp

section \<open>Dispatch by number\<close>

text \<open>The documented calls: number, function and number of arguments.\<close>

definition documented_calls :: "(nat \<times> sys_fn \<times> nat) list" where
  "documented_calls =
     [(1, allocate_memory_fn, 1), (2, deallocate_memory_fn, 2), (4, get_pid_fn, 0), (5, sys_send_message_fn, 1),
      (6, sys_recv_message_fn, 1), (7, get_ct_priority_fn, 0), (8, futex_wait_fn, 2), (9, futex_wake_fn, 2),
      (11, get_empty_message_fn, 1), (2049, dev_fb_get_width_fn, 0), (2050, dev_fb_get_height_fn, 0),
      (2051, get_initramfs_entry_fn, 2), (2052, get_service_status_fn, 1), (2053, register_service_fn, 1),
      (2054, create_process_ivfs_fn, 4), (2055, dev_dm_get_pcie_c_fn, 0), (2056, dev_dm_get_pcie_info_fn, 1),
      (2057, dev_selfmap_physical_fn, 2)]"

text \<open>Number 10 is the continuation of an allocation, which only the kernel itself may run.\<close>

definition known_calls :: "nat set" where
  "known_calls = insert 10 (fst ` set documented_calls)"

lemma registered_calls_numbers: "fst ` set (registered_calls j) = known_calls"
  unfolding known_calls_def documented_calls_def registered_calls_def by (simp add: insert_commute)

lemma fold_register:
  assumes "\<forall>(n, sc) \<in> set xs. \<not> uses_error sc"
  shows "sc_present (fold (\<lambda>(n, sc). register_syscall n sc) xs tab n) \<longleftrightarrow> n \<in> fst ` set xs \<or> sc_present (tab n)"
  using assms by (induction xs arbitrary: tab) (auto simp: register_syscall_def split: if_splits)

lemma syscalls_present:
  "sc_present (syscalls (initialize_system_calls j s) n) \<longleftrightarrow> n \<in> known_calls"
proof -
  have "\<forall>(n, sc) \<in> set (registered_calls j). \<not> uses_error sc"
    by (simp add: registered_calls_def make_syscall_0_def make_syscall_1_def make_syscall_2_def make_syscall_3_def make_syscall_4_def)
  from fold_register [OF this] show ?thesis
    by (simp add: initialize_system_calls_def registered_calls_numbers zero_syscall_def)
qed

lemma documented_entry:
  assumes "(n, f, k) \<in> set documented_calls"
  shows "sc_fn (syscalls (initialize_system_calls j s) n) = Some f" "unat (args (syscalls (initialize_system_calls j s) n)) = k"
    "\<not> uses_error (syscalls (initialize_system_calls j s) n)" "k \<le> 4" "n < 4096" "n \<noteq> 10"
proof -
  note d = initialize_system_calls_def registered_calls_def register_syscall_def make_syscall_0_def make_syscall_1_def
    make_syscall_2_def make_syscall_3_def make_syscall_4_def
  have "list_all (\<lambda>(n, f, k). let sc = syscalls (initialize_system_calls j s) n
      in sc_fn sc = Some f \<and> unat (args sc) = k \<and> \<not> uses_error sc \<and> k \<le> 4 \<and> n < 4096 \<and> n \<noteq> 10) documented_calls"
    by (simp add: documented_calls_def d)
  then show "sc_fn (syscalls (initialize_system_calls j s) n) = Some f" "unat (args (syscalls (initialize_system_calls j s) n)) = k"
    "\<not> uses_error (syscalls (initialize_system_calls j s) n)" "k \<le> 4" "n < 4096" "n \<noteq> 10"
    using assms by (auto simp: list_all_iff Let_def)
qed

lemma relock_cnt:
  assumes "cpu_free c s" and "thread_modifier s = 0"
  shows "unlock_cpu c (unlock_sched c (unlock_threads (upd_cnt t f
    ((upd_cpu c (\<lambda>k. k\<lparr>cpu_lock := 1, cpu_sched_lock := 1\<rparr>) s)\<lparr>thread_modifier := 1\<rparr>)))) = upd_cnt t f s"
proof -
  have "cpu_at s c\<lparr>cpu_sched_lock := 0, cpu_lock := 0\<rparr> = cpu_at s c" using assms(1) by (cases "cpu_at s c") (simp add: cpu_free_def)
  then have "(cpu_at s)(c := cpu_at s c\<lparr>cpu_sched_lock := 0, cpu_lock := 0\<rparr>) = cpu_at s" by simp
  then show ?thesis
    using assms by (cases s) (simp add: unlock_cpu_def unlock_sched_def unlock_threads_def upd_cnt_def upd_cpu_def upd_thread_def)
qed

text \<open>
  What a call should do: it is noted in the continuation of the thread, the function gets its arguments from rdi,
  rsi, rdx, r8 and r9, and the result goes to rax.
\<close>

definition documented_effect :: "('arr, 'q, 'l, 'h, 'd) sys_env \<Rightarrow> nat \<Rightarrow> nat \<Rightarrow> sys_fn \<Rightarrow> nat \<Rightarrow> registers \<Rightarrow> nat
    \<Rightarrow> ('arr, 'q, 'l, 'h, 'd) kst \<Rightarrow> (registers option \<times> ('arr, 'q, 'l, 'h, 'd) kst) option" where
  "documented_effect V fuel n f k r t s =
     do { (res, s1) \<leftarrow> call_fn V
            (\<lambda>r' sel s'. case r' of None \<Rightarrow> None
               | Some x \<Rightarrow> do_sys_handler V fuel x (cnt_syscall (continuation (thread_at s' sel))) sel s')
            f r t (take k [rdi r, rsi r, rdx r, r8 r, r9 r])
            (upd_cnt t (\<lambda>c. c\<lparr>cnt_syscall := syscalls s n, cnt_0 := rdi r, cnt_1 := rsi r, cnt_2 := r8 r,
               cnt_3 := r9 r, cnt_4 := r10 r\<rparr>) s);
          Some (map_option (\<lambda>(v, r1). r1\<lparr>rax := v\<rparr>) res, s1) }"

lemma sys_handler_documented:
  assumes s: "s = initialize_system_calls j s0" and nfk: "(n, f, k) \<in> set documented_calls" and rax: "rax r = of_nat n"
    and free: "cpu_free (current_cpu s) s" "thread_modifier s = 0" and t: "ct (cpu_at s (current_cpu s)) = Some t"
  shows "sys_handler V (Suc fuel) r s = documented_effect V fuel n f k r t s"
proof -
  note e = documented_entry(1-3) [OF nfk, of j s0, folded s] documented_entry(4-6) [OF nfk]
  have un: "unat (rax r) = n" unfolding rax using e(5) by (intro unat_of_nat_u64) simp
  have small: "\<not> 4096 \<le> rax r" using un e(5) by (simp add: word_le_nat_alt)
  have pres: "sc_present (syscalls s n)" using nfk by (force simp: s syscalls_present known_calls_def image_iff)
  have args: "\<not> 5 < args (syscalls s n)" using e(2,4) by (simp add: word_less_nat_alt)
  have ct': "ct (cpu_at (upd_cpu (current_cpu s) (\<lambda>k. k\<lparr>cpu_lock := 1, cpu_sched_lock := 1\<rparr>) s) (current_cpu s)) = Some t"
    using t by (simp add: cpu_at_upd_cpu)
  have "sys_handler V (Suc fuel) r s = do_sys_handler V (Suc fuel) r (syscalls s n) t (upd_cnt t (\<lambda>c. c\<lparr>cnt_syscall := syscalls s n,
      cnt_0 := rdi r, cnt_1 := rsi r, cnt_2 := r8 r, cnt_3 := r9 r, cnt_4 := r10 r\<rparr>) s)"
    using small pres e(6) free ct'
    by (simp add: sys_handler_def Let_def un SYS_ALLOC_CONT_def lock_three_eq relock_cnt [OF free] del: do_sys_handler.simps)
  moreover have "set_error_reg (syscalls s n) x y = y" for x y using e(3) by (simp add: set_error_reg_def)
  moreover have "call_args (syscalls s n) r x = take k [rdi r, rsi r, rdx r, r8 r, r9 r]" for x
    using e(2,3) by (simp add: call_args_def)
  ultimately show ?thesis
    using args e(1,3) by (auto simp: documented_effect_def map_option_case intro!: Option.bind_cong split: option.split)
qed

text \<open>
  C29. After initialisation the handler knows exactly the documented calls. A documented number, on a processor
  whose locks are free, calls its function with as many of the registers rdi, rsi, rdx, r8 and r9 as the function has
  arguments, after the call has been noted in the continuation of the thread, and the result is returned in rax.
  Any other number, in particular one beyond the table, returns to the caller with \<open>-1\<close> in \<open>rdi\<close>, and the internal
  continuation call is refused with EINVAL; the kernel state is not touched.
\<close>

theorem sys_handler_dispatches:
  assumes s: "s = initialize_system_calls j s0"
  shows "(\<forall>(n, f, k) \<in> set documented_calls. rax r = of_nat n \<longrightarrow>
      cpu_free (current_cpu s) s \<longrightarrow> thread_modifier s = 0 \<longrightarrow> ct (cpu_at s (current_cpu s)) = Some t \<longrightarrow>
      sys_handler V (Suc fuel) r s = documented_effect V fuel n f k r t s) \<and>
    (4096 \<le> rax r \<or> unat (rax r) \<notin> insert 10 (fst ` set documented_calls) \<longrightarrow>
       sys_handler V fuel r s = Some (Some (r\<lparr>rdi := - 1\<rparr>), s)) \<and>
    (rax r = 10 \<longrightarrow> sys_handler V fuel r s = Some (Some (r\<lparr>rax := errno_code V EINVAL\<rparr>), s))"
proof (intro conjI)
  have "\<not> sc_present (syscalls s (unat (rax r)))" if "unat (rax r) \<notin> known_calls"
    using that by (simp add: assms syscalls_present)
  moreover have "sc_present (syscalls s 10)" by (simp add: assms syscalls_present known_calls_def)
  ultimately show "4096 \<le> rax r \<or> unat (rax r) \<notin> insert 10 (fst ` set documented_calls) \<longrightarrow>
       sys_handler V fuel r s = Some (Some (r\<lparr>rdi := - 1\<rparr>), s)"
    "rax r = 10 \<longrightarrow> sys_handler V fuel r s = Some (Some (r\<lparr>rax := errno_code V EINVAL\<rparr>), s)"
    by (auto simp: sys_handler_def Let_def SYS_ALLOC_CONT_def known_calls_def)
qed (use sys_handler_documented [OF s] in blast)

definition demo_full :: "(nat list, nat list, nat list, (u64 \<times> nat) list, (string \<times> u64) list) full_state" where
  "demo_full = sys_state.extend (initialize_system_calls False demo_sys)
     \<lparr>kernel_heap = demo_heap, initramfs_exists = True, fs_root = mk_dir [], initrd_module = 0,
      acpi_tables = \<lparr>rsdp_descriptor = 0, rsdt = 0, xsdt = 0, fadt = 0, acpi_version = 0, century_register = 0\<rparr>\<rparr>
     \<lparr>cpu_at := \<lambda>_. demo_cpu\<lparr>ct := Some 0\<rparr>\<rparr>"

definition demo_env :: "(nat list, nat list, nat list, (u64 \<times> nat) list, (string \<times> u64) list) sys_env" where
  "demo_env = \<lparr>env_smp = \<lparr>array_get_size = length, array_get_at = (!), array_find_by_pred = (\<lambda>a P. find P a),
       array_push_data = (\<lambda>a x. a @ [x]), remote_ipi = (\<lambda>_. Some), ipi_schedule = (\<lambda>r s. Some (r, s))\<rparr>,
     env_ds = demo_ds, env_new = demo_alloc 0, env_daemon = demo_tab, env_wait = (\<lambda>_. None),
     errno_code = (\<lambda>_. 22), stack_junk = (\<lambda>_. 0), unix_time = 0, grx_get_height = 600, grx_get_width = 800,
     error_slot = 0, error_junk = 0\<rparr>"

lemma demo_full_fields [simp]:
  "syscalls demo_full n = syscalls (initialize_system_calls False demo_sys) n" "current_cpu demo_full = 0"
  "cpu_at demo_full c = demo_cpu\<lparr>ct := Some 0\<rparr>" "proc_at demo_full p = demo_proc" "thread_at demo_full t = demo_thread"
  "thread_modifier demo_full = 0"
  by (simp_all add: demo_full_def sys_state.defs initialize_system_calls_def demo_sys_def kernel_state.defs demo_kernel_def
      smp_state.defs demo_smp_def mm_state.defs demo_state_def)

theorem sys_handler_dispatches_witness:
  "sys_handler demo_env 1 (demo_regs\<lparr>rax := 3\<rparr>) (initialize_system_calls False demo_full) =
     Some (Some (demo_regs\<lparr>rax := 3, rdi := - 1\<rparr>), initialize_system_calls False demo_full) \<and>
   (\<exists>s1. sys_handler demo_env 1 (demo_regs\<lparr>rax := 4\<rparr>) (initialize_system_calls False demo_full) = Some (Some (demo_regs\<lparr>rax := 1\<rparr>), s1))"
proof
  show "sys_handler demo_env 1 (demo_regs\<lparr>rax := 3\<rparr>) (initialize_system_calls False demo_full) =
     Some (Some (demo_regs\<lparr>rax := 3, rdi := - 1\<rparr>), initialize_system_calls False demo_full)"
    using sys_handler_dispatches [OF refl, of "demo_regs\<lparr>rax := 3\<rparr>" False demo_full 0 demo_env 1] by (simp add: documented_calls_def)
  let ?s = "initialize_system_calls False demo_full"
  have free: "cpu_free (current_cpu ?s) ?s" "thread_modifier ?s = 0" "ct (cpu_at ?s (current_cpu ?s)) = Some 0"
    by (simp_all add: initialize_system_calls_def cpu_free_def demo_cpu_def)
  have "(4, get_pid_fn, 0) \<in> set documented_calls" by (simp add: documented_calls_def)
  from bspec [OF conjunct1 [OF sys_handler_dispatches [OF refl, of "demo_regs\<lparr>rax := 4\<rparr>" False demo_full 0 demo_env 0]] this] free
  show "\<exists>s1. sys_handler demo_env 1 (demo_regs\<lparr>rax := 4\<rparr>) ?s = Some (Some (demo_regs\<lparr>rax := 1\<rparr>), s1)"
    by (simp add: documented_effect_def call_fn_def get_pid_def get_current_pid_def ret_def lock_three_eq cpu_free_def upd_cnt_def upd_thread_def
        upd_cpu_def initialize_system_calls_def demo_cpu_def demo_thread_def demo_proc_def)
qed

section \<open>A refused deallocation\<close>

lemma lock_three_held: "cpu_lock (cpu_at s c) \<noteq> 0 \<Longrightarrow> lock_three c s = None"
  by (simp add: lock_three_def cpu_spin.acquire_held)

text \<open>
  C30. Releasing memory with an address that starts no area, with another size than the area has, or an area
  that is not heap memory returns 1 with the locks of the processor held: from then on no system call on
  this processor that passes the table returns.
\<close>

theorem deallocate_memory_deadlocks:
  assumes run: "deallocate_memory V r base amount s = Some (Some (v, r1), s1)"
    and cur: "ct (cpu_at s (current_cpu s)) = Some t" "ms = mem_maps (proc_at s (parent_process (thread_at s t)))"
    and bad: "\<forall>i. area_from base ms = Some i \<longrightarrow> vaend (ms ! i) \<noteq> base + amount \<or> mtype (ms ! i) \<noteq> heap_data"
    and call: "rax r2 < 4096" "sc_present (syscalls s1 (unat (rax r2)))" "rax r2 \<noteq> 10"
  shows "v = 1 \<and> sys_handler V fuel r2 s1 = None"
proof -
  let ?c = "current_cpu s"
  obtain s2 where s2: "lock_cpu ?c s = Some s2" "cpu_lock (cpu_at s ?c) = 0"
    using run by (auto simp: deallocate_memory_def bind_eq_Some_conv lock_cpu_def Let_def split: if_splits)
  have f: "cpu_lock (cpu_at s2 ?c) = 1" "ct (cpu_at s2 ?c) = Some t" "thread_at s2 = thread_at s" "proc_at s2 = proc_at s"
    "current_cpu s2 = ?c"
    using s2 cur by (auto simp: lock_cpu_def upd_cpu_def)
  obtain s3 where s3: "lock_threads s2 = Some s3" using run s2 by (auto simp: deallocate_memory_def bind_eq_Some_conv Let_def)
  have g: "cpu_at s3 = cpu_at s2" "thread_at s3 = thread_at s" "proc_at s3 = proc_at s" "current_cpu s3 = ?c"
    using s3 f by (auto simp: lock_threads_def split: if_splits)
  have r: "v = 1" "s1 = s3"
    using run bad cur by (auto simp: deallocate_memory_def s2 s3 f g ret_def Let_def split: option.splits)
  have "unat (rax r2) \<noteq> SYS_ALLOC_CONT" using call(3) by (simp add: SYS_ALLOC_CONT_def word_unat_eq_iff)
  then have "sys_handler V fuel r2 s1 = None"
    using call lock_three_held [of s1 ?c] by (simp add: sys_handler_def Let_def r f g)
  with r show ?thesis by simp
qed

text \<open>Address 1 starts no area; afterwards \<open>get_pid\<close> (call 4) never returns.\<close>

theorem deallocate_memory_deadlocks_witness:
  "\<exists>s1. deallocate_memory demo_env demo_regs 1 0x1000 demo_full = Some (Some (1, demo_regs), s1) \<and>
     sys_handler demo_env 1 (demo_regs\<lparr>rax := 4\<rparr>) s1 = None"
proof -
  have ms: "area_from 1 demo_maps = None" by (simp add: demo_maps_def new_area_def)
  obtain s1 where d: "deallocate_memory demo_env demo_regs 1 0x1000 demo_full = Some (Some (1, demo_regs), s1)"
    and t: "syscalls s1 = syscalls demo_full"
    by (simp add: deallocate_memory_def lock_cpu_def lock_threads_def upd_cpu_def demo_cpu_def demo_proc_def ms ret_def)
  have "sc_present (syscalls s1 4)" by (simp add: t syscalls_present known_calls_def documented_calls_def)
  then show ?thesis
    using deallocate_memory_deadlocks [OF d, of 0 demo_maps "demo_regs\<lparr>rax := 4\<rparr>" 1] d ms by (auto simp: demo_proc_def)
qed

end
