(* ===== verification/Transitions.thy ===== *)
theory Transitions
  imports Main
begin

text \<open>
  Sequences of operations. A component is seen as a transition system, a set of initial states and
  a step relation with one rule per operation. \<open>reach\<close> is reachability, the locale
  \<open>invariant_system\<close> the contract of an invariant, and \<open>simulation\<close> that of a refinement: what holds of
  the abstract system's runs holds of the concrete ones.
\<close>

inductive reach :: "('s \<Rightarrow> bool) \<Rightarrow> ('s \<Rightarrow> 's \<Rightarrow> bool) \<Rightarrow> 's \<Rightarrow> bool" for init step where
  reach_init: "init s \<Longrightarrow> reach init step s"
| reach_step: "reach init step s \<Longrightarrow> step s s' \<Longrightarrow> reach init step s'"


locale invariant_system =
  fixes init :: "'s \<Rightarrow> bool" and step :: "'s \<Rightarrow> 's \<Rightarrow> bool" and inv :: "'s \<Rightarrow> bool"
  assumes init_inv: "init s \<Longrightarrow> inv s"
    and step_inv: "inv s \<Longrightarrow> step s s' \<Longrightarrow> inv s'"
begin

lemma reach_inv: "reach init step s \<Longrightarrow> inv s"
  by (induction rule: reach.induct) (blast intro: init_inv step_inv)+

lemma run_inv:
  assumes "inv s" and "step\<^sup>*\<^sup>* s s'"
  shows "inv s'"
  using assms(2,1)
  by (induction rule: rtranclp_induct) (blast intro: step_inv)+

end

text \<open>
  A forward simulation: where the linking invariant and the abstract invariant hold, every concrete
  step keeps the link and is an abstract step of the abstracted states. The concrete system then has
  both invariants, and its runs are runs of the abstract system.
\<close>

locale simulation = abst: invariant_system ainit astep ainv
  for ainit :: "'a \<Rightarrow> bool" and astep :: "'a \<Rightarrow> 'a \<Rightarrow> bool" and ainv :: "'a \<Rightarrow> bool" +
  fixes init :: "'s \<Rightarrow> bool" and step :: "'s \<Rightarrow> 's \<Rightarrow> bool" and link :: "'s \<Rightarrow> bool" and absn :: "'s \<Rightarrow> 'a"
  assumes init_sim: "init s \<Longrightarrow> link s \<and> ainit (absn s)"
    and step_sim: "link s \<Longrightarrow> ainv (absn s) \<Longrightarrow> step s s' \<Longrightarrow> link s' \<and> astep (absn s) (absn s')"

sublocale simulation \<subseteq> conc: invariant_system init step "\<lambda>s. link s \<and> ainv (absn s)"
  by unfold_locales (use init_sim step_sim abst.init_inv abst.step_inv in blast)+

context simulation
begin

lemma reach_abs: "reach init step s \<Longrightarrow> reach ainit astep (absn s)"
proof (induction rule: reach.induct)
  case (reach_step s s')
  then show ?case using conc.reach_inv step_sim by (blast intro: reach.reach_step)
qed (blast intro: reach.reach_init dest: init_sim)

end

end
