(* ===== verification/Scheduler_Runs.thy ===== *)
theory Scheduler_Runs
  imports Scheduler Transitions
begin

text \<open>
  Runs of the scheduler: sequences of calls of \<open>schedule\<close>, futex waits and thread placements on one processor,
  as a step relation on the kernel state with a set of live threads beside it. The runs refine those of an
  abstract scheduler on the queue contents, which keeps every live thread in exactly one place. A thread in
  the first queue runs after as many calls of \<open>schedule\<close> as it has threads before it; a thread in a lower queue
  may wait for ever. When the timer calls \<open>schedule\<close> (on even milliseconds, on a processor picked at random)
  is not part of these runs.
\<close>

section \<open>The abstract scheduler\<close>

type_synonym asched = "nat \<times> nat list list \<times> nat set"

text \<open>The running thread, the queues and the live threads: those that run or are queued.\<close>

inductive asched_step :: "(nat \<Rightarrow> nat) \<Rightarrow> asched \<Rightarrow> asched \<Rightarrow> bool" for prio where
  tick: "concat qs \<noteq> [] \<Longrightarrow> sched_spec qs = (Some sel, qs') \<Longrightarrow>
    asched_step prio (run, qs, A) (sel, enqueue (prio run) run qs', A)"
| wait: "concat qs \<noteq> [] \<Longrightarrow> sched_spec qs = (Some sel, qs') \<Longrightarrow>
    asched_step prio (run, qs, A) (sel, qs', A - {run})"
| place: "t \<notin> A \<Longrightarrow> prio t < 5 \<Longrightarrow>
    asched_step prio (run, qs, A) (run, enqueue (prio t) t qs, insert t A)"

inductive_cases asched_stepE: "asched_step prio a a'"

definition asched_ok :: "(nat \<Rightarrow> nat) \<Rightarrow> asched \<Rightarrow> bool" where
  "asched_ok prio = (\<lambda>(run, qs, A).
     length qs = 5 \<and> distinct (run # concat qs) \<and> set (run # concat qs) = A \<and> (\<forall>t \<in> A. prio t < 5))"

text \<open>Distinctness and content of a list in terms of its multiset.\<close>

lemma mset_distinct: "mset xs = mset ys \<Longrightarrow> distinct xs \<longleftrightarrow> distinct ys"
  by (metis mset_eq_imp_distinct_iff)

lemma sched_spec_picks:
  assumes "concat qs \<noteq> []" and "sched_spec qs = (Some sel, qs')"
  shows "mset (sel # concat qs') = mset (concat qs)" "length qs' = length qs"
  by (rule sched_spec_mset [OF assms(1)]; use assms(2) in simp)+

lemma asched_tick_ok:
  assumes "asched_ok prio (run, qs, A)" and "concat qs \<noteq> []" and "sched_spec qs = (Some sel, qs')"
  shows "asched_ok prio (sel, enqueue (prio run) run qs', A)"
proof -
  note p = sched_spec_picks [OF assms(2,3)]
  have "mset (concat (enqueue (prio run) run qs')) = add_mset run (mset (concat qs'))"
    using assms(1) p(2) by (intro mset_enqueue) (auto simp: asched_ok_def)
  then have m: "mset (sel # concat (enqueue (prio run) run qs')) = mset (run # concat qs)"
    using p(1) by (metis add_mset_commute mset.simps(2))
  show ?thesis
    using assms(1) p(2) mset_distinct [OF m] mset_eq_setD [OF m] by (simp add: asched_ok_def)
qed

lemma asched_wait_ok:
  assumes "asched_ok prio (run, qs, A)" and "concat qs \<noteq> []" and "sched_spec qs = (Some sel, qs')"
  shows "asched_ok prio (sel, qs', A - {run})"
proof -
  note p = sched_spec_picks [OF assms(2,3)]
  have "set (sel # concat qs') = A - {run}"
    using assms(1) mset_eq_setD [OF p(1)] by (auto simp: asched_ok_def)
  then show ?thesis
    using assms(1) p(2) mset_distinct [OF p(1)] by (simp add: asched_ok_def)
qed

lemma asched_place_ok:
  assumes "asched_ok prio (run, qs, A)" and "t \<notin> A" and "prio t < 5"
  shows "asched_ok prio (run, enqueue (prio t) t qs, insert t A)"
proof -
  have "mset (concat (enqueue (prio t) t qs)) = add_mset t (mset (concat qs))"
    using assms(1,3) by (intro mset_enqueue) (simp add: asched_ok_def)
  then have m: "mset (run # concat (enqueue (prio t) t qs)) = mset (t # run # concat qs)" by simp
  show ?thesis
    using assms mset_distinct [OF m] mset_eq_setD [OF m] by (simp add: asched_ok_def)
qed

interpretation asched: invariant_system "asched_ok prio" "asched_step prio" "asched_ok prio" for prio
  by unfold_locales (auto elim!: asched_stepE intro: asched_tick_ok asched_wait_ok asched_place_ok)

section \<open>The kernel's scheduler\<close>

text \<open>
  The steps of one processor: a run of \<open>schedule\<close> that interrupts a user thread while work is queued, a
  \<open>futex_wait\<close> that blocks while work is queued, and the placement of a thread that is not live yet. A wait
  whose value differs changes nothing and is no step; a wait with empty queues leaves no thread to run and
  is not a step of these runs.
\<close>

inductive sched_step :: "('arr, ('arr, 'q, 'l, 'h, 'z) kernel_state_scheme) smp_env \<Rightarrow> ('q, 'l, 'h) ds_env
    \<Rightarrow> (('arr, 'q, 'l, 'h, 'z) kernel_state_scheme \<Rightarrow> ('arr, 'q, 'l, 'h, 'z) kernel_state_scheme option)
    \<Rightarrow> (registers option \<Rightarrow> nat \<Rightarrow> ('arr, 'q, 'l, 'h, 'z) kernel_state_scheme
      \<Rightarrow> (registers option \<times> ('arr, 'q, 'l, 'h, 'z) kernel_state_scheme) option)
    \<Rightarrow> ('arr, 'q, 'l, 'h, 'z) kernel_state_scheme \<times> nat set \<Rightarrow> ('arr, 'q, 'l, 'h, 'z) kernel_state_scheme \<times> nat set \<Rightarrow> bool"
  for E D W S where
  timer: "do_get_priority_count D (cpu_at s (current_cpu s)) \<noteq> 0 \<Longrightarrow> r_cs x = 40 OR 3 \<Longrightarrow>
    schedule D W S (Some x) s = Some (res, s') \<Longrightarrow> sched_step E D W S (s, A) (s', A)"
| block: "do_get_priority_count D (cpu_at s (current_cpu s)) \<noteq> 0 \<Longrightarrow> r_cs x = 40 OR 3 \<Longrightarrow>
    ct (cpu_at s (current_cpu s)) = Some t \<Longrightarrow>
    futex_wait D W S (Some x) ftx val s = Some (None, res, s') \<Longrightarrow> sched_step E D W S (s, A) (s', A - {t})"
| wake: "t \<notin> A \<Longrightarrow> \<not> blocked (thread_at s t) \<Longrightarrow> unat (priority (thread_at s t)) < 5 \<Longrightarrow>
    enschedule_to_self E D t s = Some s' \<Longrightarrow> sched_step E D W S (s, A) (s', insert t A)"

inductive_cases sched_stepE: "sched_step E D W S a a'"

definition sched_abs :: "('q \<Rightarrow> nat list) \<Rightarrow> ('arr, 'q, 'l, 'h, 'z) kernel_state_scheme \<times> nat set \<Rightarrow> asched" where
  "sched_abs qc = (\<lambda>(s, A). let c = cpu_at s (current_cpu s) in (the (ct c), queue_contents qc c, A))"

text \<open>What links the kernel state to the abstract one: the locks are free and live threads can run.\<close>

definition sched_link :: "(nat \<Rightarrow> nat) \<Rightarrow> ('arr, 'q, 'l, 'h, 'z) kernel_state_scheme \<times> nat set \<Rightarrow> bool" where
  "sched_link prio = (\<lambda>(s, A).
     cpu_free (current_cpu s) s \<and> thread_modifier s = 0 \<and> halted_modifier s = 0 \<and>
     ct (cpu_at s (current_cpu s)) \<noteq> None \<and>
     (\<forall>t. \<not> cnt_present (continuation (thread_at s t)) \<and> unat (priority (thread_at s t)) = prio t) \<and>
     (\<forall>t \<in> A. \<not> blocked (thread_at s t)))"

text \<open>Each operation, under the link: it returns, keeps the link and takes the abstract step.\<close>

lemma timer_step:
  fixes s :: "('arr, 'q, 'l, 'h, 'z) kernel_state_scheme"
  assumes laws: "queue_laws D qc" and link: "sched_link prio (s, A)" and ok: "asched_ok prio (sched_abs qc (s, A))"
    and work: "do_get_priority_count D (cpu_at s (current_cpu s)) \<noteq> 0" and cs: "r_cs x = 40 OR 3"
  obtains s' x' where "schedule D W S (Some x) s = Some (Returned (Some x'), s')" "sched_link prio (s', A)"
    "current_cpu s' = current_cpu s" "asched_step prio (sched_abs qc (s, A)) (sched_abs qc (s', A))"
    "sched_abs qc (s', A) = (let (run, qs, A) = sched_abs qc (s, A)
       in (the (fst (sched_spec qs)), enqueue (prio run) run (snd (sched_spec qs)), A))"
proof -
  let ?c = "current_cpu s"
  obtain old where old: "ct (cpu_at s ?c) = Some old" using link by (auto simp: sched_link_def)
  have th: "\<not> cnt_present (continuation (thread_at s t))" "unat (priority (thread_at s t)) = prio t" for t
    using link by (simp_all add: sched_link_def)
  have live: "old \<in> A" "prio old < 5" "\<not> blocked (thread_at s old)" "length (queue_contents qc (cpu_at s ?c)) = 5"
    using ok link old by (auto simp: asched_ok_def sched_abs_def sched_link_def Let_def)
  have ne: "concat (queue_contents qc (cpu_at s ?c)) \<noteq> []" using count_pos_queued [OF laws work] by (simp add: queue_contents_def)
  show thesis
  proof (rule schedule_tick [OF laws refl _ _ work cs old, of W S])
    show "cpu_free ?c s" "thread_modifier s = 0" using link by (simp_all add: sched_link_def)
    show "\<not> blocked (thread_at s old) \<longrightarrow> unat (priority (thread_at s old)) < 5" using live(2) th(2) by simp
    show "\<forall>t. \<not> cnt_present (continuation (thread_at s t))" using th(1) by blast
    show "distinct (old # concat (queue_contents qc (cpu_at s ?c)))" using ok old by (simp add: asched_ok_def sched_abs_def Let_def)
    fix sel qs' s' x'
    assume r: "schedule D W S (Some x) s = Some (Returned (Some x'), s')"
      "sched_spec (queue_contents qc (cpu_at s ?c)) = (Some sel, qs')" "ct (cpu_at s' ?c) = Some sel"
      "queue_contents qc (cpu_at s' ?c) = requeue (thread_at s old) old qs'"
      "cpu_free ?c s'" "thread_modifier s' = 0" "current_cpu s' = ?c" "halted_modifier s' = halted_modifier s"
      "thread_at s' = (if sel = old then thread_at s else (thread_at s)(old := copy_registers x (thread_at s old)))"
    have same: "blocked (thread_at s' t) = blocked (thread_at s t)" "priority (thread_at s' t) = priority (thread_at s t)"
      "continuation (thread_at s' t) = continuation (thread_at s t)" for t
      by (simp_all add: r(9) copy_registers_def)
    have a: "sched_abs qc (s, A) = (old, queue_contents qc (cpu_at s ?c), A)"
      "sched_abs qc (s', A) = (sel, enqueue (prio old) old qs', A)"
      using r(3,4,7) live(3) old by (simp_all add: sched_abs_def requeue_def th(2))
    show thesis
    proof (rule that [OF r(1) _ r(7)])
      show "sched_link prio (s', A)" using link r(3,5-8) by (simp add: sched_link_def same)
      show "asched_step prio (sched_abs qc (s, A)) (sched_abs qc (s', A))"
        unfolding a by (rule asched_step.tick [OF ne r(2)])
    qed (simp add: a r(2))
  qed
qed

lemma block_step:
  fixes s :: "('arr, 'q, 'l, 'h, 'z) kernel_state_scheme"
  assumes laws: "queue_laws D qc" and link: "sched_link prio (s, A)" and ok: "asched_ok prio (sched_abs qc (s, A))"
    and work: "do_get_priority_count D (cpu_at s (current_cpu s)) \<noteq> 0" and cs: "r_cs x = 40 OR 3"
    and t: "ct (cpu_at s (current_cpu s)) = Some t" and val: "user_read32 s ftx = val"
  obtains s' x' where "futex_wait D W S (Some x) ftx val s = Some (None, Returned (Some x'), s')"
    "sched_link prio (s', A - {t})"
    "current_cpu s' = current_cpu s" "asched_step prio (sched_abs qc (s, A)) (sched_abs qc (s', A - {t}))"
    "sched_abs qc (s', A - {t}) = (let (run, qs, A) = sched_abs qc (s, A)
       in (the (fst (sched_spec qs)), snd (sched_spec qs), A - {run}))"
proof -
  let ?c = "current_cpu s"
  have ne: "concat (queue_contents qc (cpu_at s ?c)) \<noteq> []" using count_pos_queued [OF laws work] by (simp add: queue_contents_def)
  show thesis
  proof (rule futex_wait_tick [OF laws refl _ _ _ work cs t _ _ val, of W S])
    show "distinct (t # concat (queue_contents qc (cpu_at s ?c)))" using ok t by (simp add: asched_ok_def sched_abs_def Let_def)
    show "cpu_free ?c s" "thread_modifier s = 0" "halted_modifier s = 0"
      "\<forall>t. \<not> cnt_present (continuation (thread_at s t))"
      using link by (simp_all add: sched_link_def)
    fix sel qs' s' x'
    assume r: "futex_wait D W S (Some x) ftx val s = Some (None, Returned (Some x'), s')"
      "sched_spec (queue_contents qc (cpu_at s ?c)) = (Some sel, qs')" "ct (cpu_at s' ?c) = Some sel"
      "queue_contents qc (cpu_at s' ?c) = qs'"
      "cpu_free ?c s'" "thread_modifier s' = 0" "current_cpu s' = ?c" "halted_modifier s' = 0"
      and same: "\<And>u. priority (thread_at s' u) = priority (thread_at s u)"
      "\<And>u. continuation (thread_at s' u) = continuation (thread_at s u)"
      "\<And>u. blocked (thread_at s' u) = (u = t \<or> blocked (thread_at s u))"
    have a: "sched_abs qc (s, A) = (t, queue_contents qc (cpu_at s ?c), A)" "sched_abs qc (s', A - {t}) = (sel, qs', A - {t})"
      using r(3,4,7) t by (simp_all add: sched_abs_def)
    show thesis
    proof (rule that [OF r(1) _ r(7)])
      show "sched_link prio (s', A - {t})" using link r(3,5-8) by (simp add: sched_link_def same)
      show "asched_step prio (sched_abs qc (s, A)) (sched_abs qc (s', A - {t}))"
        unfolding a by (rule asched_step.wait [OF ne r(2)])
    qed (simp add: a r(2))
  qed
qed

lemma wake_step:
  fixes s :: "('arr, 'q, 'l, 'h, 'z) kernel_state_scheme"
  assumes laws: "queue_laws D qc" and link: "sched_link prio (s, A)" and ok: "asched_ok prio (sched_abs qc (s, A))"
    and t: "t \<notin> A" "\<not> blocked (thread_at s t)" "unat (priority (thread_at s t)) < 5"
  obtains s' where "enschedule_to_self E D t s = Some s'" "sched_link prio (s', insert t A)"
    "asched_step prio (sched_abs qc (s, A)) (sched_abs qc (s', insert t A))"
proof (rule enschedule_to_self_spec [OF laws refl _ _ t(3), of E])
  show "cpu_free (current_cpu s) s" "thread_modifier s = 0" using link by (simp_all add: sched_link_def)
  show "t \<notin> set (concat (queue_contents qc (cpu_at s (current_cpu s))))"
    using ok t(1) by (auto simp: asched_ok_def sched_abs_def Let_def)
  fix s'
  assume run: "enschedule_to_self E D t s = Some s'" and cpu: "current_cpu s' = current_cpu s"
    "ct (cpu_at s' (current_cpu s)) = ct (cpu_at s (current_cpu s))"
    "thread_at s' = thread_at s" "cpu_free (current_cpu s) s'" "thread_modifier s' = 0" "halted_modifier s' = halted_modifier s"
    "queue_contents qc (cpu_at s' (current_cpu s)) =
       enqueue (unat (priority (thread_at s t))) t (queue_contents qc (cpu_at s (current_cpu s)))"
  have pr: "prio t = unat (priority (thread_at s t))" using link by (simp add: sched_link_def)
  have "sched_link prio (s', insert t A)" using link t(2) cpu by (simp add: sched_link_def)
  moreover have "asched_step prio (sched_abs qc (s, A)) (sched_abs qc (s', insert t A))"
    using asched_step.place [OF t(1), of prio] t(3) cpu by (simp add: sched_abs_def Let_def pr)
  ultimately show thesis by (rule that [OF run])
qed

lemma futex_wait_None_val: "futex_wait D W S r ftx val s = Some (None, res, s') \<Longrightarrow> user_read32 s ftx = val"
  by (rule ccontr) (simp add: futex_wait_def)

lemma sched_step_sim:
  assumes laws: "queue_laws D qc" and link: "sched_link prio a" and ok: "asched_ok prio (sched_abs qc a)"
    and step: "sched_step E D W S a a'"
  shows "sched_link prio a' \<and> asched_step prio (sched_abs qc a) (sched_abs qc a')"
  using step
proof (cases rule: sched_step.cases)
  case (timer s x res s' A)
  show ?thesis by (rule timer_step [OF laws, of prio s A x W S]) (use timer link ok in auto)
next
  case (block s x t ftx val res s' A)
  show ?thesis
    by (rule block_step [OF laws, of prio s A x t ftx val W S]) (use block link ok futex_wait_None_val in auto)
next
  case (wake t A s s')
  show ?thesis by (rule wake_step [OF laws, of prio s A t E]) (use wake link ok in auto)
qed

definition sched_init :: "('q, 'l, 'h) ds_env \<Rightarrow> ('q \<Rightarrow> nat list) \<Rightarrow> (nat \<Rightarrow> nat)
    \<Rightarrow> ('arr, 'q, 'l, 'h, 'z) kernel_state_scheme \<times> nat set \<Rightarrow> bool" where
  "sched_init D qc prio a \<longleftrightarrow> queue_laws D qc \<and> sched_link prio a \<and> asched_ok prio (sched_abs qc a)"

interpretation runs: simulation "asched_ok prio" "asched_step prio" "asched_ok prio" "sched_init D qc prio"
  "sched_step E D W S" "\<lambda>a. queue_laws D qc \<and> sched_link prio a" "sched_abs qc" for prio D qc E W S
  by unfold_locales (auto simp: sched_init_def dest: sched_step_sim)

section \<open>Properties of the runs\<close>


definition demo_prio :: "nat \<Rightarrow> nat" where
  "demo_prio t = (if t = 9 then 0 else if t = 4 then 2 else 1)"

definition demo_runs :: "(nat list, nat list, nat list, (u64 \<times> nat) list) kernel_state" where
  "demo_runs = demo_kernel\<lparr>thread_at := \<lambda>t. demo_thread\<lparr>priority := of_nat (demo_prio t)\<rparr>,
     cpu_at := \<lambda>_. demo_cpu\<lparr>ct := Some 1, priority_0 := [9], priority_1 := [2, 3], priority_2 := [4]\<rparr>\<rparr>"

lemma demo_runs_fields [simp]:
  "current_cpu demo_runs = 0" "thread_modifier demo_runs = 0" "halted_modifier demo_runs = 0"
  "thread_at demo_runs t = demo_thread\<lparr>priority := of_nat (demo_prio t)\<rparr>"
  "ct (cpu_at demo_runs 0) = Some 1" "queue_contents (\<lambda>q. q) (cpu_at demo_runs 0) = [[9], [2, 3], [4], [], []]"
  "cpu_free 0 demo_runs"
  by (simp_all add: demo_runs_def queue_contents_def queues_of_def demo_cpu_def cpu_free_def)

lemma demo_runs_init: "sched_init demo_ds (\<lambda>q. q) demo_prio (demo_runs, {1, 2, 3, 4, 9})"
proof -
  have "asched_ok demo_prio (sched_abs (\<lambda>q. q) (demo_runs, {1, 2, 3, 4, 9}))"
    by (auto simp: asched_ok_def sched_abs_def demo_prio_def)
  moreover have "sched_link demo_prio (demo_runs, {1, 2, 3, 4, 9})"
    by (simp add: sched_link_def demo_prio_def demo_thread_def)
  ultimately show ?thesis using demo_queue_laws by (simp add: sched_init_def)
qed

lemma demo_frame: "r_cs demo_regs = 40 OR 3"
  by (simp add: demo_regs_def)

lemma demo_runs_work: "do_get_priority_count demo_ds (cpu_at demo_runs (current_cpu demo_runs)) \<noteq> 0"
  by (simp add: demo_runs_def do_get_priority_count_def demo_ds_def queues_of_def demo_cpu_def upt_conv_Cons)


section \<open>Waiting for the processor\<close>

text \<open>A sequence of calls of \<open>schedule\<close>, each with the frame of the thread it interrupts.\<close>

primrec sched_rounds :: "('q, 'l, 'h) ds_env
    \<Rightarrow> (('arr, 'q, 'l, 'h, 'z) kernel_state_scheme \<Rightarrow> ('arr, 'q, 'l, 'h, 'z) kernel_state_scheme option)
    \<Rightarrow> (registers option \<Rightarrow> nat \<Rightarrow> ('arr, 'q, 'l, 'h, 'z) kernel_state_scheme
      \<Rightarrow> (registers option \<times> ('arr, 'q, 'l, 'h, 'z) kernel_state_scheme) option)
    \<Rightarrow> registers list \<Rightarrow> ('arr, 'q, 'l, 'h, 'z) kernel_state_scheme \<Rightarrow> ('arr, 'q, 'l, 'h, 'z) kernel_state_scheme option" where
  "sched_rounds D W S [] s = Some s"
| "sched_rounds D W S (x # xs) s = do { (_, s1) \<leftarrow> schedule D W S (Some x) s; sched_rounds D W S xs s1 }"

primrec asched_rounds :: "(nat \<Rightarrow> nat) \<Rightarrow> nat \<Rightarrow> asched \<Rightarrow> asched" where
  "asched_rounds prio 0 a = a"
| "asched_rounds prio (Suc n) a = asched_rounds prio n (let (run, qs, A) = a
     in (the (fst (sched_spec qs)), enqueue (prio run) run (snd (sched_spec qs)), A))"

lemma count_nonzero:
  assumes laws: "queue_laws D qc" and ne: "concat (queue_contents qc c) \<noteq> []"
    and few: "length (concat (queue_contents qc c)) < 2305843009213693952"
  shows "do_get_priority_count D c \<noteq> 0"
proof -
  let ?l = "\<lambda>q. length (qc q)"
  let ?n = "5 * ?l (priority_0 c) + 4 * ?l (priority_1 c) + 3 * ?l (priority_2 c) + 2 * ?l (priority_3 c) + ?l (priority_4 c)"
  have "do_get_priority_count D c = of_nat ?n"
    using laws by (simp add: do_get_priority_count_def queues_of_def upt_conv_Cons queue_laws_def numeral_eq_Suc algebra_simps)
  moreover have "?n < 18446744073709551616" "0 < ?n"
    using few ne by (auto simp: queue_contents_def queues_of_def)
  ultimately show ?thesis using unat_of_nat_u64 [of ?n] by auto
qed

lemma asched_ok_room:
  assumes "asched_ok prio (run, qs, A)"
  shows "length (concat qs) = card A - 1" "finite A" "0 < card A"
proof -
  have A: "A = set (run # concat qs)" "distinct (run # concat qs)" using assms by (simp_all add: asched_ok_def)
  then show "length (concat qs) = card A - 1" "finite A" "0 < card A"
    using distinct_card [OF A(2)] by simp_all
qed

text \<open>While two threads are live, the calls follow the abstract schedule.\<close>

lemma sched_rounds_refine:
  assumes laws: "queue_laws D qc" and link: "sched_link prio (s, A)" and ok: "asched_ok prio (sched_abs qc (s, A))"
    and A: "1 < card A" "card A < 2305843009213693952" and xs: "\<forall>x \<in> set xs. r_cs x = 40 OR 3"
  shows "\<exists>s'. sched_rounds D W S xs s = Some s' \<and> sched_link prio (s', A) \<and> asched_ok prio (sched_abs qc (s', A)) \<and>
    current_cpu s' = current_cpu s \<and> sched_abs qc (s', A) = asched_rounds prio (length xs) (sched_abs qc (s, A))"
  using link ok xs
proof (induction xs arbitrary: s)
  case (Cons x xs)
  let ?k = "cpu_at s (current_cpu s)"
  obtain run where a: "sched_abs qc (s, A) = (run, queue_contents qc ?k, A)" by (auto simp: sched_abs_def Let_def)
  have "length (concat (queue_contents qc ?k)) = card A - 1" using asched_ok_room [of prio run "queue_contents qc ?k" A] Cons.prems(2) a by simp
  then have "0 < length (concat (queue_contents qc ?k))" "length (concat (queue_contents qc ?k)) < 2305843009213693952"
    using A by simp_all
  then have work: "do_get_priority_count D ?k \<noteq> 0"
    by (intro count_nonzero [OF laws]) auto
  have cs: "r_cs x = 40 OR 3" using Cons.prems(3) by simp
  show ?case
  proof (rule timer_step [OF laws Cons.prems(1,2) work cs, of W S])
    fix s1 x'
    assume r: "schedule D W S (Some x) s = Some (Returned (Some x'), s1)" "sched_link prio (s1, A)"
      "current_cpu s1 = current_cpu s" "asched_step prio (sched_abs qc (s, A)) (sched_abs qc (s1, A))"
      "sched_abs qc (s1, A) = (let (run, qs, A) = sched_abs qc (s, A)
         in (the (fst (sched_spec qs)), enqueue (prio run) run (snd (sched_spec qs)), A))"
    have "asched_ok prio (sched_abs qc (s1, A))" by (rule asched.step_inv [OF Cons.prems(2) r(4)])
    then show ?thesis using Cons.IH [OF r(2)] Cons.prems(3) r(1,3,5) by auto
  qed
qed simp

text \<open>The first queue is served first, in order.\<close>

lemma sched_spec_first:
  assumes "qs = (t # ts) # rest"
  obtains us rest' where "sched_spec qs = (Some t, (ts @ us) # rest')" "length rest' = length rest"
proof -
  have u: "[0..<length qs] = 0 # [1..<length qs]" using assms by (subst upt_conv_Cons) (simp_all del: upt_Suc)
  let ?is = "filter (\<lambda>i. qs ! i \<noteq> []) [1..<length qs]"
  have f: "filter (\<lambda>i. qs ! i \<noteq> []) [0..<length qs] = 0 # ?is" unfolding u using assms by simp
  show thesis
  proof (cases ?is)
    case Nil
    then show thesis using f assms by (intro that [of "[]" rest]) (simp_all add: sched_spec_def)
  next
    case (Cons j js)
    then have "j \<in> set ?is" by simp
    then have "0 < j" by auto
    then obtain i where "j = Suc i" by (cases j) auto
    then show thesis
      using f assms Cons that [of "if i = 0 then [hd (rest ! i)] else []" "tl (promote j (ts # rest))"]
      by (auto simp: sched_spec_def promote_def Let_def split: nat.split)
  qed
qed

lemma enqueue_first: "\<exists>vs rest'. enqueue i t (q # rest) = (q @ vs) # rest'"
  by (cases i) (simp_all add: enqueue_def)

lemma asched_first:
  "k < length q \<Longrightarrow> fst (asched_rounds prio (Suc k) (run, q # rest, A)) = q ! k"
proof (induction k arbitrary: run q rest)
  case 0
  then obtain t ts where q: "q = t # ts" by (cases q) auto
  obtain us rest1 where "sched_spec (q # rest) = (Some t, (ts @ us) # rest1)"
    using sched_spec_first [OF refl, of t ts rest] q by blast
  then show ?case using q by simp
next
  case (Suc k)
  then obtain t ts where q: "q = t # ts" by (cases q) auto
  obtain us rest1 where sp: "sched_spec (q # rest) = (Some t, (ts @ us) # rest1)"
    using sched_spec_first [OF refl, of t ts rest] q by blast
  obtain vs rest2 where en: "enqueue (prio run) run ((ts @ us) # rest1) = ((ts @ us) @ vs) # rest2"
    using enqueue_first by blast
  have "asched_rounds prio (Suc (Suc k)) (run, q # rest, A) = asched_rounds prio (Suc k) (t, ((ts @ us) @ vs) # rest2, A)"
    by (simp only: asched_rounds.simps(2) [of prio "Suc k"] Let_def sp en prod.case fst_conv snd_conv option.sel)
  moreover have "fst (asched_rounds prio (Suc k) (t, ((ts @ us) @ vs) # rest2, A)) = ((ts @ us) @ vs) ! k"
    using Suc.prems q by (intro Suc.IH) simp
  ultimately show ?case using Suc.prems q by (simp add: nth_append)
qed

text \<open>Two threads in the first two queues and one running keep each other in turn: the rest is not looked at.\<close>

lemma sched_spec_two: "sched_spec ((a # as) # (b # bs) # rest) = (Some a, (as @ [b]) # bs # rest)"
proof -
  have "[0..<length ((a # as) # (b # bs) # rest)] = 0 # 1 # [2..<length ((a # as) # (b # bs) # rest)]"
    by (simp add: upt_conv_Cons numeral_2_eq_2 del: upt_Suc)
  then show ?thesis by (simp add: sched_spec_def promote_def del: upt_Suc)
qed

lemma asched_cycle:
  assumes "prio run = 1" "prio a = 1" "prio b = 1"
  shows "\<exists>run' a' b'. asched_rounds prio n (run, [a] # [b] # rest, A) = (run', [a'] # [b'] # rest, A) \<and> run' \<in> {run, a, b}"
  using assms
proof (induction n arbitrary: run a b)
  case (Suc n)
  have "asched_rounds prio (Suc n) (run, [a] # [b] # rest, A) = asched_rounds prio n (a, [b] # [run] # rest, A)"
    using Suc.prems by (simp add: sched_spec_two enqueue_def)
  then show ?case using Suc.IH [of a b run] Suc.prems by auto
qed simp

lemma sched_abs_run:
  assumes "sched_link prio (s, A)" and "sched_abs qc (s, A) = (run, qs, A)"
  shows "ct (cpu_at s (current_cpu s)) = Some run" "queue_contents qc (cpu_at s (current_cpu s)) = qs"
  using assms by (auto simp: sched_link_def sched_abs_def Let_def)

text \<open>
  C15. The first queue is served in order: whatever the lower queues hold, the thread with \<open>k\<close> threads before
  it in the first queue runs after \<open>k + 1\<close> calls of \<open>schedule\<close>, each of which returns.
\<close>

theorem first_queue_runs_in_order:
  assumes init: "sched_init D qc prio (s, A)" and A: "card A < 2305843009213693952"
    and k: "k < length (queue_contents qc (cpu_at s (current_cpu s)) ! 0)"
    and xs: "\<forall>x \<in> set xs. r_cs x = 40 OR 3" "length xs = Suc k"
  shows "\<exists>s'. sched_rounds D W S xs s = Some s' \<and> current_cpu s' = current_cpu s \<and>
    ct (cpu_at s' (current_cpu s)) = Some (queue_contents qc (cpu_at s (current_cpu s)) ! 0 ! k)"
proof -
  let ?qs = "queue_contents qc (cpu_at s (current_cpu s))"
  obtain run where a: "sched_abs qc (s, A) = (run, ?qs, A)" by (auto simp: sched_abs_def Let_def)
  have q: "?qs = ?qs ! 0 # tl ?qs" by (cases ?qs) (use length_queue_contents [of qc "cpu_at s (current_cpu s)"] in auto)
  have "0 < length (concat ?qs)" using k by (subst q) (auto simp del: length_concat)
  moreover have "length (concat ?qs) = card A - 1" using asched_ok_room(1) [of prio run ?qs A] init a by (simp add: sched_init_def)
  ultimately have "1 < card A" by linarith
  then obtain s' where r: "sched_rounds D W S xs s = Some s'" "sched_link prio (s', A)" "current_cpu s' = current_cpu s"
    "sched_abs qc (s', A) = asched_rounds prio (Suc k) (sched_abs qc (s, A))"
    using sched_rounds_refine [of D qc prio s A xs W S] init A xs by (auto simp: sched_init_def)
  have "fst (sched_abs qc (s', A)) = ?qs ! 0 ! k"
    unfolding r(4) a using asched_first [OF k, of prio run "tl ?qs" A] q by metis
  moreover obtain run' where "ct (cpu_at s' (current_cpu s')) = Some run'" "fst (sched_abs qc (s', A)) = run'"
    using r(2) by (auto simp: sched_link_def sched_abs_def Let_def)
  ultimately show ?thesis using r(1,3) by auto
qed

theorem first_queue_runs_in_order_witness:
  "\<exists>s'. sched_rounds demo_ds (\<lambda>_. None) (\<lambda>r _ s. Some (r, s)) [demo_regs] demo_runs = Some s' \<and> ct (cpu_at s' 0) = Some 9"
  using first_queue_runs_in_order [OF demo_runs_init, of 0 "[demo_regs]" "\<lambda>_. None" "\<lambda>r _ s. Some (r, s)"] demo_frame
  by auto

text \<open>Once the first two queues and the processor hold one thread of priority 1 each, no other thread runs.\<close>

lemma cycle_forever:
  assumes laws: "queue_laws D qc" and link: "sched_link prio (s, A)" and ok: "asched_ok prio (sched_abs qc (s, A))"
    and abs: "sched_abs qc (s, A) = (run, [a] # [b] # rest, A)" and prios: "prio run = 1" "prio a = 1" "prio b = 1"
    and A: "card A < 2305843009213693952" and xs: "\<forall>f \<in> set xs. r_cs f = 40 OR 3"
  shows "\<exists>s'. sched_rounds D W S xs s = Some s' \<and> ct (cpu_at s' (current_cpu s')) \<in> {Some run, Some a, Some b} \<and>
    drop 2 (queue_contents qc (cpu_at s' (current_cpu s'))) = rest"
proof -
  have "1 < card A" using asched_ok_room(1) [OF ok [unfolded abs]] by simp
  then obtain s' where r: "sched_rounds D W S xs s = Some s'" "sched_link prio (s', A)"
    "sched_abs qc (s', A) = asched_rounds prio (length xs) (run, [a] # [b] # rest, A)"
    using sched_rounds_refine [OF laws link ok _ A xs, of W S] abs by auto
  obtain run' a' b' where "sched_abs qc (s', A) = (run', [a'] # [b'] # rest, A)" "run' \<in> {run, a, b}"
    using asched_cycle [of prio run a b "length xs" rest A] prios r(3) by auto
  then show ?thesis using r(1) sched_abs_run [OF r(2)] by auto
qed

lemma sched_work:
  assumes "queue_laws D qc" and "sched_link prio (s, A)" and "asched_ok prio (sched_abs qc (s, A))"
    and "sched_abs qc (s, A) = (run, (t # ts) # rest, A)" and "card A < 2305843009213693952"
  shows "do_get_priority_count D (cpu_at s (current_cpu s)) \<noteq> 0"
  using asched_ok_room(1) [OF assms(3) [unfolded assms(4)]] sched_abs_run [OF assms(2,4)] assms(5)
  by (intro count_nonzero [OF assms(1)]) simp_all



end
