(* ===== verification/Interrupts.thy ===== *)
theory Interrupts
  imports Clock
begin

text \<open>
  Segment descriptors, task states and interrupts: \<open>structures/gdt.c\<close>, \<open>structures/tss.h\<close>,
  \<open>interrupts/idt.c\<close> and \<open>interrupts/interrupts.c\<close>. The descriptor table is a list of 64-bit
  descriptors with the bit fields of \<open>gdt.h\<close>; task states lie in a store indexed by the address the
  heap returned. Interrupt handlers are function pointers in C and names here; \<open>call_isr\<close> runs the
  named function. Ports are the abstract device of \<open>io_env\<close>, and \<open>malloc\<close> of KCLib is a parameter.
  The macro \<open>debug_break\<close> loops for ever, so it is \<open>None\<close>.
\<close>

section \<open>Data\<close>

record cputss =
  rsp0 :: u64  rsp1 :: u64  rsp2 :: u64
  ist1 :: u64  ist2 :: u64  ist3 :: u64  ist4 :: u64  ist5 :: u64  ist6 :: u64  ist7 :: u64
  io_map_base_address :: u16

record idt_gate =
  offset015 :: u16
  gate_selector :: u16
  gate_flags :: u16
  offset1631 :: u16
  offset3263 :: u32

datatype isr_t = de_exception | db_exception | nmi_exception | bp_exception | of_exception
  | br_exception | ud_exception | nm_exception | df_exception | ts_exception | np_exception
  | ss_exception | gp_exception | pf_exception | mf_exception | ac_exception | mc_exception
  | xm_exception | ve_exception | timer_tick_isr | ipi_received_isr

text \<open>
  \<open>seg_loads\<close> lists the task selectors that \<open>load_gdt\<close> loaded, \<open>idt_loads\<close> counts \<open>idt_flush\<close>, \<open>cr2\<close> is
  the address of the last page fault and \<open>lapic_eois\<close> counts the writes to the local APIC's
  end-of-interrupt register.
\<close>

record ('arr, 'q, 'd) irq_state = "('arr, 'q) smp_state" +
  gdt_descriptors :: "u64 list"
  gdt_limit :: u16
  tss_at :: "u64 \<Rightarrow> cputss"
  seg_loads :: "u16 list"
  idt_entries :: "idt_gate list"
  idt_limit :: u16
  idt_loads :: nat
  interrupt_handlers :: "isr_t option list"
  device :: 'd
  irq_clock :: clock
  cr2 :: u64
  lapic_eois :: nat

section \<open>The descriptor table\<close>

definition d_limit0015 :: "u64 \<Rightarrow> u64 \<Rightarrow> u64" where "d_limit0015 = field_set 0 16"
definition d_base0015 :: "u64 \<Rightarrow> u64 \<Rightarrow> u64" where "d_base0015 = field_set 16 16"
definition d_base2316 :: "u64 \<Rightarrow> u64 \<Rightarrow> u64" where "d_base2316 = field_set 32 8"
definition d_type :: "u64 \<Rightarrow> u64 \<Rightarrow> u64" where "d_type = field_set 40 4"
definition d_s :: "u64 \<Rightarrow> u64 \<Rightarrow> u64" where "d_s = field_set 44 1"
definition d_dpl :: "u64 \<Rightarrow> u64 \<Rightarrow> u64" where "d_dpl = field_set 45 2"
definition d_p :: "u64 \<Rightarrow> u64 \<Rightarrow> u64" where "d_p = field_set 47 1"
definition d_l :: "u64 \<Rightarrow> u64 \<Rightarrow> u64" where "d_l = field_set 53 1"
definition d_g :: "u64 \<Rightarrow> u64 \<Rightarrow> u64" where "d_g = field_set 55 1"
definition d_base3124 :: "u64 \<Rightarrow> u64 \<Rightarrow> u64" where "d_base3124 = field_set 56 8"

lemmas descriptor_field_defs = d_limit0015_def d_base0015_def d_base2316_def d_type_def d_s_def
  d_dpl_def d_p_def d_l_def d_g_def d_base3124_def

text \<open>A write past the end of the allocated table damages the heap: no result.\<close>

definition upd_desc :: "nat \<Rightarrow> (u64 \<Rightarrow> u64) \<Rightarrow> u64 list \<Rightarrow> u64 list option" where
  "upd_desc i f ds = (if i < length ds then Some (ds[i := f (ds ! i)]) else None)"

definition kernel_code_desc :: "u64 \<Rightarrow> u64" where
  "kernel_code_desc d = d_l 1 (d_p 1 (d_type (10 AND 0xF) (d_s 1 d)))"

definition kernel_data_desc :: "u64 \<Rightarrow> u64" where
  "kernel_data_desc d = d_dpl 0 (d_p 1 (d_type (2 AND 0xF) (d_s 1 d)))"

definition u_data_desc :: "u64 \<Rightarrow> u64" where
  "u_data_desc d = d_dpl 3 (d_p 1 (d_type (2 AND 0xF) (d_s 1 d)))"

definition u_code_desc :: "u64 \<Rightarrow> u64" where
  "u_code_desc d = d_l 1 (d_p 1 (d_dpl 3 (d_type (10 AND 0xF) (d_s 1 d))))"

definition gs_desc :: "u64 \<Rightarrow> u64" where
  "gs_desc d = d_dpl 3 (d_p 1 (d_type (2 AND 0xF) (d_s 1 d)))"

text \<open>The first half of a task state descriptor; \<open>sizeof(cputss_t)\<close> is 104.\<close>

definition tss_desc :: "u64 \<Rightarrow> u64 \<Rightarrow> u64" where
  "tss_desc tss_point d =
     d_p 1 (d_type 9 (d_g 0 (d_dpl 0 (d_s 0 (d_limit0015 104
       (d_base3124 (drop_bit 24 tss_point AND 0xFF) (d_base2316 (drop_bit 16 tss_point AND 0xFF)
         (d_base0015 (tss_point AND 0xFFFF) d))))))))"

text \<open>The second half: \<open>base6332\<close> is its low half, the reserved word stays.\<close>

definition tss_desc_high :: "u64 \<Rightarrow> u64 \<Rightarrow> u64" where
  "tss_desc_high tss_point d = field_set 0 32 (drop_bit 32 tss_point AND 0xFFFFFFFF) d"

definition cpu_tss :: "'q cpu \<Rightarrow> cputss" where
  "cpu_tss c = \<lparr>rsp0 = cpu_stack c, rsp1 = 0, rsp2 = 0, ist1 = handler_stack c, ist2 = pf_stack c,
     ist3 = df_stack c, ist4 = ipi_stack c, ist5 = 0, ist6 = 0, ist7 = 0, io_map_base_address = 0\<rparr>"

text \<open>
  One processor of the loop over \<open>cpus\<close>. The index \<open>itc\<close> advances by the two halves of the task state
  descriptor; the descriptor for gs is written at the advanced index and not counted.
\<close>

definition gdt_cpu :: "('arr, ('arr, 'q, 'd, 'z) irq_state_scheme) smp_env
    \<Rightarrow> (u64 \<Rightarrow> ('arr, 'q, 'd, 'z) irq_state_scheme \<Rightarrow> u64 \<times> ('arr, 'q, 'd, 'z) irq_state_scheme)
    \<Rightarrow> nat \<Rightarrow> nat \<Rightarrow> ('arr, 'q, 'd, 'z) irq_state_scheme \<Rightarrow> (nat \<times> ('arr, 'q, 'd, 'z) irq_state_scheme) option" where
  "gdt_cpu E malloc i itc s =
     (let c = cpu_at s (array_get_at E (cpus s) i);
          (tss, s1) = malloc 104 s
      in if tss = 0 then None
         else do { let s2 = s1\<lparr>tss_at := (tss_at s1)(tss := cpu_tss c)\<rparr>;
                   ds1 \<leftarrow> upd_desc itc (tss_desc tss) (gdt_descriptors s2);
                   ds2 \<leftarrow> upd_desc (itc + 1) (tss_desc_high tss) ds1;
                   ds3 \<leftarrow> upd_desc (itc + 2) gs_desc ds2;
                   Some (itc + 2, s2\<lparr>gdt_descriptors := ds3\<rparr>) })"

primrec gdt_cpus :: "('arr, ('arr, 'q, 'd, 'z) irq_state_scheme) smp_env
    \<Rightarrow> (u64 \<Rightarrow> ('arr, 'q, 'd, 'z) irq_state_scheme \<Rightarrow> u64 \<times> ('arr, 'q, 'd, 'z) irq_state_scheme)
    \<Rightarrow> nat list \<Rightarrow> nat \<Rightarrow> ('arr, 'q, 'd, 'z) irq_state_scheme \<Rightarrow> ('arr, 'q, 'd, 'z) irq_state_scheme option" where
  "gdt_cpus E malloc [] itc s = Some s"
| "gdt_cpus E malloc (i # is) itc s =
     do { (itc', s') \<leftarrow> gdt_cpu E malloc i itc s; gdt_cpus E malloc is itc' s' }"

text \<open>Present bit, system bit (0 for a task state), type and privilege level of a descriptor.\<close>

definition desc_kind :: "u64 \<Rightarrow> u64 \<times> u64 \<times> u64 \<times> u64" where
  "desc_kind d = (field_get 47 1 d, field_get 44 1 d, field_get 40 4 d, field_get 45 2 d)"

text \<open>
  \<open>load_gdt\<close> of \<open>gdt.s\<close> makes the table current and loads the segment registers: es, ds and ss with descriptor 2,
  the task register with \<open>tssid\<close>, gs with the descriptor two further, and cs with descriptor 1. What the
  processor requires of a descriptor in ring 0: a data or readable code segment for gs, a writable data
  segment of ring 0 for ss, an available task state for the task register, which is then marked busy, a code
  segment of ring 0 for cs, each of them present and inside the table. Otherwise the load faults: no result.
\<close>

definition data_loadable :: "u64 \<Rightarrow> bool" where
  "data_loadable d \<longleftrightarrow> (case desc_kind d of (p, s, t, dpl) \<Rightarrow> p = 1 \<and> s = 1 \<and> (\<not> bit t 3 \<or> bit t 1))"

definition stack_loadable :: "u64 \<Rightarrow> bool" where
  "stack_loadable d \<longleftrightarrow> (case desc_kind d of (p, s, t, dpl) \<Rightarrow> p = 1 \<and> s = 1 \<and> \<not> bit t 3 \<and> bit t 1 \<and> dpl = 0)"

definition code_loadable :: "u64 \<Rightarrow> bool" where
  "code_loadable d \<longleftrightarrow> (case desc_kind d of (p, s, t, dpl) \<Rightarrow> p = 1 \<and> s = 1 \<and> bit t 3 \<and> dpl = 0)"

definition tss_loadable :: "u64 \<Rightarrow> bool" where
  "tss_loadable d \<longleftrightarrow> (case desc_kind d of (p, s, t, dpl) \<Rightarrow> p = 1 \<and> s = 0 \<and> t = 9)"

definition descriptor_at :: "u64 list \<Rightarrow> u16 \<Rightarrow> u64 option" where
  "descriptor_at ds sel = (let i = unat (drop_bit 3 sel) in if i < length ds then Some (ds ! i) else None)"

definition load_gdt :: "u16 \<Rightarrow> ('arr, 'q, 'd, 'z) irq_state_scheme \<Rightarrow> ('arr, 'q, 'd, 'z) irq_state_scheme option" where
  "load_gdt tssid s =
     do { let ds = gdt_descriptors s;
          data \<leftarrow> descriptor_at ds 16;
          tss \<leftarrow> descriptor_at ds tssid;
          gs \<leftarrow> descriptor_at ds (tssid + 16);
          code \<leftarrow> descriptor_at ds 8;
          (if data_loadable data \<and> stack_loadable data \<and> tss_loadable tss \<and> data_loadable gs \<and> code_loadable code
           then Some (s\<lparr>gdt_descriptors := ds[unat (drop_bit 3 tssid) := d_type 11 tss], seg_loads := seg_loads s @ [tssid]\<rparr>)
           else None) }"

text \<open>The search for the running processor; gs then points to its \<open>cpu_t\<close>.\<close>

definition find_local_cpu :: "('arr, ('arr, 'q, 'd, 'z) irq_state_scheme) smp_env
    \<Rightarrow> ('arr, 'q, 'd, 'z) irq_state_scheme \<Rightarrow> nat option" where
  "find_local_cpu E s = find (\<lambda>c. apic_id (cpu_at s c) = get_local_apic_id s)
     (map (array_get_at E (cpus s)) [0..<array_get_size E (cpus s)])"

text \<open>The table itself, up to the call of \<open>load_gdt\<close>.\<close>

definition build_gdt :: "('arr, ('arr, 'q, 'd, 'z) irq_state_scheme) smp_env
    \<Rightarrow> (u64 \<Rightarrow> ('arr, 'q, 'd, 'z) irq_state_scheme \<Rightarrow> u64 \<times> ('arr, 'q, 'd, 'z) irq_state_scheme)
    \<Rightarrow> ('arr, 'q, 'd, 'z) irq_state_scheme \<Rightarrow> ('arr, 'q, 'd, 'z) irq_state_scheme option" where
  "build_gdt E malloc s =
     (let numdesc = (of_nat (6 + 3 * array_get_size E (cpus s)) :: u16);
          (dscp, s1) = malloc (8 * ucast numdesc) s
      in if dscp = 0 then None
         else do { let ds0 = replicate (unat numdesc) 0;
                   ds1 \<leftarrow> upd_desc 1 kernel_code_desc ds0;
                   ds2 \<leftarrow> upd_desc 2 kernel_data_desc ds1;
                   ds4 \<leftarrow> upd_desc 4 u_data_desc ds2;
                   ds5 \<leftarrow> upd_desc 5 u_code_desc ds4;
                   gdt_cpus E malloc [0..<array_get_size E (cpus s)] 6
                     (s1\<lparr>gdt_descriptors := ds5, gdt_limit := 8 * numdesc - 1\<rparr>) })"

definition reinitialize_gdt :: "('arr, ('arr, 'q, 'd, 'z) irq_state_scheme) smp_env
    \<Rightarrow> (u64 \<Rightarrow> ('arr, 'q, 'd, 'z) irq_state_scheme \<Rightarrow> u64 \<times> ('arr, 'q, 'd, 'z) irq_state_scheme)
    \<Rightarrow> ('arr, 'q, 'd, 'z) irq_state_scheme \<Rightarrow> ('arr, 'q, 'd, 'z) irq_state_scheme option" where
  "reinitialize_gdt E malloc s =
     do { s2 \<leftarrow> build_gdt E malloc s;
          s3 \<leftarrow> load_gdt 48 s2;
          Some (case find_local_cpu E s3 of None \<Rightarrow> s3 | Some c \<Rightarrow> s3\<lparr>current_cpu := c\<rparr>) }"

section \<open>The interrupt descriptor table\<close>

definition fill_gate :: "u8 \<Rightarrow> u64 \<Rightarrow> idt_gate \<Rightarrow> idt_gate" where
  "fill_gate gn funcall g =
     (let fl = field_set 13 2 0 (field_set 8 4 (14 AND 0xF) (field_set 0 3 0 (field_set 15 1 1 (gate_flags g))));
          fl1 = (if gn = 14 then field_set 0 3 1 fl else fl);
          fl2 = (if gn = 8 then field_set 0 3 2 fl1 else fl1);
          fl3 = (if gn = 255 then field_set 0 3 3 fl2 else fl2)
      in g\<lparr>offset015 := ucast (funcall AND 0xFFFF), offset1631 := ucast (drop_bit 16 funcall AND 0xFFFF),
           offset3263 := ucast (drop_bit 32 funcall AND 0xFFFFFFFF), gate_selector := 8, gate_flags := fl3\<rparr>)"

definition idt_set_gate :: "u8 \<Rightarrow> u64 \<Rightarrow> ('arr, 'q, 'd, 'z) irq_state_scheme \<Rightarrow> ('arr, 'q, 'd, 'z) irq_state_scheme" where
  "idt_set_gate gn funcall s =
     s\<lparr>idt_entries := (idt_entries s)[unat gn := fill_gate gn funcall (idt_entries s ! unat gn)]\<rparr>"

definition PIC1_COMMAND :: u16 where "PIC1_COMMAND = 0x20"
definition PIC2_COMMAND :: u16 where "PIC2_COMMAND = 0xA0"
definition PIC1_DATA :: u16 where "PIC1_DATA = 0x21"
definition PIC2_DATA :: u16 where "PIC2_DATA = 0xA1"

text \<open>
  The bit \<open>1 << IRQline\<close> as the byte that reaches the port. A count above 31 is undefined in C; it is
  taken modulo 32 as the processor's shift does.
\<close>

definition irq_port :: "u8 \<Rightarrow> u16" where
  "irq_port line = (if line < 8 then PIC1_DATA else PIC2_DATA)"

definition irq_bit :: "u8 \<Rightarrow> u8" where
  "irq_bit line = ucast (push_bit (unat (if line < 8 then line else line - 8) mod 32) 1 :: u32)"

definition IRQ_set_mask :: "'d io_env \<Rightarrow> u8 \<Rightarrow> 'd \<Rightarrow> 'd" where
  "IRQ_set_mask io line d =
     (let (v, d') = io_inb io (irq_port line) d in io_outb io (irq_port line) (v OR irq_bit line) d')"

definition IRQ_clear_mask :: "'d io_env \<Rightarrow> u8 \<Rightarrow> 'd \<Rightarrow> 'd" where
  "IRQ_clear_mask io line d =
     (let (v, d') = io_inb io (irq_port line) d in io_outb io (irq_port line) (v AND NOT (irq_bit line)) d')"

definition pic_remap :: "'d io_env \<Rightarrow> 'd \<Rightarrow> 'd" where
  "pic_remap io d =
     fold (\<lambda>(p, v). io_outb io p v)
       [(0x20, 0x11), (0xA0, 0x11), (0x21, 0x20), (0xA1, 0x28), (0x21, 0x04), (0xA1, 0x02),
        (0x21, 0x01), (0xA1, 0x01), (0x21, 0x0), (0xA1, 0x0)] d"

text \<open>\<open>isr n\<close> is the address of the assembler stub \<open>isrn\<close>.\<close>

definition empty_gate :: idt_gate where
  "empty_gate = \<lparr>offset015 = 0, gate_selector = 0, gate_flags = 0, offset1631 = 0, offset3263 = 0\<rparr>"

definition set_gates :: "(u8 \<Rightarrow> u64) \<Rightarrow> u8 list \<Rightarrow> ('arr, 'q, 'd, 'z) irq_state_scheme \<Rightarrow> ('arr, 'q, 'd, 'z) irq_state_scheme" where
  "set_gates isr ns s = fold (\<lambda>n. idt_set_gate n (isr n)) ns s"

definition initialize_interrupts :: "'d io_env \<Rightarrow> (u8 \<Rightarrow> u64) \<Rightarrow> ('arr, 'q, 'd, 'z) irq_state_scheme
    \<Rightarrow> ('arr, 'q, 'd, 'z) irq_state_scheme" where
  "initialize_interrupts io isr s =
     (let s0 = s\<lparr>idt_entries := replicate 256 empty_gate, interrupt_handlers := replicate 256 None,
                 idt_limit := 4095\<rparr>;
          s1 = set_gates isr (map of_nat [0..<32] @ [255]) s0;
          d1 = fold (\<lambda>i. IRQ_set_mask io (of_nat i)) [32..<47] (device s1);
          s2 = set_gates isr (map of_nat [32..<48]) (s1\<lparr>device := pic_remap io d1\<rparr>)
      in s2\<lparr>idt_loads := idt_loads s2 + 1, device := IRQ_clear_mask io 32 (device s2)\<rparr>)"

section \<open>Handlers\<close>

definition register_interrupt_handler :: "u8 \<Rightarrow> isr_t \<Rightarrow> ('arr, 'q, 'd, 'z) irq_state_scheme
    \<Rightarrow> ('arr, 'q, 'd, 'z) irq_state_scheme" where
  "register_interrupt_handler n h s =
     s\<lparr>interrupt_handlers := (interrupt_handlers s)[unat n := Some h]\<rparr>"

definition standard_handlers :: "(u8 \<times> isr_t) list" where
  "standard_handlers =
     [(0, de_exception), (1, db_exception), (2, nmi_exception), (3, bp_exception), (4, of_exception),
      (5, br_exception), (6, ud_exception), (7, nm_exception), (8, df_exception), (10, ts_exception),
      (11, np_exception), (12, ss_exception), (13, gp_exception), (14, pf_exception), (16, mf_exception),
      (17, ac_exception), (18, mc_exception), (19, xm_exception), (20, ve_exception)]"

definition register_standard_interrupt_handlers :: "('arr, 'q, 'd, 'z) irq_state_scheme
    \<Rightarrow> ('arr, 'q, 'd, 'z) irq_state_scheme" where
  "register_standard_interrupt_handlers s = fold (\<lambda>(n, h). register_interrupt_handler n h) standard_handlers s"

definition install_clock :: "'d io_env \<Rightarrow> u8 \<Rightarrow> ('arr, 'q, 'd, 'z) irq_state_scheme
    \<Rightarrow> ('arr, 'q, 'd, 'z) irq_state_scheme option" where
  "install_clock io century_register s =
     do { (k, d) \<leftarrow> initialize_clock io century_register (device s);
          Some (register_interrupt_handler 32 timer_tick_isr (s\<lparr>irq_clock := k, device := d\<rparr>)) }"

definition install_ipi :: "('arr, 'q, 'd, 'z) irq_state_scheme \<Rightarrow> ('arr, 'q, 'd, 'z) irq_state_scheme" where
  "install_ipi s = register_interrupt_handler 255 ipi_received_isr (initialize_ipi_subsystem s)"

text \<open>
  The error screen ends every run; what it shows is the code and the two specific codes. \<open>isr_end\<close>
  is either that or a return to the interrupted code with its registers.
\<close>

type_synonym screen = "u16 \<times> u64 \<times> u64"

definition exception_screen :: "isr_t \<Rightarrow> u64 \<Rightarrow> registers \<Rightarrow> screen option" where
  "exception_screen h ecode r =
     (case h of
        de_exception \<Rightarrow> Some (5, rip r, r_cs r)
      | db_exception \<Rightarrow> Some (4, rip r, r_cs r)
      | nmi_exception \<Rightarrow> Some (6, rip r, r_cs r)
      | bp_exception \<Rightarrow> Some (7, rip r, r_cs r)
      | of_exception \<Rightarrow> Some (8, rip r, r_cs r)
      | br_exception \<Rightarrow> Some (9, rip r, r_cs r)
      | ud_exception \<Rightarrow> Some (10, rip r, r_cs r)
      | nm_exception \<Rightarrow> Some (11, rip r, r_cs r)
      | df_exception \<Rightarrow> Some (12, rip r, r_cs r)
      | ts_exception \<Rightarrow> Some (13, rip r, r_cs r)
      | np_exception \<Rightarrow> Some (14, rip r, ecode)
      | ss_exception \<Rightarrow> Some (15, rip r, ecode)
      | mf_exception \<Rightarrow> Some (18, rip r, r_cs r)
      | ac_exception \<Rightarrow> Some (19, rip r, ecode)
      | mc_exception \<Rightarrow> Some (20, rip r, r_cs r)
      | xm_exception \<Rightarrow> Some (21, rip r, r_cs r)
      | ve_exception \<Rightarrow> Some (22, rip r, r_cs r)
      | _ \<Rightarrow> None)"

text \<open>
  A page fault of the kernel, or of a process whose fault \<open>page_fault\<close> does not resolve, ends in
  \<open>debug_break\<close>.
\<close>

definition handle_page_fault :: "('arr, ('arr, 'q, 'd, 'z) irq_state_scheme) smp_env \<Rightarrow> (u64 \<Rightarrow> u64)
    \<Rightarrow> registers \<Rightarrow> ('arr, 'q, 'd, 'z) irq_state_scheme \<Rightarrow> ('arr, 'q, 'd, 'z) irq_state_scheme option" where
  "handle_page_fault E junk r s =
     (if r_cs r = 8 then None
      else case page_fault E junk (cr2 s) (r_ecode r) s of
             None \<Rightarrow> None
           | Some (ok, s') \<Rightarrow> if ok then Some s' else None)"

record ('arr, 'q, 'l, 'h, 's) isr_env =
  isr_smp :: "('arr, 's) smp_env"
  isr_ds :: "('q, 'l, 'h) ds_env"
  isr_junk :: "u64 \<Rightarrow> u64"
  isr_pick :: "nat \<Rightarrow> nat"
  isr_scheduler_enabled :: bool

definition call_isr :: "('arr, 'q, 'l, 'h, ('arr, 'q, 'd, 'z) irq_state_scheme) isr_env \<Rightarrow> isr_t \<Rightarrow> u64 \<Rightarrow> registers
    \<Rightarrow> ('arr, 'q, 'd, 'z) irq_state_scheme
    \<Rightarrow> (screen + registers \<times> ('arr, 'q, 'd, 'z) irq_state_scheme) option" where
  "call_isr I h ecode r s =
     (case exception_screen h ecode r of
        Some e \<Rightarrow> Some (Inl e)
      | None \<Rightarrow>
          if h = pf_exception then map_option (\<lambda>s'. Inr (r, s')) (handle_page_fault (isr_smp I) (isr_junk I) r s)
          else if h = timer_tick_isr then
            map_option (\<lambda>(r', k, s'). Inr (case r' of None \<Rightarrow> r | Some x \<Rightarrow> x, s'\<lparr>irq_clock := k\<rparr>))
              (timer_tick (isr_smp I) (isr_ds I) (isr_pick I) (isr_scheduler_enabled I) (Some r) (irq_clock s) s)
          else if h = ipi_received_isr then
            map_option (\<lambda>(r', s'). Inr (case r' of None \<Rightarrow> r | Some x \<Rightarrow> x, s')) (ipi_received (isr_smp I) (Some r) s)
          else None)"

definition pic_sendeoi :: "'d io_env \<Rightarrow> int \<Rightarrow> 'd \<Rightarrow> 'd" where
  "pic_sendeoi io irq d =
     (if irq = 256 then io_outb io PIC1_COMMAND 0x20 d
      else if irq = 257 then io_outb io PIC2_COMMAND 0x20 d
      else if irq = 258 then io_outb io PIC2_COMMAND 0x20 (io_outb io PIC1_COMMAND 0x20 d)
      else let d' = (if 8 \<le> irq then io_outb io PIC2_COMMAND 0x20 d else d)
           in io_outb io PIC1_COMMAND 0x20 d')"

text \<open>
  The end of \<open>isr_handler\<close>. Lines 7 and 15 of the controllers may be spurious: they are not
  acknowledged at their own controller.
\<close>

definition acknowledge :: "'d io_env \<Rightarrow> u64 \<Rightarrow> ('arr, 'q, 'd, 'z) irq_state_scheme \<Rightarrow> ('arr, 'q, 'd, 'z) irq_state_scheme" where
  "acknowledge io t s =
     (if 31 < t \<and> t < 48 then
        let s1 = (if 40 \<le> t \<and> t \<noteq> 47 then s\<lparr>device := pic_sendeoi io 257 (device s)\<rparr> else s)
        in if t \<noteq> 39 then s1\<lparr>device := pic_sendeoi io 256 (device s1)\<rparr> else s1
      else if t = 255 then s\<lparr>lapic_eois := lapic_eois s + 1\<rparr> else s)"

definition isr_handler :: "('arr, 'q, 'l, 'h, ('arr, 'q, 'd, 'z) irq_state_scheme) isr_env \<Rightarrow> 'd io_env \<Rightarrow> registers
    \<Rightarrow> ('arr, 'q, 'd, 'z) irq_state_scheme
    \<Rightarrow> (screen + registers \<times> ('arr, 'q, 'd, 'z) irq_state_scheme) option" where
  "isr_handler I io r s =
     (if 256 \<le> r_type r then None
      else case interrupt_handlers s ! unat (r_type r) of
             None \<Rightarrow> Some (Inl (3, r_type r, r_ecode r))
           | Some h \<Rightarrow>
               (case call_isr I h (r_ecode r) r s of
                  None \<Rightarrow> None
                | Some (Inl e) \<Rightarrow> Some (Inl e)
                | Some (Inr (r', s')) \<Rightarrow> Some (Inr (r', acknowledge io (r_type r') s'))))"

section \<open>What the processor reads from a descriptor\<close>

definition desc_base :: "u64 \<Rightarrow> u64 \<Rightarrow> u64" where
  "desc_base lo hi = field_get 16 16 lo OR push_bit 16 (field_get 32 8 lo) OR
     push_bit 24 (field_get 56 8 lo) OR push_bit 32 (field_get 0 32 hi)"

lemma unat_of_nat_u16: "m < 65536 \<Longrightarrow> unat (of_nat m :: u16) = m"
  by (simp add: unsigned_of_nat take_bit_eq_mod)

lemma and_masks:
  "(x :: u64) AND 0xFFFF = take_bit 16 x" "x AND 0xFF = take_bit 8 x" "x AND 0xFFFFFFFF = take_bit 32 x"
  by (simp_all add: take_bit_eq_mask mask_eq_exp_minus_1)

lemma tss_desc_fields:
  "field_get 16 16 (tss_desc p d) = take_bit 16 p"
  "field_get 32 8 (tss_desc p d) = take_bit 8 (drop_bit 16 p)"
  "field_get 56 8 (tss_desc p d) = take_bit 8 (drop_bit 24 p)"
  "field_get 0 32 (tss_desc_high p e) = take_bit 32 (drop_bit 32 p)"
  by (simp_all add: tss_desc_def tss_desc_high_def descriptor_field_defs bit_field_simps and_masks)

lemma tss_base_roundtrip: "desc_base (tss_desc p d) (tss_desc_high p e) = p"
proof (rule bit_word_eqI)
  fix n
  assume "n < LENGTH(64)"
  then have "n < 64" by simp
  then show "bit (desc_base (tss_desc p d) (tss_desc_high p e)) n = bit p n"
    unfolding desc_base_def tss_desc_fields
    by (cases "n < 16"; cases "n < 24"; cases "n < 32"; simp add: bit_simps; arith)
qed

lemma tss_kind: "desc_kind (tss_desc p d) = (1, 0, 9, 0)"
  by (simp add: desc_kind_def tss_desc_def descriptor_field_defs bit_field_simps take_bit_eq_mask mask_eq_exp_minus_1)

lemma tss_high_present: "field_get 47 w (tss_desc_high p d) = field_get 47 w d"
  by (simp add: tss_desc_high_def bit_field_simps)

lemma gs_kind: "desc_kind (gs_desc d) = (1, 1, 2, 3)"
  by (simp add: desc_kind_def gs_desc_def descriptor_field_defs bit_field_simps take_bit_eq_mask mask_eq_exp_minus_1)

lemma segment_kinds:
  "desc_kind (kernel_code_desc 0) = (1, 1, 10, 0)" "desc_kind (kernel_data_desc 0) = (1, 1, 2, 0)"
  "desc_kind (u_data_desc 0) = (1, 1, 2, 3)" "desc_kind (u_code_desc 0) = (1, 1, 10, 3)"
  by (simp_all add: desc_kind_def kernel_code_desc_def kernel_data_desc_def u_data_desc_def u_code_desc_def
    field_get_def field_set_def descriptor_field_defs mask_eq_exp_minus_1 take_bit_eq_mask)

lemma busy_desc:
  "desc_base (d_type 11 lo) hi = desc_base lo hi"
  "desc_kind lo = (p, s, t, dpl) \<Longrightarrow> desc_kind (d_type 11 lo) = (p, s, 11, dpl)"
  by (simp_all add: desc_base_def desc_kind_def d_type_def bit_field_simps take_bit_eq_mask mask_eq_exp_minus_1)

lemma loadable_kinds:
  "desc_kind d = (1, 1, 2, l) \<Longrightarrow> data_loadable d" "desc_kind d = (1, 1, 2, 0) \<Longrightarrow> stack_loadable d"
  "desc_kind d = (1, 1, 10, 0) \<Longrightarrow> code_loadable d" "desc_kind d = (1, 0, 9, l) \<Longrightarrow> tss_loadable d \<and> \<not> data_loadable d"
  by (simp_all add: data_loadable_def stack_loadable_def code_loadable_def tss_loadable_def bit_numeral_rec)

section \<open>The table that \<open>reinitialize_gdt\<close> builds\<close>

text \<open>
  What is relied on of the heap: its own state is the extension \<open>'z\<close> of the record, and while there is
  \<open>room\<close> for more blocks, a block is not NULL and is new. \<open>room\<close> counts the blocks that the heap can serve from memory
  it already has: a block for which KCLib would first call \<open>kclib_allocate\<close>, and so change page tables, is outside it.
\<close>

definition boot_heap :: "(u64 \<Rightarrow> ('arr, 'q, 'd, 'z) irq_state_scheme \<Rightarrow> u64 \<times> ('arr, 'q, 'd, 'z) irq_state_scheme)
    \<Rightarrow> ('z \<Rightarrow> u64 set) \<Rightarrow> ('z \<Rightarrow> nat) \<Rightarrow> bool" where
  "boot_heap malloc live room \<longleftrightarrow>
     (\<forall>k s. 0 < room (irq_state.more s) \<longrightarrow>
        (\<exists>a z. malloc k s = (a, irq_state.more_update (\<lambda>_. z) s) \<and> a \<noteq> 0 \<and> a \<notin> live (irq_state.more s) \<and>
           live z = insert a (live (irq_state.more s)) \<and> room z = room (irq_state.more s) - 1))"

lemma boot_heapE:
  assumes "boot_heap malloc live room" and "0 < room (irq_state.more s)"
  obtains a z where "malloc k s = (a, irq_state.more_update (\<lambda>_. z) s)" "a \<noteq> 0"
    "a \<notin> live (irq_state.more s)" "live z = insert a (live (irq_state.more s))"
    "room z = room (irq_state.more s) - 1"
  using assms unfolding boot_heap_def by metis

text \<open>Descriptors \<open>6 + 2 * i\<close> and \<open>7 + 2 * i\<close> describe a task state with the stacks of the processor \<open>c\<close>.\<close>

definition tss_slot :: "('arr, 'q, 'd, 'z) irq_state_scheme \<Rightarrow> nat \<Rightarrow> 'q cpu \<Rightarrow> bool" where
  "tss_slot s i c \<longleftrightarrow>
     (let lo = gdt_descriptors s ! (6 + 2 * i); hi = gdt_descriptors s ! (7 + 2 * i)
      in desc_kind lo = (1, 0, 9, 0) \<and> tss_at s (desc_base lo hi) = cpu_tss c)"

definition with_tss :: "nat \<Rightarrow> u64 \<Rightarrow> 'q cpu \<Rightarrow> 'z \<Rightarrow> ('arr, 'q, 'd, 'z) irq_state_scheme \<Rightarrow> ('arr, 'q, 'd, 'z) irq_state_scheme" where
  "with_tss k a c z s = (let ds = gdt_descriptors s in (irq_state.more_update (\<lambda>_. z) s)
     \<lparr>tss_at := (tss_at s)(a := cpu_tss c),
      gdt_descriptors := ds[6 + 2 * k := tss_desc a (ds ! (6 + 2 * k)),
        7 + 2 * k := tss_desc_high a (ds ! (7 + 2 * k)), 8 + 2 * k := gs_desc (ds ! (8 + 2 * k))]\<rparr>)"

lemma with_tss_fields [simp]:
  "cpus (with_tss k a c z s) = cpus s" "cpu_at (with_tss k a c z s) = cpu_at s"
  "seg_loads (with_tss k a c z s) = seg_loads s" "gdt_limit (with_tss k a c z s) = gdt_limit s"
  "length (gdt_descriptors (with_tss k a c z s)) = length (gdt_descriptors s)"
  "tss_at (with_tss k a c z s) = (tss_at s)(a := cpu_tss c)"
  "irq_state.more (with_tss k a c z s) = z"
  by (simp_all add: with_tss_def Let_def)

lemma with_tss_slot:
  assumes "8 + 2 * k < length (gdt_descriptors s)"
  shows "tss_slot (with_tss k a c z s) k c"
    "desc_base (gdt_descriptors (with_tss k a c z s) ! (6 + 2 * k)) (gdt_descriptors (with_tss k a c z s) ! (7 + 2 * k)) = a"
    "gdt_descriptors (with_tss k a c z s) ! (8 + 2 * k) = gs_desc (gdt_descriptors s ! (8 + 2 * k))"
    "j < 6 + 2 * k \<or> 8 + 2 * k < j \<Longrightarrow> gdt_descriptors (with_tss k a c z s) ! j = gdt_descriptors s ! j"
    "field_get 47 1 (gdt_descriptors (with_tss k a c z s) ! (7 + 2 * k)) = field_get 47 1 (gdt_descriptors s ! (7 + 2 * k))"
  using assms by (simp_all add: with_tss_def Let_def tss_slot_def tss_base_roundtrip tss_kind nth_list_update
      tss_high_present) arith+

lemma gdt_cpu_spec:
  assumes heap: "boot_heap malloc live room" and space: "0 < room (irq_state.more s)"
    and len: "8 + 2 * k < length (gdt_descriptors s)"
  obtains a z where "a \<notin> live (irq_state.more s)" "live z = insert a (live (irq_state.more s))"
    "room z = room (irq_state.more s) - 1"
    "gdt_cpu E malloc k (6 + 2 * k) s =
       Some (6 + 2 * Suc k, with_tss k a (cpu_at s (array_get_at E (cpus s) k)) z s)"
proof -
  obtain a z where az: "malloc 104 s = (a, irq_state.more_update (\<lambda>_. z) s)" "a \<noteq> 0"
    "a \<notin> live (irq_state.more s)" "live z = insert a (live (irq_state.more s))"
    "room z = room (irq_state.more s) - 1"
    by (rule boot_heapE [where k = 104, OF heap space])
  show thesis
    by (rule that [of a z]) (use az len in \<open>simp_all add: gdt_cpu_def with_tss_def Let_def upd_desc_def nth_list_update\<close>)
qed

lemma gdt_cpus_spec:
  assumes heap: "boot_heap malloc live room" and "k \<le> n" and "6 + 2 * n < length (gdt_descriptors s)"
    and "n - k \<le> room (irq_state.more s)"
  shows "\<exists>s'. gdt_cpus E malloc [k..<n] (6 + 2 * k) s = Some s' \<and>
    cpus s' = cpus s \<and> cpu_at s' = cpu_at s \<and> seg_loads s' = seg_loads s \<and> gdt_limit s' = gdt_limit s \<and>
    length (gdt_descriptors s') = length (gdt_descriptors s) \<and>
    (\<forall>j < 6 + 2 * k. gdt_descriptors s' ! j = gdt_descriptors s ! j) \<and>
    (\<forall>a \<in> live (irq_state.more s). tss_at s' a = tss_at s a) \<and>
    (\<forall>i. k \<le> i \<and> i < n \<longrightarrow> tss_slot s' i (cpu_at s (array_get_at E (cpus s) i))) \<and>
    (\<forall>i. k \<le> i \<and> i < n \<longrightarrow>
       field_get 47 1 (gdt_descriptors s' ! (7 + 2 * i)) = field_get 47 1 (gdt_descriptors s ! (7 + 2 * i))) \<and>
    desc_kind (gdt_descriptors s' ! (6 + 2 * n)) =
      (if k < n then (1, 1, 2, 3) else desc_kind (gdt_descriptors s ! (6 + 2 * n)))"
  using assms(2,3,4)
proof (induction "n - k" arbitrary: k s)
  case 0
  then show ?case by auto
next
  case (Suc m)
  let ?c = "cpu_at s (array_get_at E (cpus s) k)"
  from Suc.hyps(2) Suc.prems have k: "k < n" "m = n - Suc k" "[k..<n] = k # [Suc k..<n]"
    by (simp_all add: upt_conv_Cons)
  then have len: "8 + 2 * k < length (gdt_descriptors s)" using Suc.prems by simp
  have space: "0 < room (irq_state.more s)" using Suc.prems(3) k(1) by simp
  obtain a z where a: "a \<notin> live (irq_state.more s)" and live: "live z = insert a (live (irq_state.more s))" and
    left: "room z = room (irq_state.more s) - 1" and
    step: "gdt_cpu E malloc k (6 + 2 * k) s = Some (6 + 2 * Suc k, with_tss k a ?c z s)"
    by (rule gdt_cpu_spec [OF heap space len])
  let ?t = "with_tss k a ?c z s"
  have space': "n - Suc k \<le> room (irq_state.more ?t)" using left Suc.prems(3) by simp
  obtain s' where run: "gdt_cpus E malloc [Suc k..<n] (6 + 2 * Suc k) ?t = Some s'" and
    keeps: "cpus s' = cpus s" "cpu_at s' = cpu_at s" "seg_loads s' = seg_loads s" "gdt_limit s' = gdt_limit s"
      "length (gdt_descriptors s') = length (gdt_descriptors s)" and
    low: "\<forall>j < 6 + 2 * Suc k. gdt_descriptors s' ! j = gdt_descriptors ?t ! j" and
    tss: "\<forall>b \<in> live z. tss_at s' b = tss_at ?t b" and
    rest: "\<forall>i. Suc k \<le> i \<and> i < n \<longrightarrow> tss_slot s' i (cpu_at s (array_get_at E (cpus s) i))" and
    high: "\<forall>i. Suc k \<le> i \<and> i < n \<longrightarrow>
       field_get 47 1 (gdt_descriptors s' ! (7 + 2 * i)) = field_get 47 1 (gdt_descriptors ?t ! (7 + 2 * i))" and
    last: "desc_kind (gdt_descriptors s' ! (6 + 2 * n)) =
      (if Suc k < n then (1, 1, 2, 3) else desc_kind (gdt_descriptors ?t ! (6 + 2 * n)))"
    using Suc.hyps(1) [OF k(2), of ?t] k(1) space' Suc.prems(2) by auto
  have "tss_slot s' k ?c"
    using with_tss_slot(1,2) [OF len, of a ?c z] low tss live by (simp add: tss_slot_def Let_def)
  then have "\<forall>i. k \<le> i \<and> i < n \<longrightarrow> tss_slot s' i (cpu_at s (array_get_at E (cpus s) i))"
    using rest by (metis le_antisym not_less_eq_eq)
  moreover have "field_get 47 1 (gdt_descriptors s' ! (7 + 2 * i)) = field_get 47 1 (gdt_descriptors s ! (7 + 2 * i))"
    if "k \<le> i" "i < n" for i
    using that low high with_tss_slot(4,5) [OF len] by (cases "i = k") simp_all
  moreover have "desc_kind (gdt_descriptors s' ! (6 + 2 * n)) = (1, 1, 2, 3)"
    using last k(1) with_tss_slot(3) [OF len] gs_kind by (cases "Suc k = n") auto
  moreover have "\<forall>j < 6 + 2 * k. gdt_descriptors s' ! j = gdt_descriptors s ! j"
    using low with_tss_slot(4) [OF len] by simp
  moreover have "\<forall>b \<in> live (irq_state.more s). tss_at s' b = tss_at s b"
    using tss live a by auto
  ultimately show ?case
    using run step keeps k by auto
qed

lemma build_gdt_spec:
  assumes heap: "boot_heap malloc live room" and space: "n < room (irq_state.more s)"
    and n: "array_get_size E (cpus s) = n" "0 < n" "n \<le> 256"
  obtains s' where "build_gdt E malloc s = Some s'" "length (gdt_descriptors s') = 6 + 3 * n"
    "unat (gdt_limit s') = 8 * (6 + 3 * n) - 1"
    "map (\<lambda>j. desc_kind (gdt_descriptors s' ! j)) [1, 2, 4, 5] = [(1, 1, 10, 0), (1, 1, 2, 0), (1, 1, 2, 3), (1, 1, 10, 3)]"
    "\<forall>i < n. tss_slot s' i (cpu_at s (array_get_at E (cpus s) i)) \<and> field_get 47 1 (gdt_descriptors s' ! (7 + 2 * i)) = 0"
    "desc_kind (gdt_descriptors s' ! 8) = (if n = 1 then (1, 1, 2, 3) else (1, 0, 9, 0))"
    "seg_loads s' = seg_loads s" "cpus s' = cpus s" "cpu_at s' = cpu_at s"
proof -
  let ?N = "6 + 3 * n" and ?k = "of_nat (6 + 3 * n) :: u16"
  have N: "unat ?k = ?N" by (rule unat_of_nat_u16) (use n(3) in simp)
  obtain a z where m: "malloc (8 * ucast ?k) s = (a, irq_state.more_update (\<lambda>_. z) s)" "a \<noteq> 0" "room z = room (irq_state.more s) - 1"
    by (rule boot_heapE [OF heap, of s "8 * ucast ?k"]) (use space in simp)
  define ds where "ds = (replicate ?N 0)[1 := kernel_code_desc 0, 2 := kernel_data_desc 0, 4 := u_data_desc 0, 5 := u_code_desc 0]"
  define t where "t = (irq_state.more_update (\<lambda>_. z) s)\<lparr>gdt_descriptors := ds, gdt_limit := 8 * ?k - 1\<rparr>"
  have t: "cpus t = cpus s" "cpu_at t = cpu_at s" "seg_loads t = seg_loads s" "gdt_limit t = 8 * ?k - 1"
    "gdt_descriptors t = ds" "irq_state.more t = z" by (simp_all add: t_def)
  have len: "length ds = ?N" by (simp add: ds_def)
  have left: "n - 0 \<le> room (irq_state.more t)" using m(3) space t(6) by simp
  obtain s' where run: "gdt_cpus E malloc [0..<n] 6 t = Some s'" and
    f: "cpus s' = cpus s" "cpu_at s' = cpu_at s" "seg_loads s' = seg_loads s" "gdt_limit s' = 8 * ?k - 1" "length (gdt_descriptors s') = ?N" and
    low: "\<forall>j < 6. gdt_descriptors s' ! j = ds ! j" and
    tss: "\<forall>i < n. tss_slot s' i (cpu_at s (array_get_at E (cpus s) i))" and
    high: "\<forall>i < n. field_get 47 1 (gdt_descriptors s' ! (7 + 2 * i)) = field_get 47 1 (ds ! (7 + 2 * i))" and
    last: "desc_kind (gdt_descriptors s' ! (6 + 2 * n)) = (1, 1, 2, 3)"
    using gdt_cpus_spec [OF heap, of 0 n t E, OF _ _ left] n(2) len t(1-5) by simp metis
  have lim: "unat (8 * ?k - 1) = 8 * ?N - 1"
    using n(3) N by (simp add: unat_sub_if' unat_word_ariths(2) del: of_nat_add of_nat_mult)
  have segs: "map (\<lambda>j. desc_kind (ds ! j)) [1, 2, 4, 5] = [(1, 1, 10, 0), (1, 1, 2, 0), (1, 1, 2, 3), (1, 1, 10, 3)]"
    unfolding ds_def by (simp add: nth_list_update segment_kinds)
  have high0: "\<forall>i < n. field_get 47 1 (gdt_descriptors s' ! (7 + 2 * i)) = 0"
    using high by (simp add: ds_def nth_list_update field_get_def)
  have boot_gs: "desc_kind (gdt_descriptors s' ! 8) = (if n = 1 then (1, 1, 2, 3) else (1, 0, 9, 0))"
    using last tss [rule_format, of 1] n(2) by (cases "n = 1") (auto simp: tss_slot_def Let_def)
  have "build_gdt E malloc s = Some s'"
    using run m N n by (simp add: build_gdt_def Let_def upd_desc_def t_def ds_def)
  then show thesis
    by (rule that [of s']) (use f low tss high0 boot_gs lim segs in simp_all)
qed

text \<open>The segment loads on such a table: they succeed on one processor and fault on more.\<close>

lemma load_boot_gdt:
  assumes len: "8 < length (gdt_descriptors s)"
    and kinds: "map (\<lambda>j. desc_kind (gdt_descriptors s ! j)) [1, 2] = [(1, 1, 10, 0), (1, 1, 2, 0)]"
    and tss: "desc_kind (gdt_descriptors s ! 6) = (1, 0, 9, 0)"
    and gs: "desc_kind (gdt_descriptors s ! 8) = (if one then (1, 1, 2, 3) else (1, 0, 9, 0))"
  shows "load_gdt 48 s = (if one then Some (s\<lparr>gdt_descriptors := (gdt_descriptors s)[6 := d_type 11 (gdt_descriptors s ! 6)],
      seg_loads := seg_loads s @ [48]\<rparr>) else None)"
proof -
  let ?ds = "gdt_descriptors s"
  have at: "descriptor_at ?ds 16 = Some (?ds ! 2)" "descriptor_at ?ds 48 = Some (?ds ! 6)"
    "descriptor_at ?ds (48 + 16) = Some (?ds ! 8)" "descriptor_at ?ds 8 = Some (?ds ! 1)"
    using len by (simp_all add: descriptor_at_def drop_bit_eq_div)
  have i: "unat (drop_bit 3 48 :: u16) = 6" by (simp add: drop_bit_eq_div)
  have ok: "data_loadable (?ds ! 2)" "stack_loadable (?ds ! 2)" "code_loadable (?ds ! 1)" "tss_loadable (?ds ! 6)"
    "data_loadable (?ds ! 8) \<longleftrightarrow> one"
    using kinds tss gs loadable_kinds by (auto split: if_splits)
  show ?thesis by (simp only: load_gdt_def Let_def at i bind.bind_lunit ok) simp
qed

definition loaded_tss :: "('arr, 'q, 'd, 'z) irq_state_scheme \<Rightarrow> nat \<Rightarrow> 'q cpu \<Rightarrow> bool" where
  "loaded_tss s i c \<longleftrightarrow>
     (let lo = gdt_descriptors s ! (6 + 2 * i); hi = gdt_descriptors s ! (7 + 2 * i)
      in desc_kind lo = (1, 0, 11, 0) \<and> tss_at s (desc_base lo hi) = cpu_tss c)"

lemma reinitialize_gdt_one:
  assumes heap: "boot_heap malloc live room" and space: "1 < room (irq_state.more s)" and n: "array_get_size E (cpus s) = 1"
  obtains s' where "reinitialize_gdt E malloc s = Some s'" "loaded_tss s' 0 (cpu_at s (array_get_at E (cpus s) 0))"
    "seg_loads s' = seg_loads s @ [48]" "cpus s' = cpus s" "cpu_at s' = cpu_at s"
proof (rule build_gdt_spec [OF heap space n])
  fix s1
  assume run: "build_gdt E malloc s = Some s1" and len: "length (gdt_descriptors s1) = 6 + 3 * 1"
    and kinds: "map (\<lambda>j. desc_kind (gdt_descriptors s1 ! j)) [1, 2, 4, 5] = [(1, 1, 10, 0), (1, 1, 2, 0), (1, 1, 2, 3), (1, 1, 10, 3)]"
    and tss: "\<forall>i < 1. tss_slot s1 i (cpu_at s (array_get_at E (cpus s) i)) \<and> field_get 47 1 (gdt_descriptors s1 ! (7 + 2 * i)) = 0"
    and gs: "desc_kind (gdt_descriptors s1 ! 8) = (if (1 :: nat) = 1 then (1, 1, 2, 3) else (1, 0, 9, 0))"
    and s1: "seg_loads s1 = seg_loads s" "cpus s1 = cpus s" "cpu_at s1 = cpu_at s"
  let ?ds = "gdt_descriptors s1"
  have slot: "desc_kind (?ds ! 6) = (1, 0, 9, 0)" "tss_at s1 (desc_base (?ds ! 6) (?ds ! 7)) = cpu_tss (cpu_at s (array_get_at E (cpus s) 0))"
    using tss by (simp_all add: tss_slot_def Let_def)
  let ?s2 = "s1\<lparr>gdt_descriptors := ?ds[6 := d_type 11 (?ds ! 6)], seg_loads := seg_loads s1 @ [48]\<rparr>"
  have "load_gdt 48 s1 = Some ?s2" using load_boot_gdt [of s1 True] len kinds gs slot(1) by simp
  then have "reinitialize_gdt E malloc s = Some (case find_local_cpu E ?s2 of None \<Rightarrow> ?s2 | Some c \<Rightarrow> ?s2\<lparr>current_cpu := c\<rparr>)"
    using run by (simp add: reinitialize_gdt_def)
  then show thesis
    by (rule that) (use len slot s1 busy_desc in \<open>simp_all add: loaded_tss_def Let_def split: option.split\<close>)
qed simp_all

lemma reinitialize_gdt_faults:
  assumes heap: "boot_heap malloc live room" and space: "n < room (irq_state.more s)"
    and n: "array_get_size E (cpus s) = n" "2 \<le> n" "n \<le> 256"
  shows "reinitialize_gdt E malloc s = None"
proof (rule build_gdt_spec [OF heap space n(1) _ n(3)])
  fix s1
  assume run: "build_gdt E malloc s = Some s1" and len: "length (gdt_descriptors s1) = 6 + 3 * n"
    and kinds: "map (\<lambda>j. desc_kind (gdt_descriptors s1 ! j)) [1, 2, 4, 5] = [(1, 1, 10, 0), (1, 1, 2, 0), (1, 1, 2, 3), (1, 1, 10, 3)]"
    and tss: "\<forall>i < n. tss_slot s1 i (cpu_at s (array_get_at E (cpus s) i)) \<and> field_get 47 1 (gdt_descriptors s1 ! (7 + 2 * i)) = 0"
    and gs: "desc_kind (gdt_descriptors s1 ! 8) = (if n = 1 then (1, 1, 2, 3) else (1, 0, 9, 0))"
  have "desc_kind (gdt_descriptors s1 ! 6) = (1, 0, 9, 0)" using tss [rule_format, of 0] n(2) by (simp add: tss_slot_def Let_def)
  then have "load_gdt 48 s1 = None" using load_boot_gdt [of s1 "n = 1"] len kinds gs n(2) by simp
  then show ?thesis using run by (simp add: reinitialize_gdt_def)
qed (use n(2) in simp)


text \<open>A start-up state with two processors and a heap that hands out 1000 blocks of 16 bytes.\<close>

definition demo_irq :: "nat list \<Rightarrow> (nat list, nat list, (u16 \<times> u8) list, nat) irq_state_scheme" where
  "demo_irq cs = smp_state.extend (demo_smp cs)
     \<lparr>gdt_descriptors = [], gdt_limit = 0, tss_at = (\<lambda>_. cpu_tss demo_cpu), seg_loads = [], idt_entries = [],
      idt_limit = 0, idt_loads = 0, interrupt_handlers = [], device = [],
      irq_clock = \<lparr>clock_s = 0, clock_ms = 0\<rparr>, cr2 = 0, lapic_eois = 0, \<dots> = 0\<rparr>"

definition demo_malloc :: "u64 \<Rightarrow> ('arr, 'q, 'd, nat) irq_state_scheme \<Rightarrow> u64 \<times> ('arr, 'q, 'd, nat) irq_state_scheme" where
  "demo_malloc k s = (let n = irq_state.more s
     in if n < 1000 then (of_nat (16 * Suc n), irq_state.more_update (\<lambda>_. Suc n) s) else (0, s))"

definition demo_smp_env :: "(nat list, 's) smp_env" where
  "demo_smp_env = \<lparr>array_get_size = length, array_get_at = (!), array_find_by_pred = (\<lambda>a P. find P a),
     array_push_data = (\<lambda>a c. a @ [c]), remote_ipi = (\<lambda>_. Some), ipi_schedule = (\<lambda>r s. Some (r, s))\<rparr>"

definition demo_blocks :: "nat \<Rightarrow> u64 set" where
  "demo_blocks n = (\<lambda>i. of_nat (16 * Suc i)) ` {..<n}"

lemma demo_block_new:
  assumes "n < 1000"
  shows "of_nat (16 * Suc n) \<noteq> (0 :: u64)" "of_nat (16 * Suc n) \<notin> demo_blocks n"
    "demo_blocks (Suc n) = insert (of_nat (16 * Suc n)) (demo_blocks n)"
proof -
  have unat16: "unat (of_nat (16 * Suc i) :: u64) = 16 * Suc i" if "i < 1000" for i
    using that by (intro unat_of_nat_u64) simp
  show "of_nat (16 * Suc n) \<noteq> (0 :: u64)" using unat16 [OF assms] by auto
  show "of_nat (16 * Suc n) \<notin> demo_blocks n"
  proof
    assume "of_nat (16 * Suc n) \<in> demo_blocks n"
    then obtain i where "i < n" "(of_nat (16 * Suc n) :: u64) = of_nat (16 * Suc i)" by (auto simp: demo_blocks_def)
    then show False using unat16 [OF assms] unat16 [of i] assms by simp
  qed
  show "demo_blocks (Suc n) = insert (of_nat (16 * Suc n)) (demo_blocks n)"
    by (simp add: demo_blocks_def lessThan_Suc)
qed

lemma demo_boot_heap: "boot_heap demo_malloc demo_blocks (\<lambda>n. 1000 - n)"
  unfolding boot_heap_def
proof (intro allI impI)
  fix k and s :: "('arr, 'q, 'd, nat) irq_state_scheme"
  assume "0 < 1000 - irq_state.more s"
  then have n: "irq_state.more s < 1000" by simp
  show "\<exists>a z. demo_malloc k s = (a, irq_state.more_update (\<lambda>_. z) s) \<and> a \<noteq> 0 \<and> a \<notin> demo_blocks (irq_state.more s) \<and>
      demo_blocks z = insert a (demo_blocks (irq_state.more s)) \<and> 1000 - z = 1000 - irq_state.more s - 1"
    by (rule exI [of _ "of_nat (16 * Suc (irq_state.more s))"], rule exI [of _ "Suc (irq_state.more s)"])
      (use n demo_block_new [OF n] in \<open>simp add: demo_malloc_def Let_def del: of_nat_mult of_nat_Suc mult_Suc_right\<close>)
qed


section \<open>The gates that \<open>initialize_interrupts\<close> installs\<close>

definition gate_address :: "idt_gate \<Rightarrow> u64" where
  "gate_address g = ucast (offset015 g) OR push_bit 16 (ucast (offset1631 g)) OR push_bit 32 (ucast (offset3263 g))"

text \<open>Present bit, type, privilege level and code selector.\<close>

definition gate_kind :: "idt_gate \<Rightarrow> u16 \<times> u16 \<times> u16 \<times> u16" where
  "gate_kind g = (field_get 15 1 (gate_flags g), field_get 8 4 (gate_flags g), field_get 13 2 (gate_flags g), gate_selector g)"

text \<open>The stack the processor switches to: the entry of its task state that the gate selects.\<close>

definition gate_stack :: "idt_gate \<Rightarrow> cputss \<Rightarrow> u64 option" where
  "gate_stack g t = map_option (\<lambda>f. f t) (map_of (zip [1, 2, 3, 4, 5, 6, 7] [ist1, ist2, ist3, ist4, ist5, ist6, ist7])
     (field_get 0 3 (gate_flags g)))"

lemma fill_gate_address: "gate_address (fill_gate gn f g) = f"
proof (rule bit_word_eqI)
  fix n
  assume "n < LENGTH(64)"
  then show "bit (gate_address (fill_gate gn f g)) n = bit f n"
    by (cases "n < 16"; cases "n < 32") (auto simp: gate_address_def fill_gate_def Let_def and_masks bit_simps)
qed

lemma fill_gate_kind: "gate_kind (fill_gate gn f g) = (1, 14, 0, 8)"
  by (simp add: gate_kind_def fill_gate_def Let_def bit_field_simps take_bit_eq_mask mask_eq_exp_minus_1)

lemma fill_gate_stack:
  "field_get 0 3 (gate_flags (fill_gate gn f g)) = (if gn = 14 then 1 else if gn = 8 then 2 else if gn = 255 then 3 else 0)"
  by (simp add: fill_gate_def Let_def bit_field_simps take_bit_eq_mask mask_eq_exp_minus_1)

lemma set_gates_entries:
  assumes "length (idt_entries s) = 256"
  shows "length (idt_entries (set_gates isr ns s)) = 256 \<and>
    (if n \<in> set ns then \<exists>g. idt_entries (set_gates isr ns s) ! unat n = fill_gate n (isr n) g
     else idt_entries (set_gates isr ns s) ! unat n = idt_entries s ! unat n)"
  using assms
proof (induction ns arbitrary: s)
  case Nil
  then show ?case by (simp add: set_gates_def)
next
  case (Cons k ns)
  let ?t = "idt_set_gate k (isr k) s"
  have t: "length (idt_entries ?t) = 256" using Cons.prems by (simp add: idt_set_gate_def)
  have "idt_entries ?t ! unat n = (if n = k then fill_gate n (isr n) (idt_entries s ! unat n) else idt_entries s ! unat n)"
    using Cons.prems unat_u8_bound [of n] by (cases "n = k") (simp add: idt_set_gate_def, simp add: idt_set_gate_def word_unat_eq_iff)
  then show ?case
    using Cons.IH [OF t] by (auto simp: set_gates_def split: if_splits)
qed

lemma in_gate_range: "b \<le> 256 \<Longrightarrow> (n :: u8) \<in> set (map of_nat [a..<b]) \<longleftrightarrow> a \<le> unat n \<and> unat n < b"
  by (auto simp: image_iff unsigned_of_nat take_bit_eq_mod intro!: bexI [of _ "unat n"])

lemma initialized_gate:
  "if unat n < 48 \<or> n = 255
   then \<exists>x. idt_entries (initialize_interrupts io isr s) ! unat n = fill_gate n (isr n) x
   else idt_entries (initialize_interrupts io isr s) ! unat n = empty_gate"
proof -
  define s0 where "s0 = s\<lparr>idt_entries := replicate 256 empty_gate, interrupt_handlers := replicate 256 None, idt_limit := 4095\<rparr>"
  define s1 where "s1 = set_gates isr (map of_nat [0..<32] @ [255]) s0"
  define s2 where "s2 = s1\<lparr>device := pic_remap io (fold (\<lambda>i. IRQ_set_mask io (of_nat i)) [32..<47] (device s1))\<rparr>"
  have "length (idt_entries s0) = 256" by (simp add: s0_def)
  note e1 = set_gates_entries [OF this, of isr "map of_nat [0..<32] @ [255]" n, folded s1_def]
  then have "length (idt_entries s2) = 256" by (simp add: s2_def)
  note e2 = set_gates_entries [OF this, of isr "map of_nat [32..<48]" n]
  have "idt_entries (initialize_interrupts io isr s) ! unat n = idt_entries (set_gates isr (map of_nat [32..<48]) s2) ! unat n"
    by (simp add: initialize_interrupts_def Let_def s0_def s1_def s2_def)
  moreover have "idt_entries s2 = idt_entries s1" by (simp add: s2_def)
  moreover have "idt_entries s0 ! unat n = empty_gate" using unat_u8_bound [of n] by (simp add: s0_def)
  ultimately show ?thesis
    using e1 e2 in_gate_range [of 48 n 32] in_gate_range [of 32 n 0]
    by (cases "n = 255"; cases "unat n < 32"; cases "unat n < 48") (simp_all del: set_map)
qed

text \<open>
  C32. The interrupt table: every gate from 0 to 47 and gate 255 is a present interrupt gate of the kernel
  code segment that leads to its stub, all other gates are empty. The stacks do not match their names:
  with the task states that \<open>reinitialize_gdt\<close> fills, page faults run on the handler stack, double
  faults on the page fault stack and inter-processor interrupts on the double fault stack.
\<close>

theorem initialize_interrupts_gates:
  "let g = (\<lambda>n :: u8. idt_entries (initialize_interrupts io isr s) ! unat n) in
    (\<forall>n. if unat n < 48 \<or> n = 255 then gate_address (g n) = isr n \<and> gate_kind (g n) = (1, 14, 0, 8)
         else g n = empty_gate) \<and>
    gate_stack (g 14) (cpu_tss c) = Some (handler_stack c) \<and>
    gate_stack (g 8) (cpu_tss c) = Some (pf_stack c) \<and>
    gate_stack (g 255) (cpu_tss c) = Some (df_stack c) \<and>
    (\<forall>n. n \<in> {8, 14, 255} \<or> gate_stack (g n) (cpu_tss c) = None)"
proof -
  define g where "g = (\<lambda>n :: u8. idt_entries (initialize_interrupts io isr s) ! unat n)"
  have g: "if unat n < 48 \<or> n = 255 then \<exists>x. g n = fill_gate n (isr n) x else g n = empty_gate" for n
    unfolding g_def by (rule initialized_gate)
  have stack: "gate_stack (g n) (cpu_tss c) = (if n = 14 then Some (handler_stack c) else if n = 8 then Some (pf_stack c)
      else if n = 255 then Some (df_stack c) else None)" for n
  proof (cases "unat n < 48 \<or> n = 255")
    case True
    then obtain x where "g n = fill_gate n (isr n) x" using g [of n] by auto
    then show ?thesis by (simp add: gate_stack_def fill_gate_stack cpu_tss_def)
  next
    case False
    then show ?thesis using g [of n] by (auto simp: gate_stack_def empty_gate_def field_get_def)
  qed
  have "if unat n < 48 \<or> n = 255 then gate_address (g n) = isr n \<and> gate_kind (g n) = (1, 14, 0, 8)
      else g n = empty_gate" for n
    using g [of n] by (metis fill_gate_address fill_gate_kind)
  then show ?thesis
    unfolding Let_def g_def [symmetric] by (simp add: stack)
qed

section \<open>Interrupts before the clock and the processor messages are installed\<close>

lemma fold_handlers:
  assumes "distinct (map fst hs)" "length xs = 256" "t < 256"
  shows "fold (\<lambda>(n :: u8, h) xs. xs[unat n := Some h]) hs xs ! t =
    (case map_of hs (of_nat t) of None \<Rightarrow> xs ! t | Some h \<Rightarrow> Some h)"
  using assms
proof (induction hs arbitrary: xs)
  case (Cons p hs)
  obtain n h where p: "p = (n, h)" by fastforce
  have t: "unat (of_nat t :: u8) = t" using Cons.prems(3) by (simp add: unsigned_of_nat take_bit_eq_mod)
  have IH: "fold (\<lambda>(n, h) xs. xs[unat n := Some h]) hs (xs[unat n := Some h]) ! t =
      (case map_of hs (of_nat t) of None \<Rightarrow> xs[unat n := Some h] ! t | Some h \<Rightarrow> Some h)"
    using Cons.IH [of "xs[unat n := Some h]"] Cons.prems by simp
  show ?case
  proof (cases "of_nat t = n")
    case True
    then have "map_of hs (of_nat t) = None" "unat n = t"
      using Cons.prems(1) p t by (auto simp: map_of_eq_None_iff)
    then show ?thesis using IH True p Cons.prems(2,3) by simp
  next
    case False
    then have "xs[unat n := Some h] ! t = xs ! t" using t by (intro nth_list_update_neq) auto
    then show ?thesis using IH False p by (simp split: option.split)
  qed
qed simp

lemma standard_handler_at:
  assumes "length (interrupt_handlers s) = 256" "t < 256"
  shows "interrupt_handlers (register_standard_interrupt_handlers s) ! t =
    (case map_of standard_handlers (of_nat t) of None \<Rightarrow> interrupt_handlers s ! t | Some h \<Rightarrow> Some h)"
proof -
  have "interrupt_handlers (fold (\<lambda>(n, h). register_interrupt_handler n h) hs s) =
      fold (\<lambda>(n, h) xs. xs[unat n := Some h]) hs (interrupt_handlers s)" for hs
    by (induction hs arbitrary: s) (auto simp: register_interrupt_handler_def)
  moreover have "distinct (map fst standard_handlers)" by (simp add: standard_handlers_def)
  ultimately show ?thesis
    using fold_handlers assms by (simp add: register_standard_interrupt_handlers_def)
qed

lemma handlers_initialized: "interrupt_handlers (initialize_interrupts io isr s) = replicate 256 None"
proof -
  have "interrupt_handlers (set_gates isr ns s) = interrupt_handlers s" for ns and s :: "('a, 'b, 'c, 'd) irq_state_scheme"
    by (induction ns arbitrary: s) (simp_all add: set_gates_def idt_set_gate_def)
  then show ?thesis by (simp add: initialize_interrupts_def Let_def)
qed

text \<open>
  Until the clock and the processor messages are installed, an interrupt of kernel code never
  returns to it: a vector with a standard handler shows that handler's error screen, one without shows
  the screen for a missing handler, and a general protection or page fault loops for ever.
\<close>

theorem start_interrupts_fatal:
  assumes cs: "r_cs r = 8"
  shows "isr_handler I io r (register_standard_interrupt_handlers (initialize_interrupts io isr s)) =
    (if 256 \<le> r_type r then None
     else case map_of standard_handlers (ucast (r_type r)) of
            None \<Rightarrow> Some (Inl (3, r_type r, r_ecode r))
          | Some h \<Rightarrow> map_option Inl (exception_screen h (r_ecode r) r))"
proof (cases "256 \<le> r_type r")
  case True
  then show ?thesis by (simp add: isr_handler_def)
next
  case False
  let ?s = "register_standard_interrupt_handlers (initialize_interrupts io isr s)"
  have t: "unat (r_type r) < 256" using False by (simp add: word_le_nat_alt)
  have "interrupt_handlers ?s ! unat (r_type r) = map_of standard_handlers (of_nat (unat (r_type r)))"
    using standard_handler_at [of "initialize_interrupts io isr s", OF _ t] t
    by (simp add: handlers_initialized split: option.split)
  moreover have "(of_nat (unat (r_type r)) :: u8) = ucast (r_type r)" by simp
  moreover have "call_isr I h (r_ecode r) r ?s = map_option Inl (exception_screen h (r_ecode r) r)"
    if "map_of standard_handlers (ucast (r_type r)) = Some h" for h
    using that cs
    by (auto simp: standard_handlers_def call_isr_def exception_screen_def handle_page_fault_def split: if_splits)
  ultimately show ?thesis
    using False by (auto simp: isr_handler_def split: option.split)
qed

definition demo_regs :: registers where
  "demo_regs = \<lparr>r15 = 0, r14 = 0, r13 = 0, r12 = 0, r11 = 0, r10 = 0, r9 = 0, r8 = 0, rbp = 0, rcx = 0, rbx = 0,
     rdx = 0, rsi = 0, rdi = 0, r_es = 0, r_ds = 0, r_fs = 0, rax = 0, r_type = 0, r_ecode = 0, rip = 0x1000,
     r_cs = 8, rflags = 0, uesp = 0, r_ss = 0\<rparr>"

theorem start_interrupts_fatal_witness:
  "isr_handler \<lparr>isr_smp = demo_smp_env, isr_ds = demo_ds, isr_junk = id, isr_pick = id, isr_scheduler_enabled = False\<rparr>
     \<lparr>io_outb = (\<lambda>_ _. id), io_inb = (\<lambda>_. Pair 0)\<rparr> demo_regs
     (register_standard_interrupt_handlers (initialize_interrupts
        \<lparr>io_outb = (\<lambda>_ _. id), io_inb = (\<lambda>_. Pair 0)\<rparr> (\<lambda>_. 0) (demo_irq [0]))) = Some (Inl (5, 0x1000, 8))"
  by (subst start_interrupts_fatal) (simp_all add: demo_regs_def standard_handlers_def exception_screen_def)

end
