(* ===== verification/Cpu_Start.thy ===== *)
theory Cpu_Start
  imports Interrupts Acpi
begin

text \<open>
  The start of the processors (\<open>cpus/cpu_mgmt.c\<close>): the processor records made from the MADT, the
  start-up messages to the other processors, the local APIC and the entry of another processor. The
  heap, the queues of KCLib, and what the other processors do while the boot processor waits are
  parameters.
\<close>

section \<open>State\<close>

record ('arr, 'q, 'd) start_state = "('arr, 'q, 'd) irq_state" +
  cpuid_to_cputord :: "u32 list"
  lapic_logdest :: u32
  lapic_destform :: u32
  lapic_spurvec :: u32
  lapic_taskprior :: u32

section \<open>The local APIC\<close>

definition enable_ipi_interrupts :: "('arr, 'q, 'd, 'z) start_state_scheme \<Rightarrow> ('arr, 'q, 'd, 'z) start_state_scheme" where
  "enable_ipi_interrupts s = s\<lparr>lapic_spurvec := 0xFF OR push_bit 8 1, lapic_taskprior := 0\<rparr>"

definition disable_ipi_interrupts :: "('arr, 'q, 'd, 'z) start_state_scheme \<Rightarrow> ('arr, 'q, 'd, 'z) start_state_scheme" where
  "disable_ipi_interrupts s = s\<lparr>lapic_taskprior := 0x0F, lapic_spurvec := lapic_spurvec s AND NOT (push_bit 8 1)\<rparr>"

definition initialize_lapic :: "('arr, 'q, 'd, 'z) start_state_scheme \<Rightarrow> ('arr, 'q, 'd, 'z) start_state_scheme" where
  "initialize_lapic s = enable_ipi_interrupts (s\<lparr>lapic_logdest := push_bit 24 1, lapic_destform := 0xFFFFFFF\<rparr>)"

section \<open>Processor records\<close>

type_synonym 's allocator = "u64 \<Rightarrow> 's \<Rightarrow> u64 \<times> 's"

text \<open>A stack of \<open>sz\<close> bytes, whose result is not checked for NULL: the page-aligned top.\<close>

definition new_stack :: "'s allocator \<Rightarrow> u64 \<Rightarrow> 's \<Rightarrow> u64 \<times> 's" where
  "new_stack malloc sz s = (let (p, s') = malloc sz s in (ALIGN (p + sz), s'))"

text \<open>
  \<open>sizeof(cpu_t)\<close> is a parameter. The record lies at the index of its address; the message fields that
  \<open>make_cpu\<close> does not set keep what the memory held. Its address space is the active page table.
\<close>

definition fill_cpu :: "(u8 \<times> u8) option \<Rightarrow> u64 \<Rightarrow> 'q \<Rightarrow> u64 \<Rightarrow> u64 list \<Rightarrow> 'q cpu \<Rightarrow> 'q cpu" where
  "fill_cpu apic insertid q cr3 st c = c\<lparr>
     processor_id := (case apic of None \<Rightarrow> 0 | Some (p, i) \<Rightarrow> ucast p),
     apic_id := (case apic of None \<Rightarrow> 0 | Some (p, i) \<Rightarrow> i),
     started := (apic = None),
     insert_id := insertid, syscall_stack := st ! 0,
     cpu_lock := 0, ipi_lock := 0, cpu_sched_lock := 0, message_clear_lock := 0,
     apic_message_handled := False, current_address_space := cr3,
     cpu_stack := st ! 1, handler_stack := st ! 2, pf_stack := st ! 3, df_stack := st ! 4, ipi_stack := st ! 5,
     ct := None, priority_0 := q, priority_1 := q, priority_2 := q, priority_3 := q, priority_4 := q\<rparr>"

primrec new_stacks :: "'s allocator \<Rightarrow> u64 list \<Rightarrow> 's \<Rightarrow> u64 list \<times> 's" where
  "new_stacks malloc [] s = ([], s)"
| "new_stacks malloc (n # ns) s =
     (let (t, s1) = new_stack malloc n s; (ts, s2) = new_stacks malloc ns s1 in (t # ts, s2))"

definition stack_sizes :: "u64 list" where
  "stack_sizes = [0x10000, 0x2000, 0x8000, 0x3000, 0x2000, 0x3000]"

definition make_cpu :: "('arr, 'q, 'd, 'z) start_state_scheme allocator \<Rightarrow> u64 \<Rightarrow> 'q \<Rightarrow> (u8 \<times> u8) option \<Rightarrow> u64
    \<Rightarrow> ('arr, 'q, 'd, 'z) start_state_scheme \<Rightarrow> (nat \<times> ('arr, 'q, 'd, 'z) start_state_scheme) option" where
  "make_cpu malloc sz newq apic insertid s =
     (let (a, s1) = malloc sz s
      in if a = 0 then None
         else let (st, s2) = new_stacks malloc stack_sizes s1; c = unat a
              in Some (c, upd_cpu c (fill_cpu apic insertid newq (active_page s2) st) s2))"

definition make_cpu_default :: "('arr, 'q, 'd, 'z) start_state_scheme allocator \<Rightarrow> u64 \<Rightarrow> 'q
    \<Rightarrow> ('arr, 'q, 'd, 'z) start_state_scheme \<Rightarrow> (nat \<times> ('arr, 'q, 'd, 'z) start_state_scheme) option" where
  "make_cpu_default malloc sz newq s = make_cpu malloc sz newq None 0 s"

section \<open>Reading the MADT\<close>

definition push_cpu :: "('arr, ('arr, 'q, 'd, 'z) start_state_scheme) smp_env \<Rightarrow> nat
    \<Rightarrow> ('arr, 'q, 'd, 'z) start_state_scheme \<Rightarrow> ('arr, 'q, 'd, 'z) start_state_scheme" where
  "push_cpu E c s = s\<lparr>cpus := array_push_data E (cpus s) c\<rparr>"

definition add_lapic :: "('arr, ('arr, 'q, 'd, 'z) start_state_scheme) smp_env \<Rightarrow> ('arr, 'q, 'd, 'z) start_state_scheme allocator
    \<Rightarrow> u64 \<Rightarrow> 'q \<Rightarrow> u8 \<Rightarrow> u8 \<Rightarrow> ('arr, 'q, 'd, 'z) start_state_scheme \<Rightarrow> ('arr, 'q, 'd, 'z) start_state_scheme option" where
  "add_lapic E malloc sz newq pid aid s =
     do { (c, s1) \<leftarrow> make_cpu malloc sz newq (Some (pid, aid)) (of_nat (array_get_size E (cpus s))) s;
          let s2 = push_cpu E c s1;
          Some (s2\<lparr>cpuid_to_cputord := (cpuid_to_cputord s2)[unat pid := of_nat (array_get_size E (cpus s2)) - 1]\<rparr>) }"

partial_function (option) madt_loop :: "('arr, ('arr, 'q, 'd, 'z) start_state_scheme) smp_env
    \<Rightarrow> ('arr, 'q, 'd, 'z) start_state_scheme allocator \<Rightarrow> u64 \<Rightarrow> 'q \<Rightarrow> u64 \<Rightarrow> u64
    \<Rightarrow> ('arr, 'q, 'd, 'z) start_state_scheme \<Rightarrow> ('arr, 'q, 'd, 'z) start_state_scheme option" where
  "madt_loop E malloc sz newq bytes addr s =
     (if 0 < bytes then
        let m = kmem s; len = ucast (m (addr + 1)) :: u64
        in do { s' \<leftarrow> (if m addr = 0 \<and> ld32 m (addr + 4) = 1
                        then add_lapic E malloc sz newq (m (addr + 2)) (m (addr + 3)) s else Some s);
                madt_loop E malloc sz newq (bytes - len) (addr + len) s' }
      else Some s)"

declare madt_loop.simps [code]

text \<open>\<open>gdt32\<close> is the address of the 32-bit start-up code, which is copied to where the other processors start.\<close>

definition prepare_cpus :: "'arr \<Rightarrow> u64 \<Rightarrow> ('arr, 'q, 'd, 'z) start_state_scheme \<Rightarrow> ('arr, 'q, 'd, 'z) start_state_scheme" where
  "prepare_cpus empty_array gdt32 s =
     s\<lparr>kmem := memcpy (physical_to_virtual s 0x1000) (physical_to_virtual s gdt32) 0x2000 (kmem s),
       cpuid_to_cputord := replicate 256 0, apicaddr := 0xFEE00000, tlb_lock := 0, cpus := empty_array\<rparr>"

definition initialize_cpus :: "('arr, ('arr, 'q, 'd, 'z) start_state_scheme) smp_env
    \<Rightarrow> ('arr, 'q, 'd, 'z) start_state_scheme allocator \<Rightarrow> u64 \<Rightarrow> 'q \<Rightarrow> 'arr \<Rightarrow> u64 \<Rightarrow> acpi
    \<Rightarrow> ('arr, 'q, 'd, 'z) start_state_scheme \<Rightarrow> ('arr, 'q, 'd, 'z) start_state_scheme option" where
  "initialize_cpus E malloc sz newq empty_array gdt32 A s =
     (let s1 = prepare_cpus empty_array gdt32 s
      in case find_madt A s1 of
           None \<Rightarrow> do { (c, s2) \<leftarrow> make_cpu_default malloc sz newq s1; Some (push_cpu E c s2) }
         | Some madt \<Rightarrow>
             let s2 = s1\<lparr>apicaddr := ld32 (kmem s1) (madt + 36)\<rparr>
             in madt_loop E malloc sz newq (ucast (ld32 (kmem s2) (madt + 4)) - 44) (madt + 44) s2)"

section \<open>Starting the other processors\<close>

definition INIT_IPI_FLAGS :: u32 where "INIT_IPI_FLAGS = push_bit 8 5"
definition SIPI_FLAGS :: u32 where "SIPI_FLAGS = push_bit 8 6"
definition AP_INIT_LOAD_ADDRESS :: u8 where "AP_INIT_LOAD_ADDRESS = 2"

text \<open>One pass: mark the boot processor, message every other one.\<close>

definition mp_pass :: "('arr, ('arr, 'q, 'd, 'z) start_state_scheme) smp_env \<Rightarrow> u8 \<Rightarrow> u8 \<Rightarrow> u32
    \<Rightarrow> ('arr, 'q, 'd, 'z) start_state_scheme \<Rightarrow> ('arr, 'q, 'd, 'z) start_state_scheme" where
  "mp_pass E localcpu vector flags s =
     fold (\<lambda>i s. let c = array_get_at E (cpus s) i
                 in if apic_id (cpu_at s c) = localcpu then upd_cpu c (\<lambda>k. k\<lparr>started := True\<rparr>) s
                    else send_ipi_to (apic_id (cpu_at s c)) vector flags True s)
       [0..<array_get_size E (cpus s)] s"

definition mp_retry :: "('arr, ('arr, 'q, 'd, 'z) start_state_scheme) smp_env \<Rightarrow> u8
    \<Rightarrow> ('arr, 'q, 'd, 'z) start_state_scheme \<Rightarrow> ('arr, 'q, 'd, 'z) start_state_scheme" where
  "mp_retry E localcpu s =
     (let is = [0..<array_get_size E (cpus s)]
      in if list_all (\<lambda>i. started (cpu_at s (array_get_at E (cpus s) i))) is then s
         else fold (\<lambda>i s. let c = array_get_at E (cpus s) i
                          in if apic_id (cpu_at s c) = localcpu \<or> started (cpu_at s c) then s
                             else send_ipi_to (apic_id (cpu_at s c)) AP_INIT_LOAD_ADDRESS SIPI_FLAGS True s) is s)"

text \<open>
  While the boot processor waits in \<open>busy_wait_milis\<close>, its timer interrupt advances the clock and the other
  processors start: \<open>wait_clock s i\<close> is the clock at the \<open>i\<close>-th reading of a wait that began in state \<open>s\<close>, and
  \<open>wait_world n s\<close> the state after \<open>n\<close> readings.
\<close>

record 's wait_env =
  wait_clock :: "'s \<Rightarrow> nat \<Rightarrow> clock"
  wait_world :: "nat \<Rightarrow> 's \<Rightarrow> 's"

definition wait_milis :: "'s wait_env \<Rightarrow> u64 \<Rightarrow> 's \<Rightarrow> 's option" where
  "wait_milis B milis s = map_option (\<lambda>n. wait_world B n s) (busy_wait_milis (wait_clock B s) milis)"

text \<open>The local APIC id fits a byte.\<close>

definition initialize_mp :: "('arr, ('arr, 'q, 'd, 'z) start_state_scheme) smp_env
    \<Rightarrow> ('arr, 'q, 'd, 'z) start_state_scheme wait_env \<Rightarrow> u8
    \<Rightarrow> ('arr, 'q, 'd, 'z) start_state_scheme \<Rightarrow> ('arr, 'q, 'd, 'z) start_state_scheme option" where
  "initialize_mp E B localcpu s =
     do { s1 \<leftarrow> wait_milis B 20 (mp_pass E localcpu 0 INIT_IPI_FLAGS s);
          s2 \<leftarrow> wait_milis B 200 (mp_pass E localcpu AP_INIT_LOAD_ADDRESS SIPI_FLAGS s1);
          Some (mp_retry E localcpu s2) }"

text \<open>
  The entry of another processor up to its wait for the scheduler; \<open>pid\<close> indexes the table of 256
  ordinals.
\<close>

definition ap_main :: "('arr, ('arr, 'q, 'd, 'z) start_state_scheme) smp_env \<Rightarrow> u64
    \<Rightarrow> ('arr, 'q, 'd, 'z) start_state_scheme \<Rightarrow> ('arr, 'q, 'd, 'z) start_state_scheme option" where
  "ap_main E pid s =
     (if 256 \<le> pid then None
      else let ord = cpuid_to_cputord s ! unat pid;
               s1 = upd_cpu (array_get_at E (cpus s) (unat ord)) (\<lambda>k. k\<lparr>started := True\<rparr>) s
           in do { s2 \<leftarrow> load_gdt (ucast (ord * 24) + 48) s1;
                   Some (initialize_lapic (s2\<lparr>idt_loads := idt_loads s2 + 1\<rparr>)) })"

section \<open>The start-up messages\<close>

definition cpu_of :: "('arr, ('arr, 'q, 'd, 'z) start_state_scheme) smp_env \<Rightarrow> ('arr, 'q, 'd, 'z) start_state_scheme \<Rightarrow> nat \<Rightarrow> 'q cpu" where
  "cpu_of E s i = cpu_at s (array_get_at E (cpus s) i)"

definition ipi_cmd :: "u32 \<Rightarrow> u8 \<Rightarrow> u32 \<times> u32" where
  "ipi_cmd payload a = (push_bit 24 (ucast a), payload)"

text \<open>The processors other than the boot processor, by their APIC ids.\<close>

definition other_cpus :: "('arr, ('arr, 'q, 'd, 'z) start_state_scheme) smp_env \<Rightarrow> u8 \<Rightarrow> ('arr, 'q, 'd, 'z) start_state_scheme
    \<Rightarrow> u8 list" where
  "other_cpus E lc s = filter (\<lambda>a. a \<noteq> lc) (map (\<lambda>i. apic_id (cpu_of E s i)) [0..<array_get_size E (cpus s)])"

definition same_ids :: "('arr, 'q, 'd, 'z) start_state_scheme \<Rightarrow> ('arr, 'q, 'd, 'z) start_state_scheme \<Rightarrow> bool" where
  "same_ids s s' \<longleftrightarrow> cpus s' = cpus s \<and> (\<forall>c. apic_id (cpu_at s' c) = apic_id (cpu_at s c))
     \<and> (\<forall>c. started (cpu_at s c) \<longrightarrow> started (cpu_at s' c))"

lemma same_ids_trans: "same_ids s t \<Longrightarrow> same_ids t u \<Longrightarrow> same_ids s u"
  by (simp add: same_ids_def)

lemma other_cpus_same: "same_ids s s' \<Longrightarrow> other_cpus E lc s' = other_cpus E lc s"
  by (simp add: other_cpus_def same_ids_def cpu_of_def)

lemma mp_pass_list:
  assumes "\<And>s i. f i s = (let c = array_get_at E (cpus s) i
      in if apic_id (cpu_at s c) = lc then upd_cpu c (\<lambda>k. k\<lparr>started := True\<rparr>) s
         else send_ipi_to (apic_id (cpu_at s c)) v fl True s)"
  shows "same_ids s (fold f is s) \<and>
    icr_log (fold f is s) = icr_log s @ map (ipi_cmd (ucast v OR fl)) (filter (\<lambda>a. a \<noteq> lc) (map (\<lambda>i. apic_id (cpu_of E s i)) is)) \<and>
    (\<forall>i \<in> set is. apic_id (cpu_of E s i) = lc \<longrightarrow> started (cpu_of E (fold f is s) i))"
proof (induction "is" arbitrary: s)
  case Nil
  then show ?case by (simp add: same_ids_def)
next
  case (Cons i "is")
  have step: "same_ids s (f i s)" "icr_log (f i s) = icr_log s @ (if apic_id (cpu_of E s i) = lc then [] else [ipi_cmd (ucast v OR fl) (apic_id (cpu_of E s i))])"
    "apic_id (cpu_of E s i) = lc \<longrightarrow> started (cpu_of E (f i s) i)"
    by (auto simp: assms Let_def same_ids_def upd_cpu_def send_ipi_to_def ipi_cmd_def cpu_of_def)
  have ids: "apic_id (cpu_of E (f i s) j) = apic_id (cpu_of E s j)" for j
    using step(1) by (simp add: same_ids_def cpu_of_def)
  have "started (cpu_of E (f i s) i) \<longrightarrow> started (cpu_of E (fold f is (f i s)) i)"
    using Cons.IH [of "f i s"] by (simp add: same_ids_def cpu_of_def)
  then show ?case
    using Cons.IH [of "f i s"] step ids same_ids_trans by (auto simp: ids)
qed

lemma mp_pass_spec:
  "same_ids s (mp_pass E lc v fl s) \<and>
   icr_log (mp_pass E lc v fl s) = icr_log s @ map (ipi_cmd (ucast v OR fl)) (other_cpus E lc s) \<and>
   (\<forall>i < array_get_size E (cpus s). apic_id (cpu_of E s i) = lc \<longrightarrow> started (cpu_of E (mp_pass E lc v fl s) i))"
  unfolding mp_pass_def other_cpus_def
  using mp_pass_list [of "\<lambda>i s. let c = array_get_at E (cpus s) i
      in if apic_id (cpu_at s c) = lc then upd_cpu c (\<lambda>k. k\<lparr>started := True\<rparr>) s
         else send_ipi_to (apic_id (cpu_at s c)) v fl True s" E lc v fl s "[0..<array_get_size E (cpus s)]"]
  by auto

definition late_cpus :: "('arr, ('arr, 'q, 'd, 'z) start_state_scheme) smp_env \<Rightarrow> u8 \<Rightarrow> ('arr, 'q, 'd, 'z) start_state_scheme
    \<Rightarrow> u8 list" where
  "late_cpus E lc s = map apic_id (filter (\<lambda>c. apic_id c \<noteq> lc \<and> \<not> started c) (map (cpu_of E s) [0..<array_get_size E (cpus s)]))"

lemma cpu_of_icr_log [simp]: "cpu_of E (s\<lparr>icr_log := l\<rparr>) = cpu_of E s"
  by (rule ext) (simp add: cpu_of_def)

lemma retry_list:
  assumes "\<And>s i. f i s = (let c = array_get_at E (cpus s) i
      in if apic_id (cpu_at s c) = lc \<or> started (cpu_at s c) then s
         else send_ipi_to (apic_id (cpu_at s c)) v fl True s)"
  shows "fold f is s = s\<lparr>icr_log := icr_log s @ map (ipi_cmd (ucast v OR fl))
    (map apic_id (filter (\<lambda>c. apic_id c \<noteq> lc \<and> \<not> started c) (map (cpu_of E s) is)))\<rparr>"
proof (induction "is" arbitrary: s)
  case (Cons i "is")
  have "cpu_of E (f i s) = cpu_of E s"
    by (rule ext) (simp add: assms Let_def cpu_of_def send_ipi_to_def)
  then show ?case
    by (simp add: Cons.IH) (simp add: assms Let_def cpu_of_def send_ipi_to_def ipi_cmd_def)
qed simp

lemma mp_retry_spec:
  "mp_retry E lc s = s\<lparr>icr_log := icr_log s @ map (ipi_cmd (ucast AP_INIT_LOAD_ADDRESS OR SIPI_FLAGS)) (late_cpus E lc s)\<rparr>"
proof (cases "list_all (\<lambda>i. started (cpu_at s (array_get_at E (cpus s) i))) [0..<array_get_size E (cpus s)]")
  case True
  then have "late_cpus E lc s = []"
    by (auto simp: late_cpus_def list_all_iff filter_empty_conv cpu_of_def)
  then show ?thesis using True by (simp add: mp_retry_def)
next
  case False
  then show ?thesis
    unfolding mp_retry_def late_cpus_def Let_def
    using retry_list [of "\<lambda>i s. if apic_id (cpu_at s (array_get_at E (cpus s) i)) = lc \<or> started (cpu_at s (array_get_at E (cpus s) i)) then s
         else send_ipi_to (apic_id (cpu_at s (array_get_at E (cpus s) i))) AP_INIT_LOAD_ADDRESS SIPI_FLAGS True s"
         E lc AP_INIT_LOAD_ADDRESS SIPI_FLAGS] by simp
qed

lemma start_payloads:
  "INIT_IPI_FLAGS = 0x500" "ucast AP_INIT_LOAD_ADDRESS OR SIPI_FLAGS = 0x602"
  by (simp_all add: INIT_IPI_FLAGS_def SIPI_FLAGS_def AP_INIT_LOAD_ADDRESS_def push_bit_eq_mult)

text \<open>
  C35. Starting the other processors: each of them gets one INIT message, then one start-up message for the
  code at page 2, and a second start-up message exactly if it has not reported itself by then. The boot
  processor gets none and is marked as started. What is relied on during the two busy waits is that the clock
  runs and that meanwhile processors only report themselves as started.
\<close>

theorem initialize_mp_sequence:
  assumes clock: "\<And>s. clock_runs (wait_clock B s) (T s)"
    and world: "\<And>n s. same_ids s (wait_world B n s) \<and> icr_log (wait_world B n s) = icr_log s"
  shows "\<exists>s'. initialize_mp E B lc s = Some s' \<and>
    icr_log s' = icr_log s @ map (ipi_cmd 0x500) (other_cpus E lc s) @ map (ipi_cmd 0x602) (other_cpus E lc s)
      @ map (ipi_cmd 0x602) (late_cpus E lc s') \<and>
    cpus s' = cpus s \<and> (\<forall>i < array_get_size E (cpus s). apic_id (cpu_of E s i) \<noteq> lc \<or> started (cpu_of E s' i))"
proof -
  have pause: "\<exists>s'. wait_milis B ms s = Some s' \<and> same_ids s s' \<and> icr_log s' = icr_log s" for ms s
    using busy_wait_milis_returns [OF clock [of s], of ms] world by (auto simp: wait_milis_def)
  let ?a = "mp_pass E lc 0 INIT_IPI_FLAGS s"
  obtain s1 where s1: "wait_milis B 20 ?a = Some s1" "same_ids ?a s1" "icr_log s1 = icr_log ?a" using pause by blast
  let ?b = "mp_pass E lc AP_INIT_LOAD_ADDRESS SIPI_FLAGS s1"
  obtain s2 where s2: "wait_milis B 200 ?b = Some s2" "same_ids ?b s2" "icr_log s2 = icr_log ?b" using pause by blast
  note a = mp_pass_spec [of s E lc 0 INIT_IPI_FLAGS] and b = mp_pass_spec [of s1 E lc AP_INIT_LOAD_ADDRESS SIPI_FLAGS]
  have ids: "same_ids s s1" "same_ids s s2"
    using a b s1(2) s2(2) same_ids_trans by metis+
  have log: "icr_log s2 = icr_log s @ map (ipi_cmd 0x500) (other_cpus E lc s) @ map (ipi_cmd 0x602) (other_cpus E lc s)"
    using a b s1(3) s2(3) other_cpus_same [OF ids(1), of E lc] by (simp add: start_payloads)
  have boot: "started (cpu_of E s2 i)" if "i < array_get_size E (cpus s)" "apic_id (cpu_of E s i) = lc" for i
    using that a same_ids_trans [OF s1(2) same_ids_trans [OF conjunct1 [OF b] s2(2)]] by (auto simp: same_ids_def cpu_of_def)
  have "late_cpus E lc (mp_retry E lc s2) = late_cpus E lc s2"
    by (simp add: mp_retry_spec late_cpus_def)
  then show ?thesis
    using s1(1) s2(1) log boot ids(2)
    by (auto simp: initialize_mp_def mp_retry_spec start_payloads same_ids_def cpu_of_def)
qed

definition demo_start :: "nat list \<Rightarrow> (nat list, nat list, (u16 \<times> u8) list, nat) start_state_scheme" where
  "demo_start cs = irq_state.extend (irq_state.truncate (demo_irq cs))
     \<lparr>cpuid_to_cputord = map of_nat [0..<256], lapic_logdest = 0, lapic_destform = 0, lapic_spurvec = 0, lapic_taskprior = 0, \<dots> = 0\<rparr>"

lemmas demo_start_defs = demo_start_def demo_irq_def demo_smp_def demo_state_def demo_cpu_def
  irq_state.defs smp_state.defs mm_state.defs

text \<open>One millisecond passes from reading to reading.\<close>

definition demo_wait :: "'s wait_env" where
  "demo_wait = \<lparr>wait_clock = (\<lambda>_ i. \<lparr>clock_s = 0, clock_ms = of_nat i\<rparr>), wait_world = (\<lambda>_ s. s)\<rparr>"

lemma demo_wait_runs: "clock_runs (wait_clock demo_wait s) (\<lambda>i. i)"
  by (auto simp: clock_runs_def demo_wait_def)

lemma demo_wait_milis: "wait_milis demo_wait ms s = Some s"
  using busy_wait_milis_returns [OF demo_wait_runs [of s], of ms] by (auto simp: wait_milis_def demo_wait_def)

theorem initialize_mp_sequence_witness:
  "\<exists>s'. initialize_mp demo_smp_env demo_wait 0 (demo_start [0, 1]) = Some s' \<and>
     icr_log s' = [(0x1000000, 0x500), (0x1000000, 0x602)]"
proof -
  have world: "same_ids s (wait_world demo_wait n s) \<and> icr_log (wait_world demo_wait n s) = icr_log s"
    for n and s :: "(nat list, nat list, (u16 \<times> u8) list, nat) start_state_scheme"
    by (simp add: demo_wait_def same_ids_def)
  obtain s' where s': "initialize_mp demo_smp_env demo_wait 0 (demo_start [0, 1]) = Some s'"
    "icr_log s' = icr_log (demo_start [0, 1]) @ map (ipi_cmd 0x500) (other_cpus demo_smp_env 0 (demo_start [0, 1]))
      @ map (ipi_cmd 0x602) (other_cpus demo_smp_env 0 (demo_start [0, 1])) @ map (ipi_cmd 0x602) (late_cpus demo_smp_env 0 s')"
    using initialize_mp_sequence [OF demo_wait_runs world, of demo_smp_env 0 "demo_start [0, 1]"] by auto
  have "late_cpus demo_smp_env 0 s' = []"
    using s'(1) by (auto simp: initialize_mp_def demo_wait_milis mp_retry_spec mp_pass_def late_cpus_def cpu_of_def
        upd_cpu_def send_ipi_to_def demo_smp_env_def demo_start_defs)
  then show ?thesis
    using s' by (auto simp: other_cpus_def cpu_of_def demo_smp_env_def demo_start_defs ipi_cmd_def push_bit_eq_mult)
qed

section \<open>The task register of another processor\<close>

text \<open>
  The second processor: \<open>ap_main\<close> loads the task register with selector 72, three descriptors after
  the first processor's, while \<open>reinitialize_gdt\<close> puts the task states two descriptors apart.
  Descriptor 9 is the second half of that processor's task state descriptor and is not present,
  so the load faults on the table that was built; the descriptor meant is descriptor 8.
\<close>

theorem second_processor_selector:
  assumes heap: "boot_heap malloc live room" and space: "n < room (irq_state.more s)"
    and n: "array_get_size E (cpus s) = n" "2 \<le> n" "n \<le> 256"
    and gdt: "build_gdt E malloc s = Some s1"
    and pid: "pid < 256" "cpuid_to_cputord s1 ! unat pid = 1"
  shows "ap_main E pid s1 = None \<and> field_get 47 1 (gdt_descriptors s1 ! 9) = 0 \<and>
    desc_kind (gdt_descriptors s1 ! 8) = (1, 0, 9, 0) \<and> tss_slot s1 1 (cpu_of E s 1)"
proof -
  have pos: "0 < n" using n(2) by simp
  from build_gdt_spec [OF heap space n(1) pos n(3)] gdt obtain
    len: "length (gdt_descriptors s1) = 6 + 3 * n" and
    tss: "\<forall>i < n. tss_slot s1 i (cpu_at s (array_get_at E (cpus s) i)) \<and> field_get 47 1 (gdt_descriptors s1 ! (7 + 2 * i)) = 0"
    and boot: "desc_kind (gdt_descriptors s1 ! 8) = (if n = 1 then (1, 1, 2, 3) else (1, 0, 9, 0))"
    by (metis option.inject)
  have high: "field_get 47 1 (gdt_descriptors s1 ! 9) = 0" using tss [rule_format, of 1] n(2) by simp
  have "descriptor_at (gdt_descriptors s1) 72 = Some (gdt_descriptors s1 ! 9)"
    using len n(2) by (simp add: descriptor_at_def drop_bit_eq_div)
  moreover have "\<not> tss_loadable (gdt_descriptors s1 ! 9)" using high by (simp add: tss_loadable_def desc_kind_def)
  ultimately have "load_gdt 72 (upd_cpu c f s1) = None" for c f
    by (auto simp: load_gdt_def Let_def upd_cpu_def split: option.split)
  moreover have "\<not> 256 \<le> pid" using pid(1) by simp
  ultimately have "ap_main E pid s1 = None" using pid(2) by (simp add: ap_main_def Let_def)
  then show ?thesis using high tss [rule_format, of 1] boot n(2) by (auto simp: cpu_of_def)
qed

text \<open>The same heap on the larger state; \<open>ext_more\<close> reads its counter from the extension.\<close>

definition demo_start_malloc :: "(nat list, nat list, (u16 \<times> u8) list, nat) start_state_scheme allocator" where
  "demo_start_malloc k s = (let n = start_state.more s
     in if n < 1000 then (of_nat (16 * Suc n), start_state.more_update (\<lambda>_. Suc n) s) else (0, s))"

definition ext_more :: "'z start_state_ext \<Rightarrow> 'z" where
  "ext_more x = start_state.more (irq_state.extend (irq_state.truncate (demo_irq [])) x)"

lemma ext_more_more: "ext_more (irq_state.more s) = start_state.more s"
  by (cases s) (simp add: ext_more_def irq_state.defs)

lemma more_update_start:
  "start_state.more_update (\<lambda>_. n) s = irq_state.more_update (\<lambda>_. irq_state.more (start_state.more_update (\<lambda>_. n) s)) s"
  by (cases s) simp

lemma demo_start_heap:
  "boot_heap demo_start_malloc (\<lambda>x. demo_blocks (ext_more x)) (\<lambda>x. 1000 - ext_more x)"
  unfolding boot_heap_def
proof (intro allI impI)
  fix k and s :: "(nat list, nat list, (u16 \<times> u8) list, nat) start_state_scheme"
  let ?n = "start_state.more s" and ?t = "start_state.more_update (\<lambda>_. Suc (start_state.more s)) s"
  assume "0 < 1000 - ext_more (irq_state.more s)"
  then have n: "?n < 1000" by (simp add: ext_more_more)
  have run: "demo_start_malloc k s = (of_nat (16 * Suc ?n), irq_state.more_update (\<lambda>_. irq_state.more ?t) s)"
    using n more_update_start [of "Suc ?n" s] by (simp add: demo_start_malloc_def Let_def del: of_nat_mult of_nat_Suc mult_Suc_right)
  have cnt: "ext_more (irq_state.more ?t) = Suc ?n" by (simp add: ext_more_more)
  show "\<exists>a z. demo_start_malloc k s = (a, irq_state.more_update (\<lambda>_. z) s) \<and> a \<noteq> 0 \<and>
      a \<notin> demo_blocks (ext_more (irq_state.more s)) \<and>
      demo_blocks (ext_more z) = insert a (demo_blocks (ext_more (irq_state.more s))) \<and>
      1000 - ext_more z = 1000 - ext_more (irq_state.more s) - 1"
    by (rule exI [of _ "of_nat (16 * Suc ?n)"], rule exI [of _ "irq_state.more ?t"])
      (use run cnt demo_block_new [OF n] in \<open>simp add: ext_more_more del: of_nat_mult of_nat_Suc mult_Suc_right\<close>)
qed

lemma gdt_keeps_ordinals:
  assumes malloc: "\<And>k s. cpuid_to_cputord (snd (malloc k s)) = cpuid_to_cputord s"
    and run: "build_gdt E malloc s = Some s'"
  shows "cpuid_to_cputord s' = cpuid_to_cputord s"
proof -
  have step: "cpuid_to_cputord t' = cpuid_to_cputord t" if "gdt_cpu E malloc i k t = Some (k', t')" for i k k' t t'
    using that malloc [of 104 t] by (auto simp: gdt_cpu_def Let_def split: prod.splits if_splits Option.bind_splits)
  have loop: "gdt_cpus E malloc is k t = Some t' \<Longrightarrow> cpuid_to_cputord t' = cpuid_to_cputord t" for "is" k t t'
    by (induction "is" arbitrary: k t) (auto dest: step split: Option.bind_splits)
  show ?thesis
    using run malloc [of "8 * ucast (of_nat (6 + 3 * array_get_size E (cpus s)) :: u16)" s]
    by (auto simp: build_gdt_def Let_def simp del: of_nat_add of_nat_mult dest!: loop split: prod.splits if_splits Option.bind_splits)
qed

theorem second_processor_selector_witness:
  "\<exists>s1. build_gdt demo_smp_env demo_start_malloc (demo_start [0, 1]) = Some s1 \<and> ap_main demo_smp_env 1 s1 = None"
proof -
  let ?s = "demo_start [0, 1]"
  have n: "array_get_size demo_smp_env (cpus ?s) = 2" by (simp add: demo_smp_env_def demo_start_defs)
  have "start_state.more ?s = 0" by (simp add: demo_start_defs)
  then have space: "2 < 1000 - ext_more (irq_state.more ?s)" by (simp add: ext_more_more)
  obtain s1 where s1: "build_gdt demo_smp_env demo_start_malloc ?s = Some s1"
    by (rule build_gdt_spec [OF demo_start_heap space n]) simp_all
  have "cpuid_to_cputord s1 = cpuid_to_cputord ?s"
    by (rule gdt_keeps_ordinals [OF _ s1]) (simp add: demo_start_malloc_def Let_def)
  then have "cpuid_to_cputord s1 ! unat (1 :: u64) = 1"
    by (simp add: demo_start_defs)
  then show ?thesis
    using second_processor_selector [OF demo_start_heap space n _ _ s1, of 1] s1 by auto
qed

section \<open>The processors of the MADT\<close>

text \<open>
  The entries of the table at an address, each with its type, its length and, for a processor, its id, its
  APIC id and its flags.
\<close>

record madt_entry =
  m_type :: u8
  m_len :: u8
  m_pid :: u8
  m_aid :: u8
  m_flags :: u32

primrec madt_at :: "store \<Rightarrow> u64 \<Rightarrow> madt_entry list \<Rightarrow> bool" where
  "madt_at m a [] = True"
| "madt_at m a (e # es) \<longleftrightarrow>
     m a = m_type e \<and> m (a + 1) = m_len e \<and> 0 < m_len e \<and> m (a + 2) = m_pid e \<and> m (a + 3) = m_aid e \<and>
     ld32 m (a + 4) = m_flags e \<and> madt_at m (a + ucast (m_len e)) es"

definition madt_bytes :: "madt_entry list \<Rightarrow> nat" where
  "madt_bytes es = sum_list (map (\<lambda>e. unat (m_len e)) es)"

definition enabled_cpus :: "madt_entry list \<Rightarrow> (u8 \<times> u8) list" where
  "enabled_cpus es = map (\<lambda>e. (m_pid e, m_aid e)) (filter (\<lambda>e. m_type e = 0 \<and> m_flags e = 1) es)"

text \<open>
  What is relied on of the heap and of KCLib's arrays. As in \<open>boot_heap\<close>, \<open>room\<close> counts the blocks that the heap serves
  from memory it already has.
\<close>

definition cpu_heap :: "('arr, 'q, 'd, 'z) start_state_scheme allocator \<Rightarrow> ('z \<Rightarrow> u64 set) \<Rightarrow> ('z \<Rightarrow> nat) \<Rightarrow> bool" where
  "cpu_heap malloc live room \<longleftrightarrow>
     (\<forall>k s. 0 < room (start_state.more s) \<longrightarrow>
        (\<exists>a z. malloc k s = (a, start_state.more_update (\<lambda>_. z) s) \<and> a \<noteq> 0 \<and> a \<notin> live (start_state.more s) \<and>
           live z = insert a (live (start_state.more s)) \<and> room z = room (start_state.more s) - 1))"

definition array_laws :: "('arr, 's) smp_env \<Rightarrow> bool" where
  "array_laws E \<longleftrightarrow> (\<forall>a x. array_get_size E (array_push_data E a x) = Suc (array_get_size E a) \<and>
     array_get_at E (array_push_data E a x) (array_get_size E a) = x \<and>
     (\<forall>i < array_get_size E a. array_get_at E (array_push_data E a x) i = array_get_at E a i))"

lemma cpu_heapE:
  assumes "cpu_heap malloc live room" "0 < room (start_state.more s)"
  obtains a z where "malloc k s = (a, start_state.more_update (\<lambda>_. z) s)" "a \<noteq> 0" "a \<notin> live (start_state.more s)"
    "live z = insert a (live (start_state.more s))" "room z = room (start_state.more s) - 1"
  using assms unfolding cpu_heap_def by metis

lemma new_stacks_spec:
  assumes heap: "cpu_heap malloc live room" and "length ns \<le> room (start_state.more s)"
  obtains ts z where "new_stacks malloc ns s = (ts, start_state.more_update (\<lambda>_. z) s)"
    "live (start_state.more s) \<subseteq> live z" "room z = room (start_state.more s) - length ns"
  using assms(2)
proof (induction ns arbitrary: s thesis)
  case Nil
  show ?case by (rule Nil(1) [of "[]" "start_state.more s"]) simp_all
next
  case (Cons n ns)
  have "0 < room (start_state.more s)" using Cons.prems(2) by simp
  then obtain a z where a: "malloc n s = (a, start_state.more_update (\<lambda>_. z) s)"
    "live z = insert a (live (start_state.more s))" "room z = room (start_state.more s) - 1"
    using cpu_heapE [OF heap, of s n] by metis
  have "length ns \<le> room (start_state.more (start_state.more_update (\<lambda>_. z) s))" using Cons.prems(2) a(3) by simp
  then obtain ts z' where "new_stacks malloc ns (start_state.more_update (\<lambda>_. z) s) = (ts, start_state.more_update (\<lambda>_. z') s)"
    "live z \<subseteq> live z'" "room z' = room z - length ns"
    using Cons.IH [of "start_state.more_update (\<lambda>_. z) s"] by auto
  then show ?case
    using a by (intro Cons.prems(1) [of "ALIGN (a + n) # ts" z']) (auto simp: new_stack_def)
qed

text \<open>The record made for one processor of the table.\<close>

definition cpu_for :: "u8 \<Rightarrow> u8 \<Rightarrow> nat \<Rightarrow> 'q cpu \<Rightarrow> bool" where
  "cpu_for p i j c \<longleftrightarrow> processor_id c = ucast p \<and> apic_id c = i \<and> insert_id c = of_nat j \<and> \<not> started c \<and>
     cpu_lock c = 0 \<and> ipi_lock c = 0 \<and> cpu_sched_lock c = 0 \<and> message_clear_lock c = 0 \<and>
     \<not> apic_message_handled c \<and> ct c = None"

lemma make_cpu_spec:
  assumes heap: "cpu_heap malloc live room" and space: "7 \<le> room (start_state.more s)"
  obtains a z x where "a \<notin> live (start_state.more s)" "insert a (live (start_state.more s)) \<subseteq> live z"
    "room z = room (start_state.more s) - 7" "cpu_for p i j x"
    "make_cpu malloc sz newq (Some (p, i)) (of_nat j) s =
       Some (unat a, upd_cpu (unat a) (\<lambda>_. x) (start_state.more_update (\<lambda>_. z) s))"
proof -
  obtain a y where a: "malloc sz s = (a, start_state.more_update (\<lambda>_. y) s)" "a \<noteq> 0" "a \<notin> live (start_state.more s)"
    "live y = insert a (live (start_state.more s))" "room y = room (start_state.more s) - 1"
    by (rule cpu_heapE [OF heap, of s sz]) (use space in simp)
  let ?s1 = "start_state.more_update (\<lambda>_. y) s"
  have six: "length stack_sizes = 6" by (simp add: stack_sizes_def)
  have "length stack_sizes \<le> room (start_state.more ?s1)" using a(5) space six by simp
  then obtain ts z where z: "new_stacks malloc stack_sizes ?s1 = (ts, start_state.more_update (\<lambda>_. z) ?s1)"
    "live y \<subseteq> live z" "room z = room y - 6"
    using new_stacks_spec [OF heap, of stack_sizes ?s1] six by (metis start_state.select_convs(6) start_state.update_convs(6) start_state.surjective)
  let ?x = "fill_cpu (Some (p, i)) (of_nat j) newq (active_page s) ts (cpu_at s (unat a))"
  have x: "cpu_for p i j ?x" by (simp add: cpu_for_def fill_cpu_def)
  have "make_cpu malloc sz newq (Some (p, i)) (of_nat j) s =
      Some (unat a, upd_cpu (unat a) (\<lambda>_. ?x) (start_state.more_update (\<lambda>_. z) s))"
    using a z by (simp add: make_cpu_def upd_cpu_def Let_def)
  from that [OF a(3) _ _ x this] show thesis using a z by auto
qed

text \<open>The array lists the records of \<open>xs\<close> in order, and the ordinals lead back to them.\<close>

definition registered :: "('arr, ('arr, 'q, 'd, 'z) start_state_scheme) smp_env \<Rightarrow> ('z \<Rightarrow> u64 set) \<Rightarrow> (u8 \<times> u8) list
    \<Rightarrow> ('arr, 'q, 'd, 'z) start_state_scheme \<Rightarrow> bool" where
  "registered E live xs s \<longleftrightarrow> array_get_size E (cpus s) = length xs \<and> length (cpuid_to_cputord s) = 256 \<and>
     (\<forall>j < length xs. cpu_for (fst (xs ! j)) (snd (xs ! j)) j (cpu_of E s j) \<and>
        cpuid_to_cputord s ! unat (fst (xs ! j)) = of_nat j \<and>
        array_get_at E (cpus s) j \<in> unat ` live (start_state.more s))"

lemma registered_snoc:
  assumes reg: "registered E live xs s" and new: "p \<notin> set (map fst xs)"
    and size: "array_get_size E (cpus s') = Suc (length xs)"
    and old: "\<And>j. j < length xs \<Longrightarrow> cpu_of E s' j = cpu_of E s j \<and> array_get_at E (cpus s') j = array_get_at E (cpus s) j"
    and this_cpu: "cpu_for p i (length xs) (cpu_of E s' (length xs))"
    and ords: "cpuid_to_cputord s' = (cpuid_to_cputord s)[unat p := of_nat (length xs)]"
    and live: "live (start_state.more s) \<subseteq> live (start_state.more s')"
      "array_get_at E (cpus s') (length xs) \<in> unat ` live (start_state.more s')"
  shows "registered E live (xs @ [(p, i)]) s'"
proof -
  have "cpu_for (fst ((xs @ [(p, i)]) ! j)) (snd ((xs @ [(p, i)]) ! j)) j (cpu_of E s' j) \<and>
      cpuid_to_cputord s' ! unat (fst ((xs @ [(p, i)]) ! j)) = of_nat j \<and>
      array_get_at E (cpus s') j \<in> unat ` live (start_state.more s')" if "j < Suc (length xs)" for j
  proof (cases "j < length xs")
    case True
    then have "unat p \<noteq> unat (fst (xs ! j))" using new by (auto simp: word_unat_eq_iff [symmetric])
    then show ?thesis
      using reg True old [OF True] image_mono [OF live(1), of unat] ords by (auto simp: registered_def nth_append)
  next
    case False
    then have "j = length xs" using that by simp
    then show ?thesis
      using this_cpu ords live(2) reg unat_u8_bound [of p] by (auto simp: registered_def)
  qed
  then show ?thesis using size reg ords by (simp add: registered_def)
qed

lemma add_lapic_spec:
  assumes heap: "cpu_heap malloc live room" and space: "7 \<le> room (start_state.more s)" and arr: "array_laws E"
    and reg: "registered E live xs s" and new: "p \<notin> set (map fst xs)"
  obtains s' where "add_lapic E malloc sz newq p i s = Some s'" "registered E live (xs @ [(p, i)]) s'"
    "kmem s' = kmem s" "room (start_state.more s') = room (start_state.more s) - 7"
proof -
  let ?n = "length xs"
  have n: "?n = array_get_size E (cpus s)" using reg by (simp add: registered_def)
  obtain a z x where a: "a \<notin> live (start_state.more s)" "insert a (live (start_state.more s)) \<subseteq> live z"
    "room z = room (start_state.more s) - 7" and x: "cpu_for p i ?n x" and
    mk: "make_cpu malloc sz newq (Some (p, i)) (of_nat ?n) s = Some (unat a, upd_cpu (unat a) (\<lambda>_. x) (start_state.more_update (\<lambda>_. z) s))"
    by (rule make_cpu_spec [OF heap space])
  define s' where "s' = (upd_cpu (unat a) (\<lambda>_. x) (start_state.more_update (\<lambda>_. z) s))
    \<lparr>cpus := array_push_data E (cpus s) (unat a), cpuid_to_cputord := (cpuid_to_cputord s)[unat p := of_nat ?n]\<rparr>"
  have s': "cpus s' = array_push_data E (cpus s) (unat a)" "cpu_at s' = (cpu_at s)(unat a := x)" "start_state.more s' = z"
    by (simp_all add: s'_def upd_cpu_def)
  note push = arr [unfolded array_laws_def, rule_format, of "cpus s" "unat a"]
  have run: "add_lapic E malloc sz newq p i s = Some s'"
    using mk push by (simp add: add_lapic_def push_cpu_def Let_def s'_def upd_cpu_def n)
  have "unat a \<notin> unat ` live (start_state.more s)" using a(1) by (auto simp: word_unat_eq_iff [symmetric])
  then have apart: "array_get_at E (cpus s) j \<noteq> unat a" if "j < ?n" for j
    using that reg unfolding registered_def by metis
  have "registered E live (xs @ [(p, i)]) s'"
  proof (rule registered_snoc [OF reg new])
    fix j assume "j < length xs"
    then show "cpu_of E s' j = cpu_of E s j \<and> array_get_at E (cpus s') j = array_get_at E (cpus s) j"
      using apart [of j] push by (simp add: cpu_of_def s' n)
  qed (use x a push in \<open>auto simp: cpu_of_def s' n s'_def upd_cpu_def\<close>)
  from that [OF run this] show thesis using a(3) by (simp add: s'_def upd_cpu_def)
qed

lemma enabled_Cons:
  "enabled_cpus (e # es) = (if m_type e = 0 \<and> m_flags e = 1 then (m_pid e, m_aid e) # enabled_cpus es else enabled_cpus es)"
  by (simp add: enabled_cpus_def)

lemma madt_loop_spec:
  assumes heap: "cpu_heap malloc live room" and arr: "array_laws E"
  shows "madt_at (kmem s) a es \<Longrightarrow> madt_bytes es < 2 ^ 64 \<Longrightarrow> 7 * length (enabled_cpus es) \<le> room (start_state.more s) \<Longrightarrow>
    registered E live xs s \<Longrightarrow> distinct (map fst (xs @ enabled_cpus es)) \<Longrightarrow>
    \<exists>s'. madt_loop E malloc sz newq (of_nat (madt_bytes es)) a s = Some s' \<and> registered E live (xs @ enabled_cpus es) s' \<and>
      room (start_state.more s') = room (start_state.more s) - 7 * length (enabled_cpus es)"
proof (induction es arbitrary: a s xs)
  case Nil
  then show ?case by (simp add: madt_bytes_def enabled_cpus_def madt_loop.simps)
next
  case (Cons e es)
  let ?l = "ucast (m_len e) :: u64" and ?b = "of_nat (madt_bytes (e # es)) :: u64"
  have at: "kmem s a = m_type e" "kmem s (a + 1) = m_len e" "kmem s (a + 2) = m_pid e" "kmem s (a + 3) = m_aid e"
    "ld32 (kmem s) (a + 4) = m_flags e" "madt_at (kmem s) (a + ?l) es" "0 < m_len e"
    using Cons.prems(1) by simp_all
  have bytes: "?b = ?l + of_nat (madt_bytes es)"
    by (simp add: madt_bytes_def)
  have "unat ?b = madt_bytes (e # es)" using Cons.prems(2) by (intro unat_of_nat_u64) simp
  then have pos: "0 < ?b" using at(7) by (simp add: word_less_nat_alt madt_bytes_def)
  define xs' where "xs' = xs @ (if m_type e = 0 \<and> m_flags e = 1 then [(m_pid e, m_aid e)] else [])"
  have split: "xs @ enabled_cpus (e # es) = xs' @ enabled_cpus es" by (simp add: enabled_Cons xs'_def)
  obtain t where t: "(if m_type e = 0 \<and> m_flags e = 1 then add_lapic E malloc sz newq (m_pid e) (m_aid e) s else Some s) = Some t"
    "kmem t = kmem s" "7 * length (enabled_cpus es) \<le> room (start_state.more t)" "registered E live xs' t"
    "room (start_state.more t) - 7 * length (enabled_cpus es) = room (start_state.more s) - 7 * length (enabled_cpus (e # es))"
  proof (cases "m_type e = 0 \<and> m_flags e = 1")
    case True
    then have "7 \<le> room (start_state.more s)" "m_pid e \<notin> set (map fst xs)"
      using Cons.prems(3,5) by (auto simp: enabled_Cons)
    then obtain t where "add_lapic E malloc sz newq (m_pid e) (m_aid e) s = Some t" "kmem t = kmem s"
      "registered E live (xs @ [(m_pid e, m_aid e)]) t" "room (start_state.more t) = room (start_state.more s) - 7"
      by (rule add_lapic_spec [OF heap _ arr Cons.prems(4)])
    with that [of t] show ?thesis using True Cons.prems(3) by (simp add: xs'_def enabled_Cons)
  next
    case False
    then show ?thesis using that [of s] Cons.prems(3,4) by (simp only: xs'_def enabled_Cons if_False append_Nil2)
  qed
  have "\<exists>s'. madt_loop E malloc sz newq (of_nat (madt_bytes es)) (a + ?l) t = Some s' \<and> registered E live (xs' @ enabled_cpus es) s' \<and>
      room (start_state.more s') = room (start_state.more t) - 7 * length (enabled_cpus es)"
    using Cons.IH [of t "a + ?l" xs'] t Cons.prems(2,5) at(6) unfolding split by (simp add: madt_bytes_def)
  then show ?case
    unfolding split using pos t(1,5) at by (subst madt_loop.simps) (auto simp: Let_def bytes split: if_splits)
qed

lemma initialize_cpus_spec:
  assumes heap: "cpu_heap malloc live room" and arr: "array_laws E" "array_get_size E empty_array = 0"
    and madt: "find_madt A (prepare_cpus empty_array gdt32 s) = Some madt"
    and table: "madt_at (kmem (prepare_cpus empty_array gdt32 s)) (madt + 44) es"
      "unat (ld32 (kmem (prepare_cpus empty_array gdt32 s)) (madt + 4)) = 44 + madt_bytes es"
    and cpus: "distinct (map fst (enabled_cpus es))" "7 * length (enabled_cpus es) \<le> room (start_state.more s)"
  obtains s' where "initialize_cpus E malloc sz newq empty_array gdt32 A s = Some s'" "registered E live (enabled_cpus es) s'"
    "room (start_state.more s') = room (start_state.more s) - 7 * length (enabled_cpus es)"
proof -
  let ?p = "prepare_cpus empty_array gdt32 s"
  let ?t = "?p\<lparr>apicaddr := ld32 (kmem ?p) (madt + 36)\<rparr>"
  have small: "madt_bytes es < 2 ^ 64"
    using table(2) unat_u32_bound [of "ld32 (kmem ?p) (madt + 4)"] by simp
  have "ucast (ld32 (kmem ?p) (madt + 4)) = (of_nat (unat (ld32 (kmem ?p) (madt + 4))) :: u64)" by simp
  then have bytes: "ucast (ld32 (kmem ?p) (madt + 4)) - 44 = (of_nat (madt_bytes es) :: u64)" using table(2) by simp
  have reg: "registered E live [] ?t" using arr(2) by (simp add: registered_def prepare_cpus_def)
  obtain s' where "madt_loop E malloc sz newq (of_nat (madt_bytes es)) (madt + 44) ?t = Some s'" "registered E live (enabled_cpus es) s'"
    "room (start_state.more s') = room (start_state.more s) - 7 * length (enabled_cpus es)"
    using madt_loop_spec [OF heap arr(1), of ?t "madt + 44" es "[]" sz newq] table(1) small cpus reg
    by (auto simp: prepare_cpus_def)
  then show thesis
    using that madt bytes by (simp add: initialize_cpus_def Let_def)
qed

text \<open>
  C34. Reading the MADT: for a table whose entries fill it exactly, \<open>initialize_cpus\<close> returns, and the array of
  processors lists the enabled local APICs in the order of the table; each has a fresh record with its
  processor id, APIC id and position, unlocked and not started, and the ordinal table leads from its
  processor id to that position. The processor ids are distinct and there is memory for the records.
\<close>

theorem initialize_cpus_reads_madt:
  assumes heap: "cpu_heap malloc live room" and arr: "array_laws E" "array_get_size E empty_array = 0"
    and madt: "find_madt A (prepare_cpus empty_array gdt32 s) = Some madt"
    and table: "madt_at (kmem (prepare_cpus empty_array gdt32 s)) (madt + 44) es"
      "unat (ld32 (kmem (prepare_cpus empty_array gdt32 s)) (madt + 4)) = 44 + madt_bytes es"
    and cpus: "distinct (map fst (enabled_cpus es))" "7 * length (enabled_cpus es) \<le> room (start_state.more s)"
  shows "\<exists>s'. initialize_cpus E malloc sz newq empty_array gdt32 A s = Some s' \<and>
    array_get_size E (cpus s') = length (enabled_cpus es) \<and>
    (\<forall>j < length (enabled_cpus es). case enabled_cpus es ! j of (p, i) \<Rightarrow>
       cpu_for p i j (cpu_of E s' j) \<and> cpuid_to_cputord s' ! unat p = of_nat j)"
  by (rule initialize_cpus_spec [OF assms, of sz newq]) (auto simp: registered_def split: prod.splits)

text \<open>A root table at \<open>0x10000\<close> that names a MADT with one enabled processor, id 3 and APIC id 1.\<close>

definition demo_tables :: "u8 list" where
  "demo_tables = [82, 83, 68, 84, 40, 0, 0, 0, 1, 0] @ replicate 26 0 @ [40, 0, 1, 0] @
     [65, 80, 73, 67, 52, 0, 0, 0, 1, 195] @ replicate 26 0 @ [0, 0, 224, 254, 0, 0, 0, 0] @ [0, 8, 3, 1, 1, 0, 0, 0]"

definition demo_acpi :: acpi where
  "demo_acpi = \<lparr>rsdp_descriptor = 0, rsdt = 0x10000, xsdt = 0, fadt = 0, acpi_version = 1, century_register = 0\<rparr>"

definition demo_start_env :: "(nat list, (nat list, nat list, (u16 \<times> u8) list, nat) start_state_scheme) smp_env" where
  "demo_start_env = demo_smp_env"

definition demo_madt :: "(nat list, nat list, (u16 \<times> u8) list, nat) start_state_scheme" where
  "demo_madt = (demo_start [])\<lparr>mem_mirror_present := False,
     kmem := (\<lambda>a. if a - 0x10000 < 92 then demo_tables ! unat (a - 0x10000) else 0)\<rparr>"

lemma demo_find_madt:
  "find_madt demo_acpi (prepare_cpus [] 0x20000 demo_madt) = Some 0x10028"
  "unat (ld32 (kmem (prepare_cpus [] 0x20000 demo_madt)) (0x10028 + 4)) = 52"
  "madt_at (kmem (prepare_cpus [] 0x20000 demo_madt)) (0x10028 + 44)
     [\<lparr>m_type = 0, m_len = 8, m_pid = 3, m_aid = 1, m_flags = 1\<rparr>]"
  by code_simp+

lemma demo_cpu_heap: "cpu_heap demo_start_malloc demo_blocks (\<lambda>n. 1000 - n)"
  unfolding cpu_heap_def
proof (intro allI impI)
  fix k and s :: "(nat list, nat list, (u16 \<times> u8) list, nat) start_state_scheme"
  assume "0 < 1000 - start_state.more s"
  then have n: "start_state.more s < 1000" by simp
  show "\<exists>a z. demo_start_malloc k s = (a, start_state.more_update (\<lambda>_. z) s) \<and> a \<noteq> 0 \<and> a \<notin> demo_blocks (start_state.more s) \<and>
      demo_blocks z = insert a (demo_blocks (start_state.more s)) \<and> 1000 - z = 1000 - start_state.more s - 1"
    by (rule exI [of _ "of_nat (16 * Suc (start_state.more s))"], rule exI [of _ "Suc (start_state.more s)"])
      (use n demo_block_new [OF n] in \<open>simp add: demo_start_malloc_def Let_def del: of_nat_mult of_nat_Suc mult_Suc_right\<close>)
qed

theorem initialize_cpus_reads_madt_witness:
  "\<exists>s'. initialize_cpus demo_start_env demo_start_malloc 512 [] [] 0x20000 demo_acpi demo_madt = Some s' \<and>
     array_get_size demo_start_env (cpus s') = 1 \<and> cpu_for 3 1 0 (cpu_of demo_start_env s' 0) \<and> cpuid_to_cputord s' ! 3 = 0"
proof -
  let ?es = "[\<lparr>m_type = 0, m_len = 8, m_pid = 3, m_aid = 1, m_flags = 1\<rparr>] :: madt_entry list"
  have es: "enabled_cpus ?es = [(3, 1)]" "madt_bytes ?es = 8" by (simp_all add: enabled_cpus_def madt_bytes_def)
  have laws: "array_laws demo_start_env" "array_get_size demo_start_env [] = 0"
    by (simp_all add: array_laws_def demo_start_env_def demo_smp_env_def nth_append)
  have room: "7 * length (enabled_cpus ?es) \<le> 1000 - start_state.more demo_madt"
    by (simp add: es demo_madt_def demo_start_defs)
  show ?thesis
    using initialize_cpus_reads_madt [OF demo_cpu_heap laws demo_find_madt(1,3) _ _ room, of 512 "[]"] demo_find_madt(2)
    by (simp add: es)
qed

end
