(* ===== verification/Kernel_Boot.thy ===== *)
theory Kernel_Boot
  imports Scheduler_Runs Process_Create Cpu_Start Rlyeh
begin

text \<open>
  The start-up sequence of \<open>kernel.c\<close> where it ties components together: the start of the processors with their
  tables, and the start of the first process. \<open>kernel_main\<close> begins with \<open>debug_break\<close>, a loop that only a
  debugger ends; what follows is modelled from the state in which it is left.
\<close>

section \<open>The processors\<close>

text \<open>
  From the processor records to the local APIC. The arguments are those of the parts. The log messages between
  the calls are left out. A faulting segment load has no result: no interrupt table is loaded yet.
\<close>

definition boot_processors :: "('arr, ('arr, 'q, 'd, 'z) start_state_scheme) smp_env \<Rightarrow> ('arr, 'q, 'd, 'z) start_state_scheme allocator
    \<Rightarrow> u64 \<Rightarrow> 'q \<Rightarrow> 'arr \<Rightarrow> u64 \<Rightarrow> acpi \<Rightarrow> 'd io_env \<Rightarrow> (u8 \<Rightarrow> u64)
    \<Rightarrow> ('arr, 'q, 'd, 'z) start_state_scheme wait_env
    \<Rightarrow> ('arr, 'q, 'd, 'z) start_state_scheme \<Rightarrow> ('arr, 'q, 'd, 'z) start_state_scheme option" where
  "boot_processors E malloc sz newq empty_array gdt32 A io isr B s =
     do { s1 \<leftarrow> initialize_cpus E malloc sz newq empty_array gdt32 A s;
          s2 \<leftarrow> reinitialize_gdt E malloc s1;
          let s3 = register_standard_interrupt_handlers (initialize_interrupts io isr s2);
          s4 \<leftarrow> install_clock io (century_register A) s3;
          s5 \<leftarrow> (if 1 < array_get_size E (cpus s4) then initialize_mp E B (get_local_apic_id s4) s4 else Some s4);
          Some (initialize_lapic (install_ipi s5)) }"

text \<open>A real-time clock that is not updating and answers every register with the same value.\<close>

definition steady_rtc :: "'d io_env \<Rightarrow> (u8 \<Rightarrow> u8) \<Rightarrow> bool" where
  "steady_rtc io v \<longleftrightarrow> v 0x0A AND 0x80 = 0 \<and> (\<forall>reg d. fst (get_RTC_register io reg d) = v reg)"

lemma steady_clock:
  assumes "steady_rtc io v"
  obtains k d' where "initialize_clock io cr d = Some (k, d')"
proof -
  define g where "g r d = snd (get_RTC_register io r d)" for r d
  have reg: "get_RTC_register io r d = (v r, g r d)" for r d
    using assms by (simp add: g_def prod_eq_iff steady_rtc_def)
  have idle: "get_update_in_progress_flag io d = (False, g 0x0A d)" for d
    using assms reg [of "0x0A" d] by (simp add: steady_rtc_def get_update_in_progress_flag_def get_RTC_register_def)
  have wait: "wait_rtc io d = Some (g 0x0A d)" for d by (subst wait_rtc.simps) (simp add: idle)
  let ?t = "\<lambda>c. \<lparr>second = v 0, minute = v 2, hour = v 4, day = v 7, month = v 8, year = ucast (v 9),
    century = (if cr \<noteq> 0 then v cr else c)\<rparr>"
  have read: "fst (read_rtc io cr c d) = ?t c" for c d by (simp add: read_rtc_def reg)
  have stable: "\<exists>d'. stable_rtc io cr (?t c) d = Some (?t c, d')" for c d
    using read [of "century (?t c)" "g 0x0A d"]
    by (subst stable_rtc.simps) (cases "read_rtc io cr (century (?t c)) (g 0x0A d)", auto simp: wait)
  obtain d1 where d1: "read_rtc io cr 20 (g 0x0A d) = (?t 20, d1)"
    using read [of 20 "g 0x0A d"] by (metis prod.collapse)
  obtain d2 where d2: "stable_rtc io cr (?t 20) d1 = Some (?t 20, d2)" using stable by blast
  have "\<exists>x. initialize_clock io cr d = Some x"
    by (simp add: initialize_clock_def wait d1 d2 reg)
  then show thesis using that by (metis surj_pair)
qed

text \<open>The heap that serves the processor records serves the descriptor table as well.\<close>

lemma boot_heap_of_cpu_heap:
  assumes "cpu_heap malloc blks room"
  shows "boot_heap malloc (\<lambda>x. blks (ext_more x)) (\<lambda>x. room (ext_more x))"
  unfolding boot_heap_def
proof (intro allI impI)
  fix k and s :: "('a, 'b, 'c, 'd) start_state_scheme"
  assume "0 < room (ext_more (irq_state.more s))"
  then obtain a z where a: "malloc k s = (a, start_state.more_update (\<lambda>_. z) s)" "a \<noteq> 0" "a \<notin> blks (start_state.more s)"
    "blks z = insert a (blks (start_state.more s))" "room z = room (start_state.more s) - 1"
    using cpu_heapE [OF assms, of s k] by (auto simp: ext_more_more)
  let ?x = "irq_state.more (start_state.more_update (\<lambda>_. z) s)"
  have run: "malloc k s = (a, irq_state.more_update (\<lambda>_. ?x) s)" using a(1) unfolding more_update_start [of z s, symmetric] .
  have "ext_more ?x = z" by (simp add: ext_more_more)
  then show "\<exists>a x. malloc k s = (a, irq_state.more_update (\<lambda>_. x) s) \<and> a \<noteq> 0 \<and>
      a \<notin> blks (ext_more (irq_state.more s)) \<and> blks (ext_more x) = insert a (blks (ext_more (irq_state.more s))) \<and>
      room (ext_more x) = room (ext_more (irq_state.more s)) - 1"
    using a(2-5) by (intro exI [of _ a] exI [of _ ?x] conjI run) (simp_all add: ext_more_more)
qed

lemma interrupts_keep [simp]:
  "gdt_descriptors (initialize_interrupts io isr s) = gdt_descriptors s" "tss_at (initialize_interrupts io isr s) = tss_at s"
  "cpus (initialize_interrupts io isr s) = cpus s" "cpu_at (initialize_interrupts io isr s) = cpu_at s"
proof -
  have "gdt_descriptors (set_gates isr ns s) = gdt_descriptors s \<and> tss_at (set_gates isr ns s) = tss_at s \<and>
      cpus (set_gates isr ns s) = cpus s \<and> cpu_at (set_gates isr ns s) = cpu_at s"
    for ns and s :: "('a, 'b, 'c, 'd) irq_state_scheme"
    by (induction ns arbitrary: s) (simp_all add: set_gates_def idt_set_gate_def)
  then show "gdt_descriptors (initialize_interrupts io isr s) = gdt_descriptors s" "tss_at (initialize_interrupts io isr s) = tss_at s"
    "cpus (initialize_interrupts io isr s) = cpus s" "cpu_at (initialize_interrupts io isr s) = cpu_at s"
    by (simp_all add: initialize_interrupts_def Let_def)
qed

lemma handlers_keep [simp]:
  "gdt_descriptors (register_standard_interrupt_handlers s) = gdt_descriptors s"
  "tss_at (register_standard_interrupt_handlers s) = tss_at s" "cpus (register_standard_interrupt_handlers s) = cpus s"
  "cpu_at (register_standard_interrupt_handlers s) = cpu_at s" "idt_entries (register_standard_interrupt_handlers s) = idt_entries s"
  "length (interrupt_handlers (register_standard_interrupt_handlers s)) = length (interrupt_handlers s)"
  by (simp_all add: register_standard_interrupt_handlers_def standard_handlers_def register_interrupt_handler_def)

lemma boot_handlers:
  assumes "unat v < 256"
  shows "(interrupt_handlers (register_standard_interrupt_handlers (initialize_interrupts io isr s)))
      [32 := Some timer_tick_isr, 255 := Some ipi_received_isr] ! unat v =
    (if v = 32 then Some timer_tick_isr else if v = 255 then Some ipi_received_isr else map_of standard_handlers (v :: u8))"
proof -
  let ?h = "interrupt_handlers (register_standard_interrupt_handlers (initialize_interrupts io isr s))"
  have len: "length ?h = 256" by (simp add: handlers_initialized)
  have "?h ! unat v = map_of standard_handlers v"
    using standard_handler_at [of "initialize_interrupts io isr s" "unat v"] assms
    by (simp add: handlers_initialized split: option.split)
  moreover have "unat v = 32 \<longleftrightarrow> v = 32" "unat v = 255 \<longleftrightarrow> v = 255" by (simp_all add: word_unat_eq_iff)
  ultimately show ?thesis using len assms by (simp add: nth_list_update)
qed


definition demo_rtc :: "(u16 \<times> u8) list io_env" where
  "demo_rtc = \<lparr>io_outb = (\<lambda>p v d. (p, v) # d), io_inb = (\<lambda>p d. (0, d))\<rparr>"


section \<open>The first process\<close>

text \<open>
  The thread of the first process is placed on the processor and then pushed once more to its first queue;
  the scheduler is entered without a frame. \<open>scheduler_enabled\<close> is an argument of the timer handler.
\<close>

definition run_init :: "('arr, ('arr, 'q, 'l, 'h, 'z) kernel_state_scheme) smp_env \<Rightarrow> ('q, 'l, 'h) ds_env
    \<Rightarrow> (('arr, 'q, 'l, 'h, 'z) kernel_state_scheme \<Rightarrow> ('arr, 'q, 'l, 'h, 'z) kernel_state_scheme option)
    \<Rightarrow> (registers option \<Rightarrow> nat \<Rightarrow> ('arr, 'q, 'l, 'h, 'z) kernel_state_scheme
      \<Rightarrow> (registers option \<times> ('arr, 'q, 'l, 'h, 'z) kernel_state_scheme) option)
    \<Rightarrow> nat \<Rightarrow> ('arr, 'q, 'l, 'h, 'z) kernel_state_scheme
    \<Rightarrow> (switch_result \<times> ('arr, 'q, 'l, 'h, 'z) kernel_state_scheme) option" where
  "run_init E D W S t s =
     do { s1 \<leftarrow> enschedule_to_self E D t s;
          let s2 = upd_cpu (current_cpu s1) (\<lambda>k. k\<lparr>priority_0 := queue_push D (priority_0 k) t\<rparr>) s1;
          schedule D W S None s2 }"

text \<open>
  How the sequence ends: an error screen (codes 27 and 28), or the switch to user mode. \<open>root\<close> and \<open>initrd\<close> are
  the file tree and the address of the boot module.
\<close>

datatype boot_end = NO_INIT | INIT_INVALID elf_error u64 | ENTERED switch_result

definition start_init :: "('arr, ('arr, 'q, 'l, 'h, 'z) kernel_state_scheme) smp_env \<Rightarrow> ('q, 'l, 'h) ds_env \<Rightarrow> ('q, 'l, 'h) new_env
    \<Rightarrow> (('arr, 'q, 'l, 'h, 'z) kernel_state_scheme \<Rightarrow> ('arr, 'q, 'l, 'h, 'z) kernel_state_scheme option)
    \<Rightarrow> (registers option \<Rightarrow> nat \<Rightarrow> ('arr, 'q, 'l, 'h, 'z) kernel_state_scheme
      \<Rightarrow> (registers option \<times> ('arr, 'q, 'l, 'h, 'z) kernel_state_scheme) option)
    \<Rightarrow> u64 \<Rightarrow> path_element \<Rightarrow> u64 \<Rightarrow> ('arr, 'q, 'l, 'h, 'z) kernel_state_scheme \<Rightarrow> kheap
    \<Rightarrow> (boot_end \<times> ('arr, 'q, 'l, 'h, 'z) kernel_state_scheme \<times> kheap) option" where
  "start_init E D A W S now root initrd s h =
     do { pe \<leftarrow> get_path root ''sys/init'';
          (case pe of
             Some (PE_FILE _ _ offset) \<Rightarrow>
               do { (p, s1, h1) \<leftarrow> create_init_process_structure D A now (active_page s) s h;
                    let s2 = upd_proc p (\<lambda>q. q\<lparr>argc := 0, argv := 0, environ := 0\<rparr>) s1;
                    (err, s3) \<leftarrow> load_elf_exec E D (get_data initrd offset) p s2;
                    (case err of
                       Some e \<Rightarrow> Some (INIT_INVALID e (proc_id (proc_at s3 p)), s3, h1)
                     | None \<Rightarrow>
                         do { s4 \<leftarrow> process_init E D p s3;
                              (res, s5) \<leftarrow> run_init E D W S (threads (proc_at s4 p) ! 0) s4;
                              Some (ENTERED res, s5, h1) }) }
           | _ \<Rightarrow> Some (NO_INIT, s, h)) }"

text \<open>
  The thread of the first process is pushed twice: when \<open>kernel_main\<close> pushes it to the first queue, it is already
  linked into the queue of its priority. The queues are intrusive, so what the second push does is not
  covered by what is relied on of them.
\<close>

lemma init_thread_pushed_twice:
  fixes s :: "('arr, 'q, 'l, 'h, 'z) kernel_state_scheme"
  assumes laws: "queue_laws D qc" and c: "c = current_cpu s" and free: "cpu_free c s" "thread_modifier s = 0"
    and empty: "concat (queue_contents qc (cpu_at s c)) = []" and prio: "unat (priority (thread_at s t)) < 5"
  obtains s1 where "run_init E D W S t s =
      schedule D W S None (upd_cpu c (\<lambda>k. k\<lparr>priority_0 := queue_push D (priority_0 k) t\<rparr>) s1)"
    "queued qc (cpu_at s1 c) = {#t#}" "queue_contents qc (cpu_at s1 c) ! unat (priority (thread_at s t)) = [t]"
proof (rule enschedule_to_self_spec [OF laws c free prio, of E])
  show "t \<notin> set (concat (queue_contents qc (cpu_at s c)))" unfolding empty by simp
  let ?i = "unat (priority (thread_at s t))" and ?qs = "queue_contents qc (cpu_at s c)"
  fix s1
  assume s1: "enschedule_to_self E D t s = Some s1" "current_cpu s1 = c" "queue_contents qc (cpu_at s1 c) = enqueue ?i t ?qs"
  have "?qs ! ?i \<in> set ?qs" using prio by simp
  then have nil: "?qs ! ?i = []" using empty by (simp only: concat_eq_Nil_conv)
  have "mset (concat (enqueue ?i t ?qs)) = {#t#}" using prio by (subst mset_enqueue) (simp_all only: length_queue_contents empty mset.simps)
  then have "queued qc (cpu_at s1 c) = {#t#}" by (simp only: queued_contents s1(3))
  then show thesis
    by (rule that [rotated]) (use s1 prio nil in \<open>simp_all add: run_init_def enqueue_def\<close>)
qed

end
