(* ===== verification/Console.thy ===== *)
theory Console
  imports Clock
begin

text \<open>
  The console: frame buffer drawing (\<open>grx/grx.c\<close>, \<open>grx/font.c\<close>), the text cursor and the hexadecimal
  output (\<open>utils/textinput.c\<close>) and the helpers of \<open>utils/kstdlib.c\<close> that make digits and random numbers.
  The shadow buffer and its change map are lists of the allocated length: a NULL pointer or an access
  outside the block has no result (\<open>None\<close>). Video memory is a function of the index. Characters are bytes.
\<close>

section \<open>State\<close>

record color =
  c_r :: u8
  c_g :: u8
  c_b :: u8

record kimage =
  image_data :: "u8 list"
  image_type :: u8
  image_w :: u32
  image_h :: u32

definition MODE_TEXT :: u8 where "MODE_TEXT = 0"
definition MODE_GRAPHICS :: u8 where "MODE_GRAPHICS = 1"
definition IMAGE_MONOCHROMATIC :: u8 where "IMAGE_MONOCHROMATIC = 0"
definition IMAGE_RGB :: u8 where "IMAGE_RGB = 1"
definition font_w :: u32 where "font_w = 8"
definition font_h :: u32 where "font_h = 14"

record 'd console =
  mode :: u8
  scr_w :: u32
  scr_h :: u32
  fbpitch :: u32
  bpp :: u32
  local_fb :: "u32 list option"
  local_fb_changes :: "u8 list option"
  framebuffer :: "u64 \<Rightarrow> u8"
  text_memory :: "u32 \<Rightarrow> u16"
  cursor_x :: u8
  cursor_y :: u8
  letters :: "u8 \<Rightarrow> kimage"
  crtc :: 'd

definition ega :: "color list" where
  "ega = map (\<lambda>(r, g, b). \<lparr>c_r = r, c_g = g, c_b = b\<rparr>)
     [(0, 0, 0), (0, 0, 0xAA), (0, 0xAA, 0), (0, 0xAA, 0xAA), (0xAA, 0, 0), (0xAA, 0, 0xAA),
      (0xAA, 0x55, 0), (0xAA, 0xAA, 0xAA), (0x55, 0x55, 0x55), (0x55, 0x55, 0xFF),
      (0x55, 0xFF, 0x55), (0x55, 0xFF, 0xFF),
      (0xFF, 0x55, 0x55), (0xFF, 0x55, 0xFF), (0xFF, 0xFF, 0x55), (0xFF, 0xFF, 0xFF)]"

section \<open>Bit maps\<close>

definition BITMASK :: "nat \<Rightarrow> u8" where "BITMASK b = push_bit (b mod 8) 1"

definition BITTEST :: "u8 list \<Rightarrow> nat \<Rightarrow> bool option" where
  "BITTEST a b = (if b div 8 < length a then Some (a ! (b div 8) AND BITMASK b \<noteq> 0) else None)"

definition BITSET :: "u8 list \<Rightarrow> nat \<Rightarrow> u8 list option" where
  "BITSET a b = (if b div 8 < length a then Some (a[b div 8 := a ! (b div 8) OR BITMASK b]) else None)"

definition BITCLEAR :: "u8 list \<Rightarrow> nat \<Rightarrow> u8 list option" where
  "BITCLEAR a b = (if b div 8 < length a then Some (a[b div 8 := a ! (b div 8) AND NOT (BITMASK b)]) else None)"

definition BITNSLOTS :: "u32 \<Rightarrow> u32" where "BITNSLOTS nb = (nb + 8 - 1) div 8"

section \<open>Drawing\<close>

definition grx_get_width :: "('d, 'z) console_scheme \<Rightarrow> u32" where "grx_get_width s = scr_w s"
definition grx_get_height :: "('d, 'z) console_scheme \<Rightarrow> u32" where "grx_get_height s = scr_h s"

text \<open>One pixel of the shadow buffer, marked as changed.\<close>

definition put_pixel :: "nat \<Rightarrow> color \<Rightarrow> ('d, 'z) console_scheme \<Rightarrow> ('d, 'z) console_scheme option" where
  "put_pixel pos c s =
     do { fb \<leftarrow> local_fb s;
          ch \<leftarrow> local_fb_changes s;
          let v = (push_bit 16 (ucast (c_b c)) OR push_bit 8 (ucast (c_g c)) OR ucast (c_r c) :: u32);
          (if pos < length fb then Some () else None);
          ch' \<leftarrow> BITSET ch pos;
          Some (s\<lparr>local_fb := Some (fb[pos := v]), local_fb_changes := Some ch'\<rparr>) }"

text \<open>
  The turn of \<open>blit_colored\<close> for the pixel \<open>(px, py)\<close> of the screen; the colour of an RGB image stays
  behind for the next turn, as \<open>recolor\<close> is overwritten.
\<close>

definition blit_pixel :: "kimage \<Rightarrow> u32 \<Rightarrow> u32 \<Rightarrow> u32 \<Rightarrow> u32 \<Rightarrow> color \<times> ('d, 'z) console_scheme
    \<Rightarrow> (color \<times> ('d, 'z) console_scheme) option" where
  "blit_pixel im x y py px cs = (case cs of (recolor, s) \<Rightarrow>
     if scr_w s \<le> px then Some (recolor, s)
     else let pixelpos = unat (py * scr_w s + px);
              data = image_data im;
              bsp = (py - y) * image_w im + (px - x)
          in if image_type im = IMAGE_RGB then
               (let i = unat (bsp * 3)
                in if i + 2 < length data then
                     let c = \<lparr>c_r = data ! i, c_g = data ! (i + 1), c_b = data ! (i + 2)\<rparr>
                     in map_option (Pair c) (put_pixel pixelpos c s)
                   else None)
             else if image_type im = IMAGE_MONOCHROMATIC then
               (case BITTEST data (unat bsp) of
                  None \<Rightarrow> None
                | Some drawn \<Rightarrow> if drawn then map_option (Pair recolor) (put_pixel pixelpos recolor s) else Some (recolor, s))
             else map_option (Pair recolor) (put_pixel pixelpos recolor s))"

primrec each :: "('a \<Rightarrow> 's \<Rightarrow> 's option) \<Rightarrow> 'a list \<Rightarrow> 's \<Rightarrow> 's option" where
  "each f [] s = Some s"
| "each f (x # xs) s = do { s' \<leftarrow> f x s; each f xs s' }"

text \<open>The counters run from \<open>y\<close> while below the 32-bit sum \<open>y + ih\<close>: not at all when it wraps.\<close>

definition counter :: "u32 \<Rightarrow> u32 \<Rightarrow> u32 list" where
  "counter lo hi = map of_nat [unat lo..<unat hi]"

definition blit_colored :: "kimage \<Rightarrow> u32 \<Rightarrow> u32 \<Rightarrow> color \<Rightarrow> ('d, 'z) console_scheme \<Rightarrow> ('d, 'z) console_scheme option" where
  "blit_colored im x y recolor s =
     map_option snd
       (each (\<lambda>py cs. if scr_h (snd cs) \<le> py then Some cs
                      else each (blit_pixel im x y py) (counter x (x + image_w im)) cs)
          (counter y (y + image_h im)) (recolor, s))"

definition blit :: "kimage \<Rightarrow> u32 \<Rightarrow> u32 \<Rightarrow> ('d, 'z) console_scheme \<Rightarrow> ('d, 'z) console_scheme option" where
  "blit im x y s = blit_colored im x y \<lparr>c_r = 127, c_g = 127, c_b = 127\<rparr> s"

text \<open>
  One pixel of \<open>flush_buffer\<close>. With 32 bits per pixel the code copies four bytes from the frame buffer into
  the change map; with 24 it writes the colour to the frame buffer. A NULL change map gives no result: the access goes
  to address 0, which is mapped only until \<open>deallocate_start_memory\<close>, and what it would change there is not modelled.
\<close>

definition flush_pixel :: "nat \<Rightarrow> ('d, 'z) console_scheme \<Rightarrow> ('d, 'z) console_scheme option" where
  "flush_pixel i s =
     do { ch \<leftarrow> local_fb_changes s;
          changed \<leftarrow> BITTEST ch i;
          (if \<not> changed then Some s
           else do { ch1 \<leftarrow> BITCLEAR ch i;
                     fb \<leftarrow> local_fb s;
                     (if length fb \<le> i then None
                      else if bpp s = 32 then
                        (if i + 4 \<le> length ch1
                         then Some (s\<lparr>local_fb_changes := Some (take i ch1 @ map (\<lambda>k. framebuffer s (of_nat (4 * i + k))) [0..<4] @ drop (i + 4) ch1)\<rparr>)
                         else None)
                      else if bpp s = 24 then
                        (let v = fb ! i; p = of_nat (3 * i) :: u64
                         in Some (s\<lparr>local_fb_changes := Some ch1, framebuffer := (framebuffer s)
                              (p := ucast (drop_bit 16 v AND 0xFF), p + 1 := ucast (drop_bit 8 v AND 0xFF), p + 2 := ucast (v AND 0xFF))\<rparr>))
                      else Some (s\<lparr>local_fb_changes := Some ch1\<rparr>)) }) }"

definition flush_buffer :: "('d, 'z) console_scheme \<Rightarrow> ('d, 'z) console_scheme option" where
  "flush_buffer s = each flush_pixel [0..<unat (scr_w s * scr_h s)] s"

text \<open>Byte counts of \<open>memmove\<close> and \<open>memset\<close> are 32-bit products; a shadow pixel has four bytes.\<close>

definition scroll_up :: "u32 \<Rightarrow> ('d, 'z) console_scheme \<Rightarrow> ('d, 'z) console_scheme option" where
  "scroll_up bypx s =
     do { fb \<leftarrow> local_fb s;
          ch \<leftarrow> local_fb_changes s;
          let w = scr_w s;
          let h = scr_h s;
          let src = unat (bypx * w);
          let n = unat ((h - bypx) * w * 4) div 4;
          let dst = unat ((h - bypx) * w);
          let m = unat (bypx * w * 4) div 4;
          let k = unat (BITNSLOTS (w * h));
          (if src + n \<le> length fb \<and> dst + m \<le> length fb \<and> k \<le> length ch
           then let fb1 = take n (drop src fb) @ drop n fb;
                    fb2 = take dst fb1 @ replicate m 0 @ drop (dst + m) fb1
                in flush_buffer (s\<lparr>local_fb := Some fb2, local_fb_changes := Some (replicate k 0xFF @ drop k ch)\<rparr>)
           else None) }"

definition clear_screen :: "u8 \<Rightarrow> u8 \<Rightarrow> u8 \<Rightarrow> ('d, 'z) console_scheme \<Rightarrow> ('d, 'z) console_scheme option" where
  "clear_screen r g b s =
     each (\<lambda>py s. each (\<lambda>px. put_pixel (unat (py * scr_w s + px)) \<lparr>c_r = r, c_g = g, c_b = b\<rparr>)
                     (map of_nat [0..<unat (scr_w s)]) s)
       (map of_nat [0..<unat (scr_h s)]) s"

section \<open>Letters\<close>

definition reverse :: "u8 \<Rightarrow> u8" where
  "reverse b0 =
     (let b1 = (drop_bit 4 (b0 AND 0xF0)) OR push_bit 4 (b0 AND 0x0F);
          b2 = (drop_bit 2 (b1 AND 0xCC)) OR push_bit 2 (b1 AND 0x33)
      in drop_bit 1 (b2 AND 0xAA) OR push_bit 1 (b2 AND 0x55))"

text \<open>The font has 14 bytes per letter; letter 255 is not set up and stays empty.\<close>

definition initialize_font :: "u8 list \<Rightarrow> ('d, 'z) console_scheme \<Rightarrow> ('d, 'z) console_scheme" where
  "initialize_font font s =
     (let font' = map reverse (take (255 * 14) font) @ drop (255 * 14) font
      in s\<lparr>letters := (\<lambda>i. if i < 255 then
            \<lparr>image_data = drop (unat i * 14) font', image_type = IMAGE_MONOCHROMATIC, image_w = font_w, image_h = font_h\<rparr>
            else letters s i)\<rparr>)"

definition get_letter :: "u8 \<Rightarrow> ('d, 'z) console_scheme \<Rightarrow> kimage" where
  "get_letter c s = letters s c"

section \<open>Choosing the mode\<close>

text \<open>
  The fields of the multiboot information the code reads. The second flag test is written \<open>1<12\<close>, a
  comparison with value 1, so it looks at bit 0. Blocks are as long as what \<open>malloc\<close> was asked for, in
  32-bit arithmetic; the new blocks are not tested for NULL. The image \<open>clear_screen_blit\<close>, which nothing uses,
  is left out. Indexed colour halts.
\<close>

record mb_video =
  mb_flags :: u32
  framebuffer_width :: u32
  framebuffer_height :: u32
  framebuffer_pitch :: u32
  framebuffer_bpp :: u8
  framebuffer_type :: u8

definition set_graphics_mode :: "mb_video \<Rightarrow> u8 list \<Rightarrow> ('d, 'z) console_scheme \<Rightarrow> ('d, 'z) console_scheme option" where
  "set_graphics_mode mb font s0 =
     (let s = s0\<lparr>mode := MODE_TEXT\<rparr>
      in if mb_flags mb AND push_bit 11 1 = 0 then Some (s\<lparr>scr_w := 80, scr_h := 24\<rparr>)
         else if mb_flags mb AND 1 = 0 then Some (s\<lparr>scr_w := 80, scr_h := 24\<rparr>)
         else let w = framebuffer_width mb; h = framebuffer_height mb;
                  s1 = s\<lparr>scr_w := w, scr_h := h, fbpitch := framebuffer_pitch mb, bpp := ucast (framebuffer_bpp mb)\<rparr>
              in if framebuffer_type mb = 2 then Some s1
                 else if framebuffer_type mb = 0 then None
                 else Some (initialize_font font (s1\<lparr>mode := MODE_GRAPHICS,
                        local_fb := Some (replicate (unat (w * h * 32) div 4) 0),
                        local_fb_changes := Some (replicate (unat (BITNSLOTS (w * h))) 0)\<rparr>)))"

section \<open>The cursor\<close>

definition blank_cell :: "u8 \<Rightarrow> u16" where
  "blank_cell back = 0x20 OR push_bit 8 (ucast (push_bit 4 back OR 15 :: u8))"

definition scroll :: "('d, 'z) console_scheme \<Rightarrow> ('d, 'z) console_scheme option" where
  "scroll s =
     (let w = grx_get_width s; h = grx_get_height s
      in if mode s = MODE_TEXT then
           Some (if h + 1 \<le> ucast (cursor_y s)
                 then s\<lparr>text_memory := (\<lambda>i. if i < h * w then text_memory s (i + w)
                                          else if i < (h + 1) * w then blank_cell 0 else text_memory s i),
                        cursor_y := ucast h\<rparr>
                 else s)
         else if h div font_h + 1 \<le> ucast (cursor_y s)
              then map_option (\<lambda>s'. s'\<lparr>cursor_y := ucast (grx_get_height s' div font_h)\<rparr>) (scroll_up font_h s)
              else Some s)"

definition move_cursor :: "'d io_env \<Rightarrow> ('d, 'z) console_scheme \<Rightarrow> ('d, 'z) console_scheme" where
  "move_cursor io s =
     (let loc = ucast (ucast (cursor_y s) * grx_get_width s + ucast (cursor_x s)) :: u16
      in s\<lparr>crtc := io_outb io 0x3D5 (ucast loc) (io_outb io 0x3D4 15
                  (io_outb io 0x3D5 (ucast (drop_bit 8 loc)) (io_outb io 0x3D4 14 (crtc s))))\<rparr>)"

text \<open>What a character does to the cursor and the screen, before the line is wrapped.\<close>

definition put_char :: "u8 \<Rightarrow> u8 \<Rightarrow> u8 \<Rightarrow> ('d, 'z) console_scheme \<Rightarrow> ('d, 'z) console_scheme option" where
  "put_char c back fore s =
     (if c = 0x08 \<and> cursor_x s \<noteq> 0 then Some (s\<lparr>cursor_x := cursor_x s - 1\<rparr>)
      else if c = 0x09 then Some (s\<lparr>cursor_x := (cursor_x s + 8) AND NOT 7\<rparr>)
      else if c = 13 then map_option (\<lambda>s'. s'\<lparr>cursor_x := 0\<rparr>) (flush_buffer s)
      else if c = 10 then flush_buffer (s\<lparr>cursor_x := 0, cursor_y := cursor_y s + 1\<rparr>)
      else if 0x20 \<le> c \<and> c < 0x80 then
        (if mode s = MODE_TEXT then
           (let attribute = push_bit 8 (ucast (push_bit 4 back OR (fore AND 0x0F))) :: u16;
                loc = ucast (cursor_y s) * grx_get_width s + ucast (cursor_x s)
            in Some (s\<lparr>text_memory := (text_memory s)(loc := ucast c OR attribute), cursor_x := cursor_x s + 1\<rparr>))
         else if fore < 16 then
           map_option (\<lambda>s'. s'\<lparr>cursor_x := cursor_x s' + 1\<rparr>)
             (blit_colored (get_letter c s) (ucast (cursor_x s) * font_w) (ucast (cursor_y s) * font_h) (ega ! unat fore) s)
         else None)
      else Some s)"

definition wrap_line :: "('d, 'z) console_scheme \<Rightarrow> ('d, 'z) console_scheme" where
  "wrap_line s =
     (if 80 \<le> cursor_x s \<and> mode s = MODE_TEXT then s\<lparr>cursor_x := 0, cursor_y := cursor_y s + 1\<rparr>
      else if grx_get_width s div font_w \<le> ucast (cursor_x s) then s\<lparr>cursor_x := 0, cursor_y := cursor_y s + 1\<rparr>
      else s)"

definition kd_cput :: "'d io_env \<Rightarrow> u8 \<Rightarrow> u8 \<Rightarrow> u8 \<Rightarrow> ('d, 'z) console_scheme \<Rightarrow> ('d, 'z) console_scheme option" where
  "kd_cput io c back fore s =
     do { s1 \<leftarrow> put_char c back fore s;
          s2 \<leftarrow> scroll (wrap_line s1);
          Some (if mode s2 = MODE_TEXT then move_cursor io s2 else s2) }"

definition kd_put :: "'d io_env \<Rightarrow> u8 \<Rightarrow> ('d, 'z) console_scheme \<Rightarrow> ('d, 'z) console_scheme option" where
  "kd_put io c s = kd_cput io c 0 7 s"

definition kd_cclear :: "'d io_env \<Rightarrow> u8 \<Rightarrow> ('d, 'z) console_scheme \<Rightarrow> ('d, 'z) console_scheme option" where
  "kd_cclear io back s =
     (if mode s = MODE_TEXT then
        Some (move_cursor io (s\<lparr>text_memory := (\<lambda>i. if i < grx_get_width s * grx_get_height s then blank_cell back else text_memory s i),
                cursor_x := 0, cursor_y := 0\<rparr>))
      else if back < 16 then
        (let bc = ega ! unat back in do { s' \<leftarrow> clear_screen (c_r bc) (c_g bc) (c_b bc) s; flush_buffer s' })
      else None)"

definition kd_clear :: "'d io_env \<Rightarrow> ('d, 'z) console_scheme \<Rightarrow> ('d, 'z) console_scheme option" where
  "kd_clear io s = kd_cclear io 0 s"

text \<open>Strings stop at their NUL character: the list holds the characters before it.\<close>

definition kd_cwrite :: "'d io_env \<Rightarrow> u8 list \<Rightarrow> u8 \<Rightarrow> u8 \<Rightarrow> ('d, 'z) console_scheme \<Rightarrow> ('d, 'z) console_scheme option" where
  "kd_cwrite io str back fore s = each (\<lambda>c. kd_cput io c back fore) str s"

definition kd_write :: "'d io_env \<Rightarrow> u8 list \<Rightarrow> ('d, 'z) console_scheme \<Rightarrow> ('d, 'z) console_scheme option" where
  "kd_write io str s = kd_cwrite io str 0 7 s"

definition kd_newl :: "'d io_env \<Rightarrow> ('d, 'z) console_scheme \<Rightarrow> ('d, 'z) console_scheme option" where
  "kd_newl io s = kd_put io 10 s"

definition kd_setxy :: "'d io_env \<Rightarrow> u8 \<Rightarrow> u8 \<Rightarrow> ('d, 'z) console_scheme \<Rightarrow> ('d, 'z) console_scheme" where
  "kd_setxy io x y s = move_cursor io (s\<lparr>cursor_x := x, cursor_y := y\<rparr>)"

section \<open>Hexadecimal numbers\<close>

definition bytetohex :: "u8 \<Rightarrow> u8" where
  "bytetohex b = (if 10 \<le> b \<and> b \<le> 15 then 65 + (b - 10) else 48 + b)"

definition write_hex_c8 :: "'d io_env \<Rightarrow> u8 \<Rightarrow> u8 \<Rightarrow> u8 \<Rightarrow> ('d, 'z) console_scheme \<Rightarrow> ('d, 'z) console_scheme option" where
  "write_hex_c8 io num bg fg s = kd_cput io (if num = 10 then 65 else if num = 11 then 66 else if num = 12 then 67
     else if num = 13 then 68 else if num = 14 then 69 else if num = 15 then 70 else 48 + num) bg fg s"

definition write_hex_c :: "'d io_env \<Rightarrow> u8 \<Rightarrow> u8 \<Rightarrow> u8 \<Rightarrow> ('d, 'z) console_scheme \<Rightarrow> ('d, 'z) console_scheme option" where
  "write_hex_c io num bg fg s =
     do { s' \<leftarrow> write_hex_c8 io (num div 16) bg fg s; write_hex_c8 io (num mod 16) bg fg s' }"

definition kd_cwrite_hex :: "'d io_env \<Rightarrow> u32 \<Rightarrow> u8 \<Rightarrow> u8 \<Rightarrow> ('d, 'z) console_scheme \<Rightarrow> ('d, 'z) console_scheme option" where
  "kd_cwrite_hex io number bg fg s =
     do { s0 \<leftarrow> kd_cwrite io [48, 120] bg fg s;
          s1 \<leftarrow> write_hex_c io (ucast (number div 2 ^ 24)) bg fg s0;
          s2 \<leftarrow> write_hex_c io (ucast (number div 2 ^ 16)) bg fg s1;
          s3 \<leftarrow> write_hex_c io (ucast (number div 2 ^ 8)) bg fg s2;
          write_hex_c io (ucast (number mod 256)) bg fg s3 }"

definition kd_cwrite_hex64 :: "'d io_env \<Rightarrow> u64 \<Rightarrow> u8 \<Rightarrow> u8 \<Rightarrow> ('d, 'z) console_scheme \<Rightarrow> ('d, 'z) console_scheme option" where
  "kd_cwrite_hex64 io number bg fg s =
     do { s0 \<leftarrow> kd_cwrite io [48, 120] bg fg s;
          s1 \<leftarrow> write_hex_c io (ucast (number div 2 ^ 56)) bg fg s0;
          s2 \<leftarrow> write_hex_c io (ucast (number div 2 ^ 48)) bg fg s1;
          s3 \<leftarrow> write_hex_c io (ucast (number div 2 ^ 40)) bg fg s2;
          s4 \<leftarrow> write_hex_c io (ucast (number div 2 ^ 32)) bg fg s3;
          s5 \<leftarrow> write_hex_c io (ucast (number div 2 ^ 24)) bg fg s4;
          s6 \<leftarrow> write_hex_c io (ucast (number div 2 ^ 16)) bg fg s5;
          s7 \<leftarrow> write_hex_c io (ucast (number div 2 ^ 8)) bg fg s6;
          write_hex_c io (ucast (number mod 256)) bg fg s7 }"

definition kd_write_hex :: "'d io_env \<Rightarrow> u32 \<Rightarrow> ('d, 'z) console_scheme \<Rightarrow> ('d, 'z) console_scheme option" where
  "kd_write_hex io number s = kd_cwrite_hex io number 0 7 s"

definition kd_write_hex64 :: "'d io_env \<Rightarrow> u64 \<Rightarrow> ('d, 'z) console_scheme \<Rightarrow> ('d, 'z) console_scheme option" where
  "kd_write_hex64 io number s = kd_cwrite_hex io (ucast number) 0 7 s"

text \<open>The string that \<open>hextochar\<close> leaves in its buffer; the arguments of \<open>bytetohex\<close> are bytes.\<close>

definition hextochar :: "u32 \<Rightarrow> u8 list" where
  "hextochar num = [48, 120] @ map (\<lambda>v. bytetohex (ucast v))
     [(num div 2 ^ 24) div 16, (num div 2 ^ 24) mod 16, (num div 2 ^ 16) div 16, (num div 2 ^ 16) mod 16,
      (num div 2 ^ 8) div 16, (num div 2 ^ 8) mod 16, (num mod 256) div 16, (num mod 256) mod 16]"

text \<open>The random number keeps its state; \<open>a * 214013L + 2531011L\<close> is computed in 64 bits.\<close>

definition rand_number :: "u32 \<Rightarrow> u32 \<Rightarrow> u32 \<times> u32" where
  "rand_number limit a =
     (let a' = ucast (drop_bit 16 (ucast a * 214013 + 2531011 :: u64) AND 32767) in (a' mod limit, a'))"

section \<open>Bits of the change map\<close>

lemma each_append: "each f (xs @ ys) s = do { s' \<leftarrow> each f xs s; each f ys s' }"
  by (induction xs arbitrary: s) simp_all

lemma AND_BITMASK: "(x :: u8) AND BITMASK b \<noteq> 0 \<longleftrightarrow> bit x (b mod 8)"
proof -
  have "x AND BITMASK b = (if bit x (b mod 8) then push_bit (b mod 8) 1 else 0)"
    by (rule bit_word_eqI) (auto simp: BITMASK_def bit_simps)
  moreover have "push_bit (b mod 8) (1 :: u8) \<noteq> 0"
    using bit_push_bit_iff [of "b mod 8" "1 :: u8" "b mod 8"] by (auto simp: bit_simps)
  ultimately show ?thesis by simp
qed

definition marked :: "u8 list \<Rightarrow> nat \<Rightarrow> bool" where
  "marked ch i \<longleftrightarrow> bit (ch ! (i div 8)) (i mod 8)"

lemma BITTEST_marked: "i div 8 < length ch \<Longrightarrow> BITTEST ch i = Some (marked ch i)"
  by (simp add: BITTEST_def marked_def AND_BITMASK)

lemma div_mod_8: "(i :: nat) div 8 = j div 8 \<Longrightarrow> i mod 8 = j mod 8 \<Longrightarrow> i = j"
  by (metis div_mult_mod_eq)

lemma BITCLEAR_marked:
  assumes "i div 8 < length ch"
  obtains ch' where "BITCLEAR ch i = Some ch'" "length ch' = length ch" "\<And>j. marked ch' j \<longleftrightarrow> marked ch j \<and> j \<noteq> i"
proof (rule that)
  let ?c = "ch[i div 8 := ch ! (i div 8) AND NOT (BITMASK i)]"
  show "BITCLEAR ch i = Some ?c" "length ?c = length ch" using assms by (simp_all add: BITCLEAR_def)
  fix j
  show "marked ?c j \<longleftrightarrow> marked ch j \<and> j \<noteq> i"
    using assms div_mod_8 [of j i] by (auto simp: marked_def nth_list_update BITMASK_def bit_simps)
qed

section \<open>Flushing at 24 bits per pixel\<close>

text \<open>The byte of the frame buffer that belongs to a pixel: blue, green, red.\<close>

definition pixel_byte :: "u32 \<Rightarrow> nat \<Rightarrow> u8" where
  "pixel_byte v k = (if k = 0 then ucast (drop_bit 16 v AND 0xFF) else if k = 1 then ucast (drop_bit 8 v AND 0xFF)
     else ucast (v AND 0xFF))"

definition flushed :: "u32 list \<Rightarrow> u8 list \<Rightarrow> nat \<Rightarrow> (u64 \<Rightarrow> u8) \<Rightarrow> u64 \<Rightarrow> u8" where
  "flushed fb ch n f p = (let q = unat p div 3 in if q < n \<and> marked ch q then pixel_byte (fb ! q) (unat p mod 3) else f p)"

lemma flushed_step:
  assumes "marked ch n" "n < 2 ^ 32"
  shows "flushed fb ch (Suc n) f =
    (let p = of_nat (3 * n) in (flushed fb ch n f)(p := pixel_byte (fb ! n) 0, p + 1 := pixel_byte (fb ! n) 1, p + 2 := pixel_byte (fb ! n) 2))"
proof
  fix x :: u64
  let ?p = "of_nat (3 * n) :: u64"
  have p: "unat ?p = 3 * n" "unat (?p + 1) = 3 * n + 1" "unat (?p + 2) = 3 * n + 2"
    using assms(2) by (simp_all add: unat_of_nat_u64 unat_add_u64 del: of_nat_mult)
  have eq: "x = ?p \<longleftrightarrow> unat x = 3 * n" "x = ?p + 1 \<longleftrightarrow> unat x = 3 * n + 1" "x = ?p + 2 \<longleftrightarrow> unat x = 3 * n + 2"
    using p by (simp_all only: word_unat_eq_iff)
  show "flushed fb ch (Suc n) f x = (let p = ?p in (flushed fb ch n f)
      (p := pixel_byte (fb ! n) 0, p + 1 := pixel_byte (fb ! n) 1, p + 2 := pixel_byte (fb ! n) 2)) x"
  proof (cases "unat x div 3 = n")
    case True
    then have v: "flushed fb ch (Suc n) f x = pixel_byte (fb ! n) (unat x mod 3)"
      using assms(1) by (simp add: flushed_def)
    have "unat x = 3 * n + unat x mod 3" using True by (metis mult.commute div_mult_mod_eq)
    moreover have "unat x mod 3 = 0 \<or> unat x mod 3 = 1 \<or> unat x mod 3 = 2" by arith
    ultimately show ?thesis unfolding v Let_def fun_upd_apply eq by auto
  next
    case False
    then have "unat x \<noteq> 3 * n" "unat x \<noteq> 3 * n + 1" "unat x \<noteq> 3 * n + 2" by auto
    then show ?thesis using False by (simp only: fun_upd_apply Let_def eq) (auto simp: flushed_def Let_def)
  qed
qed

lemma flush_pixels_24:
  assumes bpp: "bpp s = 24" and fb: "local_fb s = Some fb" and ch: "local_fb_changes s = Some ch"
    and len: "N \<le> length fb" "N \<le> 8 * length ch" "N < 2 ^ 32"
  shows "n \<le> N \<Longrightarrow> \<exists>ch'. each flush_pixel [0..<n] s =
      Some (s\<lparr>local_fb_changes := Some ch', framebuffer := flushed fb ch n (framebuffer s)\<rparr>) \<and>
    length ch' = length ch \<and> (\<forall>j. marked ch' j \<longleftrightarrow> marked ch j \<and> n \<le> j)"
proof (induction n)
  case 0
  have "flushed fb ch 0 (framebuffer s) = framebuffer s" by (rule ext) (simp add: flushed_def)
  then show ?case using ch by (intro exI [of _ ch]) simp
next
  case (Suc n)
  then obtain c where run: "each flush_pixel [0..<n] s =
      Some (s\<lparr>local_fb_changes := Some c, framebuffer := flushed fb ch n (framebuffer s)\<rparr>)"
    and c: "length c = length ch" "\<And>j. marked c j \<longleftrightarrow> marked ch j \<and> n \<le> j" by auto
  have n: "n < N" "n div 8 < length c" "n < 2 ^ 32" using Suc.prems len c(1) by auto
  let ?t = "s\<lparr>local_fb_changes := Some c, framebuffer := flushed fb ch n (framebuffer s)\<rparr>"
  have step: "each flush_pixel [0..<Suc n] s = flush_pixel n ?t"
    using run by (simp add: each_append)
  show ?case
  proof (cases "marked ch n")
    case True
    obtain c' where c': "BITCLEAR c n = Some c'" "length c' = length c" "\<And>j. marked c' j \<longleftrightarrow> marked c j \<and> j \<noteq> n"
      using BITCLEAR_marked [OF n(2)] by metis
    have "flush_pixel n ?t = Some (s\<lparr>local_fb_changes := Some c', framebuffer := flushed fb ch (Suc n) (framebuffer s)\<rparr>)"
      using True n c(2) c'(1) bpp fb len(1)
      by (simp add: flush_pixel_def BITTEST_marked flushed_step Let_def pixel_byte_def)
    moreover have "marked c' j \<longleftrightarrow> marked ch j \<and> Suc n \<le> j" for j
      using c(2) [of j] c'(3) [of j] by (cases "j = n") auto
    ultimately show ?thesis using step c(1) c'(2) by (intro exI [of _ c']) simp
  next
    case False
    then have "flushed fb ch (Suc n) (framebuffer s) = flushed fb ch n (framebuffer s)"
      by (intro ext) (auto simp: flushed_def Let_def less_Suc_eq)
    moreover have "flush_pixel n ?t = Some ?t" using False n(2) c(2) by (simp add: flush_pixel_def BITTEST_marked)
    moreover have "marked c j \<longleftrightarrow> marked ch j \<and> Suc n \<le> j" for j
      using c(2) [of j] False by (cases "j = n") auto
    ultimately show ?thesis using step c(1) by (intro exI [of _ c]) simp
  qed
qed

text \<open>
  At 24 bits per pixel \<open>flush_buffer\<close> returns, and afterwards every pixel that was marked as changed is
  in the frame buffer as its blue, green and red byte, all other bytes of the frame buffer are as before,
  the shadow buffer is unchanged and no pixel of the screen is marked.
\<close>

theorem flush_buffer_24:
  assumes "bpp s = 24" "local_fb s = Some fb" "local_fb_changes s = Some ch"
    and "unat (scr_w s * scr_h s) \<le> length fb" "unat (scr_w s * scr_h s) \<le> 8 * length ch"
  shows "\<exists>ch'. flush_buffer s = Some (s\<lparr>local_fb_changes := Some ch',
      framebuffer := flushed fb ch (unat (scr_w s * scr_h s)) (framebuffer s)\<rparr>) \<and>
    length ch' = length ch \<and> (\<forall>j < unat (scr_w s * scr_h s). \<not> marked ch' j)"
  using flush_pixels_24 [OF assms(1-5), of "unat (scr_w s * scr_h s)"] unat_u32_bound [of "scr_w s * scr_h s"]
  by (auto simp: flush_buffer_def)

text \<open>At 32 bits per pixel nothing is ever drawn: the copy goes the other way.\<close>

lemma flush_buffer_32:
  assumes "bpp s = 32" "flush_buffer s = Some s'"
  shows "framebuffer s' = framebuffer s"
proof -
  have "bpp t = 32 \<Longrightarrow> each flush_pixel xs t = Some t' \<Longrightarrow> framebuffer t' = framebuffer t" for xs t t'
  proof (induction xs arbitrary: t)
    case (Cons i xs)
    then obtain u where "flush_pixel i t = Some u" "each flush_pixel xs u = Some t'" by (auto split: Option.bind_splits)
    moreover from this have "bpp u = 32 \<and> framebuffer u = framebuffer t"
      using Cons.prems(1) by (auto simp: flush_pixel_def Let_def split: Option.bind_splits if_splits)
    ultimately show ?case using Cons.IH [of u] by simp
  qed simp
  then show ?thesis using assms by (simp add: flush_buffer_def)
qed

definition demo_console :: "(u16 \<times> u8) list console" where
  "demo_console = \<lparr>mode = MODE_GRAPHICS, scr_w = 2, scr_h = 1, fbpitch = 6, bpp = 24, local_fb = Some [0x332211, 0x665544],
     local_fb_changes = Some [2], framebuffer = (\<lambda>_. 0), text_memory = (\<lambda>_. 0), cursor_x = 0, cursor_y = 0,
     letters = (\<lambda>_. \<lparr>image_data = [], image_type = 0, image_w = 0, image_h = 0\<rparr>), crtc = []\<rparr>"

theorem flush_buffer_24_witness:
  "\<exists>s'. flush_buffer demo_console = Some s' \<and> map (framebuffer s') [0, 1, 2, 3, 4, 5] = [0, 0, 0, 0x66, 0x55, 0x44]"
proof -
  have "map (flushed [0x332211, 0x665544] [2] 2 (\<lambda>_. 0)) [0, 1, 2, 3, 4, 5] = [0, 0, 0, 0x66, 0x55, 0x44]"
    by code_simp
  then show ?thesis
    using flush_buffer_24 [of demo_console "[0x332211, 0x665544]" "[2]"] by (auto simp: demo_console_def)
qed

section \<open>The text screen\<close>

text \<open>
  The state of the console in text mode as \<open>set_graphics_mode\<close> leaves it without a frame buffer: the cursor
  is in the first ten columns and on one of the 25 lines.
\<close>

definition text_ok :: "('d, 'z) console_scheme \<Rightarrow> bool" where
  "text_ok s \<longleftrightarrow> mode s = MODE_TEXT \<and> scr_w s = 80 \<and> scr_h s = 24 \<and> local_fb s = None \<and> local_fb_changes s = None \<and>
     cursor_x s < 10 \<and> cursor_y s \<le> 24"

lemma flush_text:
  assumes "scr_w s = 80" "scr_h s = 24" "local_fb_changes s = None"
  shows "flush_buffer s = None"
proof -
  have "[0..<1920] = 0 # [Suc 0..<1920]" by (rule upt_conv_Cons) simp
  then show ?thesis using assms by (simp add: flush_buffer_def flush_pixel_def)
qed

lemma unat_ucast_u8_u32 [simp]: "unat (ucast (x :: u8) :: u32) = unat x"
  by (simp add: unsigned_ucast_eq take_bit_eq_mod) (use unat_u8_bound [of x] in simp)

lemma u8_below_10: "(x :: u8) < 10 \<Longrightarrow> x \<in> {0, 1, 2, 3, 4, 5, 6, 7, 8, 9}"
proof -
  assume "x < 10"
  then have "unat x \<in> {0, 1, 2, 3, 4, 5, 6, 7, 8, 9}" by (auto simp: word_less_nat_alt)
  then show ?thesis by (auto simp: word_unat_eq_iff)
qed

lemma tab_stop: "(x :: u8) < 10 \<Longrightarrow> (x + 8) AND NOT 7 \<in> {8, 16}"
  by (drule u8_below_10) auto

text \<open>Between the character and the line wrap: at most column 16 of a line of the screen.\<close>

definition text_mid :: "('d, 'z) console_scheme \<Rightarrow> ('d, 'z) console_scheme \<Rightarrow> bool" where
  "text_mid s t \<longleftrightarrow> mode t = MODE_TEXT \<and> scr_w t = 80 \<and> scr_h t = 24 \<and> local_fb t = None \<and> local_fb_changes t = None \<and>
     cursor_x t \<le> 16 \<and> cursor_y t \<le> 24 \<and> (\<forall>i. i < 2000 \<or> text_memory t i = text_memory s i)"

lemma cell_on_screen:
  assumes "(y :: u8) \<le> 24" "(x :: u8) < 10"
  shows "ucast y * 80 + ucast x < (2000 :: u32)"
proof -
  have b: "unat y \<le> 24" "unat x < 10" using assms by (simp_all add: word_le_nat_alt word_less_nat_alt)
  then show ?thesis by (simp add: word_less_nat_alt unat_word_ariths)
qed

lemma put_char_text:
  assumes ok: "text_ok s"
  obtains (none) "put_char c bg fg s = None" "c = 10 \<or> c = 13"
    | (some) t where "put_char c bg fg s = Some t" "c \<noteq> 10" "c \<noteq> 13" "text_mid s t"
proof -
  have f: "mode s = MODE_TEXT" "scr_w s = 80" "scr_h s = 24" "local_fb s = None" "local_fb_changes s = None"
    "cursor_x s < 10" "cursor_y s \<le> 24" using ok by (simp_all add: text_ok_def)
  have x: "cursor_x s \<le> 16" "cursor_x s + 1 \<le> 16" "cursor_x s \<noteq> 0 \<Longrightarrow> cursor_x s - 1 \<le> 16" "(cursor_x s + 8) AND NOT 7 \<le> 16"
    using u8_below_10 [OF f(6)] tab_stop [OF f(6)] by auto
  consider (nl) "c = 10" | (cr) "c = 13" | (bs) "c = 8" "cursor_x s \<noteq> 0" | (tab) "c = 9"
    | (print) "0x20 \<le> c" "c < 0x80" | (other) "c \<noteq> 10" "c \<noteq> 13" "c \<noteq> 9" "\<not> (c = 8 \<and> cursor_x s \<noteq> 0)" "\<not> (0x20 \<le> c \<and> c < 0x80)"
    by blast
  then show thesis
  proof cases
    case nl
    then show ?thesis using none f(2,3,5) by (simp add: put_char_def flush_text)
  next
    case cr
    then show ?thesis using none f(2,3,5) by (simp add: put_char_def flush_text)
  next
    case bs
    then show ?thesis using f x by (intro some [of "s\<lparr>cursor_x := cursor_x s - 1\<rparr>"]) (simp_all add: put_char_def text_mid_def)
  next
    case tab
    then show ?thesis using f x
      by (intro some [of "s\<lparr>cursor_x := (cursor_x s + 8) AND NOT 7\<rparr>"]) (simp_all add: put_char_def text_mid_def)
  next
    case print
    then have c: "c \<noteq> 8" "c \<noteq> 9" "c \<noteq> 10" "c \<noteq> 13" by auto
    let ?loc = "ucast (cursor_y s) * 80 + ucast (cursor_x s) :: u32"
    have "i < 2000 \<or> i \<noteq> ?loc" for i using cell_on_screen [OF f(7,6)] by blast
    then show ?thesis using print c f x
      by (intro some [of "s\<lparr>text_memory := (text_memory s)(?loc := ucast c OR push_bit 8 (ucast (push_bit 4 bg OR (fg AND 0x0F)))),
          cursor_x := cursor_x s + 1\<rparr>"]) (auto simp: put_char_def text_mid_def grx_get_width_def Let_def)
  next
    case other
    have "put_char c bg fg s = Some s" unfolding put_char_def using other by (simp only: if_False simp_thms)
    then show ?thesis using other f x by (intro some [of s]) (simp_all add: text_mid_def)
  qed
qed

lemma wrap_scroll_text:
  assumes "text_mid s t"
  shows "\<exists>u. scroll (wrap_line t) = Some u \<and> text_ok u \<and> (\<forall>i. i < 2000 \<or> text_memory u i = text_memory s i)"
proof -
  have f: "mode t = MODE_TEXT" "scr_w t = 80" "scr_h t = 24" "local_fb t = None" "local_fb_changes t = None"
    "cursor_x t \<le> 16" "cursor_y t \<le> 24" "\<forall>i. i < 2000 \<or> text_memory t i = text_memory s i"
    using assms by (simp_all add: text_mid_def)
  define x where "x = (if 10 \<le> cursor_x t then 0 else cursor_x t)"
  define y where "y = (if 10 \<le> cursor_x t then cursor_y t + 1 else cursor_y t)"
  have ten: "(10 :: u32) \<le> ucast (cursor_x t) \<longleftrightarrow> 10 \<le> cursor_x t" by (simp add: word_le_nat_alt)
  have small: "\<not> 80 \<le> cursor_x t" using f(6) by (simp add: word_le_nat_alt)
  have wrap: "wrap_line t = t\<lparr>cursor_x := x, cursor_y := y\<rparr>"
    using f(1,2) ten small by (simp add: wrap_line_def x_def y_def grx_get_width_def font_w_def)
  have xy: "x < 10" "unat y \<le> 25"
    using f(7) by (auto simp: x_def y_def word_le_nat_alt word_less_nat_alt unat_word_ariths)
  have bottom: "(25 :: u32) \<le> ucast y \<longleftrightarrow> unat y = 25" using xy(2) by (auto simp: word_le_nat_alt)
  show ?thesis
  proof (cases "unat y = 25")
    case True
    have "\<not> i < 1920" if "\<not> i < (2000 :: u32)" for i using that by (simp add: word_less_nat_alt)
    then show ?thesis using f xy bottom True
      by (auto simp: wrap scroll_def Let_def grx_get_width_def grx_get_height_def text_ok_def)
  next
    case False
    then show ?thesis using f xy bottom
      by (auto simp: wrap scroll_def Let_def grx_get_width_def grx_get_height_def text_ok_def word_le_nat_alt)
  qed
qed

text \<open>
  C38. The console in text mode keeps its cursor on the screen and writes only the 2000 cells of the screen,
  whatever character it is given; but lines are wrapped after ten columns, because the width in
  characters is divided by the width of a letter of the graphics font, and a line feed or a carriage
  return has no result, because it flushes through the NULL change map.
\<close>

theorem text_console_bounds:
  assumes "text_ok s"
  shows "case kd_cput io c bg fg s of
      None \<Rightarrow> c = 10 \<or> c = 13
    | Some s' \<Rightarrow> c \<noteq> 10 \<and> c \<noteq> 13 \<and> text_ok s' \<and> (\<forall>i. i < 2000 \<or> text_memory s' i = text_memory s i)"
proof (rule put_char_text [OF assms, of c bg fg])
  assume "put_char c bg fg s = None" "c = 10 \<or> c = 13"
  then show ?thesis by (simp add: kd_cput_def)
next
  fix t
  assume t: "put_char c bg fg s = Some t" "c \<noteq> 10" "c \<noteq> 13" "text_mid s t"
  obtain u where u: "scroll (wrap_line t) = Some u" "text_ok u" "\<forall>i. i < 2000 \<or> text_memory u i = text_memory s i"
    using wrap_scroll_text [OF t(4)] by blast
  have "text_ok (move_cursor io u)" using u(2) by (simp add: move_cursor_def Let_def text_ok_def)
  then show ?thesis using t u by (simp add: kd_cput_def text_ok_def move_cursor_def Let_def)
qed

theorem text_console_bounds_witness:
  "text_ok (demo_console\<lparr>mode := MODE_TEXT, scr_w := 80, scr_h := 24, local_fb := None, local_fb_changes := None,
       cursor_x := 9\<rparr>) \<and>
   (case kd_cput \<lparr>io_outb = (\<lambda>p v d. d @ [(p, v)]), io_inb = (\<lambda>_. Pair 0)\<rparr> 10 0 7
       (demo_console\<lparr>mode := MODE_TEXT, scr_w := 80, scr_h := 24, local_fb := None, local_fb_changes := None, cursor_x := 9\<rparr>) of
      None \<Rightarrow> True | Some s' \<Rightarrow> False)"
proof -
  let ?s = "demo_console\<lparr>mode := MODE_TEXT, scr_w := 80, scr_h := 24, local_fb := None, local_fb_changes := None, cursor_x := 9\<rparr>"
  have ok: "text_ok ?s" by (simp add: text_ok_def demo_console_def)
  show ?thesis
    using ok text_console_bounds [OF ok, where io = "\<lparr>io_outb = (\<lambda>p v d. d @ [(p, v)]), io_inb = (\<lambda>_. Pair 0)\<rparr>" and c = 10
        and fg = 7 and bg = 0]
    by (auto split: option.splits)
qed

section \<open>Hexadecimal output\<close>

definition hex_digit :: "nat \<Rightarrow> u8" where
  "hex_digit d = (if d < 10 then 48 + of_nat d else 55 + of_nat d)"

definition hex_string :: "nat \<Rightarrow> nat \<Rightarrow> u8 list" where
  "hex_string k n = map (\<lambda>i. hex_digit (n div 16 ^ i mod 16)) (rev [0..<k])"

lemma below_16: "n < 16 \<Longrightarrow> n \<in> {0, 1, 2, 3, 4, 5, 6, 7, 8, 9, 10, 11, 12, 13, 14, 15 :: nat}"
  unfolding insert_iff empty_iff by arith

lemma write_hex_c8_digit:
  assumes "unat d < 16"
  shows "write_hex_c8 io d bg fg = kd_cput io (hex_digit (unat d)) bg fg"
proof -
  have "d = of_nat (unat d)" by simp
  then obtain n where n: "d = of_nat n" "n < 16" using assms by blast
  have "unat d = n" using n by (simp add: unsigned_of_nat take_bit_eq_mod)
  then show ?thesis using below_16 [OF n(2)] n(1) by (intro ext) (auto simp: write_hex_c8_def hex_digit_def)
qed

lemma write_hex_c_digits:
  "write_hex_c io b bg fg s = kd_cwrite io [hex_digit (unat b div 16), hex_digit (unat b mod 16)] bg fg s"
proof -
  have div16: "unat b div 16 < 16" using unat_u8_bound [of b] by (simp add: less_mult_imp_div_less)
  have "unat (b div 16) = unat b div 16" "unat (b mod 16) = unat b mod 16"
    by (simp_all add: unat_div_distrib unat_mod_distrib)
  then show ?thesis by (simp add: write_hex_c_def kd_cwrite_def write_hex_c8_digit div16)
qed

lemma kd_cwrite_append: "kd_cwrite io (xs @ ys) bg fg s = do { s' \<leftarrow> kd_cwrite io xs bg fg s; kd_cwrite io ys bg fg s' }"
  by (simp add: kd_cwrite_def each_append)

text \<open>The two digits of byte \<open>k\<close> of a number.\<close>

lemma byte_digits:
  "(n div 2 ^ (8 * k) mod 256) div 16 = n div 16 ^ (2 * k + 1) mod (16 :: nat)"
  "(n div 2 ^ (8 * k) mod 256) mod 16 = n div 16 ^ (2 * k) mod (16 :: nat)"
proof -
  have p: "(2 :: nat) ^ (8 * k) = 16 ^ (2 * k)" by (simp add: power_mult)
  have "m mod 256 div 16 = m div 16 mod 16" "m mod 256 mod 16 = m mod 16" for m :: nat
    by (simp_all add: mod_mult2_eq [of m 16 16, simplified] mod_mod_cancel)
  then show "(n div 2 ^ (8 * k) mod 256) div 16 = n div 16 ^ (2 * k + 1) mod (16 :: nat)"
    "(n div 2 ^ (8 * k) mod 256) mod 16 = n div 16 ^ (2 * k) mod (16 :: nat)"
    unfolding p by (simp_all add: div_mult2_eq [symmetric] mult.commute [of 16])
qed

lemma byte_string:
  assumes "unat (b :: u8) = n div 2 ^ (8 * k) mod 256"
  shows "write_hex_c io b bg fg s = kd_cwrite io [hex_digit (n div 16 ^ (2 * k + 1) mod 16), hex_digit (n div 16 ^ (2 * k) mod 16)] bg fg s"
  by (simp add: write_hex_c_digits assms byte_digits)

lemma unat_div_power: "unat ((x :: 'a::len word) div 2 ^ k) = unat x div 2 ^ k"
  by (simp add: unsigned_drop_bit_eq take_bit_nat_eq_self flip: drop_bit_eq_div)

lemma unat_ucast_byte: "unat (ucast (x :: 'a::len word) :: u8) = unat x mod 256"
  by (simp add: unsigned_ucast_eq take_bit_eq_mod)

text \<open>Digit \<open>i\<close>, and the two digits of byte \<open>k\<close>, of a number.\<close>

definition digit_at :: "nat \<Rightarrow> nat \<Rightarrow> u8" where
  "digit_at n i = hex_digit (n div 16 ^ i mod 16)"

lemma write_hex_byte:
  "write_hex_c io (ucast ((x :: 'a::len word) div 2 ^ (8 * k))) bg fg = kd_cwrite io [digit_at (unat x) (2 * k + 1), digit_at (unat x) (2 * k)] bg fg"
  unfolding digit_at_def by (rule ext, rule byte_string) (simp add: unat_ucast_byte unat_div_power)

lemma write_hex_low:
  "write_hex_c io (ucast ((x :: u64) mod 256)) bg fg = kd_cwrite io [digit_at (unat x) 1, digit_at (unat x) 0] bg fg"
  "write_hex_c io (ucast ((y :: u32) mod 256)) bg fg = kd_cwrite io [digit_at (unat y) 1, digit_at (unat y) 0] bg fg"
proof -
  have "(ucast (x mod 256) :: u8) = ucast (x div 2 ^ (8 * 0))" "(ucast (y mod 256) :: u8) = ucast (y div 2 ^ (8 * 0))"
    by (simp_all add: word_unat_eq_iff unat_ucast_byte unat_mod_distrib)
  then show "write_hex_c io (ucast ((x :: u64) mod 256)) bg fg = kd_cwrite io [digit_at (unat x) 1, digit_at (unat x) 0] bg fg"
    "write_hex_c io (ucast ((y :: u32) mod 256)) bg fg = kd_cwrite io [digit_at (unat y) 1, digit_at (unat y) 0] bg fg"
    using write_hex_byte [of io x 0 bg fg] write_hex_byte [of io y 0 bg fg] by simp_all
qed

lemma hex_strings:
  shows "hex_string 8 n = [digit_at n 7, digit_at n 6] @ [digit_at n 5, digit_at n 4] @ [digit_at n 3, digit_at n 2] @ [digit_at n 1, digit_at n 0]"
  "hex_string 16 n = [digit_at n 15, digit_at n 14] @ [digit_at n 13, digit_at n 12] @ [digit_at n 11, digit_at n 10] @ [digit_at n 9, digit_at n 8]
     @ [digit_at n 7, digit_at n 6] @ [digit_at n 5, digit_at n 4] @ [digit_at n 3, digit_at n 2] @ [digit_at n 1, digit_at n 0]"
proof -
  have "rev [0..<8] = [7, 6, 5, 4, 3, 2, 1, 0]" "rev [0..<16] = [15, 14, 13, 12, 11, 10, 9, 8, 7, 6, 5, 4, 3, 2, 1, 0]"
    by code_simp+
  note l = this
  show "hex_string 8 n = [digit_at n 7, digit_at n 6] @ [digit_at n 5, digit_at n 4] @ [digit_at n 3, digit_at n 2] @ [digit_at n 1, digit_at n 0]"
    by (simp only: hex_string_def digit_at_def l list.map append.simps)
  show "hex_string 16 n = [digit_at n 15, digit_at n 14] @ [digit_at n 13, digit_at n 12] @ [digit_at n 11, digit_at n 10] @ [digit_at n 9, digit_at n 8]
     @ [digit_at n 7, digit_at n 6] @ [digit_at n 5, digit_at n 4] @ [digit_at n 3, digit_at n 2] @ [digit_at n 1, digit_at n 0]"
    by (simp only: hex_string_def digit_at_def l list.map append.simps)
qed

lemmas write_hex_bytes = write_hex_low write_hex_byte [where k = 1, simplified] write_hex_byte [where k = 2, simplified]
  write_hex_byte [where k = 3, simplified] write_hex_byte [where k = 4, simplified] write_hex_byte [where k = 5, simplified]
  write_hex_byte [where k = 6, simplified] write_hex_byte [where k = 7, simplified]

lemma kd_cwrite_hex_string: "kd_cwrite_hex io m bg fg s = kd_cwrite io ([48, 120] @ hex_string 8 (unat m)) bg fg s"
  by (simp add: kd_cwrite_hex_def hex_strings kd_cwrite_append write_hex_bytes del: append.simps)

text \<open>
  Hexadecimal output: \<open>kd_cwrite_hex64\<close> writes exactly what writing the string of the 16 hexadecimal
  digits of the number would, and \<open>kd_cwrite_hex\<close> the 8 digits of its 32-bit number. \<open>kd_write_hex64\<close>,
  documented to write a 64-bit number, writes only the 8 digits of its low half.
\<close>

theorem hex_output:
  "kd_cwrite_hex64 io n bg fg s = kd_cwrite io ([48, 120] @ hex_string 16 (unat n)) bg fg s \<and>
   kd_cwrite_hex io m bg fg s = kd_cwrite io ([48, 120] @ hex_string 8 (unat m)) bg fg s \<and>
   kd_write_hex64 io n s = kd_cwrite io ([48, 120] @ hex_string 8 (unat n mod 2 ^ 32)) 0 7 s"
proof (intro conjI)
  show "kd_cwrite_hex64 io n bg fg s = kd_cwrite io ([48, 120] @ hex_string 16 (unat n)) bg fg s"
    by (simp add: kd_cwrite_hex64_def hex_strings kd_cwrite_append write_hex_bytes del: append.simps)
  show "kd_cwrite_hex io m bg fg s = kd_cwrite io ([48, 120] @ hex_string 8 (unat m)) bg fg s"
    by (rule kd_cwrite_hex_string)
  show "kd_write_hex64 io n s = kd_cwrite io ([48, 120] @ hex_string 8 (unat n mod 2 ^ 32)) 0 7 s"
    by (simp add: kd_write_hex64_def kd_cwrite_hex_string unat_ucast_u64_u32 del: append.simps)
qed

text \<open>
  \<open>hextochar\<close> does not cut the quotients to one byte before taking the high digit: its buffer for
  \<open>0x10000\<close> holds the character after the digits.
\<close>

lemma hextochar_wrong: "hextochar 0x10000 = [48, 120, 48, 48, 48, 49, 64, 48, 48, 48]"
  "[48, 120] @ hex_string 8 0x10000 = [48, 120, 48, 48, 48, 49, 48, 48, 48, 48]"
  by (simp_all add: hextochar_def bytetohex_def hex_strings digit_at_def hex_digit_def word_le_nat_alt)

text \<open>\<open>reverse\<close> mirrors the bits of a byte.\<close>

lemma reverse_bits:
  assumes "n < 8"
  shows "bit (reverse b) n \<longleftrightarrow> bit b (7 - n)"
proof -
  have "n \<in> {0, 1, 2, 3, 4, 5, 6, 7}" using assms unfolding insert_iff empty_iff by arith
  then show ?thesis
    unfolding reverse_def Let_def bit_or_iff bit_and_iff bit_drop_bit_eq bit_push_bit_iff comp_def
    by (elim insertE emptyE) (simp_all add: bit_or_iff bit_and_iff bit_drop_bit_eq bit_push_bit_iff)
qed

end
