(* ===== verification/Kclib_Glue.thy ===== *)
theory Kclib_Glue
  imports Vm_Frame Console
begin

text \<open>
  The services that the kernel gives its C library (\<open>kclib/kclib.c\<close>): the growth of the kernel heap on top of
  the page tables, the standard output on the console, the clock and the thread id.
\<close>

section \<open>The kernel heap\<close>

definition kclib_heap_start :: "'a heap_state_scheme \<Rightarrow> u64" where
  "kclib_heap_start s = heap_start_address s"

text \<open>The heap only grows: its start moves past every block handed out, and NULL (0) is a failure.\<close>

definition kclib_allocate :: "('arr, ('arr, 'q, 'z) smp_state_scheme) smp_env \<Rightarrow> u64
    \<Rightarrow> ('arr, 'q, 'z) smp_state_scheme \<Rightarrow> (u64 \<times> ('arr, 'q, 'z) smp_state_scheme) option" where
  "kclib_allocate E aamount s =
     do { let ha = heap_start_address s;
          (ok, s1) \<leftarrow> allocate E (heap_start_address s) aamount True False (active_page s) s;
          Some (if \<not> ok then (0, s1)
                else (ha, s1\<lparr>heap_start_address := heap_start_address s1 + ALIGN_UP aamount 0x1000\<rparr>)) }"

definition kclib_deallocate :: "('arr, ('arr, 'q, 'z) smp_state_scheme) smp_env \<Rightarrow> u64 \<Rightarrow> u64
    \<Rightarrow> ('arr, 'q, 'z) smp_state_scheme \<Rightarrow> ('arr, 'q, 'z) smp_state_scheme option" where
  "kclib_deallocate E afrom aamount s = deallocate E afrom aamount (active_page s) s"

section \<open>Streams, clock and thread id\<close>

definition kclib_open_std_stream :: "u8 \<Rightarrow> u64" where
  "kclib_open_std_stream request_mode = ucast request_mode"

definition kclib_send_data :: "'d io_env \<Rightarrow> u64 \<Rightarrow> u8 list \<Rightarrow> ('d, 'z) console_scheme
    \<Rightarrow> (nat \<times> ('d, 'z) console_scheme) option" where
  "kclib_send_data io stream arr s =
     (if stream = 1 then map_option (Pair (length arr)) (each (kd_put io) arr s) else Some (0, s))"

definition kclib_read_data :: "u64 \<Rightarrow> u64 \<Rightarrow> nat \<Rightarrow> nat" where
  "kclib_read_data stream buffer read_amount = 0"

definition kclib_clock :: "u64 \<Rightarrow> clock \<Rightarrow> u64" where
  "kclib_clock clocks_per_sec k = get_unix_time k * clocks_per_sec"

definition kclib_get_tid :: "bool \<Rightarrow> ('arr, 'q, 'z) smp_state_scheme \<Rightarrow> u8" where
  "kclib_get_tid multiprocessing_ready s = (if multiprocessing_ready then get_local_apic_id s else 0)"

section \<open>The pages of the heap\<close>

definition kheap_base :: u64 where
  "kheap_base = ADDRESS_OFFSET RESERVED_KBLOCK_KHEAP_MAPPINGS"

definition heap_page :: "nat \<Rightarrow> u64" where
  "heap_page k = page_k kheap_base k"

definition heap_pages :: "u64 \<Rightarrow> nat" where
  "heap_pages amount = (unat amount + 4095) div 4096"

lemma kheap_base_value: "kheap_base = 0xFFFFFE8000000000"
  by (simp add: kheap_base_def ADDRESS_OFFSET_def RESERVED_KBLOCK_KHEAP_MAPPINGS_def push_bit_eq_mult)

lemma unat_heap_page:
  assumes "k \<le> 134217728"
  shows "unat (heap_page k) = 18446742424442109952 + k * 4096"
proof -
  have "unat (of_nat (k * 4096) :: u64) = k * 4096" using assms by (intro unat_of_nat_u64) simp
  then show ?thesis
    using assms by (simp add: heap_page_def page_k_def kheap_base_value unat_add_no_wrap)
qed

lemma page_k_heap: "page_k (heap_page n) j = heap_page (n + j)"
  by (simp add: heap_page_def page_k_def algebra_simps)

lemma heap_page_add: "heap_page n + of_nat m * 0x1000 = heap_page (n + m)"
  by (simp add: heap_page_def page_k_def algebra_simps)

lemma ALIGN_heap_page: "n \<le> 134217728 \<Longrightarrow> ALIGN (heap_page n) = heap_page n"
  by (rule ALIGN_dvd) (simp add: unat_heap_page)

lemma unat_field_get: "unat (field_get off w (x :: u64)) = unat x div 2 ^ off mod 2 ^ w"
  unfolding field_get_def unsigned_take_bit_eq unat_drop_bit_eq
  by (simp only: take_bit_eq_mod drop_bit_eq_div)

lemma slot_index:
  fixes A k :: nat
  shows "(A * 134217728 + k) div 512 = A * 262144 + k div 512" "(A * 134217728 + k) div 262144 = A * 512 + k div 262144"
    "(A * 134217728 + k) div 134217728 = A + k div 134217728" "(A * 134217728 + k) mod 512 = k mod 512"
    "(A * 262144 + k) mod 512 = k mod 512"
proof -
  have m: "A * 134217728 = (A * 262144) * 512" "A * 134217728 = (A * 512) * 262144" "A * 262144 = (A * 512) * 512" by simp_all
  show "(A * 134217728 + k) div 512 = A * 262144 + k div 512" unfolding m(1) by simp
  show "(A * 134217728 + k) div 262144 = A * 512 + k div 262144" unfolding m(2) by simp
  show "(A * 134217728 + k) mod 512 = k mod 512" unfolding m(1) by (rule mod_mult_self3)
  show "(A * 262144 + k) mod 512 = k mod 512" unfolding m(3) by (rule mod_mult_self3)
qed simp

lemma heap_page_index:
  assumes "k < 134217728"
  shows "unat (va_table (heap_page k)) = k mod 512" "unat (va_directory (heap_page k)) = k div 512 mod 512"
    "unat (va_directory_ptr (heap_page k)) = k div 262144" "va_pml (heap_page k) = 509"
proof -
  define A :: nat where "A = 33554429"
  have u: "unat (heap_page k) = (A * 134217728 + k) * 4096"
    using assms by (simp add: unat_heap_page A_def)
  have d: "unat (heap_page k) div (4096 * m) = (A * 134217728 + k) div m" for m
    unfolding u using div_mult_mult2 [of 4096 "A * 134217728 + k" m] by (simp add: mult.commute)
  note d = d [of 1, simplified] d [of 512, simplified] d [of 262144, simplified] d [of 134217728, simplified]
  have k: "k div 262144 < 512" using assms by (simp add: less_mult_imp_div_less)
  show "unat (va_table (heap_page k)) = k mod 512"
    by (simp add: va_table_def unat_field_get d slot_index)
  show "unat (va_directory (heap_page k)) = k div 512 mod 512"
    by (simp add: va_directory_def unat_field_get d slot_index)
  show "unat (va_directory_ptr (heap_page k)) = k div 262144"
    using k by (simp add: va_directory_ptr_def unat_field_get d slot_index)
  have "unat (va_pml (heap_page k)) = unat (509 :: u64)"
    using assms by (simp add: va_pml_def unat_field_get d slot_index A_def)
  then show "va_pml (heap_page k) = 509" by (simp only: word_unat_eq_iff)
qed

lemma same_heap_page:
  assumes "j < 134217728" "k < 134217728"
  shows "same_page (heap_page j) (heap_page k) \<longleftrightarrow> j = k"
proof
  assume "same_page (heap_page j) (heap_page k)"
  then have eq: "j mod 512 = k mod 512" "j div 512 mod 512 = k div 512 mod 512" "j div 262144 = k div 262144"
    using heap_page_index [OF assms(1)] heap_page_index [OF assms(2)] by (auto simp: same_page_def path_def)
  have "512 * (j div 512 mod 512) + j mod 512 = 512 * (k div 512 mod 512) + k mod 512" by (simp only: eq)
  then have low: "j mod 262144 = k mod 262144" using mod_mult2_eq [of j 512 512] mod_mult2_eq [of k 512 512] by simp
  have "j = j div 262144 * 262144 + j mod 262144" by (simp only: div_mult_mod_eq)
  also have "\<dots> = k" unfolding eq(3) low by (rule div_mult_mod_eq)
  finally show "j = k" .
qed simp

section \<open>The invariant of the heap\<close>

text \<open>
  The heap is \<open>n\<close> pages long: its pages lie in slot 509 of the active page table, are kernel pages or given
  back, and behind its end nothing is mapped.
\<close>

definition heap_ok :: "('arr, ('arr, 'q, 'z) smp_state_scheme) smp_env \<Rightarrow> ('arr, 'q, 'z) smp_state_scheme \<Rightarrow> nat \<Rightarrow> bool" where
  "heap_ok E s n \<longleftrightarrow>
     vm_ok {509} s (active_page s) \<and> low_frames s \<and> frame_lock s = 0 \<and> one_cpu E s \<and>
     n \<le> 134217728 \<and> heap_start_address s = heap_page n \<and>
     (\<forall>k < 134217728. pte s (active_page s) (heap_page k) = 0 \<or>
        k < n \<and> (\<exists>f. pte s (active_page s) (heap_page k) = page_entry f True False False))"

lemma in_heap_range:
  assumes "e \<le> unat (heap_page 134217728)" "n \<le> 134217728" "k < 134217728"
  shows "in_range (heap_page n) e (heap_page k) \<longleftrightarrow> n \<le> k \<and> unat (heap_page k) < e"
proof
  assume "in_range (heap_page n) e (heap_page k)"
  then obtain j where j: "unat (heap_page n) + j * 4096 < e" "same_page (heap_page (n + j)) (heap_page k)"
    by (auto simp: in_range_def page_k_heap)
  then have "n + j < 134217728" using assms by (simp add: unat_heap_page)
  then show "n \<le> k \<and> unat (heap_page k) < e"
    using j assms by (simp add: same_heap_page unat_heap_page algebra_simps)
next
  assume "n \<le> k \<and> unat (heap_page k) < e"
  then show "in_range (heap_page n) e (heap_page k)"
    unfolding in_range_def using assms
    by (intro exI [of _ "k - n"]) (simp add: page_k_heap unat_heap_page algebra_simps)
qed

lemma heap_pages_bounds:
  "unat amount \<le> heap_pages amount * 4096" "k < heap_pages amount \<longleftrightarrow> k * 4096 < unat amount"
  by (auto simp: heap_pages_def less_eq_div_iff_mult_less_eq div_le_dividend)

lemma heap_page_new:
  assumes "n \<le> k" "k < 134217728"
  shows "unat (heap_page k) < unat (heap_page n) + unat amount \<longleftrightarrow> k < n + heap_pages amount"
  using heap_pages_bounds(2) [of "k - n" amount] assms by (simp add: unat_heap_page algebra_simps) linarith

lemma ALIGN_UP_heap_pages:
  assumes "heap_pages amount \<le> 134217728"
  shows "ALIGN_UP amount 0x1000 = of_nat (heap_pages amount) * 0x1000"
proof -
  have a: "unat amount \<le> 549755813888" using assms heap_pages_bounds(1) [of amount] by linarith
  have round: "(if x mod 4096 = 0 then x else x - x mod 4096 + 4096) = (x + 4095) div 4096 * 4096" for x :: nat
  proof -
    obtain q r where x: "x = q * 4096 + r" "r < 4096"
      using div_mult_mod_eq [of x 4096] mod_less_divisor [of 4096 x] by (metis zero_less_numeral)
    have "(r + 4095) div 4096 = (if r = 0 then 0 else 1)"
      using x(2) by (auto simp: div_nat_eqI)
    moreover have "(x + 4095) div 4096 = q + (r + 4095) div 4096" unfolding x(1) add.assoc by simp
    ultimately show ?thesis using x by simp
  qed
  have "unat (ALIGN_UP amount 0x1000) = (if unat amount mod 4096 = 0 then unat amount else unat amount - unat amount mod 4096 + 4096)"
    using a by (subst Commons.unat_ALIGN_UP) simp_all
  also have "\<dots> = heap_pages amount * 4096" unfolding heap_pages_def by (rule round)
  also have "\<dots> = unat (of_nat (heap_pages amount * 4096) :: u64)" using assms by (subst unat_of_nat_u64) simp_all
  finally show ?thesis by (simp add: word_unat_eq_iff)
qed

lemma heap_start_update [simp]:
  "vm_ok I (s\<lparr>heap_start_address := x\<rparr>) cr3 = vm_ok I s cr3" "pte (s\<lparr>heap_start_address := x\<rparr>) = pte s"
  "low_frames (s\<lparr>heap_start_address := x\<rparr>) = low_frames s"
  by (rule vm_fields; simp)+

lemma one_cpu_heap_start [simp]: "one_cpu E (s\<lparr>heap_start_address := x\<rparr>) = one_cpu E s"
  by (simp add: one_cpu_def get_local_apic_id_def)

lemma kclib_allocate_spec:
  assumes ok: "heap_ok E s n" and room: "n + heap_pages amount \<le> 134217728"
  obtains p s' where "kclib_allocate E amount s = Some (p, s')"
    "\<And>k. k < n \<Longrightarrow> pte s' (active_page s) (heap_page k) = pte s (active_page s) (heap_page k)"
    "p = 0 \<Longrightarrow> heap_ok E s' n"
    "p \<noteq> 0 \<Longrightarrow> p = heap_page n \<and> heap_ok E s' (n + heap_pages amount)"
    "\<And>k. p \<noteq> 0 \<Longrightarrow> n \<le> k \<Longrightarrow> k < n + heap_pages amount \<Longrightarrow>
       \<exists>f. pte s' (active_page s) (heap_page k) = page_entry f True False False"
    "active_page s' = active_page s"
proof -
  let ?c = "active_page s" and ?m = "heap_pages amount" and ?e = "unat (heap_page n) + unat amount"
  have H: "vm_ok {509} s ?c" "low_frames s" "frame_lock s = 0" "one_cpu E s" "n \<le> 134217728" "heap_start_address s = heap_page n"
    and pages: "\<And>k. k < 134217728 \<Longrightarrow> pte s ?c (heap_page k) = 0 \<or> k < n \<and> (\<exists>f. pte s ?c (heap_page k) = page_entry f True False False)"
    using ok by (auto simp: heap_ok_def)
  have e: "?e \<le> unat (heap_page 134217728)" "?e + 12288 \<le> 18446744073709551616"
    using heap_pages_bounds(1) [of amount] room H(5) by (simp_all add: unat_heap_page)
  note new = heap_page_new [of n _ amount]
  have plain: "va_pml (page_k (ALIGN (heap_page n)) j) \<in> {509} \<and> plain_entry (pte s ?c (page_k (ALIGN (heap_page n)) j))"
    if "unat (ALIGN (heap_page n)) + j * 4096 < ?e" for j
  proof -
    have "n + j < 134217728" using that e(1) H(5) by (simp add: ALIGN_heap_page unat_heap_page)
    then show ?thesis using pages [of "n + j"] H(5) by (auto simp: ALIGN_heap_page page_k_heap heap_page_index plain_entry_zero)
  qed
  obtain good s1 j where r: "allocate E (heap_page n) amount True False ?c s = Some (good, s1)" "vm_ok {509} s1 ?c"
    "low_frames s1" "frame_lock s1 = 0" "one_cpu E s1"
    and ptes: "\<And>va. va_pml va \<in> {509} \<Longrightarrow>
       (if good then
          (if in_range (ALIGN (heap_page n)) ?e va
           then \<exists>f. pte s1 ?c va = page_entry f True False False else pte s1 ?c va = pte s ?c va)
        else pte s1 ?c va = (if in_range (ALIGN (heap_page n)) (unat (ALIGN (heap_page n)) + j * 4096) va then 0 else pte s ?c va))"
    and j: "\<not> good \<Longrightarrow> unat (ALIGN (heap_page n)) + j * 4096 < ?e"
    using allocate_spec [OF H(1-4) e(2), of True False] plain by blast
  note o = outer_parts(2,3) [OF allocate_outer [OF H(4) r(1)]]
  have page: "if good then (if n \<le> k \<and> k < n + ?m then \<exists>f. pte s1 ?c (heap_page k) = page_entry f True False False
        else pte s1 ?c (heap_page k) = pte s ?c (heap_page k))
      else pte s1 ?c (heap_page k) = pte s ?c (heap_page k)" if "k < 134217728" for k
  proof -
    have "in_range (heap_page n) ?e (heap_page k) \<longleftrightarrow> n \<le> k \<and> k < n + ?m"
      using in_heap_range [OF e(1) H(5) that] new [OF _ that] by blast
    moreover have "\<not> good \<Longrightarrow> in_range (heap_page n) (unat (heap_page n) + j * 4096) (heap_page k) \<Longrightarrow> pte s ?c (heap_page k) = 0"
      using in_heap_range [of "unat (heap_page n) + j * 4096" n k] j e(1) H(5) that pages [OF that] by (simp add: ALIGN_heap_page)
    ultimately show ?thesis
      using ptes [of "heap_page k"] that H(5) by (auto simp: heap_page_index ALIGN_heap_page split: if_splits)
  qed
  show thesis
  proof (cases good)
    case False
    then show thesis
      using r o H page pages
      by (intro that [of 0 s1]) (auto simp: kclib_allocate_def heap_ok_def)
  next
    case True
    let ?s' = "s1\<lparr>heap_start_address := heap_start_address s1 + ALIGN_UP amount 0x1000\<rparr>"
    have st: "heap_start_address ?s' = heap_page (n + ?m)"
      using o(1) H(6) room by (simp add: ALIGN_UP_heap_pages heap_page_add)
    have "heap_ok E ?s' (n + ?m)"
      unfolding heap_ok_def st
    proof (intro conjI allI impI)
      fix k :: nat
      assume k: "k < 134217728"
      show "pte ?s' (active_page ?s') (heap_page k) = 0 \<or>
          k < n + ?m \<and> (\<exists>f. pte ?s' (active_page ?s') (heap_page k) = page_entry f True False False)"
        using page [OF k] pages [OF k] True o(2) by (auto split: if_splits)
    qed (use r o room in simp_all)
    moreover have "kclib_allocate E amount s = Some (heap_page n, ?s')"
      using r(1) H(6) True by (simp add: kclib_allocate_def)
    moreover have "heap_page n \<noteq> 0" using unat_heap_page [OF H(5)] by auto
    ultimately show thesis
      using page True H(5) room o(2) by (intro that [of "heap_page n" ?s']) auto
  qed
qed

lemma kclib_deallocate_spec:
  assumes ok: "heap_ok E s n" and range: "i + heap_pages amount \<le> n"
  obtains s' where "kclib_deallocate E (heap_page i) amount s = Some s'" "heap_ok E s' n" "active_page s' = active_page s"
    "\<And>k. k < 134217728 \<Longrightarrow> pte s' (active_page s) (heap_page k) =
       (if i \<le> k \<and> k < i + heap_pages amount then 0 else pte s (active_page s) (heap_page k))"
proof -
  let ?c = "active_page s" and ?m = "heap_pages amount" and ?e = "unat (heap_page i) + unat amount"
  have H: "vm_ok {509} s ?c" "low_frames s" "frame_lock s = 0" "one_cpu E s" "n \<le> 134217728" "heap_start_address s = heap_page n"
    and pages: "\<And>k. k < 134217728 \<Longrightarrow> pte s ?c (heap_page k) = 0 \<or> k < n \<and> (\<exists>f. pte s ?c (heap_page k) = page_entry f True False False)"
    using ok by (auto simp: heap_ok_def)
  have i: "i \<le> 134217728" using range H(5) by simp
  have e: "?e \<le> unat (heap_page 134217728)" "?e + 8192 \<le> 18446744073709551616"
    using heap_pages_bounds(1) [of amount] range H(5) by (simp_all add: unat_heap_page)
  have slot: "va_pml (page_k (ALIGN (heap_page i)) j) \<in> {509}" if "unat (ALIGN (heap_page i)) + j * 4096 < ?e" for j
    using that e(1) i by (simp add: ALIGN_heap_page page_k_heap heap_page_index unat_heap_page)
  obtain s' where r: "deallocate E (heap_page i) amount ?c s = Some s'" "vm_ok {509} s' ?c" "low_frames s'"
    "frame_lock s' = 0" "one_cpu E s'"
    and ptes: "\<And>va. va_pml va \<in> {509} \<Longrightarrow> pte s' ?c va =
       (if in_range (ALIGN (heap_page i)) ?e va \<and> PRESENT (pte s ?c va) then 0 else pte s ?c va)"
    using deallocate_spec [OF H(1-4) e(2) slot] by blast
  note o = outer_parts(2,3) [OF deallocate_outer [OF H(4) r(1)]]
  have page: "pte s' ?c (heap_page k) = (if i \<le> k \<and> k < i + ?m then 0 else pte s ?c (heap_page k))" if "k < 134217728" for k
  proof -
    have "unat (heap_page k) < ?e \<longleftrightarrow> k < i + ?m" if "i \<le> k"
      using heap_page_new [OF that \<open>k < 134217728\<close>] .
    then have "in_range (heap_page i) ?e (heap_page k) \<longleftrightarrow> i \<le> k \<and> k < i + ?m"
      using in_heap_range [OF e(1) i that] by blast
    moreover have "pte s ?c (heap_page k) = 0 \<or> PRESENT (pte s ?c (heap_page k))"
      using pages [OF that] by (auto simp: page_entry_present)
    ultimately show ?thesis
      using ptes [of "heap_page k"] that i by (auto simp: heap_page_index ALIGN_heap_page)
  qed
  have "heap_ok E s' n"
    using r o H page pages by (auto simp: heap_ok_def)
  then show thesis
    using r(1) o(2) page by (intro that [of s']) (auto simp: kclib_deallocate_def)
qed

section \<open>Properties\<close>

text \<open>
  Growing the kernel heap always returns and keeps the heap well-formed. On success the block is the
  \<open>heap_pages amount\<close> pages behind the old end, all of them present, writable and for the kernel only, and the
  pages of earlier blocks keep their entries; on failure (NULL) the heap is as long as before. Giving the
  block back leaves every page entry of the heap as it was before the allocation, but the heap stays
  as long: its addresses are not used again.
\<close>

theorem kernel_heap_blocks:
  assumes "heap_ok E s n" and "n + heap_pages amount \<le> 134217728"
  shows "\<exists>p s'. kclib_allocate E amount s = Some (p, s') \<and>
    (if p = 0 then heap_ok E s' n
     else p = heap_page n \<and> heap_ok E s' (n + heap_pages amount) \<and>
       (\<forall>k < n + heap_pages amount. let e = pte s' (active_page s') (heap_page k)
          in if k < n then e = pte s (active_page s) (heap_page k) else PRESENT e \<and> bit e 1 \<and> \<not> bit e 2) \<and>
       (\<exists>s''. kclib_deallocate E p amount s' = Some s'' \<and> heap_ok E s'' (n + heap_pages amount) \<and>
          (\<forall>k < 134217728. pte s'' (active_page s'') (heap_page k) = pte s (active_page s) (heap_page k))))"
proof (rule kclib_allocate_spec [OF assms])
  fix p s'
  assume run: "kclib_allocate E amount s = Some (p, s')"
    and old: "\<And>k. k < n \<Longrightarrow> pte s' (active_page s) (heap_page k) = pte s (active_page s) (heap_page k)"
    and fail: "p = 0 \<Longrightarrow> heap_ok E s' n"
    and good: "p \<noteq> 0 \<Longrightarrow> p = heap_page n \<and> heap_ok E s' (n + heap_pages amount)"
    and new: "\<And>k. p \<noteq> 0 \<Longrightarrow> n \<le> k \<Longrightarrow> k < n + heap_pages amount \<Longrightarrow>
       \<exists>f. pte s' (active_page s) (heap_page k) = page_entry f True False False"
    and act: "active_page s' = active_page s"
  show ?thesis
  proof (cases "p = 0")
    case True
    then show ?thesis using run fail by auto
  next
    case False
    have zero: "pte s (active_page s) (heap_page k) = 0" if "n \<le> k" "k < 134217728" for k
      using assms(1) that by (auto simp: heap_ok_def)
    have zero': "pte s' (active_page s) (heap_page k) = 0" if "n + heap_pages amount \<le> k" "k < 134217728" for k
      using good [OF False] that act by (auto simp: heap_ok_def)
    have flags: "PRESENT e \<and> bit e 1 \<and> \<not> bit e 2"
      if "n \<le> k" "k < n + heap_pages amount" "e = pte s' (active_page s) (heap_page k)" for k e
      using new [OF False that(1,2)] that(3) page_flags page_flags(1) [unfolded One_nat_def]
      by (auto simp: page_entry_present)
    have p: "p = heap_page n" and ok': "heap_ok E s' (n + heap_pages amount)" using good [OF False] by auto
    obtain s'' where d: "kclib_deallocate E (heap_page n) amount s' = Some s''" "heap_ok E s'' (n + heap_pages amount)"
      "active_page s'' = active_page s'"
      "\<And>k. k < 134217728 \<Longrightarrow> pte s'' (active_page s') (heap_page k) =
         (if n \<le> k \<and> k < n + heap_pages amount then 0 else pte s' (active_page s') (heap_page k))"
      by (rule kclib_deallocate_spec [OF ok' order_refl]) (rule that)
    have "pte s'' (active_page s'') (heap_page k) = pte s (active_page s) (heap_page k)" if "k < 134217728" for k
      using d(3) d(4) [OF that] act old [of k] zero [OF _ that] zero' [OF _ that] by (cases "k < n"; cases "k < n + heap_pages amount") auto
    then show ?thesis
      using run False p ok' old act flags d(1,2)
      by (intro exI [of _ p] exI [of _ s']) (auto simp: Let_def)
  qed
qed

definition demo_kheap :: "(nat list, nat list) smp_state" where
  "demo_kheap = (demo_smp [0])\<lparr>heap_start_address := heap_page 0, active_page := 0x100000\<rparr>"

lemma demo_kheap_ok: "heap_ok demo_env demo_kheap 0"
proof -
  have vm: "vm_ok {509} demo_kheap 0x100000" "low_frames demo_kheap" "pte demo_kheap 0x100000 va = 0" for va
    using demo_vm [where cs = "[0]"] vm_fields [of demo_kheap "demo_smp [0]"] by (simp_all add: demo_kheap_def)
  have "one_cpu demo_env demo_kheap"
    using demo_one_cpu by (simp add: demo_kheap_def one_cpu_def get_local_apic_id_def)
  then show ?thesis using vm by (simp add: heap_ok_def demo_kheap_def)
qed

theorem kernel_heap_blocks_witness:
  "\<exists>p s'. kclib_allocate demo_env 0x1800 demo_kheap = Some (p, s') \<and> (p = 0 \<or> p = heap_page 0 \<and> heap_ok demo_env s' 2)"
proof -
  have pages: "heap_pages 0x1800 = 2" by (simp add: heap_pages_def)
  show ?thesis using kernel_heap_blocks [OF demo_kheap_ok, of "0x1800"] unfolding pages by (auto simp: numeral_2_eq_2 split: if_splits)
qed

end
