(* ===== verification/Memory_Runs.thy ===== *)
theory Memory_Runs
  imports Process_Memory Kclib_Glue Transitions
begin

text \<open>
  Runs of the two allocators that clients use: the kernel heap (\<open>kclib_allocate\<close>,
  \<open>kclib_deallocate\<close>) and the memory of a process (\<open>proc_alloc_direct\<close>, \<open>proc_dealloc_direct\<close>). After any sequence
  of operations exactly the pages of live blocks are mapped in the heap, and no page of a process is
  present outside the areas of its map. Both are runs of a machine with one processor: with more, releasing
  memory waits for ever in \<open>tlb_shootdown\<close>.
\<close>

section \<open>Runs of the kernel heap\<close>

definition heap_index :: "u64 \<Rightarrow> nat" where
  "heap_index p = (unat p - unat kheap_base) div 4096"

definition block_pages :: "u64 \<times> u64 \<Rightarrow> nat set" where
  "block_pages = (\<lambda>(p, amount). {heap_index p ..< heap_index p + heap_pages amount})"

text \<open>
  The state of a run is the kernel state and the set of live blocks with their sizes. A block is not empty
  and fits into the slot of the heap; a failed allocation returns NULL.
\<close>

inductive heap_step :: "('arr, ('arr, 'q, 'z) smp_state_scheme) smp_env
    \<Rightarrow> ('arr, 'q, 'z) smp_state_scheme \<times> (u64 \<times> u64) set \<Rightarrow> ('arr, 'q, 'z) smp_state_scheme \<times> (u64 \<times> u64) set \<Rightarrow> bool"
  for E where
  grow: "0 < amount \<Longrightarrow> heap_index (heap_start_address s) + heap_pages amount \<le> 134217728 \<Longrightarrow>
    kclib_allocate E amount s = Some (p, s') \<Longrightarrow>
    heap_step E (s, B) (s', if p = 0 then B else insert (p, amount) B)"
| release: "(p, amount) \<in> B \<Longrightarrow> kclib_deallocate E p amount s = Some s' \<Longrightarrow>
    heap_step E (s, B) (s', B - {(p, amount)})"

inductive_cases heap_stepE: "heap_step E a a'"

definition blocks_ok :: "nat \<Rightarrow> (u64 \<times> u64) set \<Rightarrow> bool" where
  "blocks_ok n B \<longleftrightarrow>
     (\<forall>x \<in> B. fst x = heap_page (heap_index (fst x)) \<and> block_pages x \<noteq> {} \<and> block_pages x \<subseteq> {..<n}) \<and>
     (\<forall>x \<in> B. \<forall>y \<in> B. x \<noteq> y \<longrightarrow> block_pages x \<inter> block_pages y = {})"

definition heap_mapped :: "('arr, 'q, 'z) smp_state_scheme \<Rightarrow> nat set \<Rightarrow> bool" where
  "heap_mapped s K \<longleftrightarrow> (\<forall>k < 134217728. let e = pte s (active_page s) (heap_page k)
     in if k \<in> K then \<exists>f. e = page_entry f True False False else e = 0)"

definition heap_run_ok :: "('arr, ('arr, 'q, 'z) smp_state_scheme) smp_env
    \<Rightarrow> ('arr, 'q, 'z) smp_state_scheme \<times> (u64 \<times> u64) set \<Rightarrow> bool" where
  "heap_run_ok E = (\<lambda>(s, B). \<exists>n. heap_ok E s n \<and> blocks_ok n B \<and> heap_mapped s (\<Union> (block_pages ` B)))"

lemma heap_index_page: "i \<le> 134217728 \<Longrightarrow> heap_index (heap_page i) = i"
  by (simp add: heap_index_def unat_heap_page kheap_base_value)

lemma block_pages_page: "i \<le> 134217728 \<Longrightarrow> block_pages (heap_page i, amount) = {i ..< i + heap_pages amount}"
  by (simp add: block_pages_def heap_index_page)

lemma heap_pages_pos: "0 < amount \<Longrightarrow> 0 < heap_pages amount"
  using heap_pages_bounds(2) [of 0 amount] by (simp add: word_less_nat_alt)

lemma heap_index_start: "heap_ok E s n \<Longrightarrow> heap_index (heap_start_address s) = n \<and> n \<le> 134217728"
  by (simp add: heap_ok_def heap_index_page)

lemma heap_mappedD:
  "heap_mapped s K \<Longrightarrow> k < 134217728 \<Longrightarrow> k \<in> K \<Longrightarrow> \<exists>f. pte s (active_page s) (heap_page k) = page_entry f True False False"
  "heap_mapped s K \<Longrightarrow> k < 134217728 \<Longrightarrow> k \<notin> K \<Longrightarrow> pte s (active_page s) (heap_page k) = 0"
  by (auto simp: heap_mapped_def Let_def split: if_splits)

lemma heap_mappedI:
  assumes "\<And>k. k < 134217728 \<Longrightarrow> k \<in> K \<Longrightarrow> \<exists>f. pte s (active_page s) (heap_page k) = page_entry f True False False"
    and "\<And>k. k < 134217728 \<Longrightarrow> k \<notin> K \<Longrightarrow> pte s (active_page s) (heap_page k) = 0"
  shows "heap_mapped s K"
  using assms by (simp add: heap_mapped_def Let_def)

lemma blocks_ok_insert:
  assumes "blocks_ok n B" and "n \<le> 134217728" and "0 < amount"
  shows "blocks_ok (n + heap_pages amount) (insert (heap_page n, amount) B)" "(heap_page n, amount) \<notin> B"
proof -
  note p = block_pages_page [OF assms(2), of amount] and pos = heap_pages_pos [OF assms(3)]
  have old: "block_pages x \<subseteq> {..<n}" if "x \<in> B" for x using assms(1) that by (simp add: blocks_ok_def)
  then have apart: "block_pages (heap_page n, amount) \<inter> block_pages x = {}" if "x \<in> B" for x
    unfolding p using old [OF that] by auto
  then show "(heap_page n, amount) \<notin> B" using p pos by force
  have "block_pages x \<subseteq> {..<n + heap_pages amount}" if "x \<in> B" for x using old [OF that] by auto
  then show "blocks_ok (n + heap_pages amount) (insert (heap_page n, amount) B)"
    using assms(1,2) apart p pos by (auto simp: blocks_ok_def heap_index_page Int_commute)
qed

lemma grow_run_ok:
  assumes run: "heap_run_ok E (s, B)" and amount: "0 < amount"
    and room: "heap_index (heap_start_address s) + heap_pages amount \<le> 134217728"
  obtains p s' where "kclib_allocate E amount s = Some (p, s')" "heap_run_ok E (s', if p = 0 then B else insert (p, amount) B)"
    "p \<noteq> 0 \<Longrightarrow> (p, amount) \<notin> B"
proof -
  let ?K = "\<Union> (block_pages ` B)"
  obtain n where ok: "heap_ok E s n" and blocks: "blocks_ok n B" and pages: "heap_mapped s ?K"
    using run by (auto simp: heap_run_ok_def)
  note n = heap_index_start [OF ok]
  have K: "?K \<subseteq> {..<n}" using blocks by (auto simp: blocks_ok_def)
  show thesis
  proof (rule kclib_allocate_spec [OF ok])
    show "n + heap_pages amount \<le> 134217728" using room n by simp
    fix p s'
    assume r: "kclib_allocate E amount s = Some (p, s')"
      and keep: "\<And>k. k < n \<Longrightarrow> pte s' (active_page s) (heap_page k) = pte s (active_page s) (heap_page k)"
      and fail: "p = 0 \<Longrightarrow> heap_ok E s' n"
      and good: "p \<noteq> 0 \<Longrightarrow> p = heap_page n \<and> heap_ok E s' (n + heap_pages amount)"
      and new: "\<And>k. p \<noteq> 0 \<Longrightarrow> n \<le> k \<Longrightarrow> k < n + heap_pages amount \<Longrightarrow>
         \<exists>f. pte s' (active_page s) (heap_page k) = page_entry f True False False"
      and act: "active_page s' = active_page s"
    have low: "k \<in> ?K \<Longrightarrow> \<exists>f. pte s' (active_page s') (heap_page k) = page_entry f True False False"
      "k < n \<Longrightarrow> k \<notin> ?K \<Longrightarrow> pte s' (active_page s') (heap_page k) = 0" for k
      using heap_mappedD [OF pages, of k] keep [of k] n act K by auto
    show thesis
    proof (cases "p = 0")
      case True
      have "pte s' (active_page s') (heap_page k) = 0" if "k < 134217728" "\<not> k < n" for k
        using fail [OF True] that by (auto simp: heap_ok_def)
      then have "heap_mapped s' ?K" using low by (intro heap_mappedI) blast+
      then show thesis using that [OF r] True fail blocks by (auto simp: heap_run_ok_def)
    next
      case False
      note g = good [OF False] and ins = blocks_ok_insert [OF blocks _ amount]
      have bp: "block_pages (p, amount) = {n ..< n + heap_pages amount}" using g n by (simp add: block_pages_page)
      have high: "pte s' (active_page s') (heap_page k) = 0" if "\<not> k < n + heap_pages amount" "k < 134217728" for k
        using g that by (auto simp: heap_ok_def)
      have "heap_mapped s' (?K \<union> {n ..< n + heap_pages amount})"
      proof (rule heap_mappedI)
        fix k :: nat
        assume "k < 134217728" "k \<notin> ?K \<union> {n ..< n + heap_pages amount}"
        then show "pte s' (active_page s') (heap_page k) = 0" using low(2) [of k] high [of k] by force
      qed (use low(1) new [OF False] act in auto)
      then have "heap_run_ok E (s', insert (p, amount) B)"
        using g ins(1) n bp by (auto simp: heap_run_ok_def Un_commute)
      then show thesis using that [OF r] False ins(2) g n by simp
    qed
  qed
qed

lemma release_run_ok:
  assumes run: "heap_run_ok E (s, B)" and x: "(p, amount) \<in> B"
  obtains s' where "kclib_deallocate E p amount s = Some s'" "heap_run_ok E (s', B - {(p, amount)})"
proof -
  let ?K = "\<Union> (block_pages ` B)" and ?i = "heap_index p"
  obtain n where ok: "heap_ok E s n" and blocks: "blocks_ok n B" and pages: "heap_mapped s ?K"
    using run by (auto simp: heap_run_ok_def)
  have p: "heap_page ?i = p" and bp: "block_pages (p, amount) = {?i ..< ?i + heap_pages amount}"
    and range: "?i + heap_pages amount \<le> n"
  proof -
    show bp: "block_pages (p, amount) = {?i ..< ?i + heap_pages amount}" by (simp add: block_pages_def)
    show "heap_page ?i = p" using blocks x by (force simp: blocks_ok_def)
    have "{?i ..< ?i + heap_pages amount} \<noteq> {}" "{?i ..< ?i + heap_pages amount} \<subseteq> {..<n}"
      using blocks x bp unfolding blocks_ok_def by blast+
    then show "?i + heap_pages amount \<le> n" by (simp add: ivl_subset lessThan_atLeast0)
  qed
  have apart: "block_pages y \<inter> {?i ..< ?i + heap_pages amount} = {}" if "y \<in> B - {(p, amount)}" for y
    using blocks x that bp unfolding blocks_ok_def by blast
  then have K: "\<Union> (block_pages ` (B - {(p, amount)})) = ?K - {?i ..< ?i + heap_pages amount}"
    using bp by blast
  show thesis
  proof (rule kclib_deallocate_spec [OF ok range])
    fix s'
    assume r: "kclib_deallocate E (heap_page ?i) amount s = Some s'" "heap_ok E s' n" "active_page s' = active_page s"
      and e: "\<And>k. k < 134217728 \<Longrightarrow> pte s' (active_page s) (heap_page k) =
         (if ?i \<le> k \<and> k < ?i + heap_pages amount then 0 else pte s (active_page s) (heap_page k))"
    have "heap_mapped s' (\<Union> (block_pages ` (B - {(p, amount)})))"
      unfolding K heap_mapped_def Let_def r(3) using e heap_mappedD [OF pages] by auto
    moreover have "blocks_ok n (B - {(p, amount)})" using blocks by (auto simp: blocks_ok_def)
    ultimately show thesis using r(1,2) p by (intro that [of s']) (auto simp: heap_run_ok_def)
  qed
qed

text \<open>The start of a run: one processor (part of \<open>heap_ok\<close>), and no page of the heap is mapped.\<close>

definition heap_init :: "('arr, ('arr, 'q, 'z) smp_state_scheme) smp_env
    \<Rightarrow> ('arr, 'q, 'z) smp_state_scheme \<times> (u64 \<times> u64) set \<Rightarrow> bool" where
  "heap_init E = (\<lambda>(s, B). heap_ok E s 0 \<and> B = {})"

lemma heap_step_ok: "heap_run_ok E a \<Longrightarrow> heap_step E a a' \<Longrightarrow> heap_run_ok E a'"
  by (erule heap_stepE) (metis grow_run_ok release_run_ok option.inject prod.inject)+

interpretation heap_runs: invariant_system "heap_init E" "heap_step E" "heap_run_ok E" for E
proof unfold_locales
  fix a :: "('a, 'b, 'c) smp_state_scheme \<times> (u64 \<times> u64) set" and E
  assume "heap_init E a"
  then obtain s where a: "a = (s, {})" "heap_ok E s 0" by (auto simp: heap_init_def)
  then have "heap_mapped s {}" by (intro heap_mappedI) (auto simp: heap_ok_def)
  then show "heap_run_ok E a" using a by (auto simp: heap_run_ok_def blocks_ok_def)
qed (rule heap_step_ok)

text \<open>
  C5. On one processor, starting with an empty heap, whatever blocks are allocated and given back: the live blocks never
  overlap; exactly their pages are present, writable and for the kernel only, and every other page of the
  heap is unmapped; giving back a live block always returns; and so does every allocation that fits, and its
  block overlaps no live one.
\<close>

theorem kernel_heap_runs:
  assumes "reach (heap_init E) (heap_step E) (s, B)"
  shows "(\<forall>x \<in> B. \<forall>y \<in> B. x \<noteq> y \<longrightarrow> block_pages x \<inter> block_pages y = {}) \<and>
    (\<forall>k < 134217728. let e = pte s (active_page s) (heap_page k)
       in if k \<in> \<Union> (block_pages ` B) then PRESENT e \<and> bit e 1 \<and> \<not> bit e 2 else e = 0) \<and>
    (\<forall>(p, amount) \<in> B. \<exists>s'. kclib_deallocate E p amount s = Some s') \<and>
    (\<forall>amount. 0 < amount \<longrightarrow> heap_index (heap_start_address s) + heap_pages amount \<le> 134217728 \<longrightarrow>
       (\<exists>p s'. kclib_allocate E amount s = Some (p, s') \<and>
          (p \<noteq> 0 \<longrightarrow> (\<forall>x \<in> B. block_pages x \<inter> block_pages (p, amount) = {}))))"
proof (intro conjI allI impI)
  note ok = heap_runs.reach_inv [OF assms]
  then obtain n where n: "blocks_ok n B" "heap_mapped s (\<Union> (block_pages ` B))" by (auto simp: heap_run_ok_def)
  show "\<forall>x \<in> B. \<forall>y \<in> B. x \<noteq> y \<longrightarrow> block_pages x \<inter> block_pages y = {}" using n(1) by (simp add: blocks_ok_def)
  show "\<forall>(p, amount) \<in> B. \<exists>s'. kclib_deallocate E p amount s = Some s'" using release_run_ok [OF ok] by blast
next
  fix k :: nat
  assume k: "k < 134217728"
  obtain n where "blocks_ok n B" and m: "heap_mapped s (\<Union> (block_pages ` B))"
    using heap_runs.reach_inv [OF assms] by (auto simp: heap_run_ok_def)
  show "let e = pte s (active_page s) (heap_page k)
       in if k \<in> \<Union> (block_pages ` B) then PRESENT e \<and> bit e 1 \<and> \<not> bit e 2 else e = 0"
  proof (cases "k \<in> \<Union> (block_pages ` B)")
    case True
    obtain f where "pte s (active_page s) (heap_page k) = page_entry f True False False"
      using heap_mappedD(1) [OF m k True] by blast
    then show ?thesis
      using True page_flags page_flags(1) [unfolded One_nat_def] by (simp add: page_entry_present)
  next
    case False
    then show ?thesis using heap_mappedD(2) [OF m k False] by simp
  qed
next
  fix amount :: u64
  assume a: "0 < amount" "heap_index (heap_start_address s) + heap_pages amount \<le> 134217728"
  show "\<exists>p s'. kclib_allocate E amount s = Some (p, s') \<and>
      (p \<noteq> 0 \<longrightarrow> (\<forall>x \<in> B. block_pages x \<inter> block_pages (p, amount) = {}))"
  proof (rule grow_run_ok [OF heap_runs.reach_inv [OF assms] a])
    fix p s'
    assume r: "kclib_allocate E amount s = Some (p, s')" "heap_run_ok E (s', if p = 0 then B else insert (p, amount) B)"
      "p \<noteq> 0 \<Longrightarrow> (p, amount) \<notin> B"
    then have "\<forall>x \<in> B. block_pages x \<inter> block_pages (p, amount) = {}" if "p \<noteq> 0"
      using that by (auto simp: heap_run_ok_def blocks_ok_def)
    then show ?thesis using r(1) by blast
  qed
qed

text \<open>A machine with five free frames: three tables, a page and one to spare.\<close>

definition big_section :: section_info where
  "big_section = \<lparr>head = Some 0,
     frame_array = map (\<lambda>i. \<lparr>usage_count = 0, cow_count = 0, bound_stack_element = i\<rparr>) [0..<5],
     stack_elements = map (\<lambda>i. \<lparr>frame_address = 0x200000 + of_nat i * 0x1000, array_ord = of_nat i,
       next_element = (if i < 4 then Some (Suc i) else None)\<rparr>) [0..<5],
     start_word = 0x200000, end_word = 0x205800, total_frames = 5\<rparr>"

definition big_heap :: "(nat list, nat list) smp_state" where
  "big_heap = (demo_smp [0])\<lparr>frame_pool := [big_section], heap_start_address := heap_page 0, active_page := 0x100000\<rparr>"

lemma big_section_wf: "section_wf big_section"
proof -
  have n: "n_frames big_section = 5" by (simp add: n_frames_def big_section_def)
  have "section_shape big_section" by (simp add: section_shape_def n page_aligned_dvd) (simp add: big_section_def page_aligned_dvd)
  moreover have "elements_wf big_section" by (simp add: elements_wf_def n) (simp add: big_section_def frame_at_def)
  moreover have "free_list big_section [0, 1, 2, 3, 4]"
  proof -
    have "i \<in> set [0, 1, 2, 3, 4] \<longleftrightarrow> i < 5" for i :: nat by auto
    moreover have "usage_count (frame_array big_section ! i) = 0" if "i < 5" for i using that by (simp add: big_section_def)
    moreover have "chain (stack_elements big_section) (head big_section) [0, 1, 2, 3, 4]" by (simp add: big_section_def)
    moreover have "0x200000 \<le> frame_at big_section i" if "i < 5" for i
      using that unat_frame_at [OF \<open>section_shape big_section\<close>, of i] by (simp add: n word_le_nat_alt) (simp add: big_section_def)
    ultimately show ?thesis by (auto simp: free_list_def n)
  qed
  ultimately show ?thesis by (auto simp: section_wf_def)
qed

lemma big_heap_ok: "heap_ok demo_env big_heap 0"
proof -
  have f: "kmem big_heap = (\<lambda>_. 0)" "frame_pool big_heap = [big_section]" "mem_mirror_present big_heap" by (simp_all add: big_heap_def)
  have wf: "mm_wf big_heap" by (simp add: mm_wf_def pool_wf_def f big_section_wf)
  have "low_frames big_heap"
    unfolding low_frames_def
  proof (intro allI impI)
    fix a assume "frame_refs big_heap a \<noteq> None"
    then have "unat a < 2117632"
      by (auto simp: frame_refs_def f map_add_Some_iff section_refs_def big_section_def n_frames_def split: if_splits)
    then have "\<not> bit (unat a) 63" by (simp add: bit_iff_odd)
    then show "\<not> bit a 63" by (simp add: bit_unsigned_iff)
  qed
  moreover have "one_cpu demo_env big_heap"
    using demo_one_cpu by (simp add: big_heap_def one_cpu_def get_local_apic_id_def)
  ultimately show ?thesis
    using zero_memory_vm [OF f(1) wf] by (simp add: heap_ok_def) (simp add: big_heap_def)
qed

lemma big_heap_serves: "map_option fst (kclib_allocate demo_env 0x1000 big_heap) = Some 0xFFFFFE8000000000"
  by code_simp

theorem kernel_heap_runs_witness:
  "\<exists>p s s'. kclib_allocate demo_env 0x1000 big_heap = Some (p, s) \<and> p \<noteq> 0 \<and> PRESENT (pte s (active_page s) (heap_page 0)) \<and>
     kclib_deallocate demo_env p 0x1000 s = Some s'"
proof -
  have init: "heap_init demo_env (big_heap, {})" using big_heap_ok by (simp add: heap_init_def)
  have i0: "heap_index (heap_start_address big_heap) = 0" using heap_index_start [OF big_heap_ok] by simp
  have pages: "heap_pages 0x1000 = 1" by (simp add: heap_pages_def)
  obtain p s where r: "kclib_allocate demo_env 0x1000 big_heap = Some (p, s)" "p \<noteq> 0"
    using big_heap_serves by (cases "kclib_allocate demo_env 0x1000 big_heap") auto
  have step: "heap_step demo_env (big_heap, {}) (s, {(p, 0x1000)})"
    using heap_step.grow [OF _ _ r(1), of "{}"] r(2) i0 pages by simp
  have run: "reach (heap_init demo_env) (heap_step demo_env) (s, {(p, 0x1000)})"
    by (rule reach.reach_step [where s = "(big_heap, {})"]) (use step init in \<open>auto intro: reach.reach_init\<close>)
  have "p = heap_page 0" using r by (auto simp: kclib_allocate_def big_heap_def split: Option.bind_splits if_splits)
  then have "0 \<in> \<Union> (block_pages ` {(p, 0x1000)})" using pages heap_index_page [of 0] by (simp add: block_pages_def)
  then show ?thesis using kernel_heap_runs [OF run] r by (fastforce simp: Let_def)
qed

section \<open>Runs of the memory of a process\<close>

text \<open>
  The operations on the memory of process \<open>p\<close>: an allocation of whole pages for which the address space has
  room, and the release of an address in one of the process's areas that own their pages.
\<close>

inductive mem_step :: "('arr, ('arr, 'q, 'l, 'h, 'z) kernel_state_scheme) smp_env \<Rightarrow> ('q, 'l, 'h) ds_env \<Rightarrow> nat
    \<Rightarrow> ('arr, 'q, 'l, 'h, 'z) kernel_state_scheme \<Rightarrow> ('arr, 'q, 'l, 'h, 'z) kernel_state_scheme \<Rightarrow> bool"
  for E D p where
  take: "0 < sz \<Longrightarrow> 4096 dvd unat sz \<Longrightarrow>
    \<forall>m \<in> set (mem_maps (proc_at s p)). unat (vaend m) + (unat sz + 4096) \<le> 0x800000000000 \<Longrightarrow>
    unat sz + 4096 \<le> 0x800000000000 \<Longrightarrow>
    proc_alloc_direct E D p sz s = Some (a, s') \<Longrightarrow> mem_step E D p s s'"
| drop: "mmap_area_at (mem_maps (proc_at s p)) a = Some i \<Longrightarrow> i < length (mem_maps (proc_at s p)) \<Longrightarrow>
    mtype (mem_maps (proc_at s p) ! i) \<noteq> nondealloc_map \<Longrightarrow>
    proc_dealloc_direct E p a s = Some s' \<Longrightarrow> mem_step E D p s s'"

inductive_cases mem_stepE: "mem_step E D p s s'"

text \<open>Every present page lies in an area.\<close>

definition pages_in_areas :: "mmap_area list \<Rightarrow> ('arr, 'q, 'l, 'h, 'z) kernel_state_scheme \<Rightarrow> u64 \<Rightarrow> bool" where
  "pages_in_areas ms s cr3 \<longleftrightarrow> (\<forall>va. va_pml va \<in> user_slots \<longrightarrow> PRESENT (pte s cr3 va) \<longrightarrow>
     (\<exists>m \<in> set ms. in_range (vastart m) (unat (vaend m)) va))"

definition mem_run_ok :: "('arr, ('arr, 'q, 'l, 'h, 'z) kernel_state_scheme) smp_env \<Rightarrow> ('q, 'l, 'h) ds_env \<Rightarrow> nat
    \<Rightarrow> ('arr, 'q, 'l, 'h, 'z) kernel_state_scheme \<Rightarrow> bool" where
  "mem_run_ok E D p s \<longleftrightarrow>
     proc_mem_ok s p \<and> one_cpu E s \<and> (\<forall>seed d. 0 < d \<longrightarrow> fst (rg_next_uint_l D seed d) < d) \<and>
     pages_in_areas (mem_maps (proc_at s p)) s (pml4 (proc_at s p))"

lemma take_run_ok:
  assumes ok: "mem_run_ok E D p s" and sz: "0 < sz" "4096 dvd unat sz"
    and room: "\<forall>m \<in> set (mem_maps (proc_at s p)). unat (vaend m) + (unat sz + 4096) \<le> 0x800000000000"
      "unat sz + 4096 \<le> 0x800000000000"
  obtains a s' where "proc_alloc_direct E D p sz s = Some (a, s')" "mem_run_ok E D p s'"
proof -
  let ?ms = "mem_maps (proc_at s p)" and ?cr3 = "pml4 (proc_at s p)"
  have o: "proc_mem_ok s p" "one_cpu E s" and rg: "\<forall>seed d. 0 < d \<longrightarrow> fst (rg_next_uint_l D seed d) < d"
    and pages: "pages_in_areas ?ms s ?cr3" using ok by (simp_all add: mem_run_ok_def)
  obtain a s' i n where r: "proc_alloc_direct E D p sz s = Some (a, s')" "proc_mem_ok s' p" "one_cpu E s'"
    "pml4 (proc_at s' p) = ?cr3"
    "mem_maps (proc_at s' p) = take i ?ms @ (new_area a (a + sz))\<lparr>mtype := kernel_allocated_heap_data\<rparr> # drop i ?ms"
    "pages_mapped s ?cr3 a (unat sz) s' \<or>
     (\<forall>va. va_pml va \<in> user_slots \<longrightarrow> pte s' ?cr3 va = (if in_range a (unat a + n) va then 0 else pte s ?cr3 va))"
    using proc_alloc_direct_spec [OF o sz room rg] by auto
  have sets: "set (mem_maps (proc_at s' p)) = insert ((new_area a (a + sz))\<lparr>mtype := kernel_allocated_heap_data\<rparr>) (set ?ms)"
    unfolding r(5) by (metis Un_insert_right append_take_drop_id list.simps(15) set_append)
  have "area_ok ((new_area a (a + sz))\<lparr>mtype := kernel_allocated_heap_data\<rparr>)"
    using r(2) sets by (auto simp: proc_mem_ok_def Let_def maps_ok_def)
  then have less: "unat a < unat (a + sz)" by (simp add: area_ok_def new_area_def word_less_nat_alt)
  have e: "unat (a + sz) = unat a + unat sz"
  proof (rule unat_add_no_wrap, rule ccontr)
    assume "\<not> unat a + unat sz < 18446744073709551616"
    then have "unat (a + sz) = unat a + unat sz - 18446744073709551616"
      using unat_u64_bound [of a] unat_u64_bound [of sz] by (simp add: unat_add_u64 le_mod_geq)
    then show False using less unat_u64_bound [of sz] by linarith
  qed
  have "pages_in_areas (mem_maps (proc_at s' p)) s' ?cr3"
    unfolding pages_in_areas_def sets
  proof (intro allI impI)
    fix va assume va: "va_pml va \<in> user_slots" "PRESENT (pte s' ?cr3 va)"
    show "\<exists>m \<in> insert ((new_area a (a + sz))\<lparr>mtype := kernel_allocated_heap_data\<rparr>) (set ?ms). in_range (vastart m) (unat (vaend m)) va"
    proof (cases "in_range a (unat a + unat sz) va")
      case False
      then have "PRESENT (pte s ?cr3 va)"
        using r(6) va by (auto simp: pages_mapped_def split: if_splits)
      then show ?thesis using pages va(1) by (auto simp: pages_in_areas_def)
    qed (simp add: new_area_def e)
  qed
  then show thesis using that [OF r(1)] r(2-4) rg by (simp add: mem_run_ok_def)
qed

lemma drop_run_ok:
  assumes ok: "mem_run_ok E D p s" and i: "mmap_area_at (mem_maps (proc_at s p)) a = Some i"
    "i < length (mem_maps (proc_at s p))" and ty: "mtype (mem_maps (proc_at s p) ! i) \<noteq> nondealloc_map"
  obtains s' where "proc_dealloc_direct E p a s = Some s'" "mem_run_ok E D p s'"
proof -
  let ?ms = "mem_maps (proc_at s p)" and ?cr3 = "pml4 (proc_at s p)"
  let ?m = "?ms ! i"
  have o: "proc_mem_ok s p" "one_cpu E s" and pages: "pages_in_areas ?ms s ?cr3" using ok by (simp_all add: mem_run_ok_def)
  obtain s' where r: "free_mmap_area E p i s = Some s'" "proc_mem_ok s' p" "one_cpu E s'" "pml4 (proc_at s' p) = ?cr3"
    "mem_maps (proc_at s' p) = take i ?ms @ drop (Suc i) ?ms"
    "pages_cleared s ?cr3 (vastart ?m) (unat (vaend ?m - vastart ?m)) s'"
    using free_mmap_area_spec [OF o i(2) ty] by blast
  have "vastart ?m < vaend ?m" using o(1) i(2) by (auto simp: proc_mem_ok_def Let_def maps_ok_def area_ok_def)
  then have u: "unat (vastart ?m) + unat (vaend ?m - vastart ?m) = unat (vaend ?m)"
    by (simp add: unat_diff_u64 word_less_nat_alt)
  have sets: "set ?ms = insert ?m (set (take i ?ms @ drop (Suc i) ?ms))"
    by (subst id_take_nth_drop [OF i(2)]) simp
  have "pages_in_areas (take i ?ms @ drop (Suc i) ?ms) s' ?cr3"
    unfolding pages_in_areas_def
  proof (intro allI impI)
    fix va assume va: "va_pml va \<in> user_slots" "PRESENT (pte s' ?cr3 va)"
    then have out: "\<not> in_range (vastart ?m) (unat (vaend ?m)) va" "PRESENT (pte s ?cr3 va)"
      using r(6) unfolding pages_cleared_def u by (auto split: if_splits)
    then obtain m where "m \<in> set ?ms" "in_range (vastart m) (unat (vaend m)) va"
      using pages va(1) by (auto simp: pages_in_areas_def)
    then show "\<exists>m \<in> set (take i ?ms @ drop (Suc i) ?ms). in_range (vastart m) (unat (vaend m)) va"
      using out(1) sets by (metis insertE)
  qed
  then show thesis
    using r ok i(1) by (intro that [of s']) (simp_all add: proc_dealloc_direct_def mem_run_ok_def)
qed

lemma mem_step_ok:
  assumes ok: "mem_run_ok E D p s" and step: "mem_step E D p s s'"
  shows "mem_run_ok E D p s'"
  using step
proof (cases rule: mem_step.cases)
  case (take sz a)
  show ?thesis by (rule take_run_ok [OF ok take(1-4)]) (use take(5) in simp)
next
  case (drop a i)
  show ?thesis by (rule drop_run_ok [OF ok drop(1-3)]) (use drop(4) in simp)
qed

interpretation mem_runs: invariant_system "mem_run_ok E D p" "mem_step E D p" "mem_run_ok E D p" for E D p
  by unfold_locales (auto intro: mem_step_ok)

text \<open>
  C4. Requests of whole pages on one processor. Start with a map of page-aligned areas that do not overlap and
  cover the present user pages. Whatever multiples of the page size the process then allocates, while there is room above its
  areas, and whatever areas it releases: in every reachable state its areas are sorted and do not overlap, every
  present user page lies in one of them, and, when all areas own their pages, \<open>free_proc_memory\<close> returns
  and leaves no user page present at all. (Requests of other sizes, which the kernel makes too, can break the
  map: \<open>find_va_hole_overlap\<close>.)
\<close>

theorem process_memory_runs:
  assumes "reach (mem_run_ok E D p) (mem_step E D p) s"
  shows "maps_ok (mem_maps (proc_at s p)) \<and>
    (\<forall>va. va_pml va \<in> user_slots \<longrightarrow> PRESENT (pte s (pml4 (proc_at s p)) va) \<longrightarrow>
       (\<exists>m \<in> set (mem_maps (proc_at s p)). in_range (vastart m) (unat (vaend m)) va)) \<and>
    ((\<forall>m \<in> set (mem_maps (proc_at s p)). mtype m \<noteq> nondealloc_map) \<longrightarrow>
       (\<exists>s'. free_proc_memory E p s = Some s' \<and> mem_maps (proc_at s' p) = [] \<and>
          (\<forall>va. va_pml va \<in> user_slots \<longrightarrow> \<not> PRESENT (pte s' (pml4 (proc_at s p)) va))))"
proof -
  let ?ms = "mem_maps (proc_at s p)" and ?cr3 = "pml4 (proc_at s p)"
  have ok: "proc_mem_ok s p" "one_cpu E s" "pages_in_areas ?ms s ?cr3"
    using mem_runs.reach_inv [OF assms] by (simp_all add: mem_run_ok_def)
  have "\<exists>s'. free_proc_memory E p s = Some s' \<and> mem_maps (proc_at s' p) = [] \<and>
      (\<forall>va. va_pml va \<in> user_slots \<longrightarrow> \<not> PRESENT (pte s' ?cr3 va))" if own: "\<forall>m \<in> set ?ms. mtype m \<noteq> nondealloc_map"
  proof -
    obtain s' where r: "free_areas E p ?ms s = Some s'" "mem_maps (proc_at s' p) = []"
      "\<forall>va. va_pml va \<in> user_slots \<longrightarrow> (pte s' ?cr3 va = 0 \<or> pte s' ?cr3 va = pte s ?cr3 va) \<and>
         ((\<exists>m \<in> set ?ms. in_range (vastart m) (unat (vaend m)) va) \<longrightarrow> \<not> PRESENT (pte s' ?cr3 va))"
      using free_areas_spec [OF ok(1,2) refl own] by blast
    have "\<not> PRESENT (pte s' ?cr3 va)" if "va_pml va \<in> user_slots" for va
      using r(3) ok(3) that not_PRESENT_0 unfolding pages_in_areas_def by metis
    then show ?thesis using r(1,2) by (auto simp: free_proc_memory_def)
  qed
  then show ?thesis using ok by (simp add: proc_mem_ok_def Let_def pages_in_areas_def)
qed

lemma demo_mem_run_ok: "mem_run_ok demo_kenv demo_ds 0 demo_kernel"
proof -
  have "pages_in_areas demo_maps demo_kernel 0x100000"
    using demo_pool_vm [of demo_kernel] by (simp add: pages_in_areas_def not_PRESENT_0)
  then show ?thesis
    using demo_kernel_mem_ok demo_kernel_one_cpu by (simp add: mem_run_ok_def demo_ds_def demo_proc_def)
qed

theorem process_memory_runs_witness:
  "\<exists>a s. proc_alloc_direct demo_kenv demo_ds 0 0x3000 demo_kernel = Some (a, s) \<and> maps_ok (mem_maps (proc_at s 0))"
proof -
  have room: "\<forall>m \<in> set (mem_maps (proc_at demo_kernel 0)). unat (vaend m) + (unat (0x3000 :: u64) + 4096) \<le> 0x800000000000"
    by (simp add: demo_proc_def demo_maps_def new_area_def)
  obtain a s where r: "proc_alloc_direct demo_kenv demo_ds 0 0x3000 demo_kernel = Some (a, s)"
    by (rule take_run_ok [OF demo_mem_run_ok _ _ room]) auto
  have step: "mem_step demo_kenv demo_ds 0 demo_kernel s" by (rule mem_step.take [OF _ _ room _ r]) simp_all
  have "reach (mem_run_ok demo_kenv demo_ds 0) (mem_step demo_kenv demo_ds 0) s"
    by (rule reach.reach_step [where s = demo_kernel]) (use step demo_mem_run_ok in \<open>auto intro: reach.reach_init\<close>)
  from process_memory_runs [OF this] r show ?thesis by blast
qed

end
