(* ===== verification/Logger.thy ===== *)
theory Logger
  imports Console User_Memory
begin

text \<open>
  Serial ports (\<open>ports/ports.c\<close>) and the kernel log (\<open>utils/logger.c\<close>). The BIOS data area is read from
  memory; port input and output act on the device of the console. A string is the list of its
  characters before the NUL.
\<close>

section \<open>State\<close>

datatype log_level = MESSAGE | WARNING | ERROR

record 'd log_state = "'d console" +
  com_ports_address :: "u32 list"
  lpt_ports_address :: "u32 list"
  ebda :: u64
  ports_initialized :: bool
  print_initialized :: bool
  boot_log :: "(log_level \<times> u8 list) list"

section \<open>Ports\<close>

text \<open>The flag that the log tests before it writes to the screen.\<close>

definition initialize_grx :: "mb_video \<Rightarrow> u8 list \<Rightarrow> ('d, 'z) log_state_scheme \<Rightarrow> ('d, 'z) log_state_scheme option" where
  "initialize_grx mb font s = map_option (\<lambda>s'. s'\<lparr>print_initialized := True\<rparr>) (set_graphics_mode mb font s)"

definition out_all :: "'d io_env \<Rightarrow> (u16 \<times> u8) list \<Rightarrow> 'd \<Rightarrow> 'd" where
  "out_all io xs d = fold (\<lambda>(p, v). io_outb io p v) xs d"

definition init_serial_port :: "'d io_env \<Rightarrow> u32 \<Rightarrow> 'd \<Rightarrow> 'd" where
  "init_serial_port io pa d =
     (if pa = 0 then d
      else let a = (\<lambda>k. ucast (pa + k) :: u16)
           in out_all io [(a 1, 0x00), (a 3, 0x80), (a 0, 0x03), (a 1, 0x00), (a 3, 0x03), (a 2, 0xC7), (a 4, 0x0B)] d)"

text \<open>
  \<open>m\<close> is memory and \<open>p2v\<close> the translation of physical addresses. The address of the extended BIOS data area
  is read as 32 bits without translation and shifted right.
\<close>

definition initialize_ports :: "'d io_env \<Rightarrow> store \<Rightarrow> (u64 \<Rightarrow> u64) \<Rightarrow> ('d, 'z) log_state_scheme \<Rightarrow> ('d, 'z) log_state_scheme" where
  "initialize_ports io m p2v s =
     (let coms = map (\<lambda>i. ucast (ld16 m (p2v (0x400 + 2 * of_nat i))) :: u32) [0..<4];
          lpts = map (\<lambda>i. ucast (ld16 m (p2v (0x408 + 2 * of_nat i))) :: u32) [0..<3]
      in s\<lparr>ebda := p2v (drop_bit 4 (ucast (ld32 m 0x40E))),
           com_ports_address := coms, crtc := fold (init_serial_port io) coms (crtc s),
           lpt_ports_address := lpts, ports_initialized := True\<rparr>)"

definition com_empty_line :: "'d io_env \<Rightarrow> u16 \<Rightarrow> 'd \<Rightarrow> bool \<times> 'd" where
  "com_empty_line io port d = (let (v, d') = io_inb io (port + 5) d in (v AND 0x20 \<noteq> 0, d'))"

partial_function (option) wait_com :: "'d io_env \<Rightarrow> u16 \<Rightarrow> 'd \<Rightarrow> 'd option" where
  "wait_com io port d = (case com_empty_line io port d of (ready, d') \<Rightarrow> if ready then Some d' else wait_com io port d')"

declare wait_com.simps [code]

definition write_byte_com :: "'d io_env \<Rightarrow> u8 \<Rightarrow> u8 \<Rightarrow> ('d, 'z) log_state_scheme \<Rightarrow> ('d, 'z) log_state_scheme option" where
  "write_byte_com io com data s =
     (if unat com \<ge> length (com_ports_address s) then None
      else let port = ucast (com_ports_address s ! unat com) :: u16
           in if port = 0 then Some s
              else do { d \<leftarrow> wait_com io port (crtc s); Some (s\<lparr>crtc := io_outb io port data d\<rparr>) })"

section \<open>The log\<close>

definition initialize_logger :: "('d, 'z) log_state_scheme \<Rightarrow> ('d, 'z) log_state_scheme" where
  "initialize_logger s = s\<lparr>boot_log := []\<rparr>"

definition print_to_com :: "'d io_env \<Rightarrow> u8 list \<Rightarrow> ('d, 'z) log_state_scheme \<Rightarrow> ('d, 'z) log_state_scheme option" where
  "print_to_com io str s =
     each (\<lambda>c s. do { s' \<leftarrow> (if c = 10 then write_byte_com io 0 13 s else Some s); write_byte_com io 0 c s' }) str s"

definition level_prefix :: "log_level \<Rightarrow> u8 list" where
  "level_prefix l = map of_char (case l of MESSAGE \<Rightarrow> ''MESSAGE: '' | WARNING \<Rightarrow> ''WARNING: '' | ERROR \<Rightarrow> ''ERROR: '')"

definition level_color :: "log_level \<Rightarrow> u8" where
  "level_color l = (case l of MESSAGE \<Rightarrow> 15 | WARNING \<Rightarrow> 6 | ERROR \<Rightarrow> 4)"

text \<open>\<open>got\<close> says whether \<open>malloc\<close> found memory for the entry; without it nothing is printed either.\<close>

definition klog :: "'d io_env \<Rightarrow> bool \<Rightarrow> log_level \<Rightarrow> u8 list \<Rightarrow> ('d, 'z) log_state_scheme \<Rightarrow> ('d, 'z) log_state_scheme option" where
  "klog io got level message s =
     (if \<not> got then Some s
      else do { s1 \<leftarrow> (if ports_initialized s then print_to_com io (level_prefix level) s else Some s);
                s2 \<leftarrow> (if print_initialized s1 then kd_cwrite io (level_prefix level) 0 (level_color level) s1 else Some s1);
                s3 \<leftarrow> (if ports_initialized s2 then do { t \<leftarrow> print_to_com io message s2; print_to_com io [10] t } else Some s2);
                s4 \<leftarrow> (if print_initialized s3 then do { t \<leftarrow> kd_write io message s3; kd_put io 10 t } else Some s3);
                Some (s4\<lparr>boot_log := boot_log s4 @ [(level, take 254 message)]\<rparr>) })"

definition log_msg :: "'d io_env \<Rightarrow> bool \<Rightarrow> u8 list \<Rightarrow> ('d, 'z) log_state_scheme \<Rightarrow> ('d, 'z) log_state_scheme option" where
  "log_msg io got m s = klog io got MESSAGE m s"

definition log_warn :: "'d io_env \<Rightarrow> bool \<Rightarrow> u8 list \<Rightarrow> ('d, 'z) log_state_scheme \<Rightarrow> ('d, 'z) log_state_scheme option" where
  "log_warn io got m s = klog io got WARNING m s"

definition log_err :: "'d io_env \<Rightarrow> bool \<Rightarrow> u8 list \<Rightarrow> ('d, 'z) log_state_scheme \<Rightarrow> ('d, 'z) log_state_scheme option" where
  "log_err io got m s = klog io got ERROR m s"

text \<open>
  The formatted variants. \<open>fmt\<close> is what KCLib's \<open>vsnprintf\<close> makes of a format and its arguments; the buffer keeps 254
  characters of it.
\<close>

definition vlog :: "('a \<Rightarrow> u8 list \<Rightarrow> u8 list) \<Rightarrow> 'd io_env \<Rightarrow> bool \<Rightarrow> log_level \<Rightarrow> u8 list \<Rightarrow> 'a
    \<Rightarrow> ('d, 'z) log_state_scheme \<Rightarrow> ('d, 'z) log_state_scheme option" where
  "vlog fmt io got level message l s = klog io got level (take 254 (fmt l message)) s"

definition vlog_msg :: "('a \<Rightarrow> u8 list \<Rightarrow> u8 list) \<Rightarrow> 'd io_env \<Rightarrow> bool \<Rightarrow> u8 list \<Rightarrow> 'a
    \<Rightarrow> ('d, 'z) log_state_scheme \<Rightarrow> ('d, 'z) log_state_scheme option" where
  "vlog_msg fmt io got message l s = vlog fmt io got MESSAGE message l s"

definition vlog_warn :: "('a \<Rightarrow> u8 list \<Rightarrow> u8 list) \<Rightarrow> 'd io_env \<Rightarrow> bool \<Rightarrow> u8 list \<Rightarrow> 'a
    \<Rightarrow> ('d, 'z) log_state_scheme \<Rightarrow> ('d, 'z) log_state_scheme option" where
  "vlog_warn fmt io got message l s = vlog fmt io got WARNING message l s"

definition vlog_err :: "('a \<Rightarrow> u8 list \<Rightarrow> u8 list) \<Rightarrow> 'd io_env \<Rightarrow> bool \<Rightarrow> u8 list \<Rightarrow> 'a
    \<Rightarrow> ('d, 'z) log_state_scheme \<Rightarrow> ('d, 'z) log_state_scheme option" where
  "vlog_err fmt io got message l s = vlog fmt io got ERROR message l s"

section \<open>Lemmas\<close>

text \<open>A port that is always ready receives the bytes with a carriage return before each line feed.\<close>

definition com_bytes :: "u8 list \<Rightarrow> u8 list" where
  "com_bytes str = concat (map (\<lambda>c. if c = 10 then [13, 10] else [c]) str)"

lemma wait_com_ready: "com_empty_line io port d = (True, d') \<Longrightarrow> wait_com io port d = Some d'"
  by (subst wait_com.simps) simp

lemma print_to_com_ready:
  assumes ready: "\<And>d. com_empty_line io port d = (True, d)" and port: "port \<noteq> 0"
  shows "com_ports_address s = c # cs \<Longrightarrow> ucast c = port \<Longrightarrow>
    print_to_com io str s = Some (s\<lparr>crtc := fold (io_outb io port) (com_bytes str) (crtc s)\<rparr>)"
proof (induction str arbitrary: s)
  case (Cons x str)
  have w: "write_byte_com io 0 b t = Some (t\<lparr>crtc := io_outb io port b (crtc t)\<rparr>)" if "com_ports_address t = c # cs" for b and t :: "('a, 'b) log_state_scheme"
    using that Cons.prems port by (simp add: write_byte_com_def wait_com_ready [OF ready])
  show ?case
    using Cons.IH [of "s\<lparr>crtc := io_outb io port x (if x = 10 then io_outb io port 13 (crtc s) else crtc s)\<rparr>"] Cons.prems
    by (cases "x = 10") (simp_all add: print_to_com_def com_bytes_def w)
qed (simp add: print_to_com_def com_bytes_def)

end
