(* ===== verification/Error_Screen.thy ===== *)
theory Error_Screen
  imports Console
begin

text \<open>
  The error screen (\<open>utils/rsod.c\<close>): the table of error names, the choice of colours and what is drawn
  before all processors halt. The screen is drawn once; a second error halts its processor.
\<close>

definition error_names :: "string list" where
  "error_names =
     [''UNDEFINED_ERROR'',
      ''ERROR_NO_MEMORY_DETECTED'',
      ''ERROR_INTERNAL_LIBC'',
      ''ERROR_NO_IV_FOR_INTERRUPT'',
      ''ERROR_KERNEL_UNHANDLED_DB_EXCEPTION'',
      ''ERROR_KERNEL_DIVISION_BY_ZERO'',
      ''ERROR_KERNEL_UNHANDLED_NMI_INTERRUPT'',
      ''ERROR_KERNEL_BREAKPOINT_TRAP'',
      ''ERROR_KERNEL_OVERFLOW_ERROR'',
      ''ERROR_KERNEL_BRANGE_EXCEEDED_EXCEPTION'',
      ''ERROR_KERNEL_INVALID_OPCODE_EXCEPTION'',
      ''ERROR_KERNEL_DEVICE_NOT_AVAILABLE_EXC'',
      ''ERROR_KERNEL_UNHANDLED_DOUBLE_FAULT'',
      ''ERROR_KERNEL_INVALID_TSS'',
      ''ERROR_KERNEL_SEGMENT_NOT_PRESENT'',
      ''ERROR_KERNEL_STACK_FAULT_EXCEPTION'',
      ''ERROR_KERNEL_GENERAL_PROTECTION_EXC'',
      ''ERROR_KERNEL_PAGE_FAULT_IN_NONPAGED_AREA'',
      ''ERROR_KERNEL_FPU_ERROR'',
      ''ERROR_KERNEL_ALIGN_CHECK_EXCEPTION'',
      ''ERROR_KERNEL_MACHINE_CHECK_EXCEPTION'',
      ''ERROR_KERNEL_SIMD_FP_EXCEPTION'',
      ''ERROR_KERNEL_VIRTUALIZATION_EXCEPTION'',
      ''ERROR_MINIMAL_MEMORY_FAILURE'',
      ''ERROR_KERNEL_IPI_EXCEPTION'',
      ''ERROR_NO_FONT_DETECTED'',
      ''ERROR_INITRD_ERROR'']"

text \<open>\<open>init_errors\<close> fills 8000 entries with the empty string first.\<close>

definition init_errors :: "string list" where
  "init_errors = error_names @ replicate (8000 - 27) []"

text \<open>
  The next colour, and the one to use now: random steps until the colour changes, never black. The state of
  \<open>rand_number\<close> is carried along.
\<close>

partial_function (option) next_color :: "u8 \<Rightarrow> u8 \<Rightarrow> u32 \<Rightarrow> (u8 \<times> u32) option" where
  "next_color old cur a =
     (if cur = old then
        let (r, a') = rand_number 16 a;
            c = ucast ((ucast cur + r) mod 16 :: u32) :: u8;
            c' = (if c = 0 then 1 else c)
        in next_color old c' a'
      else Some (cur, a))"

declare next_color.simps [code]

definition fgc :: "u8 \<Rightarrow> u32 \<Rightarrow> (u8 \<times> u8 \<times> u32) option" where
  "fgc fg a = map_option (\<lambda>(fg', a'). (fg, fg', a')) (next_color fg fg a)"

record 'd screen_state =
  scr :: "'d console"
  fg_color :: u8
  rnd :: u32

definition text_of :: "string \<Rightarrow> u8 list" where
  "text_of str = map of_char str"

text \<open>One \<open>kd_cwrite\<close> or \<open>kd_cwrite_hex64\<close> in the next colour, after placing the cursor.\<close>

definition colored :: "(u8 \<Rightarrow> 'd console \<Rightarrow> 'd console option) \<Rightarrow> 'd screen_state \<Rightarrow> 'd screen_state option" where
  "colored w s =
     do { (fg, fg', a) \<leftarrow> fgc (fg_color s) (rnd s);
          c \<leftarrow> w fg (scr s);
          Some (s\<lparr>scr := c, fg_color := fg', rnd := a\<rparr>) }"

definition at_xy :: "'d io_env \<Rightarrow> u8 \<Rightarrow> u8 \<Rightarrow> 'd screen_state \<Rightarrow> 'd screen_state" where
  "at_xy io x y s = s\<lparr>scr := kd_setxy io x y (scr s)\<rparr>"

definition put_text :: "'d io_env \<Rightarrow> string \<Rightarrow> 'd screen_state \<Rightarrow> 'd screen_state option" where
  "put_text io str = colored (kd_cwrite io (text_of str) 0)"

definition put_hex :: "'d io_env \<Rightarrow> u64 \<Rightarrow> 'd screen_state \<Rightarrow> 'd screen_state option" where
  "put_hex io n = colored (kd_cwrite_hex64 io n 0)"

text \<open>
  The drawing part of \<open>error\<close>; \<open>cpu\<close> is the processor id once the processors are known. What follows is
  a message to all processors to halt and an endless loop.
\<close>

definition error_screen :: "'d io_env \<Rightarrow> u16 \<Rightarrow> u64 \<Rightarrow> u64 \<Rightarrow> u64 \<Rightarrow> u8 option \<Rightarrow> 'd screen_state \<Rightarrow> 'd screen_state option" where
  "error_screen io ecode speccode speccode2 eaddress cpu s =
     (if 8000 \<le> unat ecode then None
      else do { let (r, a) = rand_number 15 (rnd s);
                let s0 = s\<lparr>fg_color := ucast (r + 1), rnd := a\<rparr>;
                c \<leftarrow> kd_cclear io 0 (scr s0);
                s1 \<leftarrow> put_text io ''We are sorry but kernel has suffered an error'' (at_xy io 10 2 (s0\<lparr>scr := c\<rparr>));
                s2 \<leftarrow> put_text io ''from which it was unable to recover->'' (at_xy io 10 3 s1);
                s3 \<leftarrow> put_text io ''Error code:         '' (at_xy io 16 5 s2);
                s4 \<leftarrow> put_hex io (ucast ecode) s3;
                s5 \<leftarrow> put_text io (init_errors ! unat ecode) (at_xy io 16 6 s4);
                s6 \<leftarrow> put_text io ''Specific code:      '' (at_xy io 16 7 s5);
                s7 \<leftarrow> put_hex io speccode s6;
                s8 \<leftarrow> put_text io ''Additional code:    '' (at_xy io 16 8 s7);
                s9 \<leftarrow> put_hex io speccode2 s8;
                s10 \<leftarrow> put_text io ''Address:            '' (at_xy io 16 10 s9);
                s11 \<leftarrow> put_hex io eaddress s10;
                s12 \<leftarrow> (case cpu of None \<Rightarrow> Some s11
                        | Some p \<Rightarrow> do { t \<leftarrow> put_text io ''Faulting processor: '' (at_xy io 16 12 s11); put_hex io (ucast p) t });
                s13 \<leftarrow> put_text io ''Please check recent kernel updates or'' (at_xy io 10 19 s12);
                s14 \<leftarrow> put_text io ''hardware changes which can be the fault here.'' (at_xy io 10 20 s13);
                d \<leftarrow> flush_buffer (scr s14);
                Some (s14\<lparr>scr := d\<rparr>) })"

section \<open>Lemmas\<close>

text \<open>The codes for a missing or invalid first process have no name.\<close>

lemma init_error_names:
  "length init_errors = 8000" "init_errors ! 23 = ''ERROR_MINIMAL_MEMORY_FAILURE''" "init_errors ! 27 = []" "init_errors ! 28 = []"
  by (simp_all add: init_errors_def error_names_def nth_append)

text \<open>The colour that comes next differs from the current one and is never black.\<close>

lemma next_color_result:
  assumes "next_color old cur a = Some r" "cur = old \<or> cur \<noteq> 0"
  shows "fst r \<noteq> old \<and> fst r \<noteq> 0"
proof -
  have "cur = old \<or> cur \<noteq> 0 \<longrightarrow> fst r \<noteq> old \<and> fst r \<noteq> 0"
  proof (rule next_color.raw_induct [OF _ assms(1), of "\<lambda>old cur _ r. cur = old \<or> cur \<noteq> 0 \<longrightarrow> fst r \<noteq> old \<and> fst r \<noteq> 0"])
    fix f and old cur :: u8 and a :: u32 and r :: "u8 \<times> u32"
    assume IH: "\<And>x y z w. f x y z = Some w \<Longrightarrow> y = x \<or> y \<noteq> 0 \<longrightarrow> fst w \<noteq> x \<and> fst w \<noteq> 0"
      and step: "(if cur = old then let (r, a') = rand_number 16 a; c = ucast ((ucast cur + r) mod 16 :: u32); c' = if c = 0 then 1 else c
          in f old c' a' else Some (cur, a)) = Some r"
    show "cur = old \<or> cur \<noteq> 0 \<longrightarrow> fst r \<noteq> old \<and> fst r \<noteq> 0"
    proof (cases "cur = old")
      case True
      obtain x a' where "rand_number 16 a = (x, a')" by fastforce
      then obtain c' :: u8 where "f old c' a' = Some r" "c' \<noteq> 0" using step True by (auto simp: Let_def split: if_splits)
      then show ?thesis using IH by blast
    next
      case False
      then show ?thesis using step by auto
    qed
  qed
  then show ?thesis using assms(2) by simp
qed

end
