(* ===== verification/Fatal_Error.thy ===== *)
theory Fatal_Error
  imports Error_Screen Cpu Transitions
begin

text \<open>
  The end of the kernel on a fatal error (\<open>error\<close> of \<open>utils/rsod.c\<close>): the first error is drawn and halts every processor,
  a later one only halts its own. Then the same code as steps of processors that fail at the same time: the lock, the
  drawing, the message to every other processor and its acknowledgement.
\<close>

section \<open>One processor\<close>

text \<open>
  \<open>error\<close> never returns; the result says how it ends. \<open>lock\<close> and \<open>error_displaying\<close> are its two static variables,
  \<open>cpus_known\<close> is \<open>cpus != NULL\<close>. The broadcast goes to the other processors first and to the processor itself last;
  \<open>self_halt\<close> is the state in which that last message, sent and received by the same processor, reaches \<open>kp_halt\<close>.
  Where it does not (no record has the processor's APIC id), the call returns and the final loop is reached.
\<close>

datatype error_end = HALT_SECOND | HALT_ALONE | HALT_ALL | SPIN_LAST

record error_vars =
  error_lock :: u64
  error_displaying :: bool

definition self_halt :: "('arr, ('arr, 'q, 'z) smp_state_scheme) smp_env \<Rightarrow> u64
    \<Rightarrow> ('arr, 'q, 'z) smp_state_scheme \<Rightarrow> ('arr, 'q, 'z) smp_state_scheme option" where
  "self_halt E m s =
     (case array_find_by_pred E (cpus s) (search_for_cpu_by_apic s (get_local_apic_id s)) of
        None \<Rightarrow> None
      | Some c \<Rightarrow>
          if ipi_lock (cpu_at s c) \<noteq> 0 then None
          else let s1 = upd_cpu c (\<lambda>k. (set_message IPI_HALT_IMMEDIATELLY m 0 0 k)\<lparr>ipi_lock := 1,
                          apic_message_handled := True, apic_message_cpu := Some c\<rparr>) s
               in if apic_message_type (cpu_at s1 (current_cpu s1)) \<noteq> IPI_HALT_IMMEDIATELLY then None
                  else Some (upd_cpu (current_cpu s1) (\<lambda>k. k\<lparr>apic_message_handled := False\<rparr>) s1))"

definition error :: "('arr, ('arr, 'q, 'z) smp_state_scheme) smp_env \<Rightarrow> 'd io_env \<Rightarrow> u16 \<Rightarrow> u64 \<Rightarrow> u64 \<Rightarrow> u64 \<Rightarrow> bool
    \<Rightarrow> error_vars \<Rightarrow> 'd screen_state \<Rightarrow> ('arr, 'q, 'z) smp_state_scheme
    \<Rightarrow> (error_end \<times> error_vars \<times> 'd screen_state \<times> ('arr, 'q, 'z) smp_state_scheme) option" where
  "error E io ecode speccode speccode2 eaddress cpus_known v sc s =
     (if error_lock v \<noteq> 0 then None
      else if error_displaying v
      then Some (HALT_SECOND, v, sc, upd_cpu (current_cpu s) (\<lambda>k. k\<lparr>started := False\<rparr>) s)
      else do { sc1 \<leftarrow> error_screen io ecode speccode speccode2 eaddress
                  (if cpus_known then Some (get_local_processor_id s) else None) sc;
                let v1 = v\<lparr>error_displaying := True\<rparr>;
                (if \<not> cpus_known then Some (HALT_ALONE, v1, sc1, s)
                 else do { let m = ucast ecode + 1;
                           s1 \<leftarrow> broadcast_loop E (get_local_apic_id s) IPI_HALT_IMMEDIATELLY m 0 0
                             [0..<array_get_size E (cpus s)] s;
                           (case self_halt E m s1 of
                              Some s2 \<Rightarrow> Some (HALT_ALL, v1, sc1, s2)
                            | None \<Rightarrow> do { (_, s2) \<leftarrow> broadcast_ipi_message E True IPI_HALT_IMMEDIATELLY m 0 0 None s;
                                         Some (SPIN_LAST, v1, sc1, s2) }) }) })"

text \<open>Where the message to itself halts the processor, the call of \<open>send_ipi_message\<close> that sends it does not return.\<close>

lemma self_halt_never_returns:
  assumes "self_halt E m s = Some s'"
  shows "send_ipi_message E (get_local_apic_id s) IPI_HALT_IMMEDIATELLY m 0 0 r s = None"
  using assms
  by (auto simp: self_halt_def send_ipi_message_def send_ipi_self_def ipi_received_def Let_def
      split: option.splits if_splits)

text \<open>A second error draws nothing and takes only its own processor out of service.\<close>

lemma second_error:
  assumes "error E io ecode a b c known v sc s = Some (how, v', sc', s')" and "error_displaying v"
  shows "how = HALT_SECOND" "sc' = sc" "v' = v" "\<not> started (cpu_at s' (current_cpu s))"
    "k \<noteq> current_cpu s \<Longrightarrow> cpu_at s' k = cpu_at s k"
  using assms by (auto simp: error_def upd_cpu_def split: if_splits)

section \<open>Several processors\<close>

text \<open>
  The \<open>N\<close> processors of the processor table, each in a phase of \<open>error\<close>. \<open>CALLED\<close> spins for the lock, \<open>INSIDE\<close> holds it
  before the test of \<open>error_displaying\<close>; a second error is \<open>LEAVING\<close> once it has released the lock and \<open>HALTED\<close> once it has
  cleared \<open>started\<close>. The first one has set \<open>error_displaying\<close> in \<open>FIRST\<close> and released the lock in \<open>DRAWING\<close>; \<open>SENDING k\<close> is
  the head of the loop of \<open>broadcast_ipi_message\<close>, \<open>LOCKING k\<close> has seen processor \<open>k\<close> started and spins for its message
  lock, \<open>WAITING k\<close> has sent it the message and waits until it is handled, \<open>DONE\<close> is halted by the message to
  itself. \<open>STOPPED\<close> is halted by the message of another. A processor that is not in service has \<open>started\<close> clear and is
  \<open>HALTED\<close> from the beginning.

  \<open>mailbox k\<close> is the processor that holds the message lock of \<open>k\<close>, \<open>pending k\<close> says that the halt message to \<open>k\<close> is not handled yet,
  \<open>masked k\<close> that \<open>k\<close> has interrupts disabled.
\<close>

datatype error_phase = RUNNING | CALLED | INSIDE | LEAVING | HALTED | STOPPED
  | FIRST | DRAWING | SENDING nat | LOCKING nat | WAITING nat | DONE

record error_state =
  owner :: "nat option"
  displaying :: bool
  phase :: "nat \<Rightarrow> error_phase"
  mailbox :: "nat \<Rightarrow> nat option"
  pending :: "nat \<Rightarrow> bool"
  masked :: "nat \<Rightarrow> bool"

definition to_phase :: "nat \<Rightarrow> error_phase \<Rightarrow> error_state \<Rightarrow> error_state" where
  "to_phase p x s = s\<lparr>phase := (phase s)(p := x)\<rparr>"

definition stopped :: "error_phase \<Rightarrow> bool" where
  "stopped x \<longleftrightarrow> x \<in> {HALTED, STOPPED, DONE}"

fun drawing :: "error_phase \<Rightarrow> bool" where
  "drawing FIRST = True"
| "drawing DRAWING = True"
| "drawing (SENDING k) = True"
| "drawing (LOCKING k) = True"
| "drawing (WAITING k) = True"
| "drawing DONE = True"
| "drawing x = False"

text \<open>
  The steps of \<open>error\<close> and of the handler of its message. A processor halted by the message keeps every lock it holds.
\<close>

inductive error_step :: "nat \<Rightarrow> error_state \<Rightarrow> error_state \<Rightarrow> bool" for N where
  lock: "phase s p = CALLED \<Longrightarrow> owner s = None \<Longrightarrow> error_step N s (to_phase p INSIDE (s\<lparr>owner := Some p\<rparr>))"
| second: "phase s p = INSIDE \<Longrightarrow> displaying s \<Longrightarrow> error_step N s (to_phase p LEAVING (s\<lparr>owner := None\<rparr>))"
| leave: "phase s p = LEAVING \<Longrightarrow> error_step N s (to_phase p HALTED s)"
| first: "phase s p = INSIDE \<Longrightarrow> \<not> displaying s \<Longrightarrow> error_step N s (to_phase p FIRST (s\<lparr>displaying := True\<rparr>))"
| unlock: "phase s p = FIRST \<Longrightarrow> error_step N s (to_phase p DRAWING (s\<lparr>owner := None\<rparr>))"
| draw: "phase s p = DRAWING \<Longrightarrow> error_step N s (to_phase p (SENDING 0) s)"
| skip: "phase s p = SENDING k \<Longrightarrow> k < N \<Longrightarrow> k = p \<or> phase s k = HALTED
    \<Longrightarrow> error_step N s (to_phase p (SENDING (Suc k)) s)"
| choose: "phase s p = SENDING k \<Longrightarrow> k < N \<Longrightarrow> k \<noteq> p \<Longrightarrow> phase s k \<noteq> HALTED
    \<Longrightarrow> error_step N s (to_phase p (LOCKING k) s)"
| send: "phase s p = LOCKING k \<Longrightarrow> mailbox s k = None
    \<Longrightarrow> error_step N s (to_phase p (WAITING k)
          (s\<lparr>mailbox := (mailbox s)(k := Some p), pending := (pending s)(k := True)\<rparr>))"
| deliver: "pending s q \<Longrightarrow> \<not> masked s q \<Longrightarrow> \<not> stopped (phase s q)
    \<Longrightarrow> error_step N s (to_phase q STOPPED (s\<lparr>pending := (pending s)(q := False)\<rparr>))"
| handled: "phase s p = WAITING k \<Longrightarrow> \<not> pending s k
    \<Longrightarrow> error_step N s (to_phase p (SENDING (Suc k)) (s\<lparr>mailbox := (mailbox s)(k := None)\<rparr>))"
| finish: "phase s p = SENDING N \<Longrightarrow> mailbox s p = None
    \<Longrightarrow> error_step N s (to_phase p DONE (s\<lparr>mailbox := (mailbox s)(p := Some p)\<rparr>))"

text \<open>
  What happens around it: a processor fails, the drawing processor faults again while it draws or sends, and processors that
  have not failed take and release message locks for messages of their own and disable and enable interrupts.
\<close>

inductive machine_step :: "error_state \<Rightarrow> error_state \<Rightarrow> bool" where
  fail: "phase s p = RUNNING \<Longrightarrow> machine_step s (to_phase p CALLED s)"
| refail: "drawing (phase s p) \<Longrightarrow> phase s p \<notin> {FIRST, DONE} \<Longrightarrow> machine_step s (to_phase p CALLED s)"
| talk: "phase s p = RUNNING \<Longrightarrow> mailbox s k = None \<Longrightarrow> machine_step s (s\<lparr>mailbox := (mailbox s)(k := Some p)\<rparr>)"
| hang_up: "phase s p = RUNNING \<Longrightarrow> mailbox s k = Some p \<Longrightarrow> machine_step s (s\<lparr>mailbox := (mailbox s)(k := None)\<rparr>)"
| mask: "phase s p = RUNNING \<Longrightarrow> machine_step s (s\<lparr>masked := (masked s)(p := b)\<rparr>)"

definition system_step :: "nat \<Rightarrow> error_state \<Rightarrow> error_state \<Rightarrow> bool" where
  "system_step N s s' \<longleftrightarrow> error_step N s s' \<or> machine_step s s'"

definition error_init :: "nat \<Rightarrow> error_state \<Rightarrow> bool" where
  "error_init N s \<longleftrightarrow> owner s = None \<and> \<not> displaying s \<and> (\<forall>p. \<not> pending s p) \<and>
     (\<forall>p. phase s p = HALTED \<or> p < N \<and> phase s p = RUNNING)"

subsection \<open>The invariant\<close>

text \<open>
  \<open>sent N x\<close> is the number of processors the message loop has passed in phase \<open>x\<close>: all of these are out of service.
\<close>

fun sent :: "nat \<Rightarrow> error_phase \<Rightarrow> nat" where
  "sent N (SENDING k) = k"
| "sent N (LOCKING k) = k"
| "sent N (WAITING k) = k"
| "sent N DONE = N"
| "sent N x = 0"

definition passed_ok :: "nat \<Rightarrow> error_state \<Rightarrow> bool" where
  "passed_ok N s \<longleftrightarrow>
     (\<forall>p q. q < sent N (phase s p) \<longrightarrow> q \<noteq> p \<longrightarrow> phase s q \<in> {HALTED, STOPPED}) \<and>
     (\<forall>p k. phase s p = WAITING k \<longrightarrow> pending s k \<or> phase s k = STOPPED) \<and>
     (\<forall>p k. phase s p \<in> {LOCKING k, WAITING k} \<longrightarrow> k < N \<and> k \<noteq> p) \<and>
     (\<forall>p. sent N (phase s p) \<le> N) \<and>
     (\<forall>p. N \<le> p \<longrightarrow> phase s p = HALTED)"

definition lock_ok :: "error_state \<Rightarrow> bool" where
  "lock_ok s \<longleftrightarrow>
     (\<forall>p. phase s p \<in> {INSIDE, FIRST} \<longrightarrow> owner s = Some p) \<and>
     (\<forall>p. owner s = Some p \<longrightarrow> phase s p \<in> {INSIDE, FIRST, STOPPED}) \<and>
     (\<forall>p. drawing (phase s p) \<longrightarrow> displaying s) \<and>
     (\<forall>p q. drawing (phase s p) \<longrightarrow> drawing (phase s q) \<longrightarrow> p = q)"

lemma to_phase_fields [simp]:
  "owner (to_phase p x s) = owner s" "displaying (to_phase p x s) = displaying s"
  "mailbox (to_phase p x s) = mailbox s" "pending (to_phase p x s) = pending s" "masked (to_phase p x s) = masked s"
  "phase (to_phase p x s) q = (if q = p then x else phase s q)"
  by (simp_all add: to_phase_def)

text \<open>Every step but those of processors outside \<open>error\<close> moves one processor to another phase.\<close>

lemma lock_ok_update:
  assumes "lock_ok s" and "phase s' = (phase s)(p := x)"
    and "x \<in> {INSIDE, FIRST} \<Longrightarrow> owner s' = Some p" and "owner s' = Some p \<Longrightarrow> x \<in> {INSIDE, FIRST, STOPPED}"
    and "\<And>q. q \<noteq> p \<Longrightarrow> owner s' = Some q \<longleftrightarrow> owner s = Some q"
    and "displaying s \<Longrightarrow> displaying s'" and "drawing x \<Longrightarrow> displaying s'"
    and "drawing x \<Longrightarrow> drawing (phase s p) \<or> \<not> displaying s"
  shows "lock_ok s'"
  unfolding lock_ok_def
proof (intro conjI allI impI)
  fix q r
  show "owner s' = Some q" if "phase s' q \<in> {INSIDE, FIRST}"
    using that assms(1-3,5) by (cases "q = p") (auto simp: lock_ok_def)
  show "phase s' q \<in> {INSIDE, FIRST, STOPPED}" if "owner s' = Some q"
    using that assms(1,2,4,5) by (cases "q = p") (simp_all add: lock_ok_def)
  show "displaying s'" if "drawing (phase s' q)"
    using that assms(1,2,6,7) by (cases "q = p") (auto simp: lock_ok_def)
  have old: "drawing (phase s y) \<Longrightarrow> drawing (phase s z) \<Longrightarrow> y = z" for y z using assms(1) by (auto simp: lock_ok_def)
  have seen: "drawing (phase s y) \<Longrightarrow> displaying s" for y using assms(1) by (auto simp: lock_ok_def)
  show "q = r" if "drawing (phase s' q)" and "drawing (phase s' r)"
    using that old [of q r] old [of p q] old [of p r] seen [of q] seen [of r] assms(2,8)
    by (cases "q = p"; cases "r = p") auto
qed

lemma passed_ok_update:
  assumes "passed_ok N s" and "phase s' = (phase s)(p := x)" and "phase s p \<notin> {HALTED, STOPPED}"
    and "\<And>k. pending s k \<Longrightarrow> pending s' k \<or> k = p \<and> x = STOPPED"
    and "\<And>q. q < sent N x \<Longrightarrow> q \<noteq> p \<Longrightarrow> phase s q \<in> {HALTED, STOPPED}"
    and "sent N x \<le> N" and "\<And>k. x = WAITING k \<Longrightarrow> pending s' k" and "\<And>k. x \<in> {LOCKING k, WAITING k} \<Longrightarrow> k < N \<and> k \<noteq> p"
  shows "passed_ok N s'"
  unfolding passed_ok_def
proof (intro conjI allI impI)
  fix q r k
  show "phase s' r \<in> {HALTED, STOPPED}" if "r < sent N (phase s' q)" "r \<noteq> q"
  proof -
    have "phase s r \<in> {HALTED, STOPPED}" using that assms(1,2,5) by (cases "q = p") (auto simp: passed_ok_def)
    then show ?thesis using assms(2,3) by (cases "r = p") simp_all
  qed
  show "pending s' k \<or> phase s' k = STOPPED" if "phase s' q = WAITING k"
  proof (cases "q = p")
    case False
    then have "pending s k \<or> phase s k = STOPPED" using that assms(1,2) by (auto simp: passed_ok_def)
    then show ?thesis using assms(2,3,4) by (cases "k = p") auto
  qed (use that assms(2,7) in simp)
  show "k < N" if "phase s' q \<in> {LOCKING k, WAITING k}"
    using that assms(1,2,8) by (cases "q = p") (auto simp: passed_ok_def)
  show "k \<noteq> q" if "phase s' q \<in> {LOCKING k, WAITING k}"
    using that assms(1,2,8) by (cases "q = p") (auto simp: passed_ok_def)
  show "sent N (phase s' q) \<le> N" using assms(1,2,6) by (cases "q = p") (auto simp: passed_ok_def)
  show "phase s' q = HALTED" if "N \<le> q"
    using that assms(1,2,3) by (cases "q = p") (auto simp: passed_ok_def)
qed

lemma to_phase_update: "phase (to_phase p x s) = (phase s)(p := x)"
  by (simp add: to_phase_def)

lemma error_step_lock_ok:
  assumes "error_step N s s'" and "lock_ok s"
  shows "lock_ok s'"
proof -
  have held: "phase s p = INSIDE \<or> phase s p = FIRST \<Longrightarrow> owner s = Some p" for p using assms(2) by (auto simp: lock_ok_def)
  have own: "owner s = Some p \<Longrightarrow> phase s p \<in> {INSIDE, FIRST, STOPPED}" for p using assms(2) by (auto simp: lock_ok_def)
  have shown: "drawing (phase s p) \<Longrightarrow> displaying s" for p using assms(2) by (auto simp: lock_ok_def)
  note move = lock_ok_update [OF assms(2)]
  from assms(1) show ?thesis
  proof cases
    case (lock p)
    then show ?thesis by (intro move [of _ p INSIDE]) (auto simp: to_phase_update)
  next
    case (second p)
    then show ?thesis using held [of p] by (intro move [of _ p LEAVING]) (auto simp: to_phase_update)
  next
    case (first p)
    then show ?thesis using held [of p] by (intro move [of _ p FIRST]) (auto simp: to_phase_update)
  next
    case (unlock p)
    then show ?thesis using held [of p] shown [of p] by (intro move [of _ p DRAWING]) (auto simp: to_phase_update)
  next
    case (deliver q)
    then show ?thesis by (intro move [of _ q STOPPED]) (auto simp: to_phase_update)
  next
    case (leave p)
    then show ?thesis using own [of p] by (intro move [of _ p HALTED]) (auto simp: to_phase_update)
  next
    case (draw p)
    then show ?thesis using own [of p] shown [of p] by (intro move [of _ p "SENDING 0"]) (auto simp: to_phase_update)
  next
    case (skip p k)
    then show ?thesis using own [of p] shown [of p] by (intro move [of _ p "SENDING (Suc k)"]) (auto simp: to_phase_update)
  next
    case (choose p k)
    then show ?thesis using own [of p] shown [of p] by (intro move [of _ p "LOCKING k"]) (auto simp: to_phase_update)
  next
    case (send p k)
    then show ?thesis using own [of p] shown [of p] by (intro move [of _ p "WAITING k"]) (auto simp: to_phase_update)
  next
    case (handled p k)
    then show ?thesis using own [of p] shown [of p] by (intro move [of _ p "SENDING (Suc k)"]) (auto simp: to_phase_update)
  next
    case (finish p)
    then show ?thesis using own [of p] shown [of p] by (intro move [of _ p DONE]) (auto simp: to_phase_update)
  qed
qed

lemma machine_step_lock_ok:
  assumes "machine_step s s'" and "lock_ok s"
  shows "lock_ok s'"
proof -
  have own: "owner s = Some p \<Longrightarrow> phase s p \<in> {INSIDE, FIRST, STOPPED}" for p using assms(2) by (auto simp: lock_ok_def)
  from assms(1) show ?thesis
  proof cases
    case (fail p)
    then show ?thesis using own [of p] by (intro lock_ok_update [OF assms(2), of _ p CALLED]) (auto simp: to_phase_update)
  next
    case (refail p)
    then have "phase s p \<notin> {INSIDE, FIRST, STOPPED}" by (cases "phase s p") auto
    then show ?thesis
      using refail own [of p] by (intro lock_ok_update [OF assms(2), of _ p CALLED]) (auto simp: to_phase_update)
  qed (use assms(2) in \<open>simp_all add: lock_ok_def\<close>)
qed

lemma machine_step_passed_ok:
  assumes "machine_step s s'" and "passed_ok N s"
  shows "passed_ok N s'"
  using assms(1)
proof cases
  case (refail p)
  then have "phase s p \<notin> {HALTED, STOPPED}" by (cases "phase s p") auto
  then show ?thesis using refail by (intro passed_ok_update [OF assms(2), of _ p CALLED]) (auto simp: to_phase_update)
next
  case (fail p)
  then show ?thesis by (intro passed_ok_update [OF assms(2), of _ p CALLED]) (auto simp: to_phase_update)
qed (use assms(2) in \<open>simp_all add: passed_ok_def\<close>)

lemma error_step_passed_ok:
  assumes "error_step N s s'" and "passed_ok N s"
  shows "passed_ok N s'"
proof -
  have sent: "q < sent N (phase s p) \<Longrightarrow> q \<noteq> p \<Longrightarrow> phase s q \<in> {HALTED, STOPPED}"
    and wait: "phase s p = WAITING k \<Longrightarrow> pending s k \<or> phase s k = STOPPED"
    and bound: "phase s p \<in> {LOCKING k, WAITING k} \<Longrightarrow> k < N \<and> k \<noteq> p" for p q k
    using assms(2) by (auto simp: passed_ok_def)
  from assms(1) show ?thesis
  proof cases
    case (skip p k)
    then show ?thesis using sent [of _ p]
      by (intro passed_ok_update [OF assms(2), of _ p "SENDING (Suc k)"]) (auto simp: to_phase_update less_Suc_eq)
  next
    case (handled p k)
    then show ?thesis using sent [of _ p] wait [of p k] bound [of p k]
      by (intro passed_ok_update [OF assms(2), of _ p "SENDING (Suc k)"]) (auto simp: to_phase_update less_Suc_eq)
  next
    case (deliver q)
    then show ?thesis
      by (intro passed_ok_update [OF assms(2), of _ q STOPPED]) (auto simp: to_phase_update stopped_def)
  next
    case (send p k)
    then show ?thesis using sent [of _ p] bound [of p k]
      by (intro passed_ok_update [OF assms(2), of _ p "WAITING k"]) (auto simp: to_phase_update)
  next
    case (choose p k)
    then show ?thesis using sent [of _ p]
      by (intro passed_ok_update [OF assms(2), of _ p "LOCKING k"]) (auto simp: to_phase_update)
  next
    case (finish p)
    then show ?thesis using sent [of _ p]
      by (intro passed_ok_update [OF assms(2), of _ p DONE]) (auto simp: to_phase_update)
  qed (rule passed_ok_update [OF assms(2)], simp add: to_phase_update, auto)+
qed

lemma error_init_ok:
  assumes "error_init N s"
  shows "lock_ok s \<and> passed_ok N s"
proof -
  have "phase s p = HALTED \<or> p < N \<and> phase s p = RUNNING" for p using assms by (simp add: error_init_def)
  then have "phase s p \<notin> {INSIDE, FIRST}" "\<not> drawing (phase s p)" "sent N (phase s p) = 0"
    "phase s p \<notin> {LOCKING k, WAITING k}" "N \<le> p \<Longrightarrow> phase s p = HALTED" for p k
    by (metis drawing.simps sent.simps error_phase.distinct insertE singletonD linorder_not_le)+
  then show ?thesis using assms by (auto simp: lock_ok_def passed_ok_def error_init_def)
qed

interpretation errors: invariant_system "error_init N" "system_step N" "\<lambda>s. lock_ok s \<and> passed_ok N s" for N
  by unfold_locales (auto simp: system_step_def dest: error_init_ok error_step_lock_ok error_step_passed_ok
      machine_step_lock_ok machine_step_passed_ok)

subsection \<open>Two runs\<close>

text \<open>
  A run is given by its first state and the changes its steps make. In \<open>halt_run\<close> one of two processors fails and both end
  halted; in \<open>stuck_run\<close> three fail, and processor 1 is halted while it holds the lock, so that processor 2, which
  has interrupts disabled, spins for the lock and processor 0 waits for its acknowledgement.
\<close>

fun states_of :: "error_state \<Rightarrow> (error_state \<Rightarrow> error_state) list \<Rightarrow> error_state list" where
  "states_of s [] = [s]"
| "states_of s (f # fs) = s # states_of (f s) fs"

definition all_running :: "nat \<Rightarrow> error_state" where
  "all_running N = \<lparr>owner = None, displaying = False, phase = (\<lambda>p. if p < N then RUNNING else HALTED),
     mailbox = (\<lambda>_. None), pending = (\<lambda>_. False), masked = (\<lambda>_. False)\<rparr>"

definition halt_run :: "(error_state \<Rightarrow> error_state) list" where
  "halt_run =
     [to_phase 0 CALLED,
      \<lambda>s. to_phase 0 INSIDE (s\<lparr>owner := Some 0\<rparr>),
      \<lambda>s. to_phase 0 FIRST (s\<lparr>displaying := True\<rparr>),
      \<lambda>s. to_phase 0 DRAWING (s\<lparr>owner := None\<rparr>),
      to_phase 0 (SENDING 0),
      to_phase 0 (SENDING (Suc 0)),
      to_phase 0 (LOCKING 1),
      \<lambda>s. to_phase 0 (WAITING 1) (s\<lparr>mailbox := (mailbox s)(1 := Some 0), pending := (pending s)(1 := True)\<rparr>),
      \<lambda>s. to_phase 1 STOPPED (s\<lparr>pending := (pending s)(1 := False)\<rparr>),
      \<lambda>s. to_phase 0 (SENDING (Suc 1)) (s\<lparr>mailbox := (mailbox s)(1 := None)\<rparr>),
      \<lambda>s. to_phase 0 DONE (s\<lparr>mailbox := (mailbox s)(0 := Some 0)\<rparr>)]"

definition stuck_run :: "(error_state \<Rightarrow> error_state) list" where
  "stuck_run =
     [\<lambda>s. s\<lparr>masked := (masked s)(2 := True)\<rparr>,
      to_phase 0 CALLED,
      to_phase 1 CALLED,
      to_phase 2 CALLED,
      \<lambda>s. to_phase 0 INSIDE (s\<lparr>owner := Some 0\<rparr>),
      \<lambda>s. to_phase 0 FIRST (s\<lparr>displaying := True\<rparr>),
      \<lambda>s. to_phase 0 DRAWING (s\<lparr>owner := None\<rparr>),
      to_phase 0 (SENDING 0),
      to_phase 0 (SENDING (Suc 0)),
      to_phase 0 (LOCKING 1),
      \<lambda>s. to_phase 1 INSIDE (s\<lparr>owner := Some 1\<rparr>),
      \<lambda>s. to_phase 0 (WAITING 1) (s\<lparr>mailbox := (mailbox s)(1 := Some 0), pending := (pending s)(1 := True)\<rparr>),
      \<lambda>s. to_phase 1 STOPPED (s\<lparr>pending := (pending s)(1 := False)\<rparr>),
      \<lambda>s. to_phase 0 (SENDING (Suc 1)) (s\<lparr>mailbox := (mailbox s)(1 := None)\<rparr>),
      to_phase 0 (LOCKING 2),
      \<lambda>s. to_phase 0 (WAITING 2) (s\<lparr>mailbox := (mailbox s)(2 := Some 0), pending := (pending s)(2 := True)\<rparr>)]"

lemma all_running_init: "error_init N (all_running N)"
  by (simp add: error_init_def all_running_def)

lemma states_of_ends [simp]: "states_of s fs \<noteq> []" "hd (states_of s fs) = s" "last (states_of s fs) = fold (\<lambda>f. f) fs s"
  by (induction fs arbitrary: s) auto

lemma states_of_step:
  assumes "R s (f s)" and "successively R (states_of (f s) fs)"
  shows "successively R (states_of s (f # fs))"
  using assms by (cases fs) auto

lemma states_of_reach:
  assumes "reach init step s" and "successively step (states_of s fs)"
  shows "reach init step (fold (\<lambda>f. f) fs s)"
  using assms
proof (induction fs arbitrary: s)
  case (Cons f fs)
  then have "step s (f s)" "successively step (states_of (f s) fs)" by (cases fs; simp)+
  then show ?case using Cons by (auto intro: reach.reach_step)
qed simp

lemma system_error: "error_step N s s' \<Longrightarrow> system_step N s s'"
  by (simp add: system_step_def)

lemma system_machine: "machine_step s s' \<Longrightarrow> system_step N s s'"
  by (simp add: system_step_def)

lemma halt_run_steps: "successively (system_step 2) (states_of (all_running 2) halt_run)"
  unfolding halt_run_def
  supply all_running_def [simp] stopped_def [simp]
  by (rule states_of_step, rule system_machine, rule machine_step.fail, simp,
      rule states_of_step, rule system_error, rule error_step.lock, simp, simp,
      rule states_of_step, rule system_error, rule error_step.first, simp, simp,
      rule states_of_step, rule system_error, rule error_step.unlock, simp,
      rule states_of_step, rule system_error, rule error_step.draw, simp,
      rule states_of_step, rule system_error, rule error_step.skip, simp, simp, simp,
      rule states_of_step, rule system_error, rule error_step.choose, simp, simp, simp, simp,
      rule states_of_step, rule system_error, rule error_step.send, simp, simp,
      rule states_of_step, rule system_error, rule error_step.deliver, simp, simp, simp,
      rule states_of_step, rule system_error, rule error_step.handled, simp, simp,
      rule states_of_step, rule system_error, rule error_step.finish, simp, simp, simp)

lemma stuck_run_steps: "successively (system_step 3) (states_of (all_running 3) stuck_run)"
  unfolding stuck_run_def
  supply all_running_def [simp] stopped_def [simp]
  by (rule states_of_step, rule system_machine, rule machine_step.mask, simp,
      rule states_of_step, rule system_machine, rule machine_step.fail, simp,
      rule states_of_step, rule system_machine, rule machine_step.fail, simp,
      rule states_of_step, rule system_machine, rule machine_step.fail, simp,
      rule states_of_step, rule system_error, rule error_step.lock, simp, simp,
      rule states_of_step, rule system_error, rule error_step.first, simp, simp,
      rule states_of_step, rule system_error, rule error_step.unlock, simp,
      rule states_of_step, rule system_error, rule error_step.draw, simp,
      rule states_of_step, rule system_error, rule error_step.skip, simp, simp, simp,
      rule states_of_step, rule system_error, rule error_step.choose, simp, simp, simp, simp,
      rule states_of_step, rule system_error, rule error_step.lock, simp, simp,
      rule states_of_step, rule system_error, rule error_step.send, simp, simp,
      rule states_of_step, rule system_error, rule error_step.deliver, simp, simp, simp,
      rule states_of_step, rule system_error, rule error_step.handled, simp, simp,
      rule states_of_step, rule system_error, rule error_step.choose, simp, simp, simp, simp,
      rule states_of_step, rule system_error, rule error_step.send, simp, simp, simp)



subsection \<open>How far the handling of an error gets\<close>

text \<open>
  A bound on the steps a processor has left: a loop of three steps per processor once it draws, and only the way to its own
  halt when another one has been first.
\<close>

fun effort :: "nat \<Rightarrow> bool \<Rightarrow> error_phase \<Rightarrow> nat" where
  "effort N d RUNNING = (if d then 4 else 3 * N + 11)"
| "effort N d CALLED = (if d then 3 else 3 * N + 10)"
| "effort N d INSIDE = (if d then 2 else 3 * N + 9)"
| "effort N d LEAVING = 1"
| "effort N d FIRST = 3 * N + 8"
| "effort N d DRAWING = 3 * N + 7"
| "effort N d (SENDING k) = 3 * (N - k) + 6"
| "effort N d (LOCKING k) = 3 * (N - k) + 5"
| "effort N d (WAITING k) = 3 * (N - k) + 4"
| "effort N d x = 0"

definition work :: "nat \<Rightarrow> error_state \<Rightarrow> nat" where
  "work N s = (\<Sum>p<N. effort N (displaying s) (phase s p))"

lemma effort_displaying: "d \<longrightarrow> d' \<Longrightarrow> effort N d' x \<le> effort N d x"
  by (cases x) auto

lemma work_update:
  assumes "phase s' = (phase s)(p := x)" and "p < N" and "displaying s \<longrightarrow> displaying s'"
    and "effort N (displaying s') x < effort N (displaying s) (phase s p)"
  shows "work N s' < work N s"
  unfolding work_def
proof (rule sum_strict_mono_ex1)
  show "\<forall>q\<in>{..<N}. effort N (displaying s') (phase s' q) \<le> effort N (displaying s) (phase s q)"
    using assms(1,3,4) by (auto intro: effort_displaying)
  show "\<exists>q\<in>{..<N}. effort N (displaying s') (phase s' q) < effort N (displaying s) (phase s q)"
    using assms(1,2,4) by (intro bexI [of _ p]) auto
qed simp

lemma passed_ok_listed: "passed_ok N s \<Longrightarrow> phase s p \<noteq> HALTED \<Longrightarrow> p < N"
  unfolding passed_ok_def by (meson linorder_not_le)

lemma error_step_work:
  assumes "error_step N s s'" and "passed_ok N s"
  shows "work N s' < work N s"
proof -
  note listed = passed_ok_listed [OF assms(2)]
  have bound: "phase s p = WAITING k \<Longrightarrow> k < N" for p k using assms(2) by (auto simp: passed_ok_def)
  from assms(1) show ?thesis
  proof cases
    case (handled p k)
    then show ?thesis using bound [of p k] listed [of p]
      by (intro work_update [of _ _ p "SENDING (Suc k)"]) (auto simp: to_phase_update)
  next
    case (deliver q)
    then show ?thesis using listed [of q]
      by (intro work_update [of _ _ q STOPPED]) (cases "phase s q"; auto simp: to_phase_update stopped_def)+
  qed (rule work_update, simp add: to_phase_update, rule listed, auto)+
qed

lemma machine_step_work:
  assumes "machine_step s s'" and "passed_ok N s" and "lock_ok s"
  shows "work N s' \<le> work N s"
proof -
  note listed = passed_ok_listed [OF assms(2)]
  from assms(1) show ?thesis
  proof cases
    case (fail p)
    then have "work N s' < work N s" using listed [of p]
      by (intro work_update [of _ _ p CALLED]) (auto simp: to_phase_update)
    then show ?thesis by simp
  next
    case (refail p)
    then have "displaying s" using assms(3) by (auto simp: lock_ok_def)
    moreover have "phase s p \<noteq> HALTED" using refail by auto
    ultimately have "work N s' < work N s" using refail listed [of p]
      by (intro work_update [of _ _ p CALLED]) (cases "phase s p"; auto simp: to_phase_update)+
    then show ?thesis by simp
  qed (simp_all add: work_def)
qed

definition error_steps :: "nat \<Rightarrow> error_state list \<Rightarrow> nat" where
  "error_steps N ss = length (filter (\<lambda>(s, s'). error_step N s s') (zip ss (tl ss)))"

lemma error_steps_simps [simp]:
  "error_steps N [s] = 0"
  "error_steps N (s # s' # ss) = (if error_step N s s' then 1 else 0) + error_steps N (s' # ss)"
  by (simp_all add: error_steps_def)

lemma error_steps_work:
  assumes "lock_ok s" and "passed_ok N s" and "successively (system_step N) (s # ss)"
  shows "error_steps N (s # ss) + work N (last (s # ss)) \<le> work N s \<and>
    lock_ok (last (s # ss)) \<and> passed_ok N (last (s # ss))"
  using assms
proof (induction ss arbitrary: s)
  case (Cons t ss)
  then have step: "error_step N s t \<or> machine_step s t" by (simp add: system_step_def)
  then have ok: "lock_ok t" "passed_ok N t" using Cons.prems errors.step_inv [of s N t] by simp_all
  have "(if error_step N s t then 1 else 0) + work N t \<le> work N s"
    using step error_step_work [of N s t] machine_step_work [of s t N] Cons.prems by auto
  moreover have "error_steps N (t # ss) + work N (last (t # ss)) \<le> work N t \<and>
      lock_ok (last (t # ss)) \<and> passed_ok N (last (t # ss))"
    using ok Cons.prems(3) by (intro Cons.IH) auto
  ultimately show ?case by auto
qed simp

lemma init_work:
  assumes "error_init N s"
  shows "work N s \<le> N * (3 * N + 11)"
proof -
  have "effort N (displaying s) (phase s p) \<le> 3 * N + 11" for p
  proof -
    have "phase s p = HALTED \<or> phase s p = RUNNING" using assms by (auto simp: error_init_def)
    then show ?thesis by auto
  qed
  then show ?thesis using sum_bounded_above [of "{..<N}" "\<lambda>p. effort N (displaying s) (phase s p)" "3 * N + 11"]
    by (simp add: work_def)
qed

text \<open>
  A processor that cannot go on: it spins for the lock of \<open>error\<close> while the holder is halted by the message, or for the
  message lock of the processor it sends to (or of its own, for the last message), or for the acknowledgement of one that has
  interrupts disabled or has halted before it took the message.
\<close>

definition held_up :: "nat \<Rightarrow> error_state \<Rightarrow> nat \<Rightarrow> bool" where
  "held_up N s p \<longleftrightarrow> (case phase s p of
      CALLED \<Rightarrow> (case owner s of Some q \<Rightarrow> phase s q = STOPPED | None \<Rightarrow> False)
    | LOCKING k \<Rightarrow> mailbox s k \<noteq> None
    | WAITING k \<Rightarrow> pending s k \<and> (masked s k \<or> stopped (phase s k))
    | SENDING k \<Rightarrow> k = N \<and> mailbox s p \<noteq> None
    | _ \<Rightarrow> False)"

lemma standstill:
  assumes ok: "lock_ok s" "passed_ok N s" and still: "\<And>t. \<not> error_step N s t"
  shows "phase s p = RUNNING \<or> stopped (phase s p) \<or> held_up N s p"
proof (cases "phase s p")
  case CALLED
  then obtain q where q: "owner s = Some q" using still error_step.lock by (cases "owner s") blast+
  then have "phase s q \<in> {INSIDE, FIRST, STOPPED}" using ok(1) by (simp add: lock_ok_def)
  moreover have "phase s q \<noteq> INSIDE" "phase s q \<noteq> FIRST" using still error_step.second error_step.first error_step.unlock by blast+
  ultimately show ?thesis using CALLED q by (simp add: held_up_def)
next
  case (SENDING k)
  then have "\<not> k < N" using still error_step.skip [of s p k N] error_step.choose [of s p k N] by blast
  moreover have "sent N (phase s p) \<le> N" using ok(2) unfolding passed_ok_def by blast
  ultimately have "k = N" using SENDING by simp
  moreover have "mailbox s p \<noteq> None" using SENDING \<open>k = N\<close> still error_step.finish by blast
  ultimately show ?thesis using SENDING by (simp add: held_up_def)
next
  case (LOCKING k)
  then show ?thesis using still error_step.send [of s p k] by (auto simp: held_up_def)
next
  case (WAITING k)
  then show ?thesis using still error_step.handled [of s p k] error_step.deliver [of s k] by (auto simp: held_up_def)
qed (use still error_step.second error_step.first error_step.unlock error_step.draw error_step.leave
  in \<open>(blast | simp add: stopped_def)+\<close>)

text \<open>
  C37. The handling of errors ends, and how. In a run of any length the \<open>N\<close> processors take at most \<open>N * (3 * N + 11)\<close> steps of
  \<open>error\<close> between them, and where none of these steps is possible any more, every processor has never failed, is halted,
  or is held up for one of the reasons named in \<open>held_up\<close>: it spins for a lock whose holder was halted, for a message
  lock that is held, or for an acknowledgement from a processor that cannot give it.
\<close>

theorem error_handling_ends:
  assumes "ss \<noteq> []" and "error_init N (hd ss)" and "successively (system_step N) ss"
  shows "error_steps N ss \<le> N * (3 * N + 11) \<and>
    ((\<forall>t. \<not> error_step N (last ss) t) \<longrightarrow>
       phase (last ss) p = RUNNING \<or> stopped (phase (last ss) p) \<or> held_up N (last ss) p)"
proof -
  obtain s rest where ss: "ss = s # rest" using assms(1) by (cases ss) auto
  then have "lock_ok s \<and> passed_ok N s" using assms(2) error_init_ok by simp
  then have "error_steps N ss + work N (last ss) \<le> work N s" "lock_ok (last ss)" "passed_ok N (last ss)"
    using error_steps_work [of s N rest] assms(3) ss by simp_all
  then show ?thesis using init_work [OF assms(2)] standstill [of "last ss" N p] ss by auto
qed

lemma stuck_run_still: "\<not> error_step 3 (fold (\<lambda>f. f) stuck_run (all_running 3)) t"
proof
  let ?s = "fold (\<lambda>f. f) stuck_run (all_running 3)"
  have ph: "phase ?s = (\<lambda>p. if p = 0 then WAITING 2 else if p = 1 then STOPPED else if p = 2 then CALLED else HALTED)"
    by (rule ext) (simp add: stuck_run_def all_running_def)
  have rest: "owner ?s = Some 1" "pending ?s = (\<lambda>q. q = 2)" "masked ?s 2"
    by (auto simp: stuck_run_def all_running_def fun_eq_iff)
  assume "error_step 3 ?s t"
  then show False by cases (auto simp: ph rest stopped_def split: if_splits)
qed

theorem error_handling_ends_witness:
  "let ss = states_of (all_running 3) stuck_run
   in error_steps 3 ss \<le> 60 \<and> phase (last ss) 1 = STOPPED \<and> held_up 3 (last ss) 0 \<and> held_up 3 (last ss) 2"
proof -
  let ?ss = "states_of (all_running 3) stuck_run"
  have *: "error_steps 3 ?ss \<le> 60 \<and> (phase (last ?ss) p = RUNNING \<or> stopped (phase (last ?ss) p) \<or> held_up 3 (last ?ss) p)" for p
    using error_handling_ends [of ?ss 3 p] all_running_init stuck_run_steps stuck_run_still by simp
  have "phase (last ?ss) 0 = WAITING 2" "phase (last ?ss) 1 = STOPPED" "phase (last ?ss) 2 = CALLED"
    by (simp_all add: stuck_run_def)
  then show ?thesis using * [of 0] * [of 2] by (simp add: stopped_def Let_def)
qed

end
