(* ===== verification/Pci.thy ===== *)
theory Pci
  imports User_Memory
begin

text \<open>
  The device driver manager (\<open>ddm/pci.c\<close>, \<open>ddm/drivers.c\<close>, \<open>ddm/main.c\<close>): reading the configuration space of
  PCI Express devices, their enumeration, the tables of descriptions, and the file that names a driver
  for a description. The configuration space is byte memory at the address where \<open>self_map_physical\<close> maps it;
  that call, the heap and the KCLib array are parameters.
\<close>

section \<open>Configuration space\<close>

text \<open>The union \<open>busaddr\<close>: offset, register, extended register, function, device and bus.\<close>

definition config_dword :: "u64 \<Rightarrow> u8 \<Rightarrow> u8 \<Rightarrow> u8 \<Rightarrow> u8 \<Rightarrow> u8 \<Rightarrow> u64" where
  "config_dword address busnum devicenum funcnum ereg reg =
     field_set 0 2 0 (field_set 2 6 (ucast reg) (field_set 12 3 (ucast funcnum) (field_set 8 4 (ucast ereg)
       (field_set 15 5 (ucast devicenum) (field_set 20 8 (ucast busnum) 0))))) + address"

text \<open>The macro \<open>RREG32\<close> keeps bits \<open>start\<close> to \<open>start + width\<close>, one more than the width.\<close>

definition RREG32 :: "store \<Rightarrow> u64 \<Rightarrow> nat \<Rightarrow> nat \<Rightarrow> u64" where
  "RREG32 m a start width = ucast (ld32 m a) AND ((push_bit (start + width + 1) 1 - 1) AND NOT (push_bit start 1 - 1))"

definition config_read_byte :: "store \<Rightarrow> u64 \<Rightarrow> u8 \<Rightarrow> u8 \<Rightarrow> u8 \<Rightarrow> u8 \<Rightarrow> u8 \<Rightarrow> nat \<Rightarrow> u8" where
  "config_read_byte m address b d f ereg reg offset =
     (let off = (if offset = 0 then 3 else if offset = 1 then 2 else if offset = 2 then 1 else 0)
      in ucast (drop_bit (off * 8) (RREG32 m (config_dword address b d f ereg reg) (off * 8) 8)))"

definition config_read_word :: "store \<Rightarrow> u64 \<Rightarrow> u8 \<Rightarrow> u8 \<Rightarrow> u8 \<Rightarrow> u8 \<Rightarrow> u8 \<Rightarrow> nat \<Rightarrow> u16" where
  "config_read_word m address b d f ereg reg offset =
     (let off = (if offset = 0 then 2 else if offset = 2 then 0 else offset)
      in ucast (drop_bit (off * 8) (RREG32 m (config_dword address b d f ereg reg) (off * 8) 16)))"

definition config_read_dword :: "store \<Rightarrow> u64 \<Rightarrow> u8 \<Rightarrow> u8 \<Rightarrow> u8 \<Rightarrow> u8 \<Rightarrow> u8 \<Rightarrow> u32" where
  "config_read_dword m address b d f ereg reg = ld32 m (config_dword address b d f ereg reg)"

definition config_read_qword :: "store \<Rightarrow> u64 \<Rightarrow> u8 \<Rightarrow> u8 \<Rightarrow> u8 \<Rightarrow> u8 \<Rightarrow> u8 \<Rightarrow> u64" where
  "config_read_qword m address b d f ereg reg =
     push_bit 32 (ucast (ld32 m (config_dword address b d f ereg reg)))
       + ucast (ld32 m (config_dword address b d f ereg (reg + 1)))"

section \<open>Descriptions\<close>

datatype prog_match = Any | Is nat | Pos

primrec prog_fits :: "prog_match \<Rightarrow> nat \<Rightarrow> bool" where
  "prog_fits Any p \<longleftrightarrow> True"
| "prog_fits (Is q) p \<longleftrightarrow> p = q"
| "prog_fits Pos p \<longleftrightarrow> 0 < p"

definition description :: "string list" where
  "description =
     [''Device was built prior definition of the class code field'',
      ''Mass Storage Controller'',
      ''Network Controller'',
      ''Display Controller'',
      ''Multimedia Controller'',
      ''Memory Controller'',
      ''Bridge Device'',
      ''Simple Communication Controllers'',
      ''Base System Peripherals'',
      ''Input Devices'',
      ''Docking Stations'',
      ''Processors'',
      ''Serial Bus Controllers'',
      ''Wireless Controllers'',
      ''Intelligent I/O Controllers'',
      ''Satellite Communication Controllers'',
      ''Encryption/Decryption Controllers'',
      ''Data Acquisition and Signal Processing Controllers''] @
     replicate 237 ''reserved'' @ [''Device does not fit any defined class.'']"

definition class_table_0 :: "(nat \<times> nat \<times> prog_match \<times> string) list" where
  "class_table_0 =
     [(0, 0, Is 0, ''Any device except for VGA-Compatible devices''),
      (0, 0, Is 1, ''VGA-Compatible Device''),
      (1, 0, Is 0, ''SCSI Bus Controller''),
      (1, 1, Any, ''IDE Controller''),
      (1, 2, Is 0, ''Floppy Disk Controller''),
      (1, 3, Is 0, ''IPI Bus Controller''),
      (1, 4, Is 0, ''RAID Controller''),
      (1, 5, Is 32, ''ATA Controller (Single DMA)''),
      (1, 5, Is 48, ''ATA Controller (Chained DMA)''),
      (1, 6, Is 0, ''Serial ATA (Vendor Specific Interface)''),
      (1, 6, Is 1, ''Serial ATA (AHCI 1.0)''),
      (1, 7, Is 0, ''Serial Attached SCSI (SAS)''),
      (1, 128, Is 0, ''Other Mass Storage Controller ''),
      (2, 0, Is 0, ''Ethernet Controller''),
      (2, 1, Is 0, ''Token Ring Controller''),
      (2, 2, Is 0, ''FDDI Controller''),
      (2, 3, Is 0, ''ATM Controller''),
      (2, 4, Is 0, ''ISDN Controller''),
      (2, 5, Is 0, ''WorldFip Controller''),
      (2, 6, Any, ''PICMG 2.14 Multi Computing''),
      (2, 128, Is 0, ''Other Network Controller''),
      (3, 0, Is 0, ''VGA-Compatible Controller''),
      (3, 0, Is 1, ''8512-Compatible Controller''),
      (3, 1, Is 0, ''XGA Controller''),
      (3, 2, Is 0, ''3D Controller (Not VGA-Compatible)''),
      (3, 128, Is 0, ''Other Display Controller'')]"

definition class_table_4 :: "(nat \<times> nat \<times> prog_match \<times> string) list" where
  "class_table_4 =
     [(4, 0, Is 0, ''Video Device''),
      (4, 1, Is 0, ''Audio Device''),
      (4, 2, Is 0, ''Computer Telephony Device''),
      (4, 128, Is 0, ''Other Multimedia Device''),
      (5, 0, Is 0, ''RAM Controller''),
      (5, 1, Is 0, ''Flash Controller''),
      (5, 128, Is 0, ''Other Memory Controller''),
      (6, 0, Is 0, ''Host Bridge''),
      (6, 1, Is 0, ''ISA Bridge''),
      (6, 2, Is 0, ''EISA Bridge''),
      (6, 3, Is 0, ''MCA Bridge''),
      (6, 4, Is 0, ''PCI-to-PCI Bridge''),
      (6, 4, Is 1, ''PCI-to-PCI Bridge (Subtractive Decode)''),
      (6, 5, Is 0, ''PCMCIA Bridge''),
      (6, 6, Is 0, ''NuBus Bridge''),
      (6, 7, Is 0, ''CardBus Bridge''),
      (6, 8, Any, ''RACEway Bridge''),
      (6, 9, Is 64, ''PCI-to-PCI Bridge (Semi-Transparent, Primary)''),
      (6, 9, Is 128, ''PCI-to-PCI Bridge (Semi-Transparent, Secondary)''),
      (6, 10, Is 0, ''InfiniBrand-to-PCI Host Bridge''),
      (6, 128, Is 0, ''Other Bridge Device'')]"

definition class_table_7 :: "(nat \<times> nat \<times> prog_match \<times> string) list" where
  "class_table_7 =
     [(7, 0, Is 0, ''Generic XT-Compatible Serial Controller''),
      (7, 0, Is 1, ''16450-Compatible Serial Controller''),
      (7, 0, Is 2, ''16550-Compatible Serial Controller''),
      (7, 0, Is 3, ''16650-Compatible Serial Controller''),
      (7, 0, Is 4, ''16750-Compatible Serial Controller''),
      (7, 0, Is 5, ''16850-Compatible Serial Controller''),
      (7, 0, Is 6, ''16950-Compatible Serial Controller''),
      (7, 1, Is 0, ''Parallel Port''),
      (7, 1, Is 1, ''Bi-Directional Parallel Port''),
      (7, 1, Is 2, ''ECP 1.X Compliant Parallel Port''),
      (7, 1, Is 3, ''IEEE 1284 Controller''),
      (7, 1, Is 254, ''IEEE 1284 Target Device''),
      (7, 2, Is 0, ''Multiport Serial Controller''),
      (7, 3, Is 0, ''Generic Modem''),
      (7, 3, Is 1, ''Hayes Compatible Modem (16450-Compatible Interface)''),
      (7, 3, Is 2, ''Hayes Compatible Modem (16550-Compatible Interface)''),
      (7, 3, Is 3, ''Hayes Compatible Modem (16650-Compatible Interface)''),
      (7, 3, Is 4, ''Hayes Compatible Modem (16750-Compatible Interface)''),
      (7, 4, Is 0, ''IEEE 488.1/2 (GPIB) Controller''),
      (7, 5, Is 0, ''Smart Card''),
      (7, 128, Is 0, ''Other Communications Device''),
      (8, 0, Is 0, ''Generic 8259 PIC''),
      (8, 0, Is 1, ''ISA PIC''),
      (8, 0, Is 2, ''EISA PIC''),
      (8, 0, Is 16, ''I/O APIC Interrupt Controller''),
      (8, 0, Is 32, ''I/O(x) APIC Interrupt Controller''),
      (8, 1, Is 0, ''Generic 8237 DMA Controller''),
      (8, 1, Is 1, ''ISA DMA Controller''),
      (8, 1, Is 2, ''EISA DMA Controller''),
      (8, 2, Is 0, ''Generic 8254 System Timer''),
      (8, 2, Is 1, ''ISA System Timer''),
      (8, 2, Is 2, ''EISA System Timer''),
      (8, 3, Is 0, ''Generic RTC Controller''),
      (8, 3, Is 1, ''ISA RTC Controller''),
      (8, 4, Is 0, ''Generic PCI Hot-Plug Controller''),
      (8, 128, Is 0, ''Other System Peripheral''),
      (9, 0, Is 0, ''Keyboard Controller''),
      (9, 1, Is 0, ''Digitizer''),
      (9, 2, Is 0, ''Mouse Controller''),
      (9, 3, Is 0, ''Scanner Controller''),
      (9, 4, Is 0, ''Gameport Controller (Generic)''),
      (9, 4, Is 16, ''Gameport Contrlller (Legacy)''),
      (9, 128, Is 0, ''Other Input Controller'')]"

definition class_table_10 :: "(nat \<times> nat \<times> prog_match \<times> string) list" where
  "class_table_10 =
     [(10, 0, Is 0, ''Generic Docking Station''),
      (10, 128, Is 0, ''Other Docking Station''),
      (11, 0, Is 0, ''386 Processor''),
      (11, 1, Is 0, ''486 Processor''),
      (11, 2, Is 0, ''Pentium Processor''),
      (11, 16, Is 0, ''Alpha Processor''),
      (11, 32, Is 0, ''PowerPC Processor''),
      (11, 48, Is 0, ''MIPS Processor''),
      (11, 64, Is 0, ''Co-Processor''),
      (12, 0, Is 0, ''IEEE 1394 Controller (FireWire)''),
      (12, 0, Is 16, ''IEEE 1394 Controller (1394 OpenHCI Spec)''),
      (12, 1, Is 0, ''ACCESS.bus''),
      (12, 2, Is 0, ''SSA''),
      (12, 3, Is 0, ''USB (Universal Host Controller Spec)''),
      (12, 3, Is 16, ''USB (Open Host Controller Spec)''),
      (12, 3, Is 32, ''USB2 Host Controller (Intel Enhanced Host Controller Interface)''),
      (12, 3, Is 48, ''USB3 XHCI Controller''),
      (12, 3, Is 128, ''Unspecified USB Controller''),
      (12, 254, Any, ''USB (Not Host Controller)''),
      (12, 4, Is 0, ''Fibre Channel''),
      (12, 5, Is 0, ''SMBus''),
      (12, 6, Is 0, ''InfiniBand''),
      (12, 7, Is 0, ''IPMI SMIC Interface''),
      (12, 7, Is 1, ''IPMI Kybd Controller Style Interface''),
      (12, 7, Is 2, ''IPMI Block Transfer Interface''),
      (12, 8, Is 0, ''SERCOS Interface Standard (IEC 61491)''),
      (12, 9, Is 0, ''CANbus''),
      (13, 0, Is 0, ''iRDA Compatible Controller''),
      (13, 1, Is 0, ''Consumer IR Controller''),
      (13, 16, Is 0, ''RF Controller''),
      (13, 17, Is 0, ''Bluetooth Controller''),
      (13, 18, Is 0, ''Broadband Controller''),
      (13, 32, Is 0, ''Ethernet Controller (802.11a)''),
      (13, 33, Is 0, ''Ethernet Controller (802.11b)''),
      (13, 128, Is 0, ''Other Wireless Controller''),
      (14, 0, Is 0, ''I20 Architecture''),
      (14, 0, Pos, ''Message FIFO''),
      (15, 1, Is 0, ''TV Controller''),
      (15, 2, Is 0, ''Audio Controller''),
      (15, 3, Is 0, ''Voice Controller''),
      (15, 4, Is 0, ''Data Controller''),
      (16, 0, Is 0, ''Network and Computing Encryption/Decryption''),
      (16, 16, Is 0, ''Entertainment Encryption/Decryption''),
      (16, 128, Is 0, ''Other Encryption/Decryption''),
      (17, 0, Is 0, ''DPIO Modules''),
      (17, 1, Is 0, ''Performance Counters''),
      (17, 16, Is 0, ''Communications Synchronization Plus Time and Frequency Test/Measurement''),
      (17, 32, Is 0, ''Management Card''),
      (17, 128, Is 0, ''Other Data Acquisition/Signal Processing Controller'')]"

definition describe :: "nat \<Rightarrow> nat \<Rightarrow> nat \<Rightarrow> string" where
  "describe cc sc p =
     (case find (\<lambda>(c, s, pm, t). c = cc \<and> s = sc \<and> prog_fits pm p) (class_table_0 @ class_table_4 @ class_table_7 @ class_table_10) of
        None \<Rightarrow> ''not specified''
      | Some (c, s, pm, t) \<Rightarrow> t)"

text \<open>
  The array \<open>descriptions\<close> has room for \<open>256 * 256 * 256\<close> pointers; the loops fill the first
  \<open>128 * 128 * 128\<close>, the rest is what the heap held.
\<close>

definition descriptions :: "(nat \<Rightarrow> string) \<Rightarrow> nat \<Rightarrow> string" where
  "descriptions junk i = (if i < 128 * 128 * 128 then describe (i div (128 * 128)) (i div 128 mod 128) (i mod 128) else junk i)"

definition ddescription_of :: "(nat \<Rightarrow> string) \<Rightarrow> u8 \<Rightarrow> u8 \<Rightarrow> u8 \<Rightarrow> string" where
  "ddescription_of junk cls sub prog = descriptions junk (unat cls * 128 * 128 + unat sub * 128 + unat prog)"

section \<open>Enumeration\<close>

record header_0 =
  bars :: "u32 list"
  cardbus_cis_ptr :: u32
  subsystem_id :: u16
  subsystem_v_id :: u16
  exp_rom_base_address :: u32
  cap_ptr :: u8
  maxlat :: u8
  mingrant :: u8
  ipin :: u8
  iline :: u8

record pcie_info =
  base_address :: u64
  exact_address :: u64
  pi_bus :: u8
  pi_device :: u8
  pi_function :: u8
  device_id :: u16
  vendor_id :: u16
  pi_status :: u64
  pi_command :: u64
  pi_class :: u8
  pi_subclass :: u8
  prog_if :: u8
  rev_id :: u8
  bist :: u64
  htype :: u8
  lat_timer :: u8
  cache :: u8
  pi_header_0 :: header_0
  cdescription :: string
  ddescription :: string

definition zero_header :: header_0 where
  "zero_header = \<lparr>bars = replicate 6 0, cardbus_cis_ptr = 0, subsystem_id = 0, subsystem_v_id = 0,
     exp_rom_base_address = 0, cap_ptr = 0, maxlat = 0, mingrant = 0, ipin = 0, iline = 0\<rparr>"

definition read_header_0 :: "store \<Rightarrow> u64 \<Rightarrow> u8 \<Rightarrow> u8 \<Rightarrow> u8 \<Rightarrow> header_0" where
  "read_header_0 m a b d f =
     \<lparr>bars = map (\<lambda>r. config_read_dword m a b d f 0 r) [4, 5, 6, 7, 8, 9],
      cardbus_cis_ptr = config_read_dword m a b d f 0 10,
      subsystem_id = config_read_word m a b d f 0 11 2,
      subsystem_v_id = config_read_word m a b d f 0 11 0,
      exp_rom_base_address = config_read_dword m a b d f 0 12,
      cap_ptr = ucast (config_read_word m a b d f 0 13 0),
      maxlat = ucast (config_read_word m a b d f 0 14 3),
      mingrant = ucast (config_read_word m a b d f 0 14 2),
      ipin = ucast (config_read_word m a b d f 0 14 1),
      iline = ucast (config_read_word m a b d f 0 14 0)\<rparr>"

definition vendor_of :: "store \<Rightarrow> u64 \<Rightarrow> u8 \<Rightarrow> u8 \<Rightarrow> u8 \<Rightarrow> u16" where
  "vendor_of m a b d f = config_read_word m a b d f 0 0 2"

definition read_info :: "(nat \<Rightarrow> string) \<Rightarrow> store \<Rightarrow> u64 \<Rightarrow> u8 \<Rightarrow> u8 \<Rightarrow> u8 \<Rightarrow> pcie_info" where
  "read_info junk m a b d f =
     (let cls = config_read_byte m a b d f 0 2 0; sub = config_read_byte m a b d f 0 2 1;
          prog = config_read_byte m a b d f 0 2 2; ht = config_read_byte m a b d f 0 3 1
      in \<lparr>base_address = a, exact_address = config_dword a b d f 0 0, pi_bus = b, pi_device = d, pi_function = f,
          device_id = config_read_word m a b d f 0 0 0, vendor_id = vendor_of m a b d f,
          pi_status = config_dword a b d f 0 1, pi_command = config_dword a b d f 0 1,
          pi_class = cls, pi_subclass = sub, prog_if = prog, rev_id = config_read_byte m a b d f 0 2 3,
          bist = config_dword a b d f 0 3, htype = ht, lat_timer = config_read_byte m a b d f 0 3 2,
          cache = config_read_byte m a b d f 0 3 3,
          pi_header_0 = (if ht AND NOT 0x80 = 0 then read_header_0 m a b d f else zero_header),
          cdescription = description ! unat cls, ddescription = ddescription_of junk cls sub prog\<rparr>)"

text \<open>
  \<open>got n\<close> says whether memory for the entry with number \<open>n\<close> was found and \<open>pushed n\<close> whether the array took
  it; otherwise the enumeration of this bus group ends (the first component of the result).
\<close>

record pci_env =
  got :: "nat \<Rightarrow> bool"
  pushed :: "nat \<Rightarrow> bool"
  map_phys :: "u64 \<Rightarrow> u64 \<Rightarrow> u64"
  desc_junk :: "nat \<Rightarrow> string"

primrec scan_functions :: "pci_env \<Rightarrow> store \<Rightarrow> u64 \<Rightarrow> u8 \<Rightarrow> u8 \<Rightarrow> u8 list \<Rightarrow> pcie_info list \<Rightarrow> bool \<times> pcie_info list" where
  "scan_functions P m a i j [] es = (False, es)"
| "scan_functions P m a i j (k # ks) es =
     (if vendor_of m a i j k = 0xFFFF then scan_functions P m a i j ks es
      else if \<not> got P (length es) then (True, es)
      else let info = read_info (desc_junk P) m a i j k
           in if \<not> pushed P (length es) then (True, es)
              else if htype info AND 0x80 = 0 then (False, es @ [info])
              else scan_functions P m a i j ks (es @ [info]))"

primrec scan_devices :: "pci_env \<Rightarrow> store \<Rightarrow> u64 \<Rightarrow> u8 \<Rightarrow> u8 list \<Rightarrow> pcie_info list \<Rightarrow> bool \<times> pcie_info list" where
  "scan_devices P m a i [] es = (False, es)"
| "scan_devices P m a i (j # js) es =
     (case scan_functions P m a i j (map of_nat [0..<7]) es of
        (stop, es') \<Rightarrow> if stop then (True, es') else scan_devices P m a i js es')"

primrec scan_buses :: "pci_env \<Rightarrow> store \<Rightarrow> u64 \<Rightarrow> nat list \<Rightarrow> pcie_info list \<Rightarrow> bool \<times> pcie_info list" where
  "scan_buses P m a [] es = (False, es)"
| "scan_buses P m a (i # is) es =
     (case scan_devices P m a (of_nat i) (map of_nat [0..<32]) es of
        (stop, es') \<Rightarrow> if stop then (True, es') else scan_buses P m a is es')"

record pci_bus =
  bus_base_address :: u64
  start_pci_busnum :: u8
  end_pci_busnum :: u8

text \<open>The number of buses is the difference of the two bytes, as a \<open>size_t\<close>.\<close>

definition load_pcie_entry_info :: "pci_env \<Rightarrow> store \<Rightarrow> pci_bus \<Rightarrow> pcie_info list \<Rightarrow> pcie_info list" where
  "load_pcie_entry_info P m bi es =
     (let numentries = (ucast (end_pci_busnum bi) - ucast (start_pci_busnum bi) :: u64);
          a = map_phys P (bus_base_address bi) (numentries * 4096 * 8 * 32)
      in if a = 0 then es else snd (scan_buses P m a [0..<unat numentries] es))"

text \<open>\<open>count\<close> and \<open>infos\<close> are what the system calls for the bus list returned.\<close>

definition load_pcie_info :: "pci_env \<Rightarrow> store \<Rightarrow> int \<Rightarrow> bool \<Rightarrow> pci_bus list \<Rightarrow> pcie_info list \<Rightarrow> pcie_info list" where
  "load_pcie_info P m busc mem infos es =
     (if busc \<le> 0 then es else if \<not> mem then es
      else fold (load_pcie_entry_info P m) (take (nat busc) infos) es)"

text \<open>\<open>arr\<close> and \<open>tab\<close> say whether the array of entries and the table of descriptions could be allocated.\<close>

definition load_pci_info :: "pci_env \<Rightarrow> store \<Rightarrow> bool \<Rightarrow> bool \<Rightarrow> int \<Rightarrow> bool \<Rightarrow> pci_bus list \<Rightarrow> pcie_info list" where
  "load_pci_info P m arr tab busc mem infos = (if arr \<and> tab then load_pcie_info P m busc mem infos [] else [])"

section \<open>The driver file\<close>

text \<open>
  \<open>strtok\<close> with a line feed yields the non-empty lines. A line without a colon makes the path start behind the
  end of the line: no result. The table is KCLib's; here it is the map of its entries.
\<close>

fun split_lines :: "string \<Rightarrow> string \<Rightarrow> string list" where
  "split_lines cur [] = (if cur = [] then [] else [cur])"
| "split_lines cur (c # cs) =
     (if c = CHR 0x0A then (if cur = [] then split_lines [] cs else cur # split_lines [] cs)
      else split_lines (cur @ [c]) cs)"

definition split_entry :: "string \<Rightarrow> (string \<times> string) option" where
  "split_entry l = (if CHR '':'' \<in> set l
     then Some (takeWhile (\<lambda>c. c \<noteq> CHR '':'') l, tl (dropWhile (\<lambda>c. c \<noteq> CHR '':'') l)) else None)"

primrec set_drivers :: "string list \<Rightarrow> (string \<rightharpoonup> string) \<Rightarrow> (string \<rightharpoonup> string) option" where
  "set_drivers [] t = Some t"
| "set_drivers (l # ls) t = (case split_entry l of None \<Rightarrow> None | Some (i, p) \<Rightarrow> set_drivers ls (t(i \<mapsto> p)))"

definition load_drivers :: "string \<Rightarrow> (string \<rightharpoonup> string) \<Rightarrow> (string \<rightharpoonup> string) option" where
  "load_drivers contents t = set_drivers (split_lines [] contents) t"

text \<open>The paths that \<open>load_disk_drives\<close> starts, in order.\<close>

definition load_disk_drives :: "pcie_info list \<Rightarrow> (string \<rightharpoonup> string) \<Rightarrow> string list" where
  "load_disk_drives es t = List.map_filter (\<lambda>e. if pi_class e = 1 then t (ddescription e) else None) es"

section \<open>Which functions are listed\<close>

definition pci_present :: "store \<Rightarrow> u64 \<Rightarrow> nat \<Rightarrow> nat \<Rightarrow> nat \<Rightarrow> bool" where
  "pci_present m a i j k \<longleftrightarrow> vendor_of m a (of_nat i) (of_nat j) (of_nat k) \<noteq> 0xFFFF"

definition pci_multi :: "store \<Rightarrow> u64 \<Rightarrow> nat \<Rightarrow> nat \<Rightarrow> nat \<Rightarrow> bool" where
  "pci_multi m a i j k \<longleftrightarrow> config_read_byte m a (of_nat i) (of_nat j) (of_nat k) 0 3 1 AND 0x80 \<noteq> 0"

primrec visible :: "(nat \<Rightarrow> bool) \<Rightarrow> (nat \<Rightarrow> bool) \<Rightarrow> nat list \<Rightarrow> nat list" where
  "visible P M [] = []"
| "visible P M (k # ks) = (if \<not> P k then visible P M ks else k # (if M k then visible P M ks else []))"

lemma visible_upt:
  "visible P M [a..<b] = filter (\<lambda>k. P k \<and> (\<forall>k' \<in> {a..<k}. P k' \<longrightarrow> M k')) [a..<b]"
proof (induction "b - a" arbitrary: a)
  case (Suc n)
  then have ab: "[a..<b] = a # [Suc a..<b]" by (simp add: upt_conv_Cons)
  have later: "(\<forall>k' \<in> {a..<k}. P k' \<longrightarrow> M k') \<longleftrightarrow> (P a \<longrightarrow> M a) \<and> (\<forall>k' \<in> {Suc a..<k}. P k' \<longrightarrow> M k')" if "k \<in> set [Suc a..<b]" for k
  proof -
    have "{a..<k} = insert a {Suc a..<k}" using that by auto
    then show ?thesis by simp
  qed
  have IH: "visible P M [Suc a..<b] = filter (\<lambda>k. P k \<and> (\<forall>k' \<in> {Suc a..<k}. P k' \<longrightarrow> M k')) [Suc a..<b]"
    using Suc by simp
  have "filter (\<lambda>k. P k \<and> (\<forall>k' \<in> {a..<k}. P k' \<longrightarrow> M k')) [Suc a..<b] = (if P a \<and> \<not> M a then [] else visible P M [Suc a..<b])"
  proof (cases "P a \<and> \<not> M a")
    case True
    then show ?thesis using later by (simp only: if_True simp_thms) (rule filter_False, blast)
  next
    case False
    then show ?thesis unfolding IH using later by (simp only: if_False) (rule filter_cong [OF refl], blast)
  qed
  then show ?case unfolding ab by simp
qed simp

lemma scan_functions_visible:
  assumes "\<And>n. got P n" "\<And>n. pushed P n"
  shows "scan_functions P m a (of_nat i) (of_nat j) (map of_nat ks) es =
    (False, es @ map (\<lambda>k. read_info (desc_junk P) m a (of_nat i) (of_nat j) (of_nat k)) (visible (pci_present m a i j) (pci_multi m a i j) ks))"
proof (induction ks arbitrary: es)
  case (Cons k ks)
  have "htype (read_info (desc_junk P) m a (of_nat i) (of_nat j) (of_nat k)) AND 0x80 = 0 \<longleftrightarrow> \<not> pci_multi m a i j k"
    by (simp add: read_info_def Let_def pci_multi_def)
  then show ?case using Cons.IH assms by (simp add: pci_present_def)
qed simp

lemma scan_devices_visible:
  assumes "\<And>n. got P n" "\<And>n. pushed P n"
  shows "scan_devices P m a (of_nat i) (map of_nat js) es =
    (False, es @ concat (map (\<lambda>j. map (\<lambda>k. read_info (desc_junk P) m a (of_nat i) (of_nat j) (of_nat k))
       (visible (pci_present m a i j) (pci_multi m a i j) [0..<7])) js))"
  by (induction js arbitrary: es) (simp_all add: scan_functions_visible [OF assms] del: upt_Suc)

lemma scan_buses_visible:
  assumes "\<And>n. got P n" "\<And>n. pushed P n"
  shows "scan_buses P m a is es =
    (False, es @ concat (map (\<lambda>i. concat (map (\<lambda>j. map (\<lambda>k. read_info (desc_junk P) m a (of_nat i) (of_nat j) (of_nat k))
       (visible (pci_present m a i j) (pci_multi m a i j) [0..<7])) [0..<32])) is))"
  by (induction "is" arbitrary: es) (simp_all add: scan_devices_visible [OF assms] del: upt_Suc)

definition pci_address :: "pcie_info \<Rightarrow> u8 \<times> u8 \<times> u8" where
  "pci_address e = (pi_bus e, pi_device e, pi_function e)"

text \<open>
  C39. Enumeration of a group of buses, when memory suffices. Looked at are the functions 0 to 6 of every device
  on the buses of the group but the last; function 7 and the last bus are never looked at. Of these functions
  the new entries are, in order of bus, device and function, exactly the ones that answer and below which every
  function that answers says that its device has several.
\<close>

theorem load_pcie_entry_info_lists:
  assumes mem: "\<And>n. got P n" "\<And>n. pushed P n" and order: "start_pci_busnum bi \<le> end_pci_busnum bi"
    and mapped: "map_phys P (bus_base_address bi) (of_nat (unat (end_pci_busnum bi) - unat (start_pci_busnum bi)) * 1048576) = a" "a \<noteq> 0"
  shows "map pci_address (load_pcie_entry_info P m bi es) = map pci_address es @
    concat (map (\<lambda>i. concat (map (\<lambda>j. map (\<lambda>k. (of_nat i, of_nat j, of_nat k))
      (filter (\<lambda>k. pci_present m a i j k \<and> (\<forall>k' < k. pci_present m a i j k' \<longrightarrow> pci_multi m a i j k')) [0..<7]))
      [0..<32])) [0..<unat (end_pci_busnum bi) - unat (start_pci_busnum bi)])"
proof -
  let ?n = "unat (end_pci_busnum bi) - unat (start_pci_busnum bi)"
  have le: "unat (start_pci_busnum bi) \<le> unat (end_pci_busnum bi)" using order by (simp add: word_le_nat_alt)
  have n: "(ucast (end_pci_busnum bi) - ucast (start_pci_busnum bi) :: u64) = of_nat ?n"
    using le by (simp add: of_nat_diff)
  have un: "unat (of_nat ?n :: u64) = ?n" using unat_u8_bound [of "end_pci_busnum bi"] by (intro unat_of_nat_u64) simp
  have "load_pcie_entry_info P m bi es = snd (scan_buses P m a [0..<?n] es)"
    using mapped by (simp add: load_pcie_entry_info_def Let_def n un mult.assoc del: of_nat_diff)
  moreover have "pci_address (read_info (desc_junk P) m a b d f) = (b, d, f)" for b d f
    by (simp add: pci_address_def read_info_def Let_def)
  ultimately show ?thesis
    by (simp add: scan_buses_visible [OF mem] map_concat visible_upt Ball_def comp_def del: upt_Suc)
qed

definition demo_pci_env :: pci_env where
  "demo_pci_env = \<lparr>got = (\<lambda>_. True), pushed = (\<lambda>_. True), map_phys = (\<lambda>_ _. 0x10000), desc_junk = (\<lambda>_. [])\<rparr>"

definition demo_bus :: pci_bus where
  "demo_bus = \<lparr>bus_base_address = 0xE0000000, start_pci_busnum = 0, end_pci_busnum = 1\<rparr>"

text \<open>A bus on which every function answers and none says that its device has several: 32 entries.\<close>

theorem load_pcie_entry_info_lists_witness:
  "map pci_address (load_pcie_entry_info demo_pci_env (\<lambda>_. 0) demo_bus []) = map (\<lambda>j. (0, of_nat j, 0)) [0..<32]"
proof -
  have zero: "RREG32 (\<lambda>_. 0) x a b = 0" for x a b by (simp add: RREG32_def ld32_def numeral_eq_Suc)
  then have "pci_present (\<lambda>_. 0) 0x10000 i j k" "\<not> pci_multi (\<lambda>_. 0) 0x10000 i j k" for i j k
    by (simp_all add: pci_present_def pci_multi_def vendor_of_def config_read_word_def config_read_byte_def Let_def)
  moreover have "(\<forall>k' < k. False) \<longleftrightarrow> k = 0" for k :: nat by auto
  moreover have "filter (\<lambda>k. k = 0) [0..<7] = [0 :: nat]" by (simp add: upt_conv_Cons del: upt_Suc)
  ultimately show ?thesis
    using load_pcie_entry_info_lists [of demo_pci_env demo_bus "0x10000" "\<lambda>_. 0" "[]"]
    by (simp add: demo_pci_env_def demo_bus_def upt_conv_Cons [of 0 "Suc 0"] concat_map_singleton del: upt_Suc)
qed

section \<open>Descriptions and drivers\<close>

text \<open>Inside the filled part of the table the description is the one of the chain of tests.\<close>

lemma ddescription_found:
  assumes "unat c < 128" "unat s < 128" "unat p < 128"
  shows "ddescription_of junk c s p = describe (unat c) (unat s) (unat p)"
proof -
  let ?i = "unat c * 128 * 128 + unat s * 128 + unat p"
  have eq: "?i = (unat c * 128 + unat s) * 128 + unat p" by simp
  have "?i div 128 = unat c * 128 + unat s" unfolding eq using assms(3) by simp
  moreover have "?i mod 128 = unat p" unfolding eq mod_mult_self3 using assms(3) by simp
  moreover from calculation have "?i div (128 * 128) = unat c" using assms by (simp add: div_mult2_eq)
  moreover have "?i < 128 * 128 * 128" using assms by simp
  ultimately show ?thesis using assms by (simp add: ddescription_of_def descriptions_def)
qed

text \<open>
  Subclass \<open>0x80\<close>, which the tests name for the other devices of a class, is outside the loops; its index is
  that of subclass 0 of the next class.
\<close>

lemma other_bridge_description:
  "describe 6 128 0 = ''Other Bridge Device''"
  "ddescription_of junk 6 0x80 0 = ''Generic XT-Compatible Serial Controller''"
proof -
  show "describe 6 128 0 = ''Other Bridge Device''"
    by (simp add: describe_def class_table_0_def class_table_4_def class_table_7_def)
  have "ddescription_of junk 6 0x80 0 = describe 7 0 0" by (simp add: ddescription_of_def descriptions_def)
  also have "\<dots> = ''Generic XT-Compatible Serial Controller''"
    by (simp add: describe_def class_table_0_def class_table_4_def class_table_7_def)
  finally show "ddescription_of junk 6 0x80 0 = ''Generic XT-Compatible Serial Controller''" .
qed

definition driver_line :: "string \<times> string \<Rightarrow> string" where
  "driver_line e = fst e @ CHR '':'' # snd e @ [CHR 0x0A]"

definition plain_entry :: "string \<times> string \<Rightarrow> bool" where
  "plain_entry e \<longleftrightarrow> CHR '':'' \<notin> set (fst e) \<and> CHR 0x0A \<notin> set (fst e) \<union> set (snd e)"

lemma split_lines_line:
  "CHR 0x0A \<notin> set l \<Longrightarrow> cur @ l \<noteq> [] \<Longrightarrow> split_lines cur (l @ CHR 0x0A # rest) = (cur @ l) # split_lines [] rest"
  by (induction l arbitrary: cur) auto

lemma split_entry_line: "plain_entry e \<Longrightarrow> split_entry (fst e @ CHR '':'' # snd e) = Some e"
proof -
  assume "plain_entry e"
  then have "\<And>c. c \<in> set (fst e) \<Longrightarrow> c \<noteq> CHR '':''" by (auto simp: plain_entry_def)
  then show ?thesis by (simp add: split_entry_def takeWhile_append2 dropWhile_append2)
qed

text \<open>
  The driver file: reading the lines of any list of entries, each an identifier, a colon and a path, gives
  the table with these entries entered in order, so the last entry for an identifier counts.
\<close>

theorem load_drivers_roundtrip:
  assumes "list_all plain_entry es"
  shows "load_drivers (concat (map driver_line es)) t = Some (t ++ map_of (rev es))"
proof -
  have "set_drivers (split_lines [] (concat (map driver_line es))) t = Some (t ++ map_of (rev es))"
    using assms
  proof (induction es arbitrary: t)
    case (Cons e es)
    have "split_lines [] (concat (map driver_line (e # es))) =
        (fst e @ CHR '':'' # snd e) # split_lines [] (concat (map driver_line es))"
      using Cons.prems split_lines_line [of "fst e @ CHR '':'' # snd e" "[]" "concat (map driver_line es)"]
      by (auto simp: driver_line_def plain_entry_def)
    then show ?case
      using Cons split_entry_line [of e] by (cases e) (auto simp: fun_upd_def map_add_def intro!: ext split: option.split)
  qed simp
  then show ?thesis by (simp add: load_drivers_def)
qed

theorem load_drivers_roundtrip_witness:
  "load_drivers (driver_line (''SATA'', ''/sys/sata'')) Map.empty = Some [''SATA'' \<mapsto> ''/sys/sata'']"
  using load_drivers_roundtrip [of "[(''SATA'', ''/sys/sata'')]" Map.empty] by (simp add: plain_entry_def)

end
