(* ===== verification/User_Library.thy ===== *)
theory User_Library
  imports Pci
begin

text \<open>
  The user side of the system calls: messages (\<open>src/src/cthulhu/messages.c\<close>), the initial file system, services and
  frame buffer (\<open>src/src/kernel_dev_lib\<close>), the driver file of the device manager, the first process
  (\<open>src/src/init/main.c\<close>) and the start of the frame buffer service. The trap into the kernel, written in
  assembler, is the parameter \<open>sys\<close>: number and arguments to result and state.
\<close>

section \<open>Messages\<close>

record user_state =
  umem :: store

type_synonym 's trap = "nat \<Rightarrow> u64 list \<Rightarrow> 's \<Rightarrow> u64 \<times> 's"

text \<open>A result as an \<open>int\<close>: its low 32 bits, signed.\<close>

definition as_int :: "u64 \<Rightarrow> int" where
  "as_int v = sint (ucast v :: 32 word)"

text \<open>The call is made again while the kernel answers \<open>ETRYAGAIN\<close>.\<close>

partial_function (option) retry :: "int \<Rightarrow> 's trap \<Rightarrow> nat \<Rightarrow> u64 list \<Rightarrow> 's \<Rightarrow> (int \<times> 's) option" where
  "retry etryagain sys n xs s =
     (case sys n xs s of (v, s') \<Rightarrow>
        if as_int v \<noteq> 0 \<and> as_int v = etryagain then retry etryagain sys n xs s' else Some (as_int v, s'))"

declare retry.simps [code]

definition SYS_SEND_MESSAGE :: nat where "SYS_SEND_MESSAGE = 5"
definition SYS_RECEIVE_MESSAGE :: nat where "SYS_RECEIVE_MESSAGE = 6"
definition SYS_GET_FMESSAGE_BLOCK :: nat where "SYS_GET_FMESSAGE_BLOCK = 11"

text \<open>\<open>mp\<close> is the address of the local variable; 0 is the NULL that is returned on an error.\<close>

definition get_free_message :: "int \<Rightarrow> ('z user_state_scheme) trap \<Rightarrow> u64 \<Rightarrow> 'z user_state_scheme
    \<Rightarrow> (u64 \<times> 'z user_state_scheme) option" where
  "get_free_message etryagain sys mp s =
     do { (err, s') \<leftarrow> retry etryagain sys SYS_GET_FMESSAGE_BLOCK [mp] s;
          Some (if err \<noteq> 0 then 0 else read64 (umem s') mp, s') }"

definition compute_message_checksum :: "store \<Rightarrow> u64 \<Rightarrow> u64" where
  "compute_message_checksum m message = (let cm = message_sum m message in 16 - cm mod 16)"

text \<open>The header: sender process at offset 8, sender thread at 16, checksum at 48. \<open>pid\<close> and \<open>tid\<close> are the caller's;
  both id types of KCLib are taken to have eight bytes.\<close>

definition seal_message :: "u64 \<Rightarrow> u64 \<Rightarrow> u64 \<Rightarrow> store \<Rightarrow> store" where
  "seal_message pid tid message m =
     (let m1 = write64 (message + 16) tid (write64 (message + 8) pid m)
      in write64 (message + 48) (compute_message_checksum m1 message) m1)"

definition send_message :: "int \<Rightarrow> ('z user_state_scheme) trap \<Rightarrow> u64 \<Rightarrow> u64 \<Rightarrow> u64 \<Rightarrow> 'z user_state_scheme
    \<Rightarrow> (int \<times> 'z user_state_scheme) option" where
  "send_message etryagain sys pid tid message s =
     retry etryagain sys SYS_SEND_MESSAGE [message] (s\<lparr>umem := seal_message pid tid message (umem s)\<rparr>)"

definition receive_message :: "'s trap \<Rightarrow> u64 \<Rightarrow> 's \<Rightarrow> int \<times> 's" where
  "receive_message sys bodyptr s = (let (v, s') = sys SYS_RECEIVE_MESSAGE [bodyptr] s in (as_int v, s'))"

section \<open>The initial file system\<close>

datatype entry_type = et_dir | et_file

record ifs_entry =
  ifs_type :: entry_type
  num_ent_or_size :: u64
  ifs_contents :: string

definition E_IFS_ACTION_SUCCESS :: int where "E_IFS_ACTION_SUCCESS = 0"
definition E_IFS_NOT_A_DECTYPE :: int where "E_IFS_NOT_A_DECTYPE = 2"

text \<open>
  \<open>ask path e\<close> is the system call: the status and the entry it leaves in the caller's structure, which held
  \<open>e\<close> before.
\<close>

definition get_typed :: "entry_type \<Rightarrow> (string \<Rightarrow> ifs_entry \<Rightarrow> int \<times> ifs_entry) \<Rightarrow> string \<Rightarrow> ifs_entry \<Rightarrow> int \<times> ifs_entry" where
  "get_typed t ask path0 e =
     (let (status, e') = ask path0 e
      in if status \<noteq> E_IFS_ACTION_SUCCESS then (status, e')
         else if ifs_type e' \<noteq> t then (E_IFS_NOT_A_DECTYPE, e')
         else (E_IFS_ACTION_SUCCESS, e'))"

definition get_directory :: "(string \<Rightarrow> ifs_entry \<Rightarrow> int \<times> ifs_entry) \<Rightarrow> string \<Rightarrow> ifs_entry \<Rightarrow> int \<times> ifs_entry" where
  "get_directory = get_typed et_dir"

definition get_file :: "(string \<Rightarrow> ifs_entry \<Rightarrow> int \<times> ifs_entry) \<Rightarrow> string \<Rightarrow> ifs_entry \<Rightarrow> int \<times> ifs_entry" where
  "get_file = get_typed et_file"

text \<open>The request of \<open>execve_ifs\<close>, or \<open>EINVAL\<close> (\<open>None\<close>) for a priority out of range; the priority is not sent.\<close>

type_synonym exec_request = "string \<times> nat \<times> string list \<times> string list"

definition execve_ifs :: "string \<Rightarrow> string list \<Rightarrow> string list \<Rightarrow> int \<Rightarrow> exec_request option" where
  "execve_ifs ifs_path av ev prio =
     (if prio < 0 \<or> 5 \<le> prio then None else Some (ifs_path, length av, av, ev))"

text \<open>
  The copy of a file as a C string: it ends at the first NUL. The result of \<open>get_file\<close> is not looked at, so the
  entry may be what the memory held; reading past the contents has no result.
\<close>

definition file_text :: "ifs_entry \<Rightarrow> string option" where
  "file_text e = (let n = unat (num_ent_or_size e)
     in if n \<le> length (ifs_contents e) then Some (takeWhile (\<lambda>c. c \<noteq> CHR 0x00) (take n (ifs_contents e))) else None)"

definition load_from_initramfs :: "(string \<Rightarrow> ifs_entry \<Rightarrow> int \<times> ifs_entry) \<Rightarrow> bool \<Rightarrow> string \<Rightarrow> ifs_entry
    \<Rightarrow> (string \<rightharpoonup> string) \<Rightarrow> (string \<rightharpoonup> string) option" where
  "load_from_initramfs ask mem path0 junk t =
     (let f = snd (get_file ask path0 junk)
      in if \<not> mem then Some t else do { contents \<leftarrow> file_text f; load_drivers contents t })"

section \<open>The first process and the frame buffer service\<close>

text \<open>The processes that \<open>main\<close> of \<open>init\<close> starts, in order, before it waits for ever.\<close>

definition init_requests :: "(string \<Rightarrow> ifs_entry \<Rightarrow> int \<times> ifs_entry) \<Rightarrow> ifs_entry \<Rightarrow> exec_request list option" where
  "init_requests ask junk =
     do { contents \<leftarrow> file_text (snd (get_file ask ''conf/init/rlyeh_load_order'' junk));
          Some (List.map_filter (\<lambda>p. execve_ifs p [p] [] 0) (split_lines [] contents)) }"

text \<open>The width and height are signed results stored as unsigned numbers.\<close>

definition init_framebuffer :: "int \<Rightarrow> int \<Rightarrow> bool" where
  "init_framebuffer width height =
     (let fw = of_int width :: u32; fh = of_int height :: u32 in \<not> (fw \<le> 0 \<or> fh \<le> 0))"

section \<open>Starting the drivers\<close>

text \<open>
  The message that \<open>load_disk_drive\<close> prepares: no target, the magic number, the first stage of process creation, and
  its argument (a child of this process, privileged, with priority -1). The path of the driver is not in it.
\<close>

definition MESSAGE_MAGIC :: u64 where "MESSAGE_MAGIC = 0x86454D4D"
definition GMI_PROCESS_CREATE_STAGE_1 :: u64 where "GMI_PROCESS_CREATE_STAGE_1 = 1"

definition stage_1_request :: "u64 \<Rightarrow> store \<Rightarrow> store" where
  "stage_1_request msg m =
     (let m1 = write64 (msg + 24) (read64 m (msg + 24) OR 1) m;
          m2 = write64 (msg + 40) MESSAGE_MAGIC m1;
          m3 = write64 (msg + 56) GMI_PROCESS_CREATE_STAGE_1 m2
      in m3(msg + 64 := 1, msg + 66 := - 1, msg + 65 := 1))"

text \<open>A message that the kernel does not give is a NULL pointer that is written through; nothing is done with the reply.\<close>

definition load_disk_drive :: "int \<Rightarrow> ('z user_state_scheme) trap \<Rightarrow> u64 \<Rightarrow> u64 \<Rightarrow> u64 \<Rightarrow> u64 \<Rightarrow> string
    \<Rightarrow> 'z user_state_scheme \<Rightarrow> 'z user_state_scheme option" where
  "load_disk_drive etryagain sys pid tid mp reply driver_path s =
     do { (msg, s1) \<leftarrow> get_free_message etryagain sys mp s;
          (if msg = 0 then None
           else do { (_, s2) \<leftarrow> send_message etryagain sys pid tid msg (s1\<lparr>umem := stage_1_request msg (umem s1)\<rparr>);
                     Some (snd (receive_message sys reply s2)) }) }"

primrec load_drives :: "int \<Rightarrow> ('z user_state_scheme) trap \<Rightarrow> u64 \<Rightarrow> u64 \<Rightarrow> u64 \<Rightarrow> u64 \<Rightarrow> string list
    \<Rightarrow> 'z user_state_scheme \<Rightarrow> 'z user_state_scheme option" where
  "load_drives etryagain sys pid tid mp reply [] s = Some s"
| "load_drives etryagain sys pid tid mp reply (p # ps) s =
     do { s1 \<leftarrow> load_disk_drive etryagain sys pid tid mp reply p s; load_drives etryagain sys pid tid mp reply ps s1 }"

text \<open>
  The device driver manager up to its endless loop: \<open>reg\<close> is the registration as a service, \<open>es\<close> the functions that
  \<open>load_pci_info\<close> lists.
\<close>

definition ddm_main :: "('z user_state_scheme \<Rightarrow> 'z user_state_scheme) \<Rightarrow> pcie_info list
    \<Rightarrow> (string \<Rightarrow> ifs_entry \<Rightarrow> int \<times> ifs_entry) \<Rightarrow> bool \<Rightarrow> ifs_entry \<Rightarrow> int \<Rightarrow> ('z user_state_scheme) trap
    \<Rightarrow> u64 \<Rightarrow> u64 \<Rightarrow> u64 \<Rightarrow> u64 \<Rightarrow> 'z user_state_scheme \<Rightarrow> 'z user_state_scheme option" where
  "ddm_main reg es ask mem junk etryagain sys pid tid mp reply s =
     do { t \<leftarrow> load_from_initramfs ask mem ''/conf/ddm/drivers.conf'' junk Map.empty;
          load_drives etryagain sys pid tid mp reply (load_disk_drives es t) (reg s) }"

text \<open>All drivers are asked for with the same message: only their number counts, not which they are.\<close>

lemma load_drives_path_blind:
  "length ps = length qs \<Longrightarrow>
     load_drives etryagain sys pid tid mp reply ps s = load_drives etryagain sys pid tid mp reply qs s"
  by (induction ps qs arbitrary: s rule: list_induct2) (simp_all add: load_disk_drive_def)

text \<open>What the kernel reads from the request: a privileged child with the priority of its parent.\<close>

lemma stage_1_request_argument:
  "(stage_1_request msg m) (msg + 64) = 1 \<and> (stage_1_request msg m) (msg + 65) = 1 \<and> (stage_1_request msg m) (msg + 66) = 255"
  by (simp add: stage_1_request_def)

section \<open>The sum of a message\<close>

text \<open>The sum of the bytes does not overflow, so it can be taken in the natural numbers.\<close>

definition bytes_sum :: "store \<Rightarrow> u64 \<Rightarrow> nat set \<Rightarrow> nat" where
  "bytes_sum m a I = (\<Sum>i \<in> I. unat (m (a + of_nat i)))"

lemma fold_bytes: "fold (\<lambda>i v. v + ucast (m (a + of_nat i))) [0..<n] 0 = (of_nat (bytes_sum m a {..<n}) :: u64)"
  by (induction n) (simp_all add: bytes_sum_def)

lemma bytes_sum_bound: "bytes_sum m a {..<n} \<le> n * 255"
proof (induction n)
  case (Suc n)
  have "unat (m (a + of_nat n)) \<le> 255" using unat_u8_bound [of "m (a + of_nat n)"] by simp
  then show ?case using Suc by (simp add: bytes_sum_def)
qed (simp add: bytes_sum_def)

lemma unat_message_sum: "unat (message_sum m a) = bytes_sum m a {..<MESSAGE_SIZE}"
proof -
  have "bytes_sum m a {..<MESSAGE_SIZE} < 18446744073709551616"
    using bytes_sum_bound [of m a MESSAGE_SIZE] by (simp add: MESSAGE_SIZE_def)
  then show ?thesis by (simp add: message_sum_def fold_bytes unat_of_nat_u64)
qed

lemma write64_byte:
  assumes "i < MESSAGE_SIZE" "b + 8 \<le> MESSAGE_SIZE"
  shows "write64 (a + of_nat b) v m (a + of_nat i) =
    (if b \<le> i \<and> i < b + 8 then ucast (drop_bit (8 * (i - b)) v) else m (a + of_nat i))"
proof -
  have u: "unat (of_nat i :: u64) = i" "unat (of_nat b :: u64) = b" using assms by (simp_all add: unat_of_nat_u64 MESSAGE_SIZE_def)
  have "(of_nat i - of_nat b :: u64) < 8 \<longleftrightarrow> b \<le> i \<and> i < b + 8"
  proof (cases "b \<le> i")
    case True
    then have "unat (of_nat i - of_nat b :: u64) = i - b" using u by (simp add: unat_diff_u64)
    then show ?thesis using True by (auto simp: word_less_nat_alt)
  next
    case False
    have "b \<le> 18446744073709551616 + i" using assms by (simp add: MESSAGE_SIZE_def)
    then have "(of_nat (18446744073709551616 + i - b) :: u64) = of_nat (18446744073709551616 + i) - of_nat b"
      by (rule of_nat_diff)
    then have eq: "(of_nat i - of_nat b :: u64) = of_nat (18446744073709551616 + i - b)" by simp
    have "unat (of_nat i - of_nat b :: u64) = 18446744073709551616 + i - b"
      unfolding eq using False by (intro unat_of_nat_u64) simp
    then show ?thesis using False assms by (simp add: word_less_nat_alt MESSAGE_SIZE_def)
  qed
  moreover have "b \<le> i \<Longrightarrow> unat (of_nat i - of_nat b :: u64) = i - b" using u by (simp add: unat_diff_u64)
  ultimately show ?thesis by (auto simp: write64_def)
qed

lemma bytes_sum_split:
  assumes "b + 8 \<le> n"
  shows "bytes_sum m a {..<n} = bytes_sum m a ({..<n} - {b..<b + 8}) + bytes_sum m a {b..<b + 8}"
proof -
  have "{..<n} = ({..<n} - {b..<b + 8}) \<union> {b..<b + 8}" using assms by auto
  then show ?thesis unfolding bytes_sum_def by (metis Diff_disjoint finite_Diff finite_atLeastLessThan finite_lessThan sum.union_disjoint Int_commute)
qed

lemma bytes_sum_write64:
  assumes "b + 8 \<le> MESSAGE_SIZE" "unat v < 256"
  shows "bytes_sum (write64 (a + of_nat b) v m) a {..<MESSAGE_SIZE} + bytes_sum m a {b..<b + 8} =
    bytes_sum m a {..<MESSAGE_SIZE} + unat v"
proof -
  let ?m = "write64 (a + of_nat b) v m"
  have out: "bytes_sum ?m a ({..<MESSAGE_SIZE} - {b..<b + 8}) = bytes_sum m a ({..<MESSAGE_SIZE} - {b..<b + 8})"
    unfolding bytes_sum_def using assms(1) by (intro sum.cong refl) (auto simp: write64_byte)
  have "bytes_sum ?m a {b..<b + 8} = (\<Sum>i = b..<b + 8. if i = b then unat v else 0)"
    unfolding bytes_sum_def
  proof (intro sum.cong refl)
    fix i
    assume i: "i \<in> {b..<b + 8}"
    then have w: "?m (a + of_nat i) = ucast (drop_bit (8 * (i - b)) v)" using assms(1) by (auto simp: write64_byte)
    show "unat (?m (a + of_nat i)) = (if i = b then unat v else 0)"
    proof (cases "i = b")
      case True
      then show ?thesis using assms(2) w by (simp add: unsigned_ucast_eq take_bit_eq_mod)
    next
      case False
      then have "8 \<le> 8 * (i - b)" using i by auto
      then have "unat v div 2 ^ (8 * (i - b)) = 0"
        using assms(2) power_increasing [of 8 "8 * (i - b)" "2 :: nat"] by simp
      then have "unat (drop_bit (8 * (i - b)) v) = 0" unfolding unat_drop_bit_eq unfolding drop_bit_eq_div .
      then have "drop_bit (8 * (i - b)) v = 0" by (simp only: unat_eq_0)
      then show ?thesis using False w by simp
    qed
  qed
  also have "\<dots> = unat v" by simp
  finally have "bytes_sum ?m a {b..<b + 8} = unat v" .
  then show ?thesis using out bytes_sum_split [OF assms(1), of ?m a] bytes_sum_split [OF assms(1), of m a] by simp
qed

text \<open>
  C40. What the library sends and what the kernel checks: the bytes of a message sealed by \<open>send_message\<close> add up to a
  multiple of 16, which is what \<open>validate_message\<close> tests, exactly if the bytes of its checksum field
  did so before. The library sums the whole message with the old content of that field and does not
  clear it, so a reused message is refused in general.
\<close>

theorem sealed_message_sum:
  "message_sum (seal_message pid tid message m) message mod 16 = 0 \<longleftrightarrow>
     16 dvd (\<Sum>i = 48..<56. unat (m (message + of_nat i)))"
proof -
  define m1 where "m1 = write64 (message + 16) tid (write64 (message + 8) pid m)"
  define S where "S = bytes_sum m1 message {..<MESSAGE_SIZE}"
  let ?v = "compute_message_checksum m1 message" and ?m = "seal_message pid tid message m"
  have v: "unat ?v = 16 - S mod 16" "unat ?v < 256"
  proof -
    have "unat (message_sum m1 message mod 16) = S mod 16" by (simp add: unat_mod_distrib unat_message_sum S_def)
    then show "unat ?v = 16 - S mod 16"
      by (simp add: compute_message_checksum_def Let_def unat_diff_u64)
    then show "unat ?v < 256" by simp
  qed
  have m: "?m = write64 (message + of_nat 48) ?v m1" by (simp add: seal_message_def m1_def Let_def)
  have "bytes_sum ?m message {..<MESSAGE_SIZE} + bytes_sum m1 message {48..<56} = S + unat ?v"
    using bytes_sum_write64 [of 48 ?v message m1] v(2) by (simp add: m S_def MESSAGE_SIZE_def)
  moreover have "bytes_sum m1 message {48..<56} = (\<Sum>i = 48..<56. unat (m (message + of_nat i)))"
    unfolding bytes_sum_def m1_def
    using write64_byte [where b = 16 and a = message] write64_byte [where b = 8 and a = message]
    by (intro sum.cong refl) (simp add: MESSAGE_SIZE_def)
  ultimately have "unat (message_sum ?m message) + (\<Sum>i = 48..<56. unat (m (message + of_nat i))) = S + (16 - S mod 16)"
    using v(1) by (simp add: unat_message_sum)
  moreover have "16 dvd S + (16 - S mod 16)" by presburger
  ultimately have "16 dvd unat (message_sum ?m message) \<longleftrightarrow> 16 dvd (\<Sum>i = 48..<56. unat (m (message + of_nat i)))"
    by (metis dvd_add_left_iff dvd_add_right_iff)
  then show ?thesis by (simp add: word_unat_eq_iff unat_mod_distrib dvd_eq_mod_eq_0)
qed

end
