(* ===== verification/Boot_Modules.thy ===== *)
theory Boot_Modules
  imports Boot_Memory User_Memory Rlyeh
begin

text \<open>
  The search for a boot module by its name and the extension of a file name (\<open>utils/kstdlib.c\<close>). The heap is
  a parameter.
\<close>

section \<open>Boot modules\<close>

text \<open>\<open>strcmp(a, name) == 0\<close> for the string at the address \<open>a\<close>.\<close>

definition string_at :: "store \<Rightarrow> u64 \<Rightarrow> string \<Rightarrow> bool" where
  "string_at m a str \<longleftrightarrow> list_all (\<lambda>i. m (a + of_nat i) = of_char (str ! i)) [0..<length str] \<and> m (a + of_nat (length str)) = 0"

text \<open>The address of entry \<open>i\<close> of the module list, whose entries have 16 bytes.\<close>

definition module_entry :: "multiboot_info \<Rightarrow> 'a mm_state_scheme \<Rightarrow> nat \<Rightarrow> u64" where
  "module_entry mb s i = physical_to_virtual s (ucast (mods_addr mb) + 16 * of_nat i)"

definition module_size :: "'a mm_state_scheme \<Rightarrow> u64 \<Rightarrow> u64" where
  "module_size s e = ucast (ld32 (kmem s) (e + 4) - ld32 (kmem s) e)"

definition module_named :: "'a mm_state_scheme \<Rightarrow> u64 \<Rightarrow> string \<Rightarrow> bool" where
  "module_named s e name = string_at (kmem s) (physical_to_virtual s (ucast (ld32 (kmem s) (e + 8)))) name"

text \<open>The module is copied and its memory given to the frame pool as the two flags ask.\<close>

definition take_module :: "(u64 \<Rightarrow> 'a mm_state_scheme \<Rightarrow> u64 \<times> 'a mm_state_scheme) \<Rightarrow> (nat \<Rightarrow> stack_element) \<Rightarrow> (nat \<Rightarrow> frame_info)
    \<Rightarrow> bool \<Rightarrow> bool \<Rightarrow> u64 \<Rightarrow> 'a mm_state_scheme \<Rightarrow> (u64 \<times> 'a mm_state_scheme) option" where
  "take_module malloc old_se old_fi reallocate delete e s =
     (let mod_size = module_size s e; start = ucast (ld32 (kmem s) e);
          ma = physical_to_virtual s start;
          (na, s1) = (if reallocate then malloc mod_size s else (ma, s))
      in if reallocate \<and> na = 0 then Some (0, s1)
         else let s2 = (if reallocate then s1\<lparr>kmem := memcpy na ma mod_size (kmem s1)\<rparr> else s1)
              in map_option (Pair na) (if delete then deallocate_starting_address old_se old_fi start mod_size s2 else Some s2))"

text \<open>The loop: the address found (0 is NULL), the size of the last module looked at, the state.\<close>

primrec module_loop :: "(u64 \<Rightarrow> 'a mm_state_scheme \<Rightarrow> u64 \<times> 'a mm_state_scheme) \<Rightarrow> (nat \<Rightarrow> stack_element) \<Rightarrow> (nat \<Rightarrow> frame_info)
    \<Rightarrow> multiboot_info \<Rightarrow> string \<Rightarrow> bool \<Rightarrow> bool \<Rightarrow> nat list \<Rightarrow> u64 \<Rightarrow> 'a mm_state_scheme \<Rightarrow> (u64 \<times> u64 \<times> 'a mm_state_scheme) option" where
  "module_loop malloc old_se old_fi mb name reallocate delete [] sz s = Some (0, sz, s)"
| "module_loop malloc old_se old_fi mb name reallocate delete (i # is) sz s =
     (let e = module_entry mb s i
      in if module_named s e name
         then map_option (\<lambda>(p, s'). (p, module_size s e, s')) (take_module malloc old_se old_fi reallocate delete e s)
         else module_loop malloc old_se old_fi mb name reallocate delete is (module_size s e) s)"

definition get_module :: "(u64 \<Rightarrow> 'a mm_state_scheme \<Rightarrow> u64 \<times> 'a mm_state_scheme) \<Rightarrow> (nat \<Rightarrow> stack_element) \<Rightarrow> (nat \<Rightarrow> frame_info)
    \<Rightarrow> multiboot_info \<Rightarrow> string \<Rightarrow> bool \<Rightarrow> bool \<Rightarrow> u64 \<Rightarrow> 'a mm_state_scheme \<Rightarrow> (u64 \<times> u64 \<times> 'a mm_state_scheme) option" where
  "get_module malloc old_se old_fi mb name reallocate delete sz s =
     module_loop malloc old_se old_fi mb name reallocate delete [0..<unat (mods_count mb)] sz s"

section \<open>Freeing the file system\<close>

text \<open>
  \<open>free_initramfs\<close> of \<open>rlyeh/rlyeh.c\<close>: the blocks of the tree go back to the heap, the memory of the boot module to the
  frame pool, and the root is NULL afterwards.
\<close>

definition free_initramfs :: "(nat \<Rightarrow> stack_element) \<Rightarrow> (nat \<Rightarrow> frame_info) \<Rightarrow> path_element \<Rightarrow> u64 \<Rightarrow> u64
    \<Rightarrow> 'a mm_state_scheme \<Rightarrow> (tree_block list \<times> path_element option \<times> 'a mm_state_scheme) option" where
  "free_initramfs old_se old_fi root initrd_module initrd_size s =
     do { s' \<leftarrow> deallocate_starting_address old_se old_fi initrd_module initrd_size s;
          Some (delete_entry root, None, s') }"

section \<open>File names\<close>

text \<open>NULL is \<open>None\<close>.\<close>

function extension :: "string \<Rightarrow> string" where
  "extension fname =
     (let rest = dropWhile (\<lambda>c. c \<noteq> CHR ''.'') fname in if rest = [] then fname else extension (tl rest))"
  by pat_completeness auto
termination
proof (relation "measure length", simp)
  fix fname rest :: string
  assume rest: "rest = dropWhile (\<lambda>c. c \<noteq> CHR ''.'') fname" "rest \<noteq> []"
  have "length (tl rest) < length rest" using rest(2) by (cases rest) simp_all
  also have "\<dots> \<le> length fname" unfolding rest(1) by (rule length_dropWhile_le)
  finally show "(tl rest, fname) \<in> measure length" by simp
qed

declare extension.simps [simp del]

definition get_extension :: "string option \<Rightarrow> string option" where
  "get_extension fname = map_option extension fname"

section \<open>Lemmas\<close>

text \<open>Without copying and deleting, the first module of that name is returned in place.\<close>

lemma get_module_first:
  assumes "i < unat (mods_count mb)" "module_named s (module_entry mb s i) name"
    and "\<And>j. j < i \<Longrightarrow> \<not> module_named s (module_entry mb s j) name"
  shows "get_module malloc old_se old_fi mb name False False sz s =
    Some (physical_to_virtual s (ucast (ld32 (kmem s) (module_entry mb s i))), module_size s (module_entry mb s i), s)"
proof -
  have "module_loop malloc old_se old_fi mb name False False ([k..<i] @ i # is) sz s =
      Some (physical_to_virtual s (ucast (ld32 (kmem s) (module_entry mb s i))), module_size s (module_entry mb s i), s)" if "k \<le> i" for k "is" sz
    using that
  proof (induction k arbitrary: sz rule: inc_induct)
    case base
    then show ?case using assms(2) by (simp add: take_module_def Let_def)
  next
    case (step k)
    then show ?case using assms(3) [of k] by (simp add: upt_conv_Cons Let_def)
  qed
  moreover have "[0..<unat (mods_count mb)] = [0..<i] @ i # [Suc i..<unat (mods_count mb)]"
    using assms(1) upt_add_eq_append [of 0 i "unat (mods_count mb) - i"] by (simp add: upt_conv_Cons)
  ultimately show ?thesis unfolding get_module_def by (metis le0)
qed

lemma get_module_none:
  assumes "\<And>i. i < unat (mods_count mb) \<Longrightarrow> \<not> module_named s (module_entry mb s i) name"
  shows "\<exists>sz'. get_module malloc old_se old_fi mb name reallocate delete sz s = Some (0, sz', s)"
proof -
  have "\<exists>sz'. module_loop malloc old_se old_fi mb name reallocate delete is sz s = Some (0, sz', s)"
    if "\<forall>i \<in> set is. i < unat (mods_count mb)" for "is" sz
    using that by (induction "is" arbitrary: sz) (use assms in \<open>auto simp: Let_def\<close>)
  then show ?thesis by (simp add: get_module_def)
qed

text \<open>The extension is what follows the last dot, or the whole name.\<close>

lemma extension_last: "CHR ''.'' \<notin> set (extension f) \<and> (extension f = f \<or> (\<exists>p. f = p @ CHR ''.'' # extension f))"
proof (induction f rule: extension.induct)
  case (1 f)
  let ?r = "dropWhile (\<lambda>c. c \<noteq> CHR ''.'') f"
  show ?case
  proof (cases "?r = []")
    case True
    then show ?thesis by (subst (1 2) extension.simps) (auto simp: extension.simps [of f])
  next
    case False
    then obtain r where r: "?r = CHR ''.'' # r" using hd_dropWhile [OF False] by (cases ?r) auto
    then have e: "extension f = extension r" by (subst extension.simps) simp
    have f: "f = takeWhile (\<lambda>c. c \<noteq> CHR ''.'') f @ CHR ''.'' # r" using r takeWhile_dropWhile_id by metis
    have "CHR ''.'' \<notin> set (extension r) \<and> (extension r = r \<or> (\<exists>p. r = p @ CHR ''.'' # extension r))"
      using 1 False r by simp
    then show ?thesis unfolding e using f by (metis append.assoc append_Cons)
  qed
qed

end
