(* ===== verification/Spec2Isabelle.thy ===== *)
theory Spec2Isabelle
  imports Syscalls Kernel_Boot Memory_Runs Logger Fatal_Error User_Library Boot_Modules
begin

text \<open>
  \<^bold>\<open>Cthulhu OS: a verification library for the kernel.\<close>

  Cthulhu OS is a 64-bit x86 kernel in C with a few user programs. This library models the
  kernel's own logic as executable HOL functions over an explicit state and proves what its
  components do. Paths below are relative to \<open>src/src/kernel\<close>.

  \<^bold>\<open>How the parts fit together.\<close> The boot code hands the multiboot memory map to the memory manager,
  which builds the frame pool and the page tables (\<open>memory/paging.c\<close>). The ACPI tables name the
  processors; processors talk by inter-processor interrupts (\<open>cpus\<close>). A process owns an address map and
  page tables (\<open>processes/process.c\<close>), is created from an ELF image (\<open>loader/elf.c\<close>) that lies in the
  initial RAM file system (\<open>rlyeh/rlyeh.c\<close>), and its threads run under the scheduler
  (\<open>processes/scheduler.c\<close>). User programs enter through the system calls (\<open>syscalls\<close>), which reach all
  of these; drivers register themselves as daemon services (\<open>processes/daemons.c\<close>).
  The first of them, the device driver manager (\<open>src/src/ddm\<close>), enumerates the PCI Express devices and
  picks a driver for each disk controller. Interrupts reach the clock, the page fault handler and the
  scheduler through the tables of \<open>interrupts/idt.c\<close> and \<open>structures/gdt.c\<close>; what cannot be handled ends in the
  error screen, drawn on the console that the log also writes to.

  \<^bold>\<open>State.\<close> The state is a record that grows by extension the way the components build on each other:
  \<open>mm_state\<close> (memory as bytes at 64-bit kernel addresses, frame pool, early heap, active page table),
  \<open>smp_state\<close> (processors, local APIC registers, TLB shootdown), \<open>kernel_state\<close> (threads, processes,
  KCLib lists and tables, the locks) and further extensions for the daemons, process creation and the
  system calls. Operations of a component are polymorphic in the extension, so that a later component
  calls them unchanged. Objects behind pointers are in stores indexed by \<open>nat\<close>, with NULL as \<open>None\<close>, or lie
  in the byte memory where the code does address arithmetic on them (page tables, ELF images, ACPI
  tables, user memory). Machine integers are words of their width; the \<open>int\<close> arithmetic of the date
  computation is on \<open>int\<close> with the conversions to unsigned written out.

  \<^bold>\<open>Theories.\<close>
  \<^item> \<open>Prelude\<close>, \<open>Store\<close>: words, bit fields, page alignment, loops over pages, bytes in memory; the
    locales \<open>spin_lock\<close> and \<open>keyed_store\<close>.
  \<^item> \<open>Commons\<close>: \<open>commons.h\<close> and \<open>memory/heap.c\<close>, the early heap and aligned allocation.
  \<^item> \<open>Frame_Pool\<close>: the frame sections, \<open>get_free_frame\<close> and \<open>free_frame\<close> of \<open>paging.c\<close> against an abstract
    map of reference counts; the locale \<open>refcount_allocator\<close> and its interpretation \<open>frames\<close>.
  \<^item> \<open>Cpu\<close>: \<open>cpus/ipi.c\<close> and the run-time part of \<open>cpus/cpu_mgmt.c\<close>.
  \<^item> \<open>Paging\<close>, \<open>Paging_Ops\<close>, \<open>Boot_Memory\<close>: the operations of \<open>paging.c\<close>; \<open>Page_Tree\<close>, \<open>Vm_Invariant\<close>,
    \<open>Vm_Ops\<close>, \<open>Mm_Frame\<close>, \<open>Vm_Range\<close> and \<open>Vm_Frame\<close> are their theory: page tables as a tree, the invariant \<open>vm_ok\<close> that ties
    tables and reference counts together, and what allocating and releasing a range does to it.
  \<^item> \<open>Va_Holes\<close>, \<open>Kernel_State\<close>, \<open>Process_Memory\<close>, \<open>Process_Create\<close>: \<open>processes/process.c\<close>.
  \<^item> \<open>Scheduler\<close>: \<open>processes/scheduler.c\<close> with the futexes. \<open>Clock\<close>: \<open>interrupts/clock.c\<close>.
    \<open>Daemons\<close>: \<open>processes/daemons.c\<close>.
  \<^item> \<open>User_Memory\<close>: accesses through the active page tables. \<open>Elf_Loader\<close>: \<open>loader/elf.c\<close>.
    \<open>Acpi\<close>: \<open>structures/acpi.c\<close>. \<open>Rlyeh\<close>: \<open>rlyeh/rlyeh.c\<close>.
  \<^item> \<open>Syscalls\<close>: \<open>syscalls/sys.c\<close> and every handler of \<open>syscalls/syscall_defs.cc\<close>.
  \<^item> \<open>Interrupts\<close>: \<open>structures/gdt.c\<close>, the segment loads of \<open>structures/gdt.s\<close> with the descriptors they accept,
    \<open>interrupts/idt.c\<close>, \<open>interrupts/interrupts.c\<close>. \<open>Cpu_Start\<close>: the start of the
    processors in \<open>cpus/cpu_mgmt.c\<close>, on the state of \<open>Interrupts\<close>.
  \<^item> \<open>Console\<close>: \<open>grx/grx.c\<close>, \<open>grx/font.c\<close>, \<open>utils/textinput.c\<close> and the digits of \<open>utils/kstdlib.c\<close>. \<open>Logger\<close>:
    \<open>ports/ports.c\<close> and \<open>utils/logger.c\<close>. \<open>Error_Screen\<close>: \<open>utils/rsod.c\<close>. These have a state of their own, as
    they share none with the memory and process components.
  \<^item> \<open>Kclib_Glue\<close>: \<open>kclib/kclib.c\<close>, above all the growth of the kernel heap. \<open>Boot_Modules\<close>: the search for boot
    modules and file extensions of \<open>utils/kstdlib.c\<close>.
  \<^item> \<open>Pci\<close>: \<open>pci.c\<close>, \<open>drivers.c\<close> and the choice of drivers of \<open>main.c\<close> under \<open>src/src/ddm\<close>. \<open>User_Library\<close>: the user
    side of the system calls under \<open>src/src/cthulhu\<close> and \<open>src/src/kernel_dev_lib\<close>, the first process and the
    frame buffer service.

  \<^item> \<open>Transitions\<close>: reachability and the locales \<open>invariant_system\<close> and \<open>simulation\<close>. \<open>Scheduler_Runs\<close> and \<open>Memory_Runs\<close>: sequences of
    operations of the scheduler, of the kernel heap and on the memory of a process as step relations.
    \<open>Fatal_Error\<close>: the rest of \<open>utils/rsod.c\<close>, and processors that fail at the same time as steps: the lock, the
    drawing, the halt message of \<open>cpus/ipi.c\<close> to each other processor and its acknowledgement.
  \<^item> \<open>Kernel_Boot\<close>: the two parts of \<open>kernel.c\<close> that tie components together, from the processor records to the local APIC
    and from the file of the first process to its first switch to user mode.

  \<^bold>\<open>Interfaces.\<close> \<open>refcount_allocator\<close> states what a client of the frame pool relies on; its lemmas (distinct
  frames, taking and giving back is the identity) hold for the pool through \<open>frames\<close>. \<open>spin_lock\<close> states
  that a lock is taken once, is held until released and that taking it again never returns; it is
  interpreted for the processor, scheduler, thread, daemon and process-list locks. \<open>keyed_store\<close> states
  what a lookup finds after insertions; the file tree of \<open>Rlyeh\<close> is an instance. \<open>invariant_system\<close> states
  what an invariant of a step relation is; it is interpreted for the heap, the memory of a process, the
  abstract scheduler and failing processors. \<open>simulation\<close> extends it to two systems: the runs of the kernel's
  scheduler refine those of the abstract one, whose invariant the kernel thereby has.

  \<^bold>\<open>What the theorems show.\<close> Memory: allocating and releasing a range maps and unmaps exactly its pages and
  keeps the invariant; the frame pool refines its specification; the kernel heap grows by whole
  kernel pages behind its end. Processes: for requests of whole pages the areas of an address map stay
  sorted and disjoint, backing and releasing memory of a process round-trips; creation either succeeds
  or leaves of its own heap objects what the theorem lists. Runs: after any sequence of operations exactly the pages of the
  live heap blocks are mapped, and no page of a process is present outside its areas. These theorems are about one
  processor: with more, the release of a page does not return. Scheduler: where no thread is queued twice, none is lost or
  duplicated by a call of \<open>schedule\<close> or by a run of them, selection refines its specification, the first queue is
  served in order. Clock: the date arithmetic counts days. Loader, services, file system and
  system calls: the result on every error branch; the dispatcher accepts exactly the documented calls. Start-up: the descriptor table, the interrupt gates, the
  processor records and the messages that start the other processors are the ones the tables ask for; with one
  processor they fit together at the end of the sequence, with more the segment loads fault. Fatal errors: one processor
  draws the screen, the handling takes a bounded number of steps, and where it stands still the theorem says what
  each processor waits for.
  Console: the cursor and the writes of the text console stay on the screen, flushing draws the changed
  pixels. Device manager: which functions are listed, and the driver file is read back as written; when the kernel accepts the
  checksum that the user library computes. Where the code cannot do what it means to (a
  shootdown with two processors, waking a futex, releasing memory by system call, an address lookup
  that never validates, threads of low priority that starve, a second processor) the theorem
  states that behaviour.

  \<^bold>\<open>Not returning.\<close> A loop that may run for ever, a held spin lock, a dereferenced NULL pointer and a halt are
  \<open>None\<close>; \<open>Some\<close> is a return. Loops whose number of turns is known beforehand are folds over the list of
  their indices. The system call dispatcher re-enters itself through continuations; its fuel bounds that
  nesting, and its theorem holds for every positive amount.

  \<^bold>\<open>Parameters.\<close> KCLib (arrays, queues, lists, hash tables, the random generator, the heap) and the hardware
  are not part of the sources: they are the fields of the environment records \<open>smp_env\<close>, \<open>ds_env\<close>,
  \<open>new_env\<close>, \<open>daemon_env\<close>, \<open>io_env\<close> and \<open>sys_env\<close>. What a theorem needs of them is a hypothesis of it, and
  its witness has concrete instances. The thread queues are linked through the threads, so the law of a push is stated
  for threads that are not in the queue; that the heap serves a request is assumed of requests it can serve from memory it
  already has. What the other processors and the clock do during a busy wait is the record \<open>wait_env\<close>.

  \<^bold>\<open>Bounds.\<close> The theorems on \<open>schedule\<close> need fewer than \<open>2^61\<close> live threads, so that the 64-bit weighted count of the queues does
  not wrap to zero; those on the heap stay within its slot of 512 GB, \<open>2^27\<close> pages.

  \<^bold>\<open>Not modelled.\<close> Assembler files and port instructions; the order of the other calls of \<open>kernel_main\<close>, each of which is
  modelled with its component, and the \<open>debug_break\<close> at its start, a loop that only a debugger ends; the
  two-page window \<open>remap\<close> of the boot memory map, whose readings are arguments; \<open>vsnprintf\<close> and the other functions of
  KCLib; the register structures of the disk driver and the constants of \<open>elf.h\<close> and \<open>acpi.h\<close>, which no code
  uses. Not counted among the objects of a process are the heap nodes of its address map, and a fault inside the
  lock of \<open>error\<close> is not a step of its processors.
\<close>

end
